(* ===== verification/Prelude.thy ===== *)
theory Prelude
  imports Main "HOL-Library.Word"
begin

text \<open>
  Shared vocabulary of the development.

  A Rust \<^verbatim>\<open>&str\<close> / \<^verbatim>\<open>String\<close> is a sequence of Unicode scalar values, modelled as a list of
  code points (\<open>ustr\<close>); \<open>u ''...''\<close> is the list for an ASCII literal. The operations below
  are those of \<^verbatim>\<open>core::str\<close> the modelled code calls (\<^verbatim>\<open>trim\<close>, \<^verbatim>\<open>strip_prefix\<close>, \<^verbatim>\<open>split\<close>,
  \<^verbatim>\<open>lines\<close>, \<^verbatim>\<open>join\<close>, \<^verbatim>\<open>replace\<close>, \<^verbatim>\<open>parse\<close>). Byte positions only matter where the source
  slices by bytes; there the model tests that the code points involved are ASCII.

  A fallible function returns \<open>'e + 'a\<close> with \<open>Inl\<close> the error. A run of a state machine is an
  element of the reflexive transitive closure of its step relation; the locale
  \<open>step_invariant\<close> turns one-step preservation into an invariant of every run.
\<close>

named_theorems str_simps \<open>evaluation of the string operations on literals\<close>

section \<open>Strings\<close>

type_synonym uchar = int
type_synonym ustr = "uchar list"

definition u :: "string \<Rightarrow> ustr" where
  "u s = map of_char s"

definition is_whitespace :: "uchar \<Rightarrow> bool" where
  "is_whitespace c \<longleftrightarrow>
     (9 \<le> c \<and> c \<le> 13) \<or> c = 32 \<or> c = 133 \<or> c = 160 \<or> c = 5760 \<or> (8192 \<le> c \<and> c \<le> 8202) \<or>
     c = 8232 \<or> c = 8233 \<or> c = 8239 \<or> c = 8287 \<or> c = 12288"

definition trim_start :: "ustr \<Rightarrow> ustr" where
  "trim_start s = dropWhile is_whitespace s"

definition trim_end :: "ustr \<Rightarrow> ustr" where
  "trim_end s = rev (dropWhile is_whitespace (rev s))"

definition trim :: "ustr \<Rightarrow> ustr" where
  "trim s = trim_end (trim_start s)"

fun strip_prefix :: "ustr \<Rightarrow> ustr \<Rightarrow> ustr option" where
  "strip_prefix [] s = Some s"
| "strip_prefix (p # ps) [] = None"
| "strip_prefix (p # ps) (c # cs) = (if p = c then strip_prefix ps cs else None)"

definition strip_suffix :: "ustr \<Rightarrow> ustr \<Rightarrow> ustr option" where
  "strip_suffix p s = map_option rev (strip_prefix (rev p) (rev s))"

definition starts_with :: "ustr \<Rightarrow> ustr \<Rightarrow> bool" where
  "starts_with p s \<longleftrightarrow> strip_prefix p s \<noteq> None"

definition ends_with :: "ustr \<Rightarrow> ustr \<Rightarrow> bool" where
  "ends_with p s \<longleftrightarrow> strip_suffix p s \<noteq> None"

fun split_char :: "uchar \<Rightarrow> ustr \<Rightarrow> ustr list" where
  "split_char d [] = [[]]"
| "split_char d (c # cs) =
     (if c = d then [] # split_char d cs
      else (case split_char d cs of [] \<Rightarrow> [[c]] | l # ls \<Rightarrow> (c # l) # ls))"

fun join :: "ustr \<Rightarrow> ustr list \<Rightarrow> ustr" where
  "join sep [] = []"
| "join sep [s] = s"
| "join sep (s # t # ts) = s @ sep @ join sep (t # ts)"

definition strip_cr :: "ustr \<Rightarrow> ustr" where
  "strip_cr s = (case strip_suffix [13] s of None \<Rightarrow> s | Some t \<Rightarrow> t)"

text \<open>
  \<^verbatim>\<open>str::lines\<close>: pieces end at a line feed, a carriage return before it is dropped, and a final
  piece without line feed counts only when it is not empty (and keeps its carriage return).
\<close>

definition str_lines :: "ustr \<Rightarrow> ustr list" where
  "str_lines s =
     (let ps = split_char 10 s
      in map strip_cr (butlast ps) @ (if last ps = [] then [] else [last ps]))"

text \<open>\<^verbatim>\<open>str::replace\<close> of a non-empty pattern: leftmost occurrences, not overlapping.\<close>

function str_replace :: "ustr \<Rightarrow> ustr \<Rightarrow> ustr \<Rightarrow> ustr" where
  "str_replace p r [] = []"
| "str_replace p r (c # cs) =
     (case strip_prefix p (c # cs) of
        Some rest \<Rightarrow> if p = [] then c # cs else r @ str_replace p r rest
      | None \<Rightarrow> c # str_replace p r cs)"
  by pat_completeness auto

lemma strip_prefix_SomeD: "strip_prefix p s = Some t \<Longrightarrow> s = p @ t"
  by (induction p s rule: strip_prefix.induct) (auto split: if_splits)

termination str_replace
proof (relation "measure (\<lambda>(p, r, s). length s)")
  fix p r c cs rest
  assume "strip_prefix p (c # cs) = Some rest" and "p \<noteq> []"
  then have "length (c # cs) = length p + length rest" and "0 < length p"
    using strip_prefix_SomeD [of p "c # cs" rest] by auto
  then show "((p, r, rest), p, r, c # cs) \<in> measure (\<lambda>(p, r, s). length s)" by simp
qed auto

fun str_contains :: "ustr \<Rightarrow> ustr \<Rightarrow> bool" where
  "str_contains p [] \<longleftrightarrow> p = []"
| "str_contains p (c # cs) \<longleftrightarrow> starts_with p (c # cs) \<or> str_contains p cs"

text \<open>
  \<^verbatim>\<open>find\<close> and \<^verbatim>\<open>rfind\<close> with the slices around the match: what precedes the first (last) occurrence of
  a pattern and what follows it.
\<close>

fun split_first :: "ustr \<Rightarrow> ustr \<Rightarrow> (ustr \<times> ustr) option" where
  "split_first p [] = (if p = [] then Some ([], []) else None)"
| "split_first p (c # cs) =
     (case strip_prefix p (c # cs) of
        Some t \<Rightarrow> Some ([], t)
      | None \<Rightarrow> map_option (\<lambda>(a, b). (c # a, b)) (split_first p cs))"

definition split_last :: "ustr \<Rightarrow> ustr \<Rightarrow> (ustr \<times> ustr) option" where
  "split_last p s = map_option (\<lambda>(a, b). (rev b, rev a)) (split_first (rev p) (rev s))"

definition trim_matches :: "uchar list \<Rightarrow> ustr \<Rightarrow> ustr" where
  "trim_matches xs s = rev (dropWhile (\<lambda>c. c \<in> set xs) (rev (dropWhile (\<lambda>c. c \<in> set xs) s)))"

definition trim_end_matches :: "uchar \<Rightarrow> ustr \<Rightarrow> ustr" where
  "trim_end_matches x s = rev (dropWhile (\<lambda>c. c = x) (rev s))"

definition is_ascii_digit :: "uchar \<Rightarrow> bool" where
  "is_ascii_digit c \<longleftrightarrow> 48 \<le> c \<and> c \<le> 57"

definition is_ascii_alphabetic :: "uchar \<Rightarrow> bool" where
  "is_ascii_alphabetic c \<longleftrightarrow> (65 \<le> c \<and> c \<le> 90) \<or> (97 \<le> c \<and> c \<le> 122)"

definition to_ascii_lowercase :: "ustr \<Rightarrow> ustr" where
  "to_ascii_lowercase s = map (\<lambda>c. if 65 \<le> c \<and> c \<le> 90 then c + 32 else c) s"

fun digits_value :: "nat \<Rightarrow> ustr \<Rightarrow> nat option" where
  "digits_value acc [] = Some acc"
| "digits_value acc (c # cs) =
     (if is_ascii_digit c then digits_value (10 * acc + nat (c - 48)) cs else None)"

text \<open>
  \<^verbatim>\<open>FromStr\<close> of an unsigned integer whose largest value is \<open>mx\<close>: an optional plus sign, then at
  least one digit and nothing else; a value above \<open>mx\<close> is an error.
\<close>

definition parse_uint :: "nat \<Rightarrow> ustr \<Rightarrow> nat option" where
  "parse_uint mx s =
     (let ds = (case s of c # cs \<Rightarrow> if c = 43 then cs else s | [] \<Rightarrow> [])
      in if ds = [] then None
         else (case digits_value 0 ds of
                 None \<Rightarrow> None
               | Some n \<Rightarrow> if n \<le> mx then Some n else None))"

text \<open>Decimal display of a natural number.\<close>

fun show_nat :: "nat \<Rightarrow> ustr" where
  "show_nat n = (if n < 10 then [48 + int n] else show_nat (n div 10) @ [48 + int (n mod 10)])"

declare show_nat.simps [simp del]

definition u64_max :: nat where "u64_max = 2 ^ 64 - 1"

section \<open>Laws of the string operations\<close>

lemma u_simps [str_simps]: "u [] = []" "u (c # cs) = of_char c # u cs"
  by (simp_all add: u_def)

lemma u_eq_iff [simp]: "u a = u b \<longleftrightarrow> a = b"
  unfolding u_def by (rule inj_map_eq_map) (rule inj_of_char)

lemma length_u [simp]: "length (u s) = length s"
  by (simp add: u_def)

lemmas trim_defs [str_simps] = trim_def trim_start_def trim_end_def is_whitespace_def

lemmas affix_defs [str_simps] = strip_suffix_def starts_with_def ends_with_def

lemma strip_prefix_append [simp]: "strip_prefix p (p @ t) = Some t"
  by (induction p) auto

lemma strip_prefix_iff: "strip_prefix p s = Some t \<longleftrightarrow> s = p @ t"
  using strip_prefix_SomeD strip_prefix_append by blast

lemma strip_prefix_None_iff: "strip_prefix p s = None \<longleftrightarrow> (\<forall>t. s \<noteq> p @ t)"
  by (metis not_None_eq strip_prefix_iff)

lemma strip_suffix_iff: "strip_suffix p s = Some t \<longleftrightarrow> s = t @ p"
  unfolding strip_suffix_def by (auto simp: strip_prefix_iff rev_swap)

lemma starts_with_iff: "starts_with p s \<longleftrightarrow> (\<exists>t. s = p @ t)"
  by (auto simp: starts_with_def strip_prefix_iff)

lemma str_contains_iff: "str_contains p s \<longleftrightarrow> (\<exists>a b. s = a @ p @ b)"
proof (induction s)
  case (Cons c cs)
  then show ?case by (auto simp: starts_with_iff) (metis append_Cons append_eq_Cons_conv)+
qed simp

lemma split_first_SomeD: "split_first p s = Some (a, b) \<Longrightarrow> s = a @ p @ b"
proof (induction s arbitrary: a)
  case (Cons c cs)
  then show ?case
    by (cases "strip_prefix p (c # cs)") (auto simp: strip_prefix_iff)
qed (simp split: if_splits)

lemma split_char_not_Nil [simp]: "split_char d s \<noteq> []"
  by (induction s) (auto split: list.splits)

lemma join_Cons: "ts \<noteq> [] \<Longrightarrow> join sep (s # ts) = s @ sep @ join sep ts"
  by (cases ts) auto

lemma join_split_char [simp]: "join [d] (split_char d s) = s"
proof (induction s)
  case (Cons c cs)
  show ?case
  proof (cases "split_char d cs")
    case (Cons l ls)
    with \<open>join [d] (split_char d cs) = cs\<close> show ?thesis
      by (cases ls) auto
  qed simp
qed simp

lemma split_char_no_sep: "l \<in> set (split_char d s) \<Longrightarrow> d \<notin> set l"
  by (induction s arbitrary: l) (auto split: if_splits list.splits)

lemma split_char_plain: "d \<notin> set s \<Longrightarrow> split_char d s = [s]"
  by (induction s) auto

lemma split_char_append: "d \<notin> set s \<Longrightarrow> split_char d (s @ d # t) = s # split_char d t"
  by (induction s) auto

lemma split_char_join:
  "ls \<noteq> [] \<Longrightarrow> \<forall>l \<in> set ls. d \<notin> set l \<Longrightarrow> split_char d (join [d] ls) = ls"
proof (induction ls)
  case (Cons l ls)
  then show ?case
    by (cases ls) (auto simp: split_char_plain split_char_append)
qed simp

lemma trim_start_idem [simp]: "trim_start (trim_start s) = trim_start s"
  by (simp add: trim_start_def)

lemma trim_end_idem [simp]: "trim_end (trim_end s) = trim_end s"
  by (simp add: trim_end_def)

lemma trim_end_snoc: "\<not> is_whitespace c \<Longrightarrow> trim_end (s @ [c]) = s @ [c]"
  by (simp add: trim_end_def)

lemma trim_end_last: "s \<noteq> [] \<Longrightarrow> \<not> is_whitespace (last s) \<Longrightarrow> trim_end s = s"
  by (metis append_butlast_last_id trim_end_snoc)

lemma trim_id: "\<not> is_whitespace c \<Longrightarrow> \<not> is_whitespace (last (c # s)) \<Longrightarrow> trim (c # s) = c # s"
  by (simp add: trim_def trim_start_def trim_end_last)

lemma trim_visible:
  assumes "\<not> is_whitespace c"
  shows "trim (c # s) \<noteq> []"
proof -
  have "dropWhile is_whitespace (rev s @ [c]) \<noteq> []" using assms by (simp add: dropWhile_eq_Nil_conv)
  then show ?thesis using assms by (simp add: trim_def trim_start_def trim_end_def)
qed

lemma digits_value_append:
  "digits_value acc (s @ t) = Option.bind (digits_value acc s) (\<lambda>a. digits_value a t)"
  by (induction s arbitrary: acc) auto

lemma show_nat_not_Nil [simp]: "show_nat n \<noteq> []"
  by (subst show_nat.simps) simp

lemma digit_48: "d < 10 \<Longrightarrow> is_ascii_digit (48 + int d) \<and> nat (48 + int d - 48) = d"
  by (auto simp: is_ascii_digit_def)

lemma digits_value_show_nat: "digits_value 0 (show_nat n) = Some n"
proof (induction n rule: show_nat.induct)
  case (1 n)
  show ?case
  proof (cases "n < 10")
    case True
    then show ?thesis
      by (subst show_nat.simps) (simp add: digit_48)
  next
    case False
    with 1 have "digits_value 0 (show_nat (n div 10)) = Some (n div 10)" by simp
    with False show ?thesis
      by (subst show_nat.simps) (simp add: digits_value_append digit_48)
  qed
qed

lemma show_nat_head: "\<exists>c cs. show_nat n = c # cs \<and> c \<noteq> 43 \<and> c < 128"
proof (induction n rule: show_nat.induct)
  case (1 n)
  then show ?case
    by (subst show_nat.simps) (cases "n < 10"; auto)
qed

lemma parse_uint_show_nat: "n \<le> mx \<Longrightarrow> parse_uint mx (show_nat n) = Some n"
  using show_nat_head [of n] digits_value_show_nat [of n] by (auto simp: parse_uint_def)

lemma parse_uint_le: "parse_uint mx s = Some n \<Longrightarrow> n \<le> mx"
  by (auto simp: parse_uint_def Let_def split: if_splits option.splits)

section \<open>Searching index ranges\<close>

lemma find_append:
  "List.find P (xs @ ys) = (case List.find P xs of None \<Rightarrow> List.find P ys | Some y \<Rightarrow> Some y)"
  by (induction xs) auto

lemma find_upt_None: "List.find P [a..<b] = None \<longleftrightarrow> (\<forall>j. a \<le> j \<and> j < b \<longrightarrow> \<not> P j)"
  by (auto simp: find_None_iff)

lemma find_upt_Some:
  "List.find P [a..<b] = Some i \<longleftrightarrow> a \<le> i \<and> i < b \<and> P i \<and> (\<forall>j. a \<le> j \<and> j < i \<longrightarrow> \<not> P j)"
proof (induction b)
  case (Suc b)
  show ?case
  proof (cases "a \<le> b")
    case True
    then show ?thesis
      using Suc.IH find_upt_None [of P a b]
      by (cases "List.find P [a..<b]") (auto simp: find_append less_Suc_eq)
  qed auto
qed simp

section \<open>Words\<close>

lemma unat_inc: "unat (w :: 64 word) + 1 < 2 ^ 64 \<Longrightarrow> unat (w + 1) = unat w + 1"
  by (simp add: unat_word_ariths)

lemma unat_dec: "0 < unat (w :: 64 word) \<Longrightarrow> unat (w - 1) = unat w - 1"
  by (simp add: unat_minus_one unat_gt_0)

section \<open>State machines\<close>

locale step_invariant =
  fixes init :: "'s \<Rightarrow> bool"
    and step :: "'s \<Rightarrow> 's \<Rightarrow> bool"
    and inv :: "'s \<Rightarrow> bool"
  assumes init_inv: "init s \<Longrightarrow> inv s"
    and step_inv: "step s t \<Longrightarrow> inv s \<Longrightarrow> inv t"
begin

lemma run_inv: "rtranclp step s t \<Longrightarrow> inv s \<Longrightarrow> inv t"
  by (induction rule: rtranclp_induct) (auto intro: step_inv)

lemma reachable_inv: "init s \<Longrightarrow> rtranclp step s t \<Longrightarrow> inv t"
  by (blast intro: init_inv run_inv)

end

end
