(* ===== verification/Breaker_Window.thy ===== *)
theory Breaker_Window
  imports Complex_Main Prelude
begin

text \<open>
  The sliding sample window of the circuit breaker
  (\<^verbatim>\<open>crates/common/xai-circuit-breaker/src/window.rs\<close>) and the part of \<^verbatim>\<open>f64\<close> its error rate
  uses. Instants and durations are natural numbers of nanoseconds, instants counted from the
  earliest one the platform can represent, so \<^verbatim>\<open>Instant::checked_sub\<close> fails exactly when the
  duration exceeds the instant. The failure counter is a 64-bit \<^verbatim>\<open>usize\<close> and wraps; the
  invariant \<open>window_ok\<close> shows that it never does.
\<close>

section \<open>The error rate as a double\<close>

text \<open>Doubles that occur as thresholds; a finite one is its rational value.\<close>

datatype f64 = NaN | PInf | NInf | Fin rat

fun f64_ge :: "f64 \<Rightarrow> f64 \<Rightarrow> bool" where
  "f64_ge NaN y = False"
| "f64_ge x NaN = False"
| "f64_ge PInf y = True"
| "f64_ge NInf y = (y = NInf)"
| "f64_ge (Fin x) PInf = False"
| "f64_ge (Fin x) NInf = True"
| "f64_ge (Fin x) (Fin y) = (y \<le> x)"

fun bit_length :: "nat \<Rightarrow> nat" where
  "bit_length n = (if n = 0 then 0 else Suc (bit_length (n div 2)))"

declare bit_length.simps [simp del]

text \<open>Quotient of naturals rounded to the nearest integer, ties to even.\<close>

definition div_round_even :: "nat \<Rightarrow> nat \<Rightarrow> nat" where
  "div_round_even n d =
     (let q = n div d; r = n mod d
      in if 2 * r < d then q else if d < 2 * r then Suc q else q + q mod 2)"

text \<open>
  \<open>f64_ratio a b\<close> is the IEEE double nearest to \<open>a / b\<close> for \<open>a \<le> b\<close> and \<open>0 < b \<le> 2 ^ 53\<close>
  (both then convert exactly): with \<open>2 ^ -e \<le> a / b < 2 ^ (1 - e)\<close> the significand has the
  \<open>52 + e\<close> fractional bits of that binade.
\<close>

definition ratio_bits :: "nat \<Rightarrow> nat \<Rightarrow> nat" where
  "ratio_bits a b = 52 + bit_length ((b - 1) div a)"

definition f64_ratio :: "nat \<Rightarrow> nat \<Rightarrow> rat" where
  "f64_ratio a b =
     (if a = 0 then 0
      else of_nat (div_round_even (a * 2 ^ ratio_bits a b) b) / 2 ^ ratio_bits a b)"

section \<open>The window\<close>

definition MAX_WINDOW_ENTRIES :: nat where "MAX_WINDOW_ENTRIES = 10000"

record sliding_window =
  entries :: "(nat \<times> bool) list"
  failures :: "64 word"

definition window_new :: sliding_window where
  "window_new = \<lparr>entries = [], failures = 0\<rparr>"

definition window_push :: "sliding_window \<Rightarrow> bool \<Rightarrow> nat \<Rightarrow> sliding_window" where
  "window_push w is_failure ts =
     (let w1 = (if MAX_WINDOW_ENTRIES \<le> length (entries w)
                then (case entries w of
                        [] \<Rightarrow> w
                      | (_, was_failure) # es \<Rightarrow>
                          w\<lparr>entries := es,
                            failures := (if was_failure then failures w - 1 else failures w)\<rparr>)
                else w)
      in w1\<lparr>entries := entries w1 @ [(ts, is_failure)],
            failures := (if is_failure then failures w1 + 1 else failures w1)\<rparr>)"

fun evict_loop :: "nat \<Rightarrow> (nat \<times> bool) list \<Rightarrow> 64 word \<Rightarrow> sliding_window" where
  "evict_loop cutoff [] f = \<lparr>entries = [], failures = f\<rparr>"
| "evict_loop cutoff ((ts, was_failure) # es) f =
     (if ts < cutoff then evict_loop cutoff es (if was_failure then f - 1 else f)
      else \<lparr>entries = (ts, was_failure) # es, failures = f\<rparr>)"

definition window_evict :: "sliding_window \<Rightarrow> nat \<Rightarrow> nat \<Rightarrow> sliding_window" where
  "window_evict w window now =
     (if now < window then w else evict_loop (now - window) (entries w) (failures w))"

definition window_error_rate :: "sliding_window \<Rightarrow> f64" where
  "window_error_rate w =
     (if entries w = [] then Fin 0
      else Fin (f64_ratio (unat (failures w)) (length (entries w))))"

definition sample_count :: "sliding_window \<Rightarrow> nat" where
  "sample_count w = length (entries w)"

definition window_clear :: "sliding_window \<Rightarrow> sliding_window" where
  "window_clear w = w\<lparr>entries := [], failures := 0\<rparr>"

section \<open>Invariant\<close>

definition failure_count :: "(nat \<times> bool) list \<Rightarrow> nat" where
  "failure_count es = length (filter snd es)"

text \<open>The incremental counter equals the number of failures held, and the cap is respected.\<close>

definition window_ok :: "sliding_window \<Rightarrow> bool" where
  "window_ok w \<longleftrightarrow>
     length (entries w) \<le> MAX_WINDOW_ENTRIES \<and>
     unat (failures w) = failure_count (entries w)"

lemma failure_count_simps [simp]:
  "failure_count [] = 0"
  "failure_count (e # es) = (if snd e then 1 else 0) + failure_count es"
  "failure_count (es @ fs) = failure_count es + failure_count fs"
  by (auto simp: failure_count_def)

lemma failure_count_le: "failure_count es \<le> length es"
  by (simp add: failure_count_def)

lemma window_new_ok [simp]: "window_ok window_new"
  by (simp add: window_ok_def window_new_def)

lemma window_clear_ok [simp]: "window_ok (window_clear w)"
  by (simp add: window_ok_def window_clear_def)

lemma entries_push:
  "entries (window_push w f ts) =
     (if MAX_WINDOW_ENTRIES \<le> length (entries w) then tl (entries w) else entries w) @ [(ts, f)]"
  by (auto simp: window_push_def Let_def split: list.splits)

lemma window_drop_front_ok:
  assumes "window_ok \<lparr>entries = e # es, failures = f\<rparr>"
  shows "window_ok \<lparr>entries = es, failures = (if snd e then f - 1 else f)\<rparr>"
  using assms by (auto simp: window_ok_def unat_dec)

lemma window_append_ok:
  assumes "window_ok w" and "length (entries w) < MAX_WINDOW_ENTRIES"
  shows "window_ok (w\<lparr>entries := entries w @ [(ts, f)],
                      failures := (if f then failures w + 1 else failures w)\<rparr>)"
proof -
  have "unat (failures w) + 1 < 2 ^ 64"
    using assms failure_count_le [of "entries w"]
    by (simp add: window_ok_def MAX_WINDOW_ENTRIES_def)
  then show ?thesis
    using assms by (auto simp: window_ok_def unat_inc)
qed

lemma window_push_ok:
  assumes "window_ok w"
  shows "window_ok (window_push w f ts)"
proof (cases "MAX_WINDOW_ENTRIES \<le> length (entries w)")
  case True
  then obtain e es where es: "entries w = e # es"
    by (cases "entries w") (auto simp: MAX_WINDOW_ENTRIES_def)
  let ?w1 = "w\<lparr>entries := es, failures := (if snd e then failures w - 1 else failures w)\<rparr>"
  have "window_ok ?w1"
    using window_drop_front_ok [of e es "failures w"] assms es by (simp add: window_ok_def)
  moreover have "length (entries ?w1) < MAX_WINDOW_ENTRIES"
    using assms es by (simp add: window_ok_def)
  moreover have "window_push w f ts =
      ?w1\<lparr>entries := entries ?w1 @ [(ts, f)],
          failures := (if f then failures ?w1 + 1 else failures ?w1)\<rparr>"
    using True es by (auto simp: window_push_def Let_def split: prod.splits)
  ultimately show ?thesis using window_append_ok [of ?w1 f ts] by simp
next
  case False
  then have "window_push w f ts =
      w\<lparr>entries := entries w @ [(ts, f)],
        failures := (if f then failures w + 1 else failures w)\<rparr>"
    by (simp add: window_push_def)
  then show ?thesis using False assms window_append_ok [of w f ts] by simp
qed

lemma evict_loop_ok:
  "window_ok \<lparr>entries = es, failures = f\<rparr> \<Longrightarrow> window_ok (evict_loop cutoff es f)"
proof (induction cutoff es f rule: evict_loop.induct)
  case (2 cutoff ts was es f)
  then show ?case using window_drop_front_ok [of "(ts, was)" es f] by auto
qed simp

lemma window_evict_ok: "window_ok w \<Longrightarrow> window_ok (window_evict w d now)"
  using evict_loop_ok [of "entries w" "failures w" "now - d"]
  by (simp add: window_evict_def window_ok_def)

lemma entries_evict_loop: "entries (evict_loop cutoff es f) = dropWhile (\<lambda>e. fst e < cutoff) es"
  by (induction cutoff es f rule: evict_loop.induct) auto

lemma entries_evict:
  "entries (window_evict w d now) =
     (if now < d then entries w else dropWhile (\<lambda>e. fst e < now - d) (entries w))"
  by (simp add: window_evict_def entries_evict_loop)

text \<open>
  The samples arrive in time order, so after an eviction exactly the samples inside the window
  remain.
\<close>

lemma dropWhile_sorted_filter:
  "sorted (map fst es) \<Longrightarrow> dropWhile (\<lambda>e. fst e < c) es = filter (\<lambda>e. c \<le> fst e) es"
proof (induction es)
  case (Cons e es)
  show ?case
  proof (cases "fst e < c")
    case True
    with Cons show ?thesis by auto
  next
    case False
    with Cons.prems have "\<forall>x \<in> set (e # es). c \<le> fst x" by auto
    then have "filter (\<lambda>x. c \<le> fst x) (e # es) = e # es" by (simp only: filter_id_conv)
    with False show ?thesis by simp
  qed
qed simp

section \<open>Rounding\<close>

lemma bit_length_0 [simp]: "bit_length 0 = 0"
  by (subst bit_length.simps) simp

lemma div_round_even_ge: "n div d \<le> div_round_even n d"
  by (auto simp: div_round_even_def Let_def)

lemma div_round_even_le: "div_round_even n d \<le> Suc (n div d)"
  by (auto simp: div_round_even_def Let_def)

lemma half_ge:
  assumes "b \<le> 2 * a" and "0 < b" and "a \<le> b"
  shows "1 / 2 \<le> f64_ratio a b"
proof -
  let ?p = "ratio_bits a b"
  have "0 < a" using assms by simp
  obtain k where k: "?p = Suc k" by (simp add: ratio_bits_def)
  have "b * 2 ^ k \<le> a * 2 ^ ?p"
    using assms(1) by (simp add: k)
  then have "2 ^ k \<le> (a * 2 ^ ?p) div b"
    using assms(2) by (simp add: less_eq_div_iff_mult_less_eq mult.commute)
  then have "2 ^ k \<le> div_round_even (a * 2 ^ ?p) b"
    using div_round_even_ge le_trans by blast
  then have "(of_nat (2 ^ k) :: rat) \<le> of_nat (div_round_even (a * 2 ^ ?p) b)"
    by (rule of_nat_mono)
  then show ?thesis
    using \<open>0 < a\<close> by (simp add: f64_ratio_def k field_simps)
qed

lemma half_less:
  assumes "2 * a < b" and "b \<le> 2 ^ 50"
  shows "f64_ratio a b < 1 / 2"
proof (cases "a = 0")
  case False
  let ?p = "ratio_bits a b"
  obtain k where k: "?p = Suc k" and "51 \<le> k" by (simp add: ratio_bits_def)
  have "(2::nat) ^ 51 \<le> 2 ^ k" using \<open>51 \<le> k\<close> by (rule power_increasing) simp
  then have b2: "2 * b \<le> 2 ^ k" using assms(2) by simp
  have "a * 2 ^ ?p = (2 * a) * 2 ^ k" by (simp add: k)
  also have "\<dots> \<le> (b - 1) * 2 ^ k" using assms(1) by (intro mult_right_mono) auto
  also have "\<dots> = b * 2 ^ k - 2 ^ k" by (simp add: diff_mult_distrib)
  also have "\<dots> \<le> b * 2 ^ k - 2 * b" using b2 by (rule diff_le_mono2)
  also have "\<dots> = b * (2 ^ k - 2)" by (simp add: diff_mult_distrib2 mult.commute)
  finally have "(a * 2 ^ ?p) div b \<le> (b * (2 ^ k - 2)) div b"
    by (rule div_le_mono)
  then have "(a * 2 ^ ?p) div b \<le> 2 ^ k - 2"
    using assms(1) by simp
  moreover have "(4::nat) \<le> 2 ^ k" using b2 assms(1) False by simp
  ultimately have "div_round_even (a * 2 ^ ?p) b < 2 ^ k"
    using div_round_even_le [of "a * 2 ^ ?p" b] by linarith
  then have "(of_nat (div_round_even (a * 2 ^ ?p) b) :: rat) < of_nat (2 ^ k)"
    by (rule of_nat_less_iff [THEN iffD2])
  then show ?thesis
    using False by (simp add: f64_ratio_def k field_simps)
qed (simp add: f64_ratio_def)

text \<open>At the cap of the window the rounding of the quotient cannot move it across one half.\<close>

lemma f64_ratio_half:
  assumes "a \<le> b" and "0 < b" and "b \<le> MAX_WINDOW_ENTRIES"
  shows "1 / 2 \<le> f64_ratio a b \<longleftrightarrow> b \<le> 2 * a"
proof (cases "b \<le> 2 * a")
  case True
  then show ?thesis using half_ge assms by simp
next
  case False
  with assms have "f64_ratio a b < 1 / 2"
    by (intro half_less) (auto simp: MAX_WINDOW_ENTRIES_def)
  with False show ?thesis by simp
qed

lemma error_rate_half:
  assumes "window_ok w" and "entries w \<noteq> []"
  shows "f64_ge (window_error_rate w) (Fin (1 / 2)) \<longleftrightarrow>
         sample_count w \<le> 2 * failure_count (entries w)"
  using assms f64_ratio_half [of "failure_count (entries w)" "length (entries w)"]
    failure_count_le [of "entries w"]
  by (simp add: window_error_rate_def window_ok_def sample_count_def)

section \<open>The interface the breaker relies on\<close>

text \<open>
  What \<^verbatim>\<open>CircuitBreaker::record\<close> relies on: pushing and evicting keep the representation
  invariant, a push appends the sample (dropping at most the oldest) and an eviction removes a
  prefix of samples older than the cut-off.
\<close>

locale sample_window =
  fixes ok :: "'w \<Rightarrow> bool"
    and samples :: "'w \<Rightarrow> (nat \<times> bool) list"
    and push :: "'w \<Rightarrow> bool \<Rightarrow> nat \<Rightarrow> 'w"
    and evict :: "'w \<Rightarrow> nat \<Rightarrow> nat \<Rightarrow> 'w"
    and cap :: nat
  assumes push_ok: "ok w \<Longrightarrow> ok (push w f t)"
    and evict_ok: "ok w \<Longrightarrow> ok (evict w d t)"
    and samples_push:
      "ok w \<Longrightarrow>
       samples (push w f t) = drop (Suc (length (samples w)) - cap) (samples w) @ [(t, f)]"
    and samples_evict:
      "samples (evict w d t) =
         (if t < d then samples w else dropWhile (\<lambda>e. fst e < t - d) (samples w))"
begin

definition timed :: "nat \<Rightarrow> 'w \<Rightarrow> bool" where
  "timed t w \<longleftrightarrow> sorted (map fst (samples w)) \<and> (\<forall>e \<in> set (samples w). fst e \<le> t)"

lemma timed_push:
  assumes "ok w" and "timed t w"
  shows "timed t (push w f t)"
proof -
  let ?n = "Suc (length (samples w)) - cap"
  have "sorted (drop ?n (map fst (samples w)))"
    using assms(2) by (simp add: timed_def sorted_wrt_drop)
  moreover have "set (drop ?n (samples w)) \<subseteq> set (samples w)"
    by (rule set_drop_subset)
  ultimately show ?thesis
    using assms samples_push [of w f t] by (auto simp: timed_def sorted_append drop_map)
qed

lemma timed_evict: "timed t w \<Longrightarrow> timed t (evict w d t)"
  by (auto simp: timed_def samples_evict dropWhile_sorted_filter sorted_filter)

text \<open>One update keeps exactly the samples of the last \<open>d\<close> nanoseconds among the newest \<open>cap\<close>.\<close>

lemma samples_update:
  assumes "ok w" and "timed t w"
  shows "samples (evict (push w f t) d t) =
         filter (\<lambda>e. t - d \<le> fst e)
           (drop (Suc (length (samples w)) - cap) (samples w) @ [(t, f)])"
proof -
  have s: "samples (push w f t) = drop (Suc (length (samples w)) - cap) (samples w) @ [(t, f)]"
    using samples_push assms(1) by blast
  show ?thesis
  proof (cases "t < d")
    case True
    then show ?thesis by (simp add: samples_evict s)
  next
    case False
    have "sorted (map fst (samples (push w f t)))"
      using timed_push [OF assms] by (simp add: timed_def)
    then show ?thesis using False by (simp add: samples_evict dropWhile_sorted_filter s)
  qed
qed

lemma update_ok: "ok w \<Longrightarrow> ok (evict (push w f t) d t)"
  by (intro evict_ok push_ok)

lemma timed_update: "ok w \<Longrightarrow> timed t w \<Longrightarrow> timed t (evict (push w f t) d t)"
  by (intro timed_evict timed_push)

lemma timed_mono: "timed s w \<Longrightarrow> s \<le> t \<Longrightarrow> timed t w"
  by (auto simp: timed_def)

end

lemma entries_push_drop:
  assumes "window_ok w"
  shows "entries (window_push w f t) =
         drop (Suc (length (entries w)) - MAX_WINDOW_ENTRIES) (entries w) @ [(t, f)]"
proof (cases "MAX_WINDOW_ENTRIES \<le> length (entries w)")
  case True
  with assms have "Suc (length (entries w)) - MAX_WINDOW_ENTRIES = 1"
    by (simp add: window_ok_def)
  with True show ?thesis by (simp add: entries_push drop_Suc)
qed (simp add: entries_push)

interpretation sw: sample_window window_ok entries window_push window_evict MAX_WINDOW_ENTRIES
  by unfold_locales (auto simp: window_push_ok window_evict_ok entries_push_drop entries_evict)

end
