(* ===== verification/Circuit_Breaker.thy ===== *)
theory Circuit_Breaker
  imports Breaker_Window
begin

text \<open>
  The circuit breaker of \<^verbatim>\<open>crates/common/xai-circuit-breaker\<close>: its configuration
  (\<^verbatim>\<open>config.rs\<close>), the states (\<^verbatim>\<open>state.rs\<close>), the state machine (\<^verbatim>\<open>breaker.rs\<close>), the per-key
  registry (\<^verbatim>\<open>registry.rs\<close>) and the retry policy (\<^verbatim>\<open>retry_policy.rs\<close>). Here every operation
  runs without interference; the interleaving of its atomic accesses is the subject of
  \<open>Breaker_Concurrency\<close>. Each reading of the injected clock is an argument (\<open>t1\<close>, \<open>t2\<close>), in
  the order in which the code reads it, and the observer callbacks are returned as a list.
\<close>

section \<open>States and configuration\<close>

datatype breaker_state = Closed | Open | HalfOpen

fun state_as_u8 :: "breaker_state \<Rightarrow> 8 word" where
  "state_as_u8 Closed = 0"
| "state_as_u8 Open = 1"
| "state_as_u8 HalfOpen = 2"

text \<open>An invalid byte is \<open>Closed\<close> (a debug build asserts instead).\<close>

definition state_from_u8 :: "8 word \<Rightarrow> breaker_state" where
  "state_from_u8 v =
     (if v = 0 then Closed else if v = 1 then Open else if v = 2 then HalfOpen else Closed)"

lemma state_from_as_u8 [simp]: "state_from_u8 (state_as_u8 s) = s"
  by (cases s) (simp_all add: state_from_u8_def)

datatype outcome = Success | Failure

datatype breaker_open = BreakerOpen nat \<comment> \<open>retry-after, in nanoseconds\<close>

record breaker_config =
  window_duration :: nat
  min_samples :: nat
  error_rate_threshold :: f64
  open_duration :: nat
  half_open_max_probes :: nat
  failure_codes :: "nat set"
  enabled :: bool

definition secs :: "nat \<Rightarrow> nat" where "secs s = s * 1000000000"

definition default_failure_codes :: "nat set" where
  "default_failure_codes = {429, 500, 502, 503, 504}"

definition config_server :: breaker_config where
  "config_server =
     \<lparr>window_duration = secs 60, min_samples = 10, error_rate_threshold = Fin (1 / 2),
      open_duration = secs 10, half_open_max_probes = 1,
      failure_codes = default_failure_codes, enabled = True\<rparr>"

definition config_client :: breaker_config where
  "config_client =
     \<lparr>window_duration = secs 60, min_samples = 5, error_rate_threshold = Fin (1 / 2),
      open_duration = secs 60, half_open_max_probes = 1,
      failure_codes = {401}, enabled = True\<rparr>"

definition parse_failure_codes :: "ustr \<Rightarrow> nat set" where
  "parse_failure_codes s =
     set (List.map_filter (\<lambda>c. parse_uint 65535 (trim c)) (split_char 44 s))"

definition parse_bool :: "ustr \<Rightarrow> bool option" where
  "parse_bool s =
     (if s = u ''true'' then Some True else if s = u ''false'' then Some False else None)"

definition lookup_or ::
    "(ustr \<Rightarrow> ustr option) \<Rightarrow> (ustr \<Rightarrow> 'a option) \<Rightarrow> ustr \<Rightarrow> 'a \<Rightarrow> 'a" where
  "lookup_or get parse key def =
     (case get key of
        Some v \<Rightarrow> (case parse v of Some x \<Rightarrow> x | None \<Rightarrow> def)
      | None \<Rightarrow> def)"

text \<open>\<^verbatim>\<open>f64::from_str\<close> is the argument \<open>parse_f64\<close>.\<close>

definition from_lookup_with_prefix ::
    "(ustr \<Rightarrow> f64 option) \<Rightarrow> ustr \<Rightarrow> (ustr \<Rightarrow> ustr option) \<Rightarrow> breaker_config" where
  "from_lookup_with_prefix parse_f64 prefix get =
     (let key = (\<lambda>k. prefix @ k);
          codes = (case get (key (u ''FAILURE_CODES'')) of
                     Some raw \<Rightarrow>
                       (let cs = parse_failure_codes raw
                        in if cs = {} then default_failure_codes else cs)
                   | None \<Rightarrow> default_failure_codes)
      in \<lparr>window_duration = secs (lookup_or get (parse_uint u64_max) (key (u ''WINDOW_SECS'')) 60),
          min_samples = lookup_or get (parse_uint u64_max) (key (u ''MIN_SAMPLES'')) 10,
          error_rate_threshold =
            lookup_or get parse_f64 (key (u ''ERROR_RATE_THRESHOLD'')) (Fin (1 / 2)),
          open_duration =
            secs (lookup_or get (parse_uint u64_max) (key (u ''OPEN_DURATION_SECS'')) 10),
          half_open_max_probes =
            max 1 (lookup_or get (parse_uint u64_max) (key (u ''HALF_OPEN_MAX_PROBES'')) 1),
          failure_codes = codes,
          enabled = lookup_or get parse_bool (key (u ''ENABLED'')) True\<rparr>)"

definition is_failure_status :: "breaker_config \<Rightarrow> nat \<Rightarrow> bool" where
  "is_failure_status c status \<longleftrightarrow> status \<in> failure_codes c"

section \<open>The breaker\<close>

record breaker =
  config :: breaker_config
  bstate :: breaker_state
  baseline :: nat
  opened_at_millis :: nat
  half_open_probes :: "64 word"
  probe_claimed_at_millis :: nat
  is_open_fast :: bool
  window :: sliding_window

datatype obs_event =
    OnStateChange breaker_state breaker_state string
  | OnProbeAdmission bool
  | OnOutcome outcome breaker_state

definition with_clock :: "breaker_config \<Rightarrow> nat \<Rightarrow> breaker" where
  "with_clock c now =
     \<lparr>config = c\<lparr>half_open_max_probes := max (half_open_max_probes c) 1\<rparr>,
      bstate = Closed, baseline = now, opened_at_millis = 0, half_open_probes = 0,
      probe_claimed_at_millis = 0, is_open_fast = False, window = window_new\<rparr>"

definition elapsed_millis :: "breaker \<Rightarrow> nat \<Rightarrow> nat" where
  "elapsed_millis b now = ((now - baseline b) div 1000000) mod 2 ^ 64"

definition millis :: "nat \<Rightarrow> nat" where "millis m = m * 1000000"

definition lease_millis :: "breaker \<Rightarrow> nat" where
  "lease_millis b = (open_duration (config b) div 1000000) mod 2 ^ 64"

definition cas_state :: "breaker \<Rightarrow> breaker_state \<Rightarrow> breaker_state \<Rightarrow> breaker \<times> bool" where
  "cas_state b from to = (if bstate b = from then (b\<lparr>bstate := to\<rparr>, True) else (b, False))"

definition trip ::
    "breaker \<Rightarrow> breaker_state \<Rightarrow> string \<Rightarrow> nat \<Rightarrow> breaker \<times> obs_event list" where
  "trip b prev reason t =
     (b\<lparr>bstate := Open, opened_at_millis := elapsed_millis b t, half_open_probes := 0,
        is_open_fast := True\<rparr>,
      if prev \<noteq> Open then [OnStateChange prev Open reason] else [])"

definition close :: "breaker \<Rightarrow> breaker_state \<Rightarrow> string \<Rightarrow> breaker \<times> obs_event list" where
  "close b prev reason =
     (b\<lparr>bstate := Closed, window := window_clear (window b), half_open_probes := 0,
        is_open_fast := False\<rparr>,
      if prev \<noteq> Closed then [OnStateChange prev Closed reason] else [])"

definition HALF_OPEN_PROBE_BACKOFF :: nat where "HALF_OPEN_PROBE_BACKOFF = millis 50"

definition try_half_open_probe ::
    "breaker \<Rightarrow> nat \<Rightarrow> breaker \<times> obs_event list \<times> (breaker_open + unit)" where
  "try_half_open_probe b t =
     (let now = elapsed_millis b t;
          prev = half_open_probes b;
          b1 = b\<lparr>half_open_probes := prev + 1\<rparr>
      in if unat prev < half_open_max_probes (config b)
         then (b1\<lparr>probe_claimed_at_millis := now\<rparr>, [OnProbeAdmission True], Inr ())
         else
           (let b2 = b1\<lparr>half_open_probes := half_open_probes b1 - 1\<rparr>;
                claimed = probe_claimed_at_millis b2
            in if lease_millis b \<le> now - claimed
               then (b2\<lparr>probe_claimed_at_millis := now\<rparr>, [OnProbeAdmission True], Inr ())
               else (b2, [OnProbeAdmission False],
                     Inl (BreakerOpen
                            (min HALF_OPEN_PROBE_BACKOFF (open_duration (config b)))))))"

definition check_open ::
    "breaker \<Rightarrow> nat \<Rightarrow> nat \<Rightarrow> breaker \<times> obs_event list \<times> (breaker_open + unit)" where
  "check_open b t1 t2 =
     (let opened = opened_at_millis b;
          now = elapsed_millis b t1;
          elapsed = millis (now - opened)
      in if open_duration (config b) \<le> elapsed
         then (case cas_state b Open HalfOpen of
                 (b1, True) \<Rightarrow>
                   (case try_half_open_probe (b1\<lparr>is_open_fast := False\<rparr>) t2 of
                      (b2, evs, r) \<Rightarrow> (b2, OnStateChange Open HalfOpen ''open_elapsed'' # evs, r))
               | (b1, False) \<Rightarrow>
                   (case bstate b1 of
                      Closed \<Rightarrow> (b1, [], Inr ())
                    | HalfOpen \<Rightarrow> try_half_open_probe b1 t2
                    | Open \<Rightarrow>
                        (b1, [], Inl (BreakerOpen
                           (open_duration (config b1) -
                            millis (elapsed_millis b1 t2 - opened_at_millis b1))))))
         else (b, [], Inl (BreakerOpen (open_duration (config b) - elapsed))))"

definition check ::
    "breaker \<Rightarrow> nat \<Rightarrow> nat \<Rightarrow> breaker \<times> obs_event list \<times> (breaker_open + unit)" where
  "check b t1 t2 =
     (if \<not> enabled (config b) then (b, [], Inr ())
      else (case bstate b of
              Closed \<Rightarrow> (b, [], Inr ())
            | Open \<Rightarrow> check_open b t1 t2
            | HalfOpen \<Rightarrow> try_half_open_probe b t1))"

definition should_trip :: "breaker_config \<Rightarrow> sliding_window \<Rightarrow> bool" where
  "should_trip c w \<longleftrightarrow>
     min_samples c \<le> sample_count w \<and> f64_ge (window_error_rate w) (error_rate_threshold c)"

definition push_sample :: "breaker \<Rightarrow> outcome \<Rightarrow> nat \<Rightarrow> breaker" where
  "push_sample b out now =
     b\<lparr>window := window_evict (window_push (window b) (out = Failure) now)
                   (window_duration (config b)) now\<rparr>"

definition record_outcome ::
    "breaker \<Rightarrow> outcome \<Rightarrow> nat \<Rightarrow> nat \<Rightarrow> breaker \<times> obs_event list" where
  "record_outcome b out t1 t2 =
     (if \<not> enabled (config b) then (b, [])
      else
        (case (case bstate b of
                 Closed \<Rightarrow>
                   (let b1 = push_sample b out t1
                    in if should_trip (config b1) (window b1)
                       then trip b1 Closed ''trip'' t2 else (b1, []))
               | HalfOpen \<Rightarrow>
                   (if out = Failure then trip b HalfOpen ''probe_failure'' t2
                    else close b HalfOpen ''probe_success'')
               | Open \<Rightarrow> (push_sample b out t1, []))
         of (b', evs) \<Rightarrow> (b', evs @ [OnOutcome out (bstate b')])))"

definition is_open :: "breaker \<Rightarrow> bool" where
  "is_open b = is_open_fast b"

definition error_rate :: "breaker \<Rightarrow> nat \<Rightarrow> breaker \<times> f64" where
  "error_rate b now =
     (let b1 = b\<lparr>window := window_evict (window b) (window_duration (config b)) now\<rparr>
      in (b1, window_error_rate (window b1)))"

definition force_half_open :: "breaker \<Rightarrow> breaker \<times> obs_event list" where
  "force_half_open b =
     (b\<lparr>bstate := HalfOpen, is_open_fast := False, half_open_probes := 0\<rparr>,
      if bstate b \<noteq> HalfOpen then [OnStateChange (bstate b) HalfOpen ''force_half_open''] else [])"

section \<open>The registry\<close>

text \<open>Breakers are shared (\<^verbatim>\<open>Arc\<close>): the registry maps a key to an address, the heap holds them.\<close>

record registry =
  reg_config :: breaker_config
  reg_breakers :: "ustr \<rightharpoonup> nat"
  reg_heap :: "breaker list"

definition registry_new :: "breaker_config \<Rightarrow> registry" where
  "registry_new c = \<lparr>reg_config = c, reg_breakers = Map.empty, reg_heap = []\<rparr>"

definition registry_get :: "registry \<Rightarrow> ustr \<Rightarrow> nat \<Rightarrow> registry \<times> nat option" where
  "registry_get r key now =
     (if \<not> enabled (reg_config r) then (r, None)
      else (case reg_breakers r key of
              Some cb \<Rightarrow> (r, Some cb)
            | None \<Rightarrow>
                (let cb = length (reg_heap r)
                 in (r\<lparr>reg_breakers := (reg_breakers r)(key \<mapsto> cb),
                       reg_heap := reg_heap r @ [with_clock (reg_config r) now]\<rparr>,
                     Some cb))))"

section \<open>Retry policy\<close>

datatype disposition = Retryable | AuthRefresh | Terminal

record retry_policy =
  retryable :: "nat list"
  auth_refresh :: "nat list"
  terminal :: "nat list"
  default_disposition :: disposition

definition classify :: "retry_policy \<Rightarrow> nat \<Rightarrow> disposition option" where
  "classify p status =
     (if 200 \<le> status \<and> status < 300 then None
      else if status \<in> set (auth_refresh p) then Some AuthRefresh
      else if status \<in> set (terminal p) then Some Terminal
      else if status \<in> set (retryable p) \<or> (500 \<le> status \<and> status < 600) then Some Retryable
      else Some (default_disposition p))"

definition should_retry :: "retry_policy \<Rightarrow> nat \<Rightarrow> bool" where
  "should_retry p status \<longleftrightarrow> classify p status = Some Retryable"

definition policy_server :: retry_policy where
  "policy_server = \<lparr>retryable = [429], auth_refresh = [], terminal = [],
                    default_disposition = Terminal\<rparr>"

definition policy_client_storage :: retry_policy where
  "policy_client_storage = \<lparr>retryable = [], auth_refresh = [401], terminal = [400, 403, 404],
                            default_disposition = Retryable\<rparr>"

end
