(* ===== verification/Breaker_Safety.thy ===== *)
theory Breaker_Safety
  imports Circuit_Breaker
begin

text \<open>
  Properties of the circuit breaker when its operations do not overlap: the invariant of every
  run (\<open>breaker_ok\<close> and \<open>probes_exact\<close>), the exact trip condition, load shedding while open, recovery after the
  cool-down, the bound on half-open probes and the reclaiming of abandoned ones, the sharing of
  registry entries, and the retry presets.
\<close>

section \<open>Runs\<close>

text \<open>Milliseconds since construction fit in the \<^verbatim>\<open>u64\<close> they are cast to.\<close>

definition uptime_ok :: "breaker \<Rightarrow> nat \<Rightarrow> bool" where
  "uptime_ok b t \<longleftrightarrow> (t - baseline b) div 1000000 < 2 ^ 64"

text \<open>
  A breaker paired with the time of its last operation, and beside it the number of callers that
  \<^verbatim>\<open>check\<close> has let through as probes of the current half-open phase; the clock is monotonic. The
  number is a ghost of the run, read off the replies and not off the breaker's own counter: it
  starts again at zero whenever the breaker is not half-open.
\<close>

definition probes_after :: "nat \<Rightarrow> breaker \<Rightarrow> bool \<Rightarrow> nat" where
  "probes_after n b admitted =
     (if bstate b \<noteq> HalfOpen then 0 else if admitted then Suc n else n)"

inductive breaker_step :: "(breaker \<times> nat) \<times> nat \<Rightarrow> (breaker \<times> nat) \<times> nat \<Rightarrow> bool" where
  check_step:
    "t \<le> t1 \<Longrightarrow> t1 \<le> t2 \<Longrightarrow> uptime_ok b t2 \<Longrightarrow> check b t1 t2 = (b', evs, r) \<Longrightarrow>
     breaker_step ((b, t), n) ((b', t2), probes_after n b' (r = Inr ()))"
| record_step:
    "t \<le> t1 \<Longrightarrow> t1 \<le> t2 \<Longrightarrow> uptime_ok b t2 \<Longrightarrow> fst (record_outcome b out t1 t2) = b' \<Longrightarrow>
     breaker_step ((b, t), n) ((b', t2), probes_after n b' False)"
| rate_step:
    "t \<le> t1 \<Longrightarrow> uptime_ok b t1 \<Longrightarrow> fst (error_rate b t1) = b' \<Longrightarrow>
     breaker_step ((b, t), n) ((b', t1), probes_after n b' False)"

fun breaker_init :: "(breaker \<times> nat) \<times> nat \<Rightarrow> bool" where
  "breaker_init ((b, t), n) \<longleftrightarrow>
     (\<exists>c. half_open_max_probes c < 2 ^ 64 \<and> b = with_clock c t) \<and> n = 0"

text \<open>
  The mirror read by \<^verbatim>\<open>is_open\<close> agrees with the state, probe slots are all free
  outside \<open>HalfOpen\<close> and between one and the maximum are claimed in it, the window is well formed, and no time stamp lies in the
  future.
\<close>

fun breaker_ok :: "breaker \<times> nat \<Rightarrow> bool" where
  "breaker_ok (b, t) \<longleftrightarrow>
     window_ok (window b) \<and> sw.timed t (window b) \<and>
     (is_open_fast b \<longleftrightarrow> bstate b = Open) \<and>
     (bstate b \<noteq> HalfOpen \<longrightarrow> half_open_probes b = 0) \<and>
     (bstate b = HalfOpen \<longrightarrow> half_open_probes b \<noteq> 0) \<and>
     unat (half_open_probes b) \<le> half_open_max_probes (config b) \<and>
     1 \<le> half_open_max_probes (config b) \<and> half_open_max_probes (config b) < 2 ^ 64 \<and>
     uptime_ok b t \<and>
     probe_claimed_at_millis b \<le> elapsed_millis b t \<and>
     opened_at_millis b \<le> elapsed_millis b t"

text \<open>
  The counter holds the number of probes let through in this half-open phase, up to the
  configured maximum (beyond it callers only enter by taking over an abandoned claim), and a
  disabled breaker is closed.
\<close>

definition probes_exact :: "breaker \<Rightarrow> nat \<Rightarrow> bool" where
  "probes_exact b n \<longleftrightarrow>
     unat (half_open_probes b) = min (half_open_max_probes (config b)) n \<and>
     (bstate b = HalfOpen \<longleftrightarrow> 0 < n) \<and> (enabled (config b) \<or> bstate b = Closed)"

fun run_ok :: "(breaker \<times> nat) \<times> nat \<Rightarrow> bool" where
  "run_ok ((b, t), n) \<longleftrightarrow> breaker_ok (b, t) \<and> probes_exact b n"

lemma elapsed_mono:
  assumes "s \<le> t" and "uptime_ok b t"
  shows "uptime_ok b s \<and> elapsed_millis b s \<le> elapsed_millis b t"
proof -
  have "(s - baseline b) div 1000000 \<le> (t - baseline b) div 1000000"
    using assms(1) by (intro div_le_mono) simp
  then show ?thesis using assms(2) by (simp add: uptime_ok_def elapsed_millis_def)
qed

lemma elapsed_cong [simp]:
  "elapsed_millis (b\<lparr>bstate := s\<rparr>) t = elapsed_millis b t"
  "elapsed_millis (b\<lparr>opened_at_millis := n\<rparr>) t = elapsed_millis b t"
  "elapsed_millis (b\<lparr>half_open_probes := w\<rparr>) t = elapsed_millis b t"
  "elapsed_millis (b\<lparr>probe_claimed_at_millis := n\<rparr>) t = elapsed_millis b t"
  "elapsed_millis (b\<lparr>is_open_fast := f\<rparr>) t = elapsed_millis b t"
  "elapsed_millis (b\<lparr>window := v\<rparr>) t = elapsed_millis b t"
  by (simp_all add: elapsed_millis_def)

lemma uptime_cong [simp]:
  "uptime_ok (b\<lparr>bstate := s\<rparr>) t = uptime_ok b t"
  "uptime_ok (b\<lparr>opened_at_millis := n\<rparr>) t = uptime_ok b t"
  "uptime_ok (b\<lparr>half_open_probes := w\<rparr>) t = uptime_ok b t"
  "uptime_ok (b\<lparr>probe_claimed_at_millis := n\<rparr>) t = uptime_ok b t"
  "uptime_ok (b\<lparr>is_open_fast := f\<rparr>) t = uptime_ok b t"
  "uptime_ok (b\<lparr>window := v\<rparr>) t = uptime_ok b t"
  by (simp_all add: uptime_ok_def)

lemma breaker_ok_later:
  assumes "breaker_ok (b, s)" and "s \<le> t" and "uptime_ok b t"
  shows "breaker_ok (b, t)"
  using assms elapsed_mono [OF assms(2,3)] sw.timed_mono [of s "window b" t] by auto

lemma timed_new [simp]: "sw.timed t window_new"
  by (simp add: sw.timed_def window_new_def)

lemma timed_clear [simp]: "sw.timed t (window_clear w)"
  by (simp add: sw.timed_def window_clear_def)

lemma breaker_init_ok: "breaker_init s \<Longrightarrow> run_ok s"
  by (cases s rule: breaker_init.cases) (auto simp: with_clock_def uptime_ok_def probes_exact_def)

section \<open>Every operation keeps the invariant\<close>

lemma probe_increment:
  assumes "unat (w :: 64 word) < m" and "m < 2 ^ 64"
  shows "w + 1 \<noteq> 0 \<and> unat (w + 1) \<le> m"
proof -
  have "unat (w + 1) = unat w + 1" using assms by (intro unat_inc) simp
  then show ?thesis using assms(1) by (auto simp: unat_eq_0)
qed

text \<open>A probe attempt in a state that satisfies all but the lower bound on the slots in use.\<close>

lemma try_probe_ok:
  assumes "window_ok (window b)" and "sw.timed t (window b)"
    and "bstate b = HalfOpen" and "\<not> is_open_fast b"
    and "unat (half_open_probes b) \<le> half_open_max_probes (config b)"
    and "1 \<le> half_open_max_probes (config b)" and "half_open_max_probes (config b) < 2 ^ 64"
    and "uptime_ok b t" and "opened_at_millis b \<le> elapsed_millis b t"
    and "probe_claimed_at_millis b \<le> elapsed_millis b t"
  shows "breaker_ok (fst (try_half_open_probe b t), t)"
proof (cases "unat (half_open_probes b) < half_open_max_probes (config b)")
  case True
  then show ?thesis
    using assms probe_increment [OF True assms(7)] by (simp add: try_half_open_probe_def Let_def)
next
  case False
  then have "half_open_probes b \<noteq> 0" using assms(6) by (auto simp: unat_eq_0)
  with False show ?thesis using assms by (simp add: try_half_open_probe_def Let_def)
qed

lemma check_ok:
  assumes ok: "breaker_ok (b, t)" and t: "t \<le> t1" "t1 \<le> t2" and up: "uptime_ok b t2"
  shows "breaker_ok (fst (check b t1 t2), t2)"
proof -
  have later: "breaker_ok (b, t1)" "breaker_ok (b, t2)"
    using breaker_ok_later [OF ok] t up elapsed_mono [OF t(2) up] by auto
  consider "\<not> enabled (config b) \<or> bstate b = Closed" | "enabled (config b)" "bstate b = Open"
    | "enabled (config b)" "bstate b = HalfOpen"
    by (cases "bstate b") auto
  then show ?thesis
  proof cases
    case 1
    with later show ?thesis by (auto simp: check_def)
  next
    case 2
    let ?b1 = "b\<lparr>bstate := HalfOpen, is_open_fast := False\<rparr>"
    have "breaker_ok (fst (try_half_open_probe ?b1 t2), t2)"
      using later 2 by (intro try_probe_ok) auto
    then show ?thesis
      using 2 later by (auto simp: check_def check_open_def cas_state_def Let_def split: prod.splits)
  next
    case 3
    have "breaker_ok (fst (try_half_open_probe b t1), t1)"
      using later 3 by (intro try_probe_ok) auto
    moreover have "uptime_ok (fst (try_half_open_probe b t1)) t2"
      using up by (auto simp: try_half_open_probe_def Let_def)
    ultimately have "breaker_ok (fst (try_half_open_probe b t1), t2)"
      using t(2) breaker_ok_later by blast
    then show ?thesis using 3 by (simp add: check_def)
  qed
qed

lemma push_sample_ok:
  assumes "breaker_ok (b, t)"
  shows "breaker_ok (push_sample b out t, t)"
  using assms sw.update_ok [of "window b" "out = Failure" t "window_duration (config b)"]
    sw.timed_update [of "window b" t "out = Failure" "window_duration (config b)"]
  by (simp add: push_sample_def)

lemma trip_ok: "breaker_ok (b, t) \<Longrightarrow> breaker_ok (fst (trip b p r t), t)"
  by (simp add: trip_def)

lemma close_ok: "breaker_ok (b, t) \<Longrightarrow> breaker_ok (fst (close b p r), t)"
  by (simp add: close_def)

lemma push_sample_frame [simp]:
  "uptime_ok (push_sample b out s) t = uptime_ok b t"
  "bstate (push_sample b out s) = bstate b"
  "config (push_sample b out s) = config b"
  by (simp_all add: push_sample_def)

lemma fst_case_pair: "fst (case p of (x, y) \<Rightarrow> (x, f x y)) = fst p"
  by (cases p) simp

lemma record_outcome_state:
  "fst (record_outcome b out t1 t2) =
     (if \<not> enabled (config b) then b
      else case bstate b of
        Closed \<Rightarrow>
          (if should_trip (config b) (window (push_sample b out t1))
           then fst (trip (push_sample b out t1) Closed ''trip'' t2) else push_sample b out t1)
      | Open \<Rightarrow> push_sample b out t1
      | HalfOpen \<Rightarrow>
          (if out = Failure then fst (trip b HalfOpen ''probe_failure'' t2)
           else fst (close b HalfOpen ''probe_success'')))"
  unfolding record_outcome_def Let_def
  by (cases "bstate b") (simp_all only: fst_case_pair if_False if_True breaker_state.case split: if_split, simp_all)

lemma record_ok:
  assumes ok: "breaker_ok (b, t)" and t: "t \<le> t1" "t1 \<le> t2" and up: "uptime_ok b t2"
  shows "breaker_ok (fst (record_outcome b out t1 t2), t2)"
proof -
  have later: "breaker_ok (b, t1)" "breaker_ok (b, t2)"
    using breaker_ok_later [OF ok] t up elapsed_mono [OF t(2) up] by auto
  have pushed: "breaker_ok (push_sample b out t1, t2)"
    by (rule breaker_ok_later [OF push_sample_ok [OF later(1)] t(2)]) (simp add: up)
  show ?thesis
    unfolding record_outcome_state
    using later(2) pushed
    by (auto split: breaker_state.split if_split intro: trip_ok close_ok
        simp del: breaker_ok.simps)
qed

lemma error_rate_ok:
  assumes "breaker_ok (b, t)" and "t \<le> t1" and "uptime_ok b t1"
  shows "breaker_ok (fst (error_rate b t1), t1)"
  using breaker_ok_later [OF assms] window_evict_ok [of "window b" "window_duration (config b)" t1]
    sw.timed_evict [of t1 "window b" "window_duration (config b)"]
  by (simp add: error_rate_def Let_def)

text \<open>Every operation also keeps the count of probes.\<close>

lemma try_probe_exact:
  assumes "try_half_open_probe b t = (b', evs, r)" and "bstate b = HalfOpen"
    and "enabled (config b)" and "half_open_max_probes (config b) < 2 ^ 64"
    and "unat (half_open_probes b) = min (half_open_max_probes (config b)) n"
    and "1 \<le> half_open_max_probes (config b)"
  shows "probes_exact b' (probes_after n b' (r = Inr ()))"
proof (cases "n < half_open_max_probes (config b)")
  case True
  then have "unat (half_open_probes b + 1) = Suc n"
    using unat_inc [of "half_open_probes b"] assms(4,5) by simp
  with True assms show ?thesis
    by (auto simp: try_half_open_probe_def Let_def probes_exact_def probes_after_def)
next
  case False
  with assms show ?thesis
    by (auto simp: try_half_open_probe_def Let_def probes_exact_def probes_after_def split: if_splits)
qed

lemma check_exact:
  assumes ok: "breaker_ok (b, t)" and ex: "probes_exact b n" and c: "check b t1 t2 = (b', evs, r)"
  shows "probes_exact b' (probes_after n b' (r = Inr ()))"
proof -
  consider "bstate b = Closed" | "enabled (config b)" "bstate b = Open"
    | "enabled (config b)" "bstate b = HalfOpen"
    using ex by (cases "bstate b") (auto simp: probes_exact_def)
  then show ?thesis
  proof cases
    case 1
    with c ex show ?thesis by (auto simp: check_def probes_after_def probes_exact_def split: if_splits)
  next
    case 2
    show ?thesis
    proof (cases "open_duration (config b) \<le> millis (elapsed_millis b t1 - opened_at_millis b)")
      case True
      let ?b1 = "b\<lparr>bstate := HalfOpen, is_open_fast := False\<rparr>"
      obtain evs' where "try_half_open_probe ?b1 t2 = (b', evs', r)"
        using True 2 c by (auto simp: check_def check_open_def cas_state_def Let_def split: prod.splits)
      then show ?thesis
        using 2 ok ex by (intro try_probe_exact [where b = ?b1]) (auto simp: probes_exact_def)
    next
      case False
      with 2 c ex show ?thesis
        by (auto simp: check_def check_open_def Let_def probes_after_def probes_exact_def)
    qed
  next
    case 3
    then show ?thesis
      using c ok ex by (intro try_probe_exact [where b = b]) (auto simp: check_def probes_exact_def)
  qed
qed

lemma record_exact:
  assumes "breaker_ok (b, t)" and "probes_exact b n" and "fst (record_outcome b out t1 t2) = b'"
  shows "probes_exact b' (probes_after n b' False)"
  using assms(3) [symmetric] assms(1,2) unfolding record_outcome_state
  by (auto simp: probes_exact_def probes_after_def trip_def close_def push_sample_def
      split: breaker_state.splits if_splits)

lemma error_rate_exact:
  "probes_exact b n \<Longrightarrow> fst (error_rate b t1) = b' \<Longrightarrow> probes_exact b' (probes_after n b' False)"
  by (auto simp: error_rate_def Let_def probes_exact_def probes_after_def)

lemma breaker_step_ok:
  assumes "breaker_step s s'" and "run_ok s"
  shows "run_ok s'"
  using assms
proof (induction rule: breaker_step.induct)
  case (check_step t t1 t2 b b' evs r n)
  then show ?case
    using check_ok [of b t t1 t2] check_exact [of b t n t1 t2 b' evs r] by (simp del: breaker_ok.simps)
next
  case (record_step t t1 t2 b out b' n)
  then show ?case
    using record_ok [of b t t1 t2 out] record_exact [of b t n out t1 t2 b'] by (simp del: breaker_ok.simps)
next
  case (rate_step t t1 b b' n)
  then show ?case
    using error_rate_ok [of b t t1] error_rate_exact [of b n t1 b'] by (simp del: breaker_ok.simps)
qed

interpretation br: step_invariant breaker_init breaker_step run_ok
  by unfold_locales (blast intro: breaker_init_ok breaker_step_ok)+

section \<open>Half-open probes\<close>

text \<open>A sequence of \<^verbatim>\<open>check()\<close> calls and the number of callers let through.\<close>

fun check_run :: "breaker \<Rightarrow> (nat \<times> nat) list \<Rightarrow> breaker \<times> nat" where
  "check_run b [] = (b, 0)"
| "check_run b ((t1, t2) # ts) =
     (case check b t1 t2 of
        (b1, _, r) \<Rightarrow> (case check_run b1 ts of (b2, n) \<Rightarrow> (b2, (if isl r then n else Suc n))))"

text \<open>No claim is old enough to be treated as abandoned at any of the given times.\<close>

definition lease_live :: "breaker \<Rightarrow> (nat \<times> nat) list \<Rightarrow> bool" where
  "lease_live b ts \<longleftrightarrow>
     list_all (\<lambda>(t1, t2). probe_claimed_at_millis b \<le> elapsed_millis b t1 \<and>
                 elapsed_millis b t1 - probe_claimed_at_millis b < lease_millis b) ts"

lemma half_open_check_cases:
  assumes "enabled (config b)" and "bstate b = HalfOpen"
    and "half_open_max_probes (config b) < 2 ^ 64"
    and live: "elapsed_millis b t1 - probe_claimed_at_millis b < lease_millis b"
  obtains (admitted) "unat (half_open_probes b) < half_open_max_probes (config b)"
      and "check b t1 t2 = (b\<lparr>half_open_probes := half_open_probes b + 1,
                             probe_claimed_at_millis := elapsed_millis b t1\<rparr>,
                           [OnProbeAdmission True], Inr ())"
      and "unat (half_open_probes b + 1) = Suc (unat (half_open_probes b))"
  | (shed) "half_open_max_probes (config b) \<le> unat (half_open_probes b)"
      and "check b t1 t2 = (b, [OnProbeAdmission False],
             Inl (BreakerOpen (min HALF_OPEN_PROBE_BACKOFF (open_duration (config b)))))"
proof (cases "unat (half_open_probes b) < half_open_max_probes (config b)")
  case True
  have "unat (half_open_probes b + 1) = Suc (unat (half_open_probes b))"
    using unat_inc [of "half_open_probes b"] True assms(3) by simp
  with True assms show ?thesis
    by (intro admitted) (simp_all add: check_def try_half_open_probe_def Let_def)
next
  case False
  with assms show ?thesis
    by (intro shed) (simp_all add: check_def try_half_open_probe_def Let_def)
qed

lemma check_run_bound:
  assumes "enabled (config b)" and "bstate b = HalfOpen"
    and "half_open_max_probes (config b) < 2 ^ 64"
    and "unat (half_open_probes b) \<le> half_open_max_probes (config b)"
    and "sorted (map fst ts)" and "lease_live b ts"
    and "list_all (\<lambda>(t1, t2). uptime_ok b t1) ts"
  shows "snd (check_run b ts) + unat (half_open_probes b) \<le> half_open_max_probes (config b)"
  using assms
proof (induction ts arbitrary: b)
  case (Cons x ts)
  obtain t1 t2 where x: "x = (t1, t2)" by fastforce
  have live: "elapsed_millis b t1 - probe_claimed_at_millis b < lease_millis b"
    and past: "probe_claimed_at_millis b \<le> elapsed_millis b t1"
    and live': "lease_live b ts" using Cons.prems(6) by (simp_all add: x lease_live_def)
  from Cons.prems(1-3) live show ?case
  proof (cases rule: half_open_check_cases [where ?t2.0 = t2])
    case admitted
    let ?b1 = "b\<lparr>half_open_probes := half_open_probes b + 1,
                 probe_claimed_at_millis := elapsed_millis b t1\<rparr>"
    have "lease_live ?b1 ts"
      unfolding lease_live_def list_all_iff
    proof clarify
      fix s1 s2 assume s: "(s1, s2) \<in> set ts"
      have "t1 \<le> s1" and "uptime_ok b s1"
        using s Cons.prems(5,7) by (auto simp: x list_all_iff)
      then have "elapsed_millis b t1 \<le> elapsed_millis b s1" using elapsed_mono by blast
      moreover have "elapsed_millis b s1 - probe_claimed_at_millis b < lease_millis b"
        using live' s by (auto simp: lease_live_def list_all_iff)
      moreover have "lease_millis ?b1 = lease_millis b" by (simp add: lease_millis_def)
      ultimately show "probe_claimed_at_millis ?b1 \<le> elapsed_millis ?b1 s1 \<and>
          elapsed_millis ?b1 s1 - probe_claimed_at_millis ?b1 < lease_millis ?b1"
        using past by simp
    qed
    then have "snd (check_run ?b1 ts) + unat (half_open_probes ?b1)
                 \<le> half_open_max_probes (config ?b1)"
      using Cons.prems admitted by (intro Cons.IH) (auto simp: x)
    then show ?thesis using admitted by (simp add: x case_prod_unfold)
  next
    case shed
    then show ?thesis
      using Cons.IH [of b] Cons.prems live' by (simp add: x case_prod_unfold)
  qed
qed simp

section \<open>Registry runs\<close>

text \<open>The registry after a sequence of lookups, with the addresses handed out.\<close>

fun registry_run :: "registry \<Rightarrow> (ustr \<times> nat) list \<Rightarrow> registry \<times> nat option list" where
  "registry_run r [] = (r, [])"
| "registry_run r ((key, now) # ks) =
     (case registry_get r key now of
        (r1, a) \<Rightarrow> (case registry_run r1 ks of (r2, as) \<Rightarrow> (r2, a # as)))"

definition registry_ok :: "registry \<Rightarrow> bool" where
  "registry_ok r \<longleftrightarrow>
     (\<forall>k a. reg_breakers r k = Some a \<longrightarrow> a < length (reg_heap r)) \<and>
     (\<forall>k l a. reg_breakers r k = Some a \<longrightarrow> reg_breakers r l = Some a \<longrightarrow> k = l)"

lemma registry_get_ok: "registry_ok r \<Longrightarrow> registry_ok (fst (registry_get r k now))"
  unfolding registry_ok_def registry_get_def Let_def
  by (auto split: option.splits simp: less_Suc_eq)

lemma registry_get_grows:
  "registry_ok r \<Longrightarrow> registry_get r k now = (r1, a) \<Longrightarrow>
   reg_config r1 = reg_config r \<and> reg_breakers r \<subseteq>\<^sub>m reg_breakers r1 \<and>
   (enabled (reg_config r) \<longrightarrow> reg_breakers r1 k = a \<and> a \<noteq> None)"
  by (cases "reg_breakers r k") (auto simp: registry_get_def Let_def map_le_def
      split: if_splits dest: sym [of "Some _"])

lemma registry_run_props:
  assumes "registry_ok r" and "enabled (reg_config r)" and "registry_run r ks = (r', as)"
  shows "registry_ok r' \<and> reg_breakers r \<subseteq>\<^sub>m reg_breakers r' \<and> length as = length ks \<and>
         (\<forall>i < length ks. reg_breakers r' (fst (ks ! i)) = as ! i \<and> as ! i \<noteq> None)"
  using assms
proof (induction ks arbitrary: r as)
  case (Cons x ks)
  obtain key now where x: "x = (key, now)" by fastforce
  obtain r1 a where g: "registry_get r key now = (r1, a)" by fastforce
  obtain as' where run: "registry_run r1 ks = (r', as')" and as: "as = a # as'"
    using Cons.prems(3) by (auto simp: x g split: prod.splits)
  have ok1: "registry_ok r1" using registry_get_ok [OF Cons.prems(1), of key now] g by simp
  have grow: "reg_config r1 = reg_config r" "reg_breakers r \<subseteq>\<^sub>m reg_breakers r1"
    "reg_breakers r1 key = a" "a \<noteq> None"
    using registry_get_grows [OF Cons.prems(1) g] Cons.prems(2) by auto
  have ih: "registry_ok r' \<and> reg_breakers r1 \<subseteq>\<^sub>m reg_breakers r' \<and> length as' = length ks \<and>
      (\<forall>i < length ks. reg_breakers r' (fst (ks ! i)) = as' ! i \<and> as' ! i \<noteq> None)"
    using Cons.IH [OF ok1 _ run] Cons.prems(2) grow(1) by simp
  moreover have "reg_breakers r' key = a"
    using ih grow(3,4) by (metis map_le_def domIff)
  ultimately show ?case
    using grow map_le_trans by (auto simp: as x nth_Cons split: nat.splits)
qed simp

section \<open>Samples that count\<close>

text \<open>The newest samples up to the cap, restricted to the last \<open>d\<close> nanoseconds.\<close>

definition recent_samples :: "nat \<Rightarrow> nat \<Rightarrow> (nat \<times> bool) list \<Rightarrow> (nat \<times> bool) list" where
  "recent_samples d t es = filter (\<lambda>e. t - d \<le> fst e) (drop (length es - MAX_WINDOW_ENTRIES) es)"

lemma recent_samples_snoc:
  "recent_samples d t (es @ [(t, f)]) =
   filter (\<lambda>e. t - d \<le> fst e) (drop (Suc (length es) - MAX_WINDOW_ENTRIES) es @ [(t, f)])"
  by (simp add: recent_samples_def MAX_WINDOW_ENTRIES_def)

text \<open>A breaker with nine failures, for the witnesses.\<close>

definition nine_failures :: breaker where
  "nine_failures =
     (with_clock config_server 0)\<lparr>window :=
        \<lparr>entries = [(1, True), (1, True), (1, True), (1, True), (1, True),
                    (1, True), (1, True), (1, True), (1, True)],
         failures = 9\<rparr>\<rparr>"

lemma nine_failures_ok: "breaker_ok (nine_failures, 1)"
  by (simp add: nine_failures_def with_clock_def config_server_def window_ok_def sw.timed_def
      uptime_ok_def elapsed_millis_def MAX_WINDOW_ENTRIES_def)

section \<open>Properties\<close>

text \<open>
  C1. In every state a breaker can reach by non-overlapping operations under a monotonic clock,
  the lock-free mirror agrees with the authoritative state, the incremental failure counter of
  the window is exact and within the cap, no recorded time stamp lies in the future, and the
  probe counter is exact: it is the number of callers \<^verbatim>\<open>check\<close> has let through since the breaker
  became half-open, or the configured maximum once that many have entered, and it is zero
  outside \<open>HalfOpen\<close>.
\<close>

theorem breaker_run_invariant:
  assumes "breaker_init s" and "rtranclp breaker_step s ((b, t), n)"
  shows "breaker_ok (b, t) \<and> (bstate b = HalfOpen \<longleftrightarrow> 0 < n) \<and>
         unat (half_open_probes b) = min (half_open_max_probes (config b)) n"
  using br.reachable_inv [OF assms] by (simp add: probes_exact_def del: breaker_ok.simps)

theorem breaker_run_invariant_witness:
  "breaker_ok (fst (record_outcome (with_clock config_server 0) Failure 5 6), 6)"
proof -
  let ?s = "((with_clock config_server 0, 0 :: nat), 0 :: nat)"
  let ?b = "fst (record_outcome (with_clock config_server 0) Failure 5 6)"
  have "breaker_init ?s" by (auto simp: config_server_def intro: exI [of _ config_server])
  moreover have "breaker_step ?s ((?b, 6), probes_after 0 ?b False)"
    by (rule record_step) (simp_all add: uptime_ok_def with_clock_def)
  ultimately show ?thesis
    using breaker_run_invariant [of ?s ?b 6 "probes_after 0 ?b False"] by blast
qed

text \<open>
  C2. With the server preset a closed breaker opens on recording an outcome exactly when, among
  the newest 10000 samples including the new one, those of the last 60 seconds number at least
  ten and at least half of them are failures; the rounding of the quotient to a double never
  changes the verdict.
\<close>

theorem record_trips_iff:
  assumes "breaker_ok (b, t)" and "t \<le> t1" and "uptime_ok b t1"
    and "bstate b = Closed" and "config b = config_server"
    and "es = recent_samples (secs 60) t1 (entries (window b) @ [(t1, out = Failure)])"
  shows "bstate (fst (record_outcome b out t1 t2)) = Open \<longleftrightarrow>
         10 \<le> length es \<and> length es \<le> 2 * length (filter snd es)"
proof -
  have ok: "window_ok (window b)" "sw.timed t1 (window b)"
    using breaker_ok_later [OF assms(1-3)] by auto
  let ?w = "window (push_sample b out t1)"
  have es: "entries ?w = es"
    using sw.samples_update [OF ok, of "out = Failure" "secs 60"] assms(5,6)
    by (simp add: push_sample_def config_server_def recent_samples_snoc)
  have wok: "window_ok ?w"
    using sw.update_ok [OF ok(1)] by (simp add: push_sample_def)
  have "(t1, out = Failure) \<in> set es" by (simp add: assms(6) recent_samples_snoc)
  then have ne: "entries ?w \<noteq> []" by (auto simp: es)
  have "should_trip config_server ?w \<longleftrightarrow> 10 \<le> length es \<and> length es \<le> 2 * failure_count es"
    using error_rate_half [OF wok ne] es
    by (simp add: should_trip_def config_server_def sample_count_def)
  moreover have "enabled config_server" by (simp add: config_server_def)
  ultimately show ?thesis
    using assms(4,5) by (simp add: record_outcome_state trip_def failure_count_def)
qed

theorem record_trips_iff_witness:
  "bstate (fst (record_outcome nine_failures Success 2 3)) = Open"
  using record_trips_iff [OF nine_failures_ok, of 2 _ Success 3, OF _ _ _ _ refl]
  by (simp add: nine_failures_def with_clock_def config_server_def uptime_ok_def
      recent_samples_def MAX_WINDOW_ENTRIES_def secs_def)

text \<open>
  C3. Load shedding and recovery of an open breaker. Before the cool-down has passed, \<^verbatim>\<open>check\<close>
  rejects, advertises exactly the remaining (positive) cool-down and changes nothing. From the
  first call after it, \<^verbatim>\<open>check\<close> admits the caller as the single probe of a fresh \<open>HalfOpen\<close>
  phase and the mirror is cleared. So a tripped breaker always gets back to probing.
\<close>

theorem open_check_behaviour:
  assumes "breaker_ok (b, t)" and "enabled (config b)" and "bstate b = Open"
  shows "(millis (elapsed_millis b t1 - opened_at_millis b) < open_duration (config b) \<longrightarrow>
            check b t1 t2 =
              (b, [], Inl (BreakerOpen (open_duration (config b) -
                                        millis (elapsed_millis b t1 - opened_at_millis b)))))
       \<and> (open_duration (config b) \<le> millis (elapsed_millis b t1 - opened_at_millis b) \<longrightarrow>
            check b t1 t2 =
              (b\<lparr>bstate := HalfOpen, is_open_fast := False, half_open_probes := 1,
                 probe_claimed_at_millis := elapsed_millis b t2\<rparr>,
               [OnStateChange Open HalfOpen ''open_elapsed'', OnProbeAdmission True], Inr ()))"
proof -
  have "half_open_probes b = 0" and "0 < half_open_max_probes (config b)"
    using assms by auto
  then show ?thesis
    using assms(2,3)
    by (simp add: check_def check_open_def cas_state_def try_half_open_probe_def Let_def)
qed

text \<open>The same breaker after a tenth failure has tripped it one second into its life.\<close>

definition tripped :: breaker where
  "tripped = fst (record_outcome nine_failures Failure (secs 1) (secs 1))"

lemma tripped_eq:
  "tripped = nine_failures\<lparr>window := window tripped, bstate := Open, opened_at_millis := 1000,
                          is_open_fast := True\<rparr>"
proof -
  have "bstate tripped = Open"
    unfolding tripped_def
    using nine_failures_ok
    by (simp add: record_outcome_state nine_failures_def with_clock_def push_sample_def
        should_trip_def config_server_def trip_def window_push_def window_evict_def secs_def
        sample_count_def window_error_rate_def MAX_WINDOW_ENTRIES_def f64_ratio_def
        ratio_bits_def div_round_even_def)
  then show ?thesis
    unfolding tripped_def
    by (simp add: record_outcome_state nine_failures_def with_clock_def push_sample_def
        config_server_def trip_def elapsed_millis_def secs_def split: if_splits)
qed

lemma tripped_ok: "breaker_ok (tripped, secs 1)"
  unfolding tripped_def
  by (rule record_ok [OF nine_failures_ok])
     (simp_all add: uptime_ok_def secs_def nine_failures_def with_clock_def)

lemma tripped_facts [simp]:
  "bstate tripped = Open" "config tripped = config_server" "opened_at_millis tripped = 1000"
  "baseline tripped = 0" "half_open_probes tripped = 0"
  by (subst tripped_eq, simp add: nine_failures_def with_clock_def config_server_def)+

lemma config_server_facts [simp]:
  "enabled config_server" "open_duration config_server = 10000000000"
  "half_open_max_probes config_server = 1"
  by (simp_all add: config_server_def secs_def)

theorem open_check_behaviour_witness:
  "snd (snd (check tripped (secs 5) (secs 5))) = Inl (BreakerOpen (secs 6)) \<and>
   snd (snd (check tripped (secs 11) (secs 11))) = Inr ()"
  using open_check_behaviour [OF tripped_ok, of "secs 5" "secs 5"]
    open_check_behaviour [OF tripped_ok, of "secs 11" "secs 11"]
  by (simp add: elapsed_millis_def millis_def secs_def)

text \<open>
  Probe admission while half-open: however many callers consult the breaker, as long as no
  claim has become old enough to count as abandoned, the number admitted together with those
  already in flight never exceeds \<^verbatim>\<open>half_open_max_probes\<close>.
\<close>

lemma half_open_probe_bound:
  assumes "breaker_ok (b, t)" and "enabled (config b)" and "bstate b = HalfOpen"
    and "sorted (map fst ts)" and "list_all (\<lambda>(t1, t2). uptime_ok b t1) ts"
    and "lease_live b ts"
  shows "snd (check_run b ts) + unat (half_open_probes b) \<le> half_open_max_probes (config b)"
  using assms by (intro check_run_bound) auto

text \<open>The breaker just after the probe of \<open>tripped\<close> was admitted.\<close>

definition probing :: breaker where
  "probing = fst (check tripped (secs 11) (secs 11))"

lemma probing_eq:
  "probing = tripped\<lparr>bstate := HalfOpen, is_open_fast := False, half_open_probes := 1,
                     probe_claimed_at_millis := 11000\<rparr>"
  by (simp add: probing_def check_def check_open_def cas_state_def try_half_open_probe_def Let_def
      elapsed_millis_def millis_def secs_def)

lemma probing_ok: "breaker_ok (probing, secs 11)"
  unfolding probing_def
  by (rule check_ok [OF tripped_ok]) (simp_all add: secs_def uptime_ok_def)

text \<open>
  A half-open breaker is never stranded: whatever the probe counter holds, once the newest
  claim is at least one cool-down old, the next \<^verbatim>\<open>check\<close> is admitted and renews the claim, so
  that a further caller at the same time is not admitted through the lease as well.
\<close>

lemma abandoned_probe_reclaimed:
  assumes "enabled (config b)" and "bstate b = HalfOpen"
    and "lease_millis b \<le> elapsed_millis b t1 - probe_claimed_at_millis b"
    and "check b t1 t2 = (b', evs, r)"
  shows "r = Inr () \<and> bstate b' = HalfOpen \<and> probe_claimed_at_millis b' = elapsed_millis b t1 \<and>
         (half_open_max_probes (config b) \<le> unat (half_open_probes b) \<longrightarrow> 0 < lease_millis b \<longrightarrow>
          isl (snd (snd (check b' t1 t2))))"
proof (cases "unat (half_open_probes b) < half_open_max_probes (config b)")
  case True
  with assms show ?thesis
    by (clarsimp simp: check_def try_half_open_probe_def Let_def)
next
  case False
  have lease: "lease_millis (b\<lparr>probe_claimed_at_millis := n\<rparr>) = lease_millis b" for n
    by (simp add: lease_millis_def)
  from False assms have "b' = b\<lparr>probe_claimed_at_millis := elapsed_millis b t1\<rparr> \<and> r = Inr ()"
    by (clarsimp simp: check_def try_half_open_probe_def Let_def)
  with False assms(1,2) show ?thesis
    by (simp add: check_def try_half_open_probe_def lease)
qed

text \<open>
  C4. Probes while half-open: as long as no claim has become old enough to count as abandoned, the number of callers
  admitted together with those already in flight never exceeds \<^verbatim>\<open>half_open_max_probes\<close>, however many callers consult
  the breaker. And a half-open breaker is never stranded: whatever the probe counter holds, once the newest claim is at
  least one cool-down old, the next \<^verbatim>\<open>check\<close> is admitted and renews the claim; if all slots
  were claimed and the lease is positive, a further caller at the same time is then rejected (with a
  free slot it would be admitted through that).
\<close>

theorem half_open_probes_bounded_and_reclaimed:
  assumes "enabled (config b)" and "bstate b = HalfOpen"
  shows "(breaker_ok (b, t) \<longrightarrow> sorted (map fst ts) \<longrightarrow> list_all (\<lambda>(t1, t2). uptime_ok b t1) ts \<longrightarrow> lease_live b ts \<longrightarrow>
      snd (check_run b ts) + unat (half_open_probes b) \<le> half_open_max_probes (config b)) \<and>
    (lease_millis b \<le> elapsed_millis b t1 - probe_claimed_at_millis b \<longrightarrow> check b t1 t2 = (b', evs, r) \<longrightarrow>
      r = Inr () \<and> bstate b' = HalfOpen \<and> probe_claimed_at_millis b' = elapsed_millis b t1 \<and>
      (half_open_max_probes (config b) \<le> unat (half_open_probes b) \<longrightarrow> 0 < lease_millis b \<longrightarrow>
       isl (snd (snd (check b' t1 t2)))))"
  using half_open_probe_bound [OF _ assms] abandoned_probe_reclaimed [OF assms] by blast

theorem half_open_probes_bounded_and_reclaimed_witness:
  "snd (check_run probing [(secs 12, secs 12), (secs 13, secs 13)]) = 0 \<and>
   snd (snd (check probing (secs 21) (secs 21))) = Inr ()"
proof -
  obtain b' evs r where c: "check probing (secs 21) (secs 21) = (b', evs, r)"
    by (cases "check probing (secs 21) (secs 21)") auto
  have p: "enabled (config probing)" "bstate probing = HalfOpen" by (simp_all add: probing_eq)
  from half_open_probes_bounded_and_reclaimed [OF p, of "secs 11" "[(secs 12, secs 12), (secs 13, secs 13)]" "secs 21" "secs 21" b' evs r]
    probing_ok c
  show ?thesis by (simp add: probing_eq uptime_ok_def secs_def lease_live_def lease_millis_def elapsed_millis_def)
qed

text \<open>
  C6. The registry shares breakers: in any sequence of lookups on an enabled registry every
  lookup returns a breaker, and two lookups return the same breaker exactly when their keys are
  equal.
\<close>

theorem registry_shares_by_key:
  assumes "enabled c" and "registry_run (registry_new c) ks = (r, as)"
    and "i < length ks" and "j < length ks"
  shows "as ! i \<noteq> None \<and> (as ! i = as ! j \<longleftrightarrow> fst (ks ! i) = fst (ks ! j))"
proof -
  have "registry_ok (registry_new c)" by (simp add: registry_ok_def registry_new_def)
  then have "registry_ok r" and *: "\<And>k. k < length ks \<Longrightarrow>
      reg_breakers r (fst (ks ! k)) = as ! k \<and> as ! k \<noteq> None"
    using registry_run_props [of "registry_new c" ks r as] assms(1,2)
    by (auto simp: registry_new_def)
  then show ?thesis
    using assms(3,4) unfolding registry_ok_def by (metis not_None_eq)
qed

theorem registry_shares_by_key_witness:
  "\<exists>r as. registry_run (registry_new config_server) [(u ''a'', 0), (u ''b'', 1), (u ''a'', 2)] = (r, as) \<and>
     as ! 0 = as ! 2 \<and> as ! 0 \<noteq> as ! 1"
proof -
  obtain r as where run: "registry_run (registry_new config_server) [(u ''a'', 0), (u ''b'', 1), (u ''a'', 2)] = (r, as)"
    by fastforce
  from registry_shares_by_key [OF _ run, of 0 2] registry_shares_by_key [OF _ run, of 0 1] run
  show ?thesis by (auto simp: u_def)
qed

end
