(* ===== verification/Breaker_Concurrency.thy ===== *)
theory Breaker_Concurrency
  imports Breaker_Safety
begin

text \<open>
  The circuit breaker under concurrent callers
  (\<^verbatim>\<open>crates/common/xai-circuit-breaker/src/breaker.rs\<close>). Each atomic load, store,
  read-modify-write, clock reading and critical section of \<^verbatim>\<open>check\<close> and \<^verbatim>\<open>record\<close> is one
  micro-step of the calling thread; \<open>pc\<close> names the next one, with the local variables the rest
  of the call uses. A step of the whole system is a micro-step of any thread, the start of a
  call by an idle thread, or the passing of time. Accesses are sequentially consistent, which
  the acquire/release orderings of the source only weaken; observer callbacks are left out.
\<close>

section \<open>Micro-steps\<close>

datatype pc =
    Idle
  | CheckLoad
  | OpenLoad
  | OpenClock nat
  | OpenCas
  | OpenMirror
  | LostLoad
  | LostOpened
  | LostClock nat
  | ProbeClock
  | ProbeAdd nat
  | ProbeClaim nat
  | ProbeSub nat
  | ProbeLoad nat
  | ProbeCas nat nat
  | CheckDone "breaker_open + unit"
  | RecClock outcome
  | RecLoad outcome nat
  | RecClosed outcome nat
  | RecOpen outcome nat
  | TripState
  | TripClock
  | TripOpened nat
  | TripProbes
  | TripMirror
  | CloseState
  | CloseWindow
  | CloseProbes
  | CloseMirror
  | RecDone

text \<open>One micro-step at time \<open>t\<close>; finished and idle threads do not move.\<close>

fun micro :: "nat \<Rightarrow> breaker \<Rightarrow> pc \<Rightarrow> breaker \<times> pc" where
  "micro t b Idle = (b, Idle)"
| "micro t b CheckLoad =
     (b, if \<not> enabled (config b) then CheckDone (Inr ())
         else (case bstate b of
                 Closed \<Rightarrow> CheckDone (Inr ()) | Open \<Rightarrow> OpenLoad | HalfOpen \<Rightarrow> ProbeClock))"
| "micro t b OpenLoad = (b, OpenClock (opened_at_millis b))"
| "micro t b (OpenClock opened) =
     (let elapsed = millis (elapsed_millis b t - opened)
      in (b, if open_duration (config b) \<le> elapsed then OpenCas
             else CheckDone (Inl (BreakerOpen (open_duration (config b) - elapsed)))))"
| "micro t b OpenCas =
     (case cas_state b Open HalfOpen of (b1, won) \<Rightarrow> (b1, if won then OpenMirror else LostLoad))"
| "micro t b OpenMirror = (b\<lparr>is_open_fast := False\<rparr>, ProbeClock)"
| "micro t b LostLoad =
     (b, case bstate b of
           Closed \<Rightarrow> CheckDone (Inr ()) | HalfOpen \<Rightarrow> ProbeClock | Open \<Rightarrow> LostOpened)"
| "micro t b LostOpened = (b, LostClock (opened_at_millis b))"
| "micro t b (LostClock opened) =
     (b, CheckDone (Inl (BreakerOpen
           (open_duration (config b) - millis (elapsed_millis b t - opened)))))"
| "micro t b ProbeClock = (b, ProbeAdd (elapsed_millis b t))"
| "micro t b (ProbeAdd now) =
     (b\<lparr>half_open_probes := half_open_probes b + 1\<rparr>,
      if unat (half_open_probes b) < half_open_max_probes (config b)
      then ProbeClaim now else ProbeSub now)"
| "micro t b (ProbeClaim now) = (b\<lparr>probe_claimed_at_millis := now\<rparr>, CheckDone (Inr ()))"
| "micro t b (ProbeSub now) =
     (b\<lparr>half_open_probes := half_open_probes b - 1\<rparr>, ProbeLoad now)"
| "micro t b (ProbeLoad now) =
     (b, if lease_millis b \<le> now - probe_claimed_at_millis b
         then ProbeCas now (probe_claimed_at_millis b)
         else CheckDone (Inl (BreakerOpen
                (min HALF_OPEN_PROBE_BACKOFF (open_duration (config b))))))"
| "micro t b (ProbeCas now claimed) =
     (if probe_claimed_at_millis b = claimed
      then (b\<lparr>probe_claimed_at_millis := now\<rparr>, CheckDone (Inr ()))
      else (b, CheckDone (Inl (BreakerOpen
                 (min HALF_OPEN_PROBE_BACKOFF (open_duration (config b)))))))"
| "micro t b (CheckDone r) = (b, CheckDone r)"
| "micro t b (RecClock out) =
     (b, if \<not> enabled (config b) then RecDone else RecLoad out t)"
| "micro t b (RecLoad out now) =
     (b, case bstate b of
           Closed \<Rightarrow> RecClosed out now
         | HalfOpen \<Rightarrow> (if out = Failure then TripState else CloseState)
         | Open \<Rightarrow> RecOpen out now)"
| "micro t b (RecClosed out now) =
     (let b1 = push_sample b out now
      in (b1, if should_trip (config b1) (window b1) then TripState else RecDone))"
| "micro t b (RecOpen out now) = (push_sample b out now, RecDone)"
| "micro t b TripState = (b\<lparr>bstate := Open\<rparr>, TripClock)"
| "micro t b TripClock = (b, TripOpened (elapsed_millis b t))"
| "micro t b (TripOpened n) = (b\<lparr>opened_at_millis := n\<rparr>, TripProbes)"
| "micro t b TripProbes = (b\<lparr>half_open_probes := 0\<rparr>, TripMirror)"
| "micro t b TripMirror = (b\<lparr>is_open_fast := True\<rparr>, RecDone)"
| "micro t b CloseState = (b\<lparr>bstate := Closed\<rparr>, CloseWindow)"
| "micro t b CloseWindow = (b\<lparr>window := window_clear (window b)\<rparr>, CloseProbes)"
| "micro t b CloseProbes = (b\<lparr>half_open_probes := 0\<rparr>, CloseMirror)"
| "micro t b CloseMirror = (b\<lparr>is_open_fast := False\<rparr>, RecDone)"
| "micro t b RecDone = (b, RecDone)"

text \<open>A pool of threads around one shared breaker.\<close>

record csys =
  shared :: breaker
  pcs :: "pc list"
  clock :: nat

inductive cstep :: "csys \<Rightarrow> csys \<Rightarrow> bool" where
  start_check: "i < length (pcs s) \<Longrightarrow> pcs s ! i = Idle \<Longrightarrow>
                cstep s (s\<lparr>pcs := (pcs s)[i := CheckLoad]\<rparr>)"
| start_record: "i < length (pcs s) \<Longrightarrow> pcs s ! i = Idle \<Longrightarrow>
                 cstep s (s\<lparr>pcs := (pcs s)[i := RecClock out]\<rparr>)"
| move: "i < length (pcs s) \<Longrightarrow> micro (clock s) (shared s) (pcs s ! i) = (b, p) \<Longrightarrow>
         cstep s (s\<lparr>shared := b, pcs := (pcs s)[i := p]\<rparr>)"
| finish: "i < length (pcs s) \<Longrightarrow> pcs s ! i = CheckDone r \<or> pcs s ! i = RecDone \<Longrightarrow>
           cstep s (s\<lparr>pcs := (pcs s)[i := Idle]\<rparr>)"
| tick: "clock s \<le> t \<Longrightarrow> cstep s (s\<lparr>clock := t\<rparr>)"

fun cinit :: "csys \<Rightarrow> bool" where
  "cinit s \<longleftrightarrow> (\<exists>c. shared s = with_clock c (clock s)) \<and> list_all ((=) Idle) (pcs s)"

section \<open>A thread running alone\<close>

text \<open>Run one call to completion, the \<open>n\<close>-th micro-step at the \<open>n\<close>-th time of the list.\<close>

fun solo :: "nat list \<Rightarrow> breaker \<Rightarrow> pc \<Rightarrow> breaker \<times> pc" where
  "solo [] b p = (b, p)"
| "solo (t # ts) b p = (case micro t b p of (b1, p1) \<Rightarrow> solo ts b1 p1)"

declare micro.simps [simp del]

lemma solo_append: "solo (xs @ ys) b p = (case solo xs b p of (b1, p1) \<Rightarrow> solo ys b1 p1)"
  by (induction xs arbitrary: b p) (auto split: prod.splits)

lemma solo_done [simp]: "solo ts b (CheckDone r) = (b, CheckDone r)" "solo ts b RecDone = (b, RecDone)"
  by (induction ts) (simp_all add: micro.simps)

lemma solo_probe:
  "solo [t, t', t', t', t'] b ProbeClock =
     (fst (try_half_open_probe b t), CheckDone (snd (snd (try_half_open_probe b t))))"
  by (simp add: try_half_open_probe_def Let_def micro.simps lease_millis_def elapsed_millis_def)

lemma solo_check:
  "solo [t1, t1, t1, t2, t2, t2, t2, t2, t2, t2] b CheckLoad =
     (fst (check b t1 t2), CheckDone (snd (snd (check b t1 t2))))"
proof (cases "enabled (config b)")
  case True
  show ?thesis
  proof (cases "bstate b")
    case Closed
    with True show ?thesis by (simp add: micro.simps check_def)
  next
    case Open
    with True show ?thesis
      using solo_probe [of t2 t2 "b\<lparr>bstate := HalfOpen, is_open_fast := False\<rparr>"]
      by (simp add: micro.simps check_def check_open_def cas_state_def Let_def
          split: prod.splits del: elapsed_cong)
  next
    case HalfOpen
    with True show ?thesis
      by (simp add: micro.simps check_def try_half_open_probe_def Let_def lease_millis_def
          elapsed_millis_def)
  qed
qed (simp add: micro.simps check_def)

lemma solo_record:
  "solo [t1, t1, t1, t2, t2, t2, t2, t2] b (RecClock out) =
     (fst (record_outcome b out t1 t2), RecDone)"
  unfolding record_outcome_state
  by (cases "bstate b") (simp_all add: micro.simps trip_def close_def Let_def push_sample_def
      elapsed_millis_def)

section \<open>Runs alone are runs of the system\<close>

lemma solo_reachable:
  assumes "sorted (clock s # ts)" and "i < length (pcs s)"
    and "solo ts (shared s) (pcs s ! i) = (b, p)"
  shows "rtranclp cstep s (s\<lparr>shared := b, pcs := (pcs s)[i := p], clock := last (clock s # ts)\<rparr>)"
  using assms
proof (induction ts arbitrary: s)
  case Nil
  then show ?case by auto
next
  case (Cons t ts)
  obtain b1 p1 where m: "micro t (shared s) (pcs s ! i) = (b1, p1)" by fastforce
  let ?s1 = "s\<lparr>clock := t\<rparr>"
  let ?s2 = "?s1\<lparr>shared := b1, pcs := (pcs ?s1)[i := p1]\<rparr>"
  have "cstep s ?s1" using Cons.prems(1) by (intro cstep.tick) simp
  moreover have "cstep ?s1 ?s2" using m Cons.prems(2) by (intro cstep.move) simp_all
  ultimately have "rtranclp cstep s ?s2" by (rule rtranclp.rtrancl_into_rtrancl [OF r_into_rtranclp])
  moreover have "rtranclp cstep ?s2
      (s\<lparr>shared := b, pcs := (pcs s)[i := p], clock := last (clock s # t # ts)\<rparr>)"
    using Cons.IH [of ?s2] Cons.prems m by simp
  ultimately show ?case by (rule rtranclp_trans)
qed

section \<open>Schedules\<close>

datatype action = Start_check nat | Start_record nat outcome | Move nat | Finish nat | Tick nat

definition set_pc :: "csys \<Rightarrow> nat \<Rightarrow> pc \<Rightarrow> csys" where
  "set_pc s i p = s\<lparr>pcs := (pcs s)[i := p]\<rparr>"

fun act :: "action \<Rightarrow> csys \<Rightarrow> csys" where
  "act (Start_check i) s =
     (if i < length (pcs s) \<and> pcs s ! i = Idle then set_pc s i CheckLoad else s)"
| "act (Start_record i out) s =
     (if i < length (pcs s) \<and> pcs s ! i = Idle then set_pc s i (RecClock out) else s)"
| "act (Move i) s =
     (if i < length (pcs s)
      then (case micro (clock s) (shared s) (pcs s ! i) of
              (b, p) \<Rightarrow> s\<lparr>shared := b, pcs := (pcs s)[i := p]\<rparr>)
      else s)"
| "act (Finish i) s =
     (if i < length (pcs s)
      then (case pcs s ! i of
              CheckDone r \<Rightarrow> set_pc s i Idle | RecDone \<Rightarrow> set_pc s i Idle | _ \<Rightarrow> s)
      else s)"
| "act (Tick t) s = (if clock s \<le> t then s\<lparr>clock := t\<rparr> else s)"

lemma act_reachable: "rtranclp cstep s (act a s)"
proof (cases a)
  case (Start_check i)
  then show ?thesis by (auto simp: set_pc_def intro: r_into_rtranclp cstep.start_check)
next
  case (Start_record i out)
  then show ?thesis by (auto simp: set_pc_def intro: r_into_rtranclp cstep.start_record)
next
  case (Move i)
  then show ?thesis by (auto intro: r_into_rtranclp cstep.move split: prod.split)
next
  case (Finish i)
  then show ?thesis by (auto simp: set_pc_def intro: r_into_rtranclp cstep.finish split: pc.split)
next
  case (Tick t)
  then show ?thesis by (auto intro: r_into_rtranclp cstep.tick)
qed

lemma schedule_reachable: "rtranclp cstep s (fold act as s)"
  by (induction as arbitrary: s) (auto intro: rtranclp_trans act_reachable)

text \<open>A server preset that trips on the first failure, and its initial system of two threads.\<close>

definition hair_trigger :: breaker_config where
  "hair_trigger = config_server\<lparr>min_samples := 1\<rparr>"

definition start_sys :: csys where
  "start_sys = \<lparr>shared = with_clock hair_trigger 0, pcs = [Idle, Idle], clock = 0\<rparr>"

lemma start_sys_init: "cinit start_sys"
  by (auto simp: start_sys_def)

definition moves :: "nat \<Rightarrow> nat \<Rightarrow> action list" where
  "moves n i = replicate n (Move i)"

lemma moves_simps [simp]:
  "moves 0 i = []" "moves (Suc n) i = Move i # moves n i"
  "moves (numeral k) i = Move i # moves (pred_numeral k) i"
  by (simp_all add: moves_def numeral_eq_Suc)

lemmas eval_defs =
  start_sys_def hair_trigger_def config_server_def with_clock_def micro.simps set_pc_def
  push_sample_def should_trip_def cas_state_def window_new_def window_push_def window_evict_def
  sample_count_def window_error_rate_def MAX_WINDOW_ENTRIES_def f64_ratio_def ratio_bits_def
  div_round_even_def elapsed_millis_def lease_millis_def millis_def secs_def window_clear_def

text \<open>
  Thread 0 records the failure that trips the breaker and is suspended between its store of
  \<open>Open\<close> and its store of the opening time; thread 1 meanwhile consults the breaker.
\<close>

definition stale_open_schedule :: "action list" where
  "stale_open_schedule =
     [Tick 20000000000, Start_record 0 Failure] @ moves 4 0 @
     [Start_check 1] @ moves 8 1 @ moves 4 0 @ [Finish 0, Finish 1]"

lemma stale_open_result:
  "fold act stale_open_schedule start_sys =
     start_sys\<lparr>shared := (shared start_sys)\<lparr>bstate := HalfOpen, is_open_fast := True,
        opened_at_millis := 20000, probe_claimed_at_millis := 20000,
        window := \<lparr>entries = [(20000000000, True)], failures = 1\<rparr>\<rparr>,
       clock := 20000000000\<rparr>"
  by (simp add: stale_open_schedule_def eval_defs)

text \<open>
  Thread 0 trips the breaker (at 1 s) and, after the cool-down, becomes the probe. While thread 1
  asks for a second slot, the probe fails and trips the breaker again; thread 1 then takes back
  a slot the trip has already cleared.
\<close>

definition underflow_schedule :: "action list" where
  "underflow_schedule =
     [Tick 1000000000, Start_record 0 Failure] @ moves 8 0 @ [Finish 0, Tick 20000000000] @
     [Start_check 0] @ moves 8 0 @ [Finish 0, Start_check 1] @ moves 3 1 @
     [Start_record 0 Failure] @ moves 7 0 @ [Finish 0] @ moves 2 1 @ [Finish 1]"

lemma underflow_result:
  "fold act underflow_schedule start_sys =
     start_sys\<lparr>shared := (shared start_sys)\<lparr>bstate := Open, is_open_fast := True,
        opened_at_millis := 20000, probe_claimed_at_millis := 20000, half_open_probes := - 1,
        window := \<lparr>entries = [(1000000000, True)], failures = 1\<rparr>\<rparr>,
       clock := 20000000000\<rparr>"
  by (simp add: underflow_schedule_def eval_defs)

section \<open>Wait-freedom\<close>

text \<open>The most micro-steps a call can still need, whatever it reads.\<close>

fun steps_left :: "pc \<Rightarrow> nat" where
  "steps_left CheckLoad = 10"
| "steps_left OpenLoad = 9"
| "steps_left (OpenClock n) = 8"
| "steps_left OpenCas = 7"
| "steps_left OpenMirror = 6"
| "steps_left LostLoad = 6"
| "steps_left LostOpened = 2"
| "steps_left (LostClock n) = 1"
| "steps_left ProbeClock = 5"
| "steps_left (ProbeAdd n) = 4"
| "steps_left (ProbeClaim n) = 1"
| "steps_left (ProbeSub n) = 3"
| "steps_left (ProbeLoad n) = 2"
| "steps_left (ProbeCas n c) = 1"
| "steps_left (RecClock out) = 8"
| "steps_left (RecLoad out n) = 7"
| "steps_left (RecClosed out n) = 6"
| "steps_left (RecOpen out n) = 1"
| "steps_left TripState = 5"
| "steps_left TripClock = 4"
| "steps_left (TripOpened n) = 3"
| "steps_left TripProbes = 2"
| "steps_left TripMirror = 1"
| "steps_left CloseState = 4"
| "steps_left CloseWindow = 3"
| "steps_left CloseProbes = 2"
| "steps_left CloseMirror = 1"
| "steps_left _ = 0"

lemma micro_decreases: "steps_left (snd (micro t b p)) \<le> steps_left p - 1"
  by (cases p) (auto simp: micro.simps Let_def split: breaker_state.split prod.split)

text \<open>The fate of one call: its own micro-steps, each in whatever breaker state and at whatever
  time the other threads have left it.\<close>

fun under_interference :: "(nat \<times> breaker) list \<Rightarrow> pc \<Rightarrow> pc" where
  "under_interference [] p = p"
| "under_interference ((t, b) # es) p = under_interference es (snd (micro t b p))"

lemma interference_bound: "steps_left (under_interference es p) \<le> steps_left p - length es"
proof (induction es arbitrary: p)
  case (Cons e es)
  obtain t b where e: "e = (t, b)" by fastforce
  have "steps_left (under_interference es (snd (micro t b p))) \<le>
        steps_left (snd (micro t b p)) - length es" by (rule Cons.IH)
  with micro_decreases [of t b p] show ?case by (simp add: e)
qed simp

fun is_check :: "pc \<Rightarrow> bool" where
  "is_check p = (case p of
     CheckLoad \<Rightarrow> True | OpenLoad \<Rightarrow> True | OpenClock _ \<Rightarrow> True | OpenCas \<Rightarrow> True
   | OpenMirror \<Rightarrow> True | LostLoad \<Rightarrow> True | LostOpened \<Rightarrow> True | LostClock _ \<Rightarrow> True
   | ProbeClock \<Rightarrow> True | ProbeAdd _ \<Rightarrow> True | ProbeClaim _ \<Rightarrow> True | ProbeSub _ \<Rightarrow> True
   | ProbeLoad _ \<Rightarrow> True | ProbeCas _ _ \<Rightarrow> True | CheckDone _ \<Rightarrow> True | _ \<Rightarrow> False)"

lemma micro_is_check: "p \<noteq> Idle \<Longrightarrow> is_check (snd (micro t b p)) = is_check p \<and> snd (micro t b p) \<noteq> Idle"
  by (cases p) (auto simp: micro.simps Let_def split: breaker_state.split prod.split)

lemma interference_kind:
  "p \<noteq> Idle \<Longrightarrow> is_check (under_interference es p) = is_check p \<and> under_interference es p \<noteq> Idle"
proof (induction es arbitrary: p)
  case (Cons e es)
  obtain t b where e: "e = (t, b)" by fastforce
  then show ?case using Cons micro_is_check [of p t b] by simp
qed simp

lemma steps_left_0: "steps_left p = 0 \<Longrightarrow> p = Idle \<or> p = RecDone \<or> (\<exists>r. p = CheckDone r)"
  by (cases p) auto

section \<open>An invariant of every interleaving\<close>

fun retry_bounded :: "nat \<Rightarrow> pc \<Rightarrow> bool" where
  "retry_bounded d (CheckDone (Inl (BreakerOpen n))) = (n \<le> d)"
| "retry_bounded d _ = True"

text \<open>
  The configuration never changes, the window is well formed whoever holds its lock next, and
  no caller is told to wait longer than the cool-down.
\<close>

definition csafe :: "breaker_config \<Rightarrow> csys \<Rightarrow> bool" where
  "csafe c s \<longleftrightarrow> config (shared s) = c \<and> window_ok (window (shared s)) \<and>
               list_all (retry_bounded (open_duration c)) (pcs s)"

lemma retry_boundedI:
  "(\<And>n. p = CheckDone (Inl (BreakerOpen n)) \<Longrightarrow> n \<le> d) \<Longrightarrow> retry_bounded d p"
  by (cases "(d, p)" rule: retry_bounded.cases) auto

lemma window_ok_push_sample: "window_ok (window b) \<Longrightarrow> window_ok (window (push_sample b out t))"
  by (simp add: push_sample_def sw.update_ok)

lemma micro_safe:
  assumes "micro t b p = (b', p')" and "window_ok (window b)"
    and "retry_bounded (open_duration (config b)) p"
  shows "config b' = config b \<and> window_ok (window b') \<and>
         retry_bounded (open_duration (config b)) p'"
  using assms
  by (cases p)
     (auto simp: micro.simps Let_def cas_state_def window_ok_push_sample intro!: retry_boundedI
       split: breaker_state.splits if_splits)

lemma list_all_update: "list_all P xs \<Longrightarrow> P x \<Longrightarrow> list_all P (xs[i := x])"
  by (auto simp: list_all_iff dest: set_update_subset_insert [THEN subsetD])

lemma cstep_safe: "cstep s s' \<Longrightarrow> csafe c s \<Longrightarrow> csafe c s'"
proof (induction rule: cstep.induct)
  case (move i s b p)
  have "retry_bounded (open_duration c) (pcs s ! i)"
    using move by (simp add: csafe_def list_all_length)
  then show ?case
    using move micro_safe [OF move.hyps(2)] by (auto simp: csafe_def list_all_update)
qed (auto simp: csafe_def list_all_update)

fun starts_with_config :: "breaker_config \<Rightarrow> csys \<Rightarrow> bool" where
  "starts_with_config c s \<longleftrightarrow> cinit s \<and> config (shared s) = c"

lemma start_sys_starts: "starts_with_config hair_trigger start_sys"
proof -
  have "config (shared start_sys) = hair_trigger"
    by (simp add: start_sys_def with_clock_def hair_trigger_def config_server_def)
  then show ?thesis using start_sys_init by (simp del: cinit.simps)
qed

lemma start_sys_idle:
  "list_all ((=) Idle) (pcs start_sys)" "half_open_probes (shared start_sys) = 0"
  by (simp_all add: start_sys_def with_clock_def)

lemma starts_safe: "starts_with_config c s \<Longrightarrow> csafe c s"
  by (auto simp: csafe_def with_clock_def list_all_iff)

interpretation cc: step_invariant "starts_with_config c" cstep "csafe c" for c
  by unfold_locales (auto intro: starts_safe cstep_safe simp del: starts_with_config.simps)

section \<open>Properties\<close>

text \<open>
  C5. Refinement of the sequential specification: from any system state, an idle thread that
  calls \<^verbatim>\<open>check\<close> (or \<^verbatim>\<open>record\<close>) and is not interleaved with others drives the shared breaker
  through its atomic accesses to exactly the state, and returns exactly the result, that the
  sequential definition computes from the two clock readings.
\<close>

theorem concurrent_calls_refine:
  assumes "i < length (pcs s)" and "pcs s ! i = Idle" and "clock s \<le> t1" and "t1 \<le> t2"
  shows "rtranclp cstep s
           (s\<lparr>shared := fst (check (shared s) t1 t2),
              pcs := (pcs s)[i := CheckDone (snd (snd (check (shared s) t1 t2)))], clock := t2\<rparr>)
       \<and> rtranclp cstep s
           (s\<lparr>shared := fst (record_outcome (shared s) out t1 t2),
              pcs := (pcs s)[i := RecDone], clock := t2\<rparr>)"
proof -
  let ?c = "s\<lparr>pcs := (pcs s)[i := CheckLoad]\<rparr>" and ?r = "s\<lparr>pcs := (pcs s)[i := RecClock out]\<rparr>"
  have c: "cstep s ?c" using assms(1,2) by (rule cstep.start_check)
  have r: "cstep s ?r" using assms(1,2) by (rule cstep.start_record)
  have "rtranclp cstep ?c
           (s\<lparr>shared := fst (check (shared s) t1 t2),
              pcs := (pcs s)[i := CheckDone (snd (snd (check (shared s) t1 t2)))], clock := t2\<rparr>)"
    using solo_reachable [of ?c "[t1, t1, t1, t2, t2, t2, t2, t2, t2, t2]" i]
      solo_check [of t1 t2 "shared s"] assms by (simp del: solo.simps)
  moreover have "rtranclp cstep ?r
           (s\<lparr>shared := fst (record_outcome (shared s) out t1 t2),
              pcs := (pcs s)[i := RecDone], clock := t2\<rparr>)"
    using solo_reachable [of ?r "[t1, t1, t1, t2, t2, t2, t2, t2]" i]
      solo_record [of t1 t2 "shared s" out] assms by (simp del: solo.simps)
  ultimately show ?thesis
    using converse_rtranclp_into_rtranclp [of cstep, OF c]
      converse_rtranclp_into_rtranclp [of cstep, OF r] by blast
qed

theorem concurrent_calls_refine_witness:
  "\<exists>s'. rtranclp cstep start_sys s' \<and> shared s' = fst (record_outcome (shared start_sys) Failure 5 6)"
  using concurrent_calls_refine [of 0 start_sys 5 6 Failure]
  by (fastforce simp: start_sys_def)

text \<open>
  Every call is wait-free: a \<^verbatim>\<open>check\<close> has returned after at most ten of its own atomic
  steps and a \<^verbatim>\<open>record\<close> after at most eight, whatever the other threads do to the breaker in
  between.
\<close>

lemma calls_wait_free:
  "(10 \<le> length es \<longrightarrow> (\<exists>r. under_interference es CheckLoad = CheckDone r)) \<and>
   (8 \<le> length es \<longrightarrow> under_interference es (RecClock out) = RecDone)"
proof (intro conjI impI)
  assume "10 \<le> length es"
  then have "steps_left (under_interference es CheckLoad) = 0"
    using interference_bound [of es CheckLoad] by simp
  then show "\<exists>r. under_interference es CheckLoad = CheckDone r"
    using steps_left_0 [of "under_interference es CheckLoad"] interference_kind [of CheckLoad es]
    by auto
next
  assume "8 \<le> length es"
  then have "steps_left (under_interference es (RecClock out)) = 0"
    using interference_bound [of es "RecClock out"] by simp
  then show "under_interference es (RecClock out) = RecDone"
    using steps_left_0 [of "under_interference es (RecClock out)"]
      interference_kind [of "RecClock out" es] by auto
qed

text \<open>
  C7. Under every interleaving of any number of threads the window's failure counter stays
  exact and within its cap, the configuration stays the one given, and every rejected caller is
  told to retry after at most the configured cool-down.
\<close>

theorem interleavings_safe:
  "starts_with_config c s \<Longrightarrow> rtranclp cstep s s' \<Longrightarrow> csafe c s'"
  by (rule cc.reachable_inv)

theorem interleavings_safe_witness:
  "csafe hair_trigger (fold act stale_open_schedule start_sys)"
  by (rule interleavings_safe [OF start_sys_starts schedule_reachable])

text \<open>
  The lock-free mirror is not a mirror under concurrency: there is an interleaving after
  which every thread is idle, the state is \<open>HalfOpen\<close> and \<^verbatim>\<open>is_open()\<close> still answers true. A
  \<^verbatim>\<open>check\<close> that runs between the store of \<open>Open\<close> and the store of the opening time in \<^verbatim>\<open>trip\<close>
  sees the previous opening time, skips the cool-down and becomes a probe; the rest of \<^verbatim>\<open>trip\<close>
  then clears its slot and sets the mirror.
\<close>

lemma mirror_race_reachable:
  "\<exists>s s'. starts_with_config hair_trigger s \<and> rtranclp cstep s s' \<and> list_all ((=) Idle) (pcs s') \<and>
          bstate (shared s') = HalfOpen \<and> is_open (shared s') \<and> half_open_probes (shared s') = 0"
proof (intro exI conjI)
  show "starts_with_config hair_trigger start_sys"
    by (rule start_sys_starts)
  show "rtranclp cstep start_sys (fold act stale_open_schedule start_sys)"
    by (rule schedule_reachable)
qed (simp_all add: stale_open_result is_open_def start_sys_idle)

text \<open>
  The probe counter can wrap: there is an interleaving after which every thread is idle,
  the breaker is \<open>Open\<close> and the counter holds the largest \<^verbatim>\<open>usize\<close>, because a rejected caller
  takes back a slot after \<^verbatim>\<open>trip\<close> has reset the counter. The comment in \<^verbatim>\<open>check_open\<close> states
  that the counter is zero whenever the breaker is open.
\<close>

lemma probe_counter_wraps:
  "\<exists>s s'. starts_with_config hair_trigger s \<and> rtranclp cstep s s' \<and> list_all ((=) Idle) (pcs s') \<and>
          bstate (shared s') = Open \<and> unat (half_open_probes (shared s')) = 2 ^ 64 - 1"
proof (intro exI conjI)
  show "starts_with_config hair_trigger start_sys"
    by (rule start_sys_starts)
  show "rtranclp cstep start_sys (fold act underflow_schedule start_sys)"
    by (rule schedule_reachable)
qed (simp_all add: underflow_result start_sys_idle unsigned_minus_1_eq_mask mask_eq_exp_minus_1)

text \<open>
  Two races end with every thread idle and the breaker inconsistent: in one the state is \<open>HalfOpen\<close>
  with no probe in flight while \<^verbatim>\<open>is_open()\<close> still answers true, because a \<^verbatim>\<open>check\<close> ran between the
  two stores of \<^verbatim>\<open>trip\<close>; in the other the state is \<open>Open\<close> and the probe counter holds the largest
  \<^verbatim>\<open>usize\<close>, because a rejected caller took back a slot after \<^verbatim>\<open>trip\<close> had reset the counter.
\<close>

lemma breaker_races:
  "(\<exists>s s'. starts_with_config hair_trigger s \<and> rtranclp cstep s s' \<and> list_all ((=) Idle) (pcs s') \<and>
          bstate (shared s') = HalfOpen \<and> is_open (shared s') \<and> half_open_probes (shared s') = 0) \<and>
   (\<exists>s s'. starts_with_config hair_trigger s \<and> rtranclp cstep s s' \<and> list_all ((=) Idle) (pcs s') \<and>
          bstate (shared s') = Open \<and> unat (half_open_probes (shared s')) = 2 ^ 64 - 1)"
  by (rule conjI [OF mirror_race_reachable probe_counter_wraps])

end
