(* ===== verification/Patch_Parser.thy ===== *)
theory Patch_Parser
  imports Prelude
begin

text \<open>
  The parser of the apply-patch format
  (\<^verbatim>\<open>crates/codegen/xai-grok-tools/src/implementations/codex/apply_patch/parser.rs\<close> and
  \<^verbatim>\<open>errors.rs\<close>). The loops over the remaining lines are recursive functions that return the
  number of lines consumed; their termination rests on every hunk and every chunk consuming at
  least one line.
\<close>

section \<open>Data\<close>

datatype parse_error = InvalidPatchError ustr | InvalidHunkError ustr nat

record update_file_chunk =
  change_context :: "ustr option"
  old_lines :: "ustr list"
  new_lines :: "ustr list"
  is_end_of_file :: bool

datatype hunk =
    AddFile ustr ustr
  | DeleteFile ustr
  | UpdateFile ustr "ustr option" "update_file_chunk list"

record parsed_patch =
  hunks :: "hunk list"
  patch_text :: ustr

definition BEGIN_PATCH_MARKER :: ustr where "BEGIN_PATCH_MARKER = u ''*** Begin Patch''"
definition END_PATCH_MARKER :: ustr where "END_PATCH_MARKER = u ''*** End Patch''"
definition ADD_FILE_MARKER :: ustr where "ADD_FILE_MARKER = u ''*** Add File: ''"
definition DELETE_FILE_MARKER :: ustr where "DELETE_FILE_MARKER = u ''*** Delete File: ''"
definition UPDATE_FILE_MARKER :: ustr where "UPDATE_FILE_MARKER = u ''*** Update File: ''"
definition MOVE_TO_MARKER :: ustr where "MOVE_TO_MARKER = u ''*** Move to: ''"
definition EOF_MARKER :: ustr where "EOF_MARKER = u ''*** End of File''"
definition CHANGE_CONTEXT_MARKER :: ustr where "CHANGE_CONTEXT_MARKER = u ''@@ ''"
definition EMPTY_CHANGE_CONTEXT_MARKER :: ustr where "EMPTY_CHANGE_CONTEXT_MARKER = u ''@@''"

lemmas marker_defs =
  BEGIN_PATCH_MARKER_def END_PATCH_MARKER_def ADD_FILE_MARKER_def DELETE_FILE_MARKER_def
  UPDATE_FILE_MARKER_def MOVE_TO_MARKER_def EOF_MARKER_def CHANGE_CONTEXT_MARKER_def
  EMPTY_CHANGE_CONTEXT_MARKER_def

section \<open>One chunk of an update\<close>

definition no_lines_msg :: ustr where
  "no_lines_msg = u ''Update hunk does not contain any lines''"

definition unexpected_line_msg :: "ustr \<Rightarrow> ustr" where
  "unexpected_line_msg l =
     u ''Unexpected line found in update hunk: '' @ [39] @ l @ [39] @
     u ''. Every line should start with '' @ [39, 32, 39] @ u '' (context line), '' @ [39, 43, 39] @
     u '' (added line), or '' @ [39, 45, 39] @ u '' (removed line)''"

definition expected_context_msg :: "ustr \<Rightarrow> ustr" where
  "expected_context_msg l =
     u ''Expected update hunk to start with a @@ context marker, got: '' @ [39] @ l @ [39]"

text \<open>The loop over the body lines; \<open>n\<close> counts the lines parsed so far.\<close>

fun chunk_body ::
    "nat \<Rightarrow> nat \<Rightarrow> ustr list \<Rightarrow> update_file_chunk \<Rightarrow> parse_error + (update_file_chunk \<times> nat)" where
  "chunk_body ln n [] ch = Inr (ch, n)"
| "chunk_body ln n (l # ls) ch =
     (if l = EOF_MARKER then
        (if n = 0 then Inl (InvalidHunkError no_lines_msg (ln + 1))
         else Inr (ch\<lparr>is_end_of_file := True\<rparr>, n + 1))
      else
        (case l of
           [] \<Rightarrow> chunk_body ln (n + 1) ls
                  (ch\<lparr>old_lines := old_lines ch @ [[]], new_lines := new_lines ch @ [[]]\<rparr>)
         | c # cs \<Rightarrow>
             if c = 32 then
               chunk_body ln (n + 1) ls
                 (ch\<lparr>old_lines := old_lines ch @ [cs], new_lines := new_lines ch @ [cs]\<rparr>)
             else if c = 43 then
               chunk_body ln (n + 1) ls (ch\<lparr>new_lines := new_lines ch @ [cs]\<rparr>)
             else if c = 45 then
               chunk_body ln (n + 1) ls (ch\<lparr>old_lines := old_lines ch @ [cs]\<rparr>)
             else if n = 0 then Inl (InvalidHunkError (unexpected_line_msg l) (ln + 1))
             else Inr (ch, n)))"

definition chunk_start :: "ustr \<Rightarrow> bool \<Rightarrow> (ustr option \<times> nat) option" where
  "chunk_start l allow_missing_context =
     (if l = EMPTY_CHANGE_CONTEXT_MARKER then Some (None, 1)
      else (case strip_prefix CHANGE_CONTEXT_MARKER l of
              Some context \<Rightarrow> Some (Some context, 1)
            | None \<Rightarrow> if allow_missing_context then Some (None, 0) else None))"

definition parse_update_file_chunk ::
    "ustr list \<Rightarrow> nat \<Rightarrow> bool \<Rightarrow> parse_error + (update_file_chunk \<times> nat)" where
  "parse_update_file_chunk lines line_number allow_missing_context =
     (case lines of
        [] \<Rightarrow> Inl (InvalidHunkError no_lines_msg line_number)
      | l # _ \<Rightarrow>
          (case chunk_start l allow_missing_context of
             None \<Rightarrow> Inl (InvalidHunkError (expected_context_msg l) line_number)
           | Some (context, start_index) \<Rightarrow>
               if length lines \<le> start_index
               then Inl (InvalidHunkError no_lines_msg (line_number + 1))
               else (case chunk_body line_number 0 (drop start_index lines)
                            \<lparr>change_context = context, old_lines = [], new_lines = [],
                             is_end_of_file = False\<rparr> of
                       Inl e \<Rightarrow> Inl e
                     | Inr (chunk, parsed_lines) \<Rightarrow> Inr (chunk, parsed_lines + start_index))))"

lemma chunk_body_count:
  "chunk_body ln n ls ch = Inr (ch', m) \<Longrightarrow> n \<le> m \<and> m \<le> n + length ls \<and> (ls \<noteq> [] \<longrightarrow> 1 \<le> m)"
proof (induction ln n ls ch arbitrary: ch' m rule: chunk_body.induct)
  case (2 ln n l ls ch)
  then show ?case by (fastforce split: if_splits list.splits)
qed simp

lemma parse_chunk_consumes:
  assumes "parse_update_file_chunk lines ln a = Inr (ch, k)"
  shows "1 \<le> k \<and> k \<le> length lines"
proof -
  from assms obtain l ls ctx si m where lines: "lines = l # ls"
    and st: "chunk_start l a = Some (ctx, si)" and si: "si < length lines"
    and body: "chunk_body ln 0 (drop si lines) \<lparr>change_context = ctx, old_lines = [],
                 new_lines = [], is_end_of_file = False\<rparr> = Inr (ch, m)" and k: "k = m + si"
    by (auto simp: parse_update_file_chunk_def split: list.splits option.splits if_splits sum.splits)
  from chunk_body_count [OF body] si k show ?thesis by auto
qed

section \<open>The chunks of an update hunk\<close>

function parse_chunks ::
    "ustr list \<Rightarrow> nat \<Rightarrow> bool \<Rightarrow> parse_error + (update_file_chunk list \<times> nat)" where
  "parse_chunks [] line_number chunks_empty = Inr ([], 0)"
| "parse_chunks (l # ls) line_number chunks_empty =
     (if trim l = [] then
        (case parse_chunks ls (line_number + 1) chunks_empty of
           Inl e \<Rightarrow> Inl e | Inr (cs, n) \<Rightarrow> Inr (cs, n + 1))
      else if starts_with (u ''***'') l then Inr ([], 0)
      else
        (case parse_update_file_chunk (l # ls) line_number chunks_empty of
           Inl e \<Rightarrow> Inl e
         | Inr (chunk, chunk_lines) \<Rightarrow>
             (case parse_chunks (drop chunk_lines (l # ls)) (line_number + chunk_lines) False of
                Inl e \<Rightarrow> Inl e
              | Inr (cs, n) \<Rightarrow> Inr (chunk # cs, n + chunk_lines))))"
  by pat_completeness auto

termination
  by (relation "measure (\<lambda>(ls, n, b). length ls)") (auto dest!: parse_chunk_consumes)

lemma parse_chunks_count: "parse_chunks ls ln a = Inr (cs, n) \<Longrightarrow> n \<le> length ls"
proof (induction ls ln a arbitrary: cs n rule: parse_chunks.induct)
  case (2 l ls ln a)
  show ?case
  proof (cases "trim l = [] \<or> starts_with (u ''***'') l")
    case True
    with 2 show ?thesis by (fastforce split: if_splits sum.splits)
  next
    case False
    with "2.prems" obtain ch k cs' m where c: "parse_update_file_chunk (l # ls) ln a = Inr (ch, k)"
      and r: "parse_chunks (drop k (l # ls)) (ln + k) False = Inr (cs', m)" and n: "n = m + k"
      by (auto split: sum.splits)
    have "m \<le> length (drop k (l # ls))" using "2.IH"(2) False c r by auto
    with parse_chunk_consumes [OF c] n show ?thesis by auto
  qed
qed simp

section \<open>One hunk\<close>

fun parse_add_lines :: "ustr list \<Rightarrow> ustr \<times> nat" where
  "parse_add_lines [] = ([], 0)"
| "parse_add_lines (l # ls) =
     (case strip_prefix (u ''+'') l of
        Some line_to_add \<Rightarrow>
          (case parse_add_lines ls of (contents, n) \<Rightarrow> (line_to_add @ [10] @ contents, Suc n))
      | None \<Rightarrow> ([], 0))"

lemma parse_add_lines_count: "snd (parse_add_lines ls) \<le> length ls"
  by (induction ls) (auto split: option.splits prod.splits)

definition empty_update_msg :: "ustr \<Rightarrow> ustr" where
  "empty_update_msg path = u ''Update file hunk for path '' @ [39] @ path @ [39] @ u '' is empty''"

definition bad_header_msg :: "ustr \<Rightarrow> ustr" where
  "bad_header_msg l =
     [39] @ l @ [39] @ u '' is not a valid hunk header. Valid hunk headers: '' @
     [39] @ u ''*** Add File: {path}'' @ [39] @ u '', '' @ [39] @ u ''*** Delete File: {path}'' @ [39] @
     u '', '' @ [39] @ u ''*** Update File: {path}'' @ [39]"

text \<open>The optional move line after an update header.\<close>

definition split_move :: "ustr list \<Rightarrow> ustr option \<times> ustr list" where
  "split_move ls =
     (case ls of
        [] \<Rightarrow> (None, [])
      | x # xs \<Rightarrow>
          (case strip_prefix MOVE_TO_MARKER x of Some p \<Rightarrow> (Some p, xs) | None \<Rightarrow> (None, ls)))"

text \<open>\<open>parse_one_hunk l ls n\<close> parses a hunk from the lines \<open>l # ls\<close>.\<close>

definition parse_one_hunk :: "ustr \<Rightarrow> ustr list \<Rightarrow> nat \<Rightarrow> parse_error + (hunk \<times> nat)" where
  "parse_one_hunk l ls line_number =
     (let first_line = trim l in
      case strip_prefix ADD_FILE_MARKER first_line of
        Some path \<Rightarrow>
          (case parse_add_lines ls of (contents, n) \<Rightarrow> Inr (AddFile path contents, 1 + n))
      | None \<Rightarrow>
      (case strip_prefix DELETE_FILE_MARKER first_line of
        Some path \<Rightarrow> Inr (DeleteFile path, 1)
      | None \<Rightarrow>
      (case strip_prefix UPDATE_FILE_MARKER first_line of
        Some path \<Rightarrow>
          (case split_move ls of (move_path, rest) \<Rightarrow>
             let parsed_lines = (if move_path = None then 1 else 2) in
             (case parse_chunks rest (line_number + parsed_lines) True of
                Inl e \<Rightarrow> Inl e
              | Inr (chunks, n) \<Rightarrow>
                  if chunks = [] then Inl (InvalidHunkError (empty_update_msg path) line_number)
                  else Inr (UpdateFile path move_path chunks, parsed_lines + n)))
      | None \<Rightarrow> Inl (InvalidHunkError (bad_header_msg first_line) line_number))))"

lemma split_move_length:
  "split_move ls = (m, rest) \<Longrightarrow> length ls = length rest + (if m = None then 0 else 1)"
  unfolding split_move_def
  by (cases ls) (auto split: option.splits prod.splits dest: sym [of "Some _"])

lemma parse_one_hunk_consumes:
  assumes "parse_one_hunk l ls ln = Inr (h, k)"
  shows "1 \<le> k \<and> k \<le> Suc (length ls)"
  using assms parse_add_lines_count [of ls]
  by (auto simp: parse_one_hunk_def Let_def split: option.splits prod.splits sum.splits if_splits
      dest!: parse_chunks_count split_move_length)

section \<open>The whole patch\<close>

function parse_hunks :: "ustr list \<Rightarrow> nat \<Rightarrow> parse_error + hunk list" where
  "parse_hunks [] line_number = Inr []"
| "parse_hunks (l # ls) line_number =
     (case parse_one_hunk l ls line_number of
        Inl e \<Rightarrow> Inl e
      | Inr (hunk, hunk_lines) \<Rightarrow>
          (case parse_hunks (drop hunk_lines (l # ls)) (line_number + hunk_lines) of
             Inl e \<Rightarrow> Inl e | Inr hs \<Rightarrow> Inr (hunk # hs)))"
  by pat_completeness auto

termination
  by (relation "measure (\<lambda>(ls, n). length ls)") (auto dest!: parse_one_hunk_consumes)

definition check_start_and_end_lines_strict :: "ustr option \<Rightarrow> ustr option \<Rightarrow> parse_error + unit" where
  "check_start_and_end_lines_strict first_line last_line =
     (case (map_option trim first_line, map_option trim last_line) of
        (Some f, l) \<Rightarrow>
          if f = BEGIN_PATCH_MARKER \<and> l = Some END_PATCH_MARKER then Inr ()
          else if f \<noteq> BEGIN_PATCH_MARKER
          then Inl (InvalidPatchError
                 (u ''The first line of the patch must be '' @ [39] @ BEGIN_PATCH_MARKER @ [39]))
          else Inl (InvalidPatchError
                 (u ''The last line of the patch must be '' @ [39] @ END_PATCH_MARKER @ [39]))
      | (None, l) \<Rightarrow>
          Inl (InvalidPatchError
                 (u ''The last line of the patch must be '' @ [39] @ END_PATCH_MARKER @ [39])))"

definition check_patch_boundaries_strict :: "ustr list \<Rightarrow> parse_error + unit" where
  "check_patch_boundaries_strict lines =
     (case lines of
        [] \<Rightarrow> check_start_and_end_lines_strict None None
      | f # _ \<Rightarrow> check_start_and_end_lines_strict (Some f) (Some (last lines)))"

definition check_patch_boundaries_lenient ::
    "ustr list \<Rightarrow> parse_error \<Rightarrow> parse_error + ustr list" where
  "check_patch_boundaries_lenient original_lines original_parse_error =
     (case original_lines of
        first # _ # _ \<Rightarrow>
          if (first = u ''<<EOF'' \<or> first = u ''<<'' @ [39] @ u ''EOF'' @ [39] \<or>
              first = u ''<<'' @ [34] @ u ''EOF'' @ [34]) \<and>
             ends_with (u ''EOF'') (last original_lines) \<and> 4 \<le> length original_lines
          then (let inner_lines = butlast (tl original_lines) in
                case check_patch_boundaries_strict inner_lines of
                  Inr _ \<Rightarrow> Inr inner_lines | Inl e \<Rightarrow> Inl e)
          else Inl original_parse_error
      | _ \<Rightarrow> Inl original_parse_error)"

text \<open>The production entry point parses in lenient mode.\<close>

definition parse_patch :: "ustr \<Rightarrow> parse_error + parsed_patch" where
  "parse_patch text =
     (let lines = str_lines (trim text) in
      case (case check_patch_boundaries_strict lines of
              Inr _ \<Rightarrow> Inr lines
            | Inl e \<Rightarrow> check_patch_boundaries_lenient lines e) of
        Inl e \<Rightarrow> Inl e
      | Inr ls \<Rightarrow>
          (case parse_hunks (butlast (tl ls)) 2 of
             Inl e \<Rightarrow> Inl e
           | Inr hs \<Rightarrow> Inr \<lparr>hunks = hs, patch_text = join [10] ls\<rparr>))"

end
