(* ===== verification/Patch_Roundtrip.thy ===== *)
theory Patch_Roundtrip
  imports Patch_Parser
begin

text \<open>
  What the parser of the apply-patch format promises: a patch written down line by line (every
  update as a sequence of context, removed and added lines) parses back to exactly that patch,
  and every parse error points at a line of the text. The laws of one sub-parser (it consumes at
  least one line and at most what it is given, and its errors lie within these lines) are a locale
  interpreted on the chunk parser and on the hunk parser.
\<close>

section \<open>A sub-parser and its laws\<close>

definition error_within :: "nat \<Rightarrow> nat \<Rightarrow> parse_error \<Rightarrow> bool" where
  "error_within lo hi e = (case e of InvalidHunkError _ n \<Rightarrow> lo \<le> n \<and> n \<le> hi | _ \<Rightarrow> False)"

lemma error_within_mono: "error_within lo hi e \<Longrightarrow> lo' \<le> lo \<Longrightarrow> hi \<le> hi' \<Longrightarrow> error_within lo' hi' e"
  by (auto simp: error_within_def split: parse_error.splits)

lemma error_within_hunk [simp]: "error_within lo hi (InvalidHunkError m n) \<longleftrightarrow> lo \<le> n \<and> n \<le> hi"
  by (simp add: error_within_def)

locale consuming_parser =
  fixes parse :: "ustr list \<Rightarrow> nat \<Rightarrow> parse_error + ('a \<times> nat)"
  assumes consumes: "ls \<noteq> [] \<Longrightarrow> parse ls n = Inr (x, k) \<Longrightarrow> 1 \<le> k \<and> k \<le> length ls"
    and error_line: "ls \<noteq> [] \<Longrightarrow> parse ls n = Inl e \<Longrightarrow> error_within n (n + length ls) e"
begin

lemma rest_shorter: "ls \<noteq> [] \<Longrightarrow> parse ls n = Inr (x, k) \<Longrightarrow> length (drop k ls) < length ls"
  by (metis One_nat_def Suc_le_eq consumes diff_less length_drop length_greater_0_conv)

lemma error_after:
  assumes "ls \<noteq> []" "parse ls n = Inr (x, k)" "error_within (n + k) (n + k + length (drop k ls)) e"
  shows "error_within n (n + length ls) e"
  using assms(3) consumes [OF assms(1, 2)] by (auto simp: error_within_def split: parse_error.splits)

end

lemma chunk_body_error:
  "chunk_body ln n ls ch = Inl e \<Longrightarrow> error_within (ln + 1) (ln + 1) e"
proof (induction ln n ls ch rule: chunk_body.induct)
  case (2 ln n l ls ch)
  then show ?case by (fastforce simp: error_within_def split: if_splits list.splits)
qed simp

lemma parse_chunk_error:
  assumes "ls \<noteq> []" "parse_update_file_chunk ls n a = Inl e"
  shows "error_within n (n + length ls) e"
proof -
  have "error_within n (n + 1) e"
    using assms(2) by (auto simp: parse_update_file_chunk_def error_within_def
        split: list.splits option.splits if_splits sum.splits parse_error.splits
        dest!: chunk_body_error)
  with assms(1) show ?thesis
    by (cases ls) (auto simp: error_within_def split: parse_error.splits)
qed

interpretation pc: consuming_parser "\<lambda>ls n. parse_update_file_chunk ls n a" for a
  by unfold_locales (use parse_chunk_consumes parse_chunk_error in blast)+

lemma parse_chunks_error:
  "parse_chunks ls n a = Inl e \<Longrightarrow> error_within n (n + length ls) e"
proof (induction ls n a rule: parse_chunks.induct)
  case (2 l ls n a)
  consider (blank) "trim l = []" | (stop) "trim l \<noteq> []" "starts_with (u ''***'') l"
    | (chunk) "trim l \<noteq> []" "\<not> starts_with (u ''***'') l" by blast
  then show ?case
  proof cases
    case blank
    with 2 have "error_within (n + 1) (n + 1 + length ls) e"
      by (auto split: sum.splits)
    then show ?thesis by (auto simp: error_within_def split: parse_error.splits)
  next
    case stop
    with 2 show ?thesis by simp
  next
    case chunk
    show ?thesis
    proof (cases "parse_update_file_chunk (l # ls) n a")
      case (Inl e')
      with chunk 2 pc.error_line [of "l # ls" n a] show ?thesis by auto
    next
      case (Inr r)
      then obtain c k where r: "parse_update_file_chunk (l # ls) n a = Inr (c, k)"
        by (cases r) auto
      with chunk "2.prems" have "parse_chunks (drop k (l # ls)) (n + k) False = Inl e"
        by (auto split: sum.splits)
      with "2.IH"(2) chunk r have "error_within (n + k) (n + k + length (drop k (l # ls))) e"
        by auto
      with pc.error_after [OF _ r] show ?thesis by blast
    qed
  qed
qed simp

lemma parse_one_hunk_error:
  assumes "parse_one_hunk l ls n = Inl e"
  shows "error_within n (n + Suc (length ls)) e"
  using assms
  by (auto simp: parse_one_hunk_def Let_def split: option.splits prod.splits sum.splits if_splits
      dest!: split_move_length parse_chunks_error elim!: error_within_mono)

interpretation ph: consuming_parser "\<lambda>ls. parse_one_hunk (hd ls) (tl ls)"
proof unfold_locales
  fix ls n x k
  assume "ls \<noteq> []" "parse_one_hunk (hd ls) (tl ls) n = Inr (x, k)"
  with parse_one_hunk_consumes show "1 \<le> k \<and> k \<le> length ls" by (cases ls) force+
next
  fix ls n e
  assume "ls \<noteq> []" "parse_one_hunk (hd ls) (tl ls) n = Inl e"
  with parse_one_hunk_error show "error_within n (n + length ls) e" by (cases ls) force+
qed

lemma parse_hunks_error: "parse_hunks ls n = Inl e \<Longrightarrow> error_within n (n + length ls) e"
proof (induction ls n rule: parse_hunks.induct)
  case (2 l ls n)
  show ?case
  proof (cases "parse_one_hunk l ls n")
    case (Inl e')
    with 2 ph.error_line [of "l # ls" n] show ?thesis by auto
  next
    case (Inr r)
    then obtain h k where r: "parse_one_hunk l ls n = Inr (h, k)" by (cases r) auto
    with "2.prems" have "parse_hunks (drop k (l # ls)) (n + k) = Inl e"
      by (auto split: sum.splits)
    with "2.IH" r have "error_within (n + k) (n + k + length (drop k (l # ls))) e" by auto
    with ph.error_after [of "l # ls" n h k e] r show ?thesis by simp
  qed
qed simp

section \<open>Patches as they are written\<close>

datatype diff_line = Ctx ustr | Del ustr | Add ustr

datatype written_hunk =
    WAdd ustr "ustr list"
  | WDelete ustr
  | WUpdate ustr "ustr option" "(ustr option \<times> diff_line list \<times> bool) list"

fun diff_text :: "diff_line \<Rightarrow> ustr" where
  "diff_text (Ctx l) = 32 # l"
| "diff_text (Del l) = 45 # l"
| "diff_text (Add l) = 43 # l"

fun diff_old :: "diff_line \<Rightarrow> ustr list" where
  "diff_old (Ctx l) = [l]" | "diff_old (Del l) = [l]" | "diff_old (Add l) = []"

fun diff_new :: "diff_line \<Rightarrow> ustr list" where
  "diff_new (Ctx l) = [l]" | "diff_new (Del l) = []" | "diff_new (Add l) = [l]"

definition chunk_of :: "ustr option \<times> diff_line list \<times> bool \<Rightarrow> update_file_chunk" where
  "chunk_of c =
     (case c of (ctx, ds, eof) \<Rightarrow>
        \<lparr>change_context = ctx, old_lines = concat (map diff_old ds),
         new_lines = concat (map diff_new ds), is_end_of_file = eof\<rparr>)"

fun hunk_of :: "written_hunk \<Rightarrow> hunk" where
  "hunk_of (WAdd p ls) = AddFile p (concat (map (\<lambda>l. l @ [10]) ls))"
| "hunk_of (WDelete p) = DeleteFile p"
| "hunk_of (WUpdate p m cs) = UpdateFile p m (map chunk_of cs)"

definition chunk_lines :: "ustr option \<times> diff_line list \<times> bool \<Rightarrow> ustr list" where
  "chunk_lines c =
     (case c of (ctx, ds, eof) \<Rightarrow>
        (case ctx of None \<Rightarrow> EMPTY_CHANGE_CONTEXT_MARKER | Some x \<Rightarrow> CHANGE_CONTEXT_MARKER @ x) #
        map diff_text ds @ (if eof then [EOF_MARKER] else []))"

fun hunk_lines :: "written_hunk \<Rightarrow> ustr list" where
  "hunk_lines (WAdd p ls) = (ADD_FILE_MARKER @ p) # map ((#) 43) ls"
| "hunk_lines (WDelete p) = [DELETE_FILE_MARKER @ p]"
| "hunk_lines (WUpdate p m cs) =
     (UPDATE_FILE_MARKER @ p) # (case m of None \<Rightarrow> [] | Some q \<Rightarrow> [MOVE_TO_MARKER @ q]) @
     concat (map chunk_lines cs)"

definition render_patch :: "written_hunk list \<Rightarrow> ustr" where
  "render_patch hs = join [10] ([BEGIN_PATCH_MARKER] @ concat (map hunk_lines hs) @ [END_PATCH_MARKER])"

text \<open>
  A line of text has no line feed and does not end in a carriage return (\<^verbatim>\<open>str::lines\<close> drops it);
  the path of a header must not end in white space (the header line is trimmed).
\<close>

definition text_line :: "ustr \<Rightarrow> bool" where
  "text_line l \<longleftrightarrow> 10 \<notin> set l \<and> (l = [] \<or> last l \<noteq> 13)"

definition header_path :: "ustr \<Rightarrow> bool" where
  "header_path p \<longleftrightarrow> 10 \<notin> set p \<and> p \<noteq> [] \<and> \<not> is_whitespace (last p)"

fun diff_line_ok :: "diff_line \<Rightarrow> bool" where
  "diff_line_ok (Ctx l) = text_line l" | "diff_line_ok (Del l) = text_line l"
| "diff_line_ok (Add l) = text_line l"

definition chunk_ok :: "ustr option \<times> diff_line list \<times> bool \<Rightarrow> bool" where
  "chunk_ok c =
     (case c of (ctx, ds, eof) \<Rightarrow>
        (case ctx of None \<Rightarrow> True | Some x \<Rightarrow> text_line x) \<and> ds \<noteq> [] \<and> list_all diff_line_ok ds)"

fun hunk_ok :: "written_hunk \<Rightarrow> bool" where
  "hunk_ok (WAdd p ls) = (header_path p \<and> list_all text_line ls)"
| "hunk_ok (WDelete p) = header_path p"
| "hunk_ok (WUpdate p m cs) =
     (header_path p \<and> (case m of None \<Rightarrow> True | Some q \<Rightarrow> text_line q) \<and> cs \<noteq> [] \<and> list_all chunk_ok cs)"

section \<open>Parsing back\<close>

lemmas marker_text = marker_defs u_simps of_char_def

lemma diff_text_not_eof [simp]: "diff_text d \<noteq> EOF_MARKER"
  by (cases d) (auto simp: EOF_MARKER_def u_simps)

definition add_diffs :: "diff_line list \<Rightarrow> update_file_chunk \<Rightarrow> update_file_chunk" where
  "add_diffs ds ch = ch\<lparr>old_lines := old_lines ch @ concat (map diff_old ds),
                       new_lines := new_lines ch @ concat (map diff_new ds)\<rparr>"

lemma chunk_body_diffs:
  "chunk_body ln n (map diff_text ds @ rest) ch = chunk_body ln (n + length ds) rest (add_diffs ds ch)"
proof (induction ds arbitrary: n ch)
  case (Cons d ds)
  then show ?case by (cases d) (simp_all add: add_diffs_def EOF_MARKER_def u_simps)
qed (simp add: add_diffs_def)

text \<open>What may follow the lines of a chunk: nothing, the next chunk or the next hunk.\<close>

definition chunk_end :: "ustr list \<Rightarrow> bool" where
  "chunk_end rest = (case rest of [] \<Rightarrow> True | l # _ \<Rightarrow> l \<noteq> EOF_MARKER \<and> l \<noteq> [] \<and> (hd l = 64 \<or> hd l = 42))"

lemma chunk_body_end: "chunk_end rest \<Longrightarrow> 0 < n \<Longrightarrow> chunk_body ln n rest ch = Inr (ch, n)"
  by (cases rest) (auto simp: chunk_end_def split: list.splits)

lemma chunk_start_written:
  "chunk_start (case ctx of None \<Rightarrow> EMPTY_CHANGE_CONTEXT_MARKER | Some x \<Rightarrow> CHANGE_CONTEXT_MARKER @ x) a
     = Some (ctx, 1)"
  by (cases ctx) (auto simp: chunk_start_def CHANGE_CONTEXT_MARKER_def EMPTY_CHANGE_CONTEXT_MARKER_def
      u_simps)

lemma parse_chunk_written:
  assumes "chunk_ok c" "chunk_end rest"
  shows "parse_update_file_chunk (chunk_lines c @ rest) ln a = Inr (chunk_of c, length (chunk_lines c))"
proof -
  obtain ctx ds eof where c: "c = (ctx, ds, eof)" by (cases c)
  with assms(1) have "ds \<noteq> []" by (simp add: chunk_ok_def)
  then have "0 < length ds" by simp
  then have "chunk_body ln 0 (map diff_text ds @ (if eof then [EOF_MARKER] else []) @ rest)
        \<lparr>change_context = ctx, old_lines = [], new_lines = [], is_end_of_file = False\<rparr>
      = Inr (chunk_of c, length ds + (if eof then 1 else 0))"
    using assms(2)
    by (simp add: chunk_body_diffs chunk_body_end c chunk_of_def add_diffs_def)
  with \<open>ds \<noteq> []\<close> show ?thesis
    by (simp add: parse_update_file_chunk_def c chunk_lines_def chunk_start_written)
qed

text \<open>What may follow the lines of a hunk: nothing or the header of the next hunk.\<close>

definition hunk_end :: "ustr list \<Rightarrow> bool" where
  "hunk_end rest =
     (case rest of [] \<Rightarrow> True
      | l # _ \<Rightarrow> l \<noteq> EOF_MARKER \<and> starts_with (u ''***'') l \<and> strip_prefix MOVE_TO_MARKER l = None)"

lemma hunk_end_chunk_end: "hunk_end rest \<Longrightarrow> chunk_end rest"
  by (auto simp: hunk_end_def chunk_end_def starts_with_iff u_simps split: list.splits)

lemma chunk_end_chunks: "hunk_end rest \<Longrightarrow> chunk_end (concat (map chunk_lines cs) @ rest)"
proof (cases cs)
  case (Cons c cs')
  then show ?thesis
    by (cases c) (auto simp: chunk_end_def chunk_lines_def marker_defs u_simps split: option.splits)
qed (simp add: hunk_end_chunk_end)

lemma star_visible [simp]: "\<not> is_whitespace 42" "\<not> is_whitespace 64"
  by (simp_all add: is_whitespace_def)

lemma chunk_lines_head:
  "\<exists>l ls. chunk_lines c = (64 # l) # ls"
  by (cases c) (auto simp: chunk_lines_def marker_defs u_simps split: option.splits)

lemma parse_chunks_written:
  assumes "list_all chunk_ok cs" "hunk_end rest"
  shows "parse_chunks (concat (map chunk_lines cs) @ rest) ln a
           = Inr (map chunk_of cs, length (concat (map chunk_lines cs)))"
  using assms(1)
proof (induction cs arbitrary: ln a)
  case Nil
  with assms(2) show ?case
    by (cases rest) (auto simp: hunk_end_def starts_with_iff u_simps trim_visible)
next
  case (Cons c cs)
  obtain l ls where h: "chunk_lines c = (64 # l) # ls" using chunk_lines_head by blast
  from Cons.prems have "parse_update_file_chunk (chunk_lines c @ concat (map chunk_lines cs) @ rest) ln a
      = Inr (chunk_of c, length (chunk_lines c))"
    by (intro parse_chunk_written) (auto intro: chunk_end_chunks assms(2))
  with Cons show ?case
    by (simp add: h trim_visible starts_with_iff u_simps)
qed

lemma parse_add_lines_written:
  assumes "hunk_end rest"
  shows "parse_add_lines (map ((#) 43) ls @ rest) = (concat (map (\<lambda>l. l @ [10]) ls), length ls)"
proof (induction ls)
  case Nil
  from assms show ?case
    by (cases rest) (auto simp: hunk_end_def starts_with_iff u_simps)
qed (simp add: u_simps)

lemma header_trim:
  assumes "header_path p"
  shows "trim (ADD_FILE_MARKER @ p) = ADD_FILE_MARKER @ p"
    and "trim (DELETE_FILE_MARKER @ p) = DELETE_FILE_MARKER @ p"
    and "trim (UPDATE_FILE_MARKER @ p) = UPDATE_FILE_MARKER @ p"
  using assms by (simp_all add: header_path_def marker_defs u_simps trim_id)

lemma headers_differ:
  "strip_prefix ADD_FILE_MARKER (DELETE_FILE_MARKER @ p) = None"
  "strip_prefix ADD_FILE_MARKER (UPDATE_FILE_MARKER @ p) = None"
  "strip_prefix DELETE_FILE_MARKER (UPDATE_FILE_MARKER @ p) = None"
  by (simp_all add: marker_defs u_simps)

lemma split_move_written:
  assumes "hunk_end rest"
  shows "split_move ((case m of None \<Rightarrow> [] | Some q \<Rightarrow> [MOVE_TO_MARKER @ q]) @ concat (map chunk_lines cs) @ rest)
           = (m, concat (map chunk_lines cs) @ rest)"
proof (cases m)
  case None
  have "strip_prefix MOVE_TO_MARKER (64 # l) = None" for l by (simp add: marker_defs u_simps)
  with None assms show ?thesis
    using chunk_lines_head [of "hd cs"]
    by (cases cs; cases rest) (auto simp: split_move_def hunk_end_def)
qed (simp add: split_move_def)

lemma parse_one_hunk_written:
  assumes "hunk_ok h" "hunk_end rest"
  shows "parse_one_hunk (hd (hunk_lines h)) (tl (hunk_lines h) @ rest) ln
           = Inr (hunk_of h, length (hunk_lines h))"
proof (cases h)
  case (WAdd p ls)
  with assms show ?thesis
    by (simp add: parse_one_hunk_def header_trim parse_add_lines_written)
next
  case (WDelete p)
  with assms show ?thesis
    by (simp add: parse_one_hunk_def header_trim headers_differ)
next
  case (WUpdate p m cs)
  with assms show ?thesis
    by (auto simp: parse_one_hunk_def header_trim headers_differ split_move_written
        parse_chunks_written Let_def split: option.splits)
qed

lemma hunk_lines_head: "hunk_lines h = hd (hunk_lines h) # tl (hunk_lines h)"
  by (cases h) auto

lemma hunk_end_hunks: "hunk_end (concat (map hunk_lines hs))"
proof (cases hs)
  case (Cons h hs')
  then show ?thesis
    by (cases h) (auto simp: hunk_end_def starts_with_def marker_defs u_simps)
qed (simp add: hunk_end_def)

lemma parse_hunks_written:
  "list_all hunk_ok hs \<Longrightarrow> parse_hunks (concat (map hunk_lines hs)) ln = Inr (map hunk_of hs)"
proof (induction hs arbitrary: ln)
  case (Cons h hs)
  obtain l ls where h: "hunk_lines h = l # ls" using hunk_lines_head by blast
  have "parse_one_hunk l (ls @ concat (map hunk_lines hs)) ln = Inr (hunk_of h, length (hunk_lines h))"
    using parse_one_hunk_written [of h "concat (map hunk_lines hs)"] Cons.prems h hunk_end_hunks by simp
  with Cons h show ?case by simp
qed simp

section \<open>The text of a patch\<close>

lemma strip_cr_text: "text_line l \<Longrightarrow> strip_cr l = l"
  by (auto simp: strip_cr_def text_line_def strip_suffix_iff split: option.splits)

lemma str_lines_join:
  assumes "ls \<noteq> []" "list_all text_line ls" "last ls \<noteq> []"
  shows "str_lines (join [10] ls) = ls"
proof -
  have "split_char 10 (join [10] ls) = ls"
    using assms(1, 2) by (intro split_char_join) (auto simp: text_line_def list_all_iff)
  moreover have "map strip_cr (butlast ls) = butlast ls"
    using assms(2) by (intro map_idI strip_cr_text) (auto simp: list_all_iff dest: in_set_butlastD)
  ultimately show ?thesis using assms(1, 3) by (simp add: str_lines_def)
qed

lemma text_line_prefix:
  "text_line l \<Longrightarrow> c \<noteq> 10 \<Longrightarrow> c \<noteq> 13 \<Longrightarrow> text_line (c # l)"
  by (auto simp: text_line_def)

lemma text_line_append: "text_line a \<Longrightarrow> text_line b \<Longrightarrow> text_line (a @ b)"
  by (cases b) (auto simp: text_line_def)

lemma text_line_markers [simp]:
  "text_line BEGIN_PATCH_MARKER" "text_line END_PATCH_MARKER" "text_line ADD_FILE_MARKER"
  "text_line DELETE_FILE_MARKER" "text_line UPDATE_FILE_MARKER" "text_line MOVE_TO_MARKER"
  "text_line EOF_MARKER" "text_line CHANGE_CONTEXT_MARKER" "text_line EMPTY_CHANGE_CONTEXT_MARKER"
  by (simp_all add: text_line_def marker_defs u_simps)

lemma text_line_path: "header_path p \<Longrightarrow> text_line p"
  by (auto simp: header_path_def text_line_def is_whitespace_def)

lemma diff_text_line: "diff_line_ok d \<Longrightarrow> text_line (diff_text d)"
  by (cases d) (auto intro: text_line_prefix)

lemma chunk_text_lines: "chunk_ok c \<Longrightarrow> list_all text_line (chunk_lines c)"
  by (cases c) (auto simp: chunk_ok_def chunk_lines_def list_all_iff diff_text_line text_line_append
      split: option.splits)

lemma hunk_text_lines: "hunk_ok h \<Longrightarrow> list_all text_line (hunk_lines h)"
proof (cases h)
  case (WUpdate p m cs)
  assume "hunk_ok h"
  with WUpdate show ?thesis
    using chunk_text_lines
    by (auto simp: list_all_iff text_line_append text_line_path split: option.splits)
qed (auto simp: list_all_iff text_line_append text_line_path text_line_prefix)

lemma render_lines:
  assumes "list_all hunk_ok hs"
  shows "str_lines (render_patch hs) = BEGIN_PATCH_MARKER # concat (map hunk_lines hs) @ [END_PATCH_MARKER]"
proof -
  have "list_all text_line (concat (map hunk_lines hs))"
    using assms hunk_text_lines by (auto simp: list_all_iff)
  then have "list_all text_line (BEGIN_PATCH_MARKER # concat (map hunk_lines hs) @ [END_PATCH_MARKER])"
    by simp
  then show ?thesis
    unfolding render_patch_def by (subst str_lines_join) (auto simp: END_PATCH_MARKER_def u_simps)
qed

lemma join_hd_last:
  assumes "a \<noteq> []" "b \<noteq> []"
  shows "\<exists>m. join [10] ([a] @ xs @ [b]) = a @ m @ b"
proof -
  have "\<exists>m. join [10] (xs @ [b]) = m @ b"
  proof (induction xs)
    case (Cons x xs)
    then show ?case by (auto simp: join_Cons)
  qed simp
  then show ?thesis by (auto simp: join_Cons)
qed

lemma trim_render: "trim (render_patch hs) = render_patch hs"
proof -
  obtain m where m: "render_patch hs = BEGIN_PATCH_MARKER @ m @ END_PATCH_MARKER"
    using join_hd_last [of BEGIN_PATCH_MARKER END_PATCH_MARKER "concat (map hunk_lines hs)"]
    by (auto simp: render_patch_def marker_defs u_simps)
  have "trim (42 # (tl BEGIN_PATCH_MARKER @ m @ END_PATCH_MARKER))
      = 42 # (tl BEGIN_PATCH_MARKER @ m @ END_PATCH_MARKER)"
    by (rule trim_id) (simp_all add: marker_defs u_simps is_whitespace_def)
  moreover have "BEGIN_PATCH_MARKER = 42 # tl BEGIN_PATCH_MARKER"
    by (simp add: marker_defs u_simps)
  ultimately show ?thesis unfolding m by (metis append_Cons)
qed

lemma trim_markers [simp]:
  "trim BEGIN_PATCH_MARKER = BEGIN_PATCH_MARKER" "trim END_PATCH_MARKER = END_PATCH_MARKER"
  by (simp_all add: marker_defs u_simps trim_defs)

text \<open>
  C8. Every patch written in the documented format parses, and to exactly the hunks that were
  written: the removed and context lines of a chunk are its old lines, the added and context lines
  its new lines, in order; the context line, the end-of-file flag, the move target and the contents
  of an added file are kept, and the normalised patch text is the text itself. The written hunks
  only have to be representable: no line feeds inside lines, no line ending in a carriage return,
  header paths that are not empty and do not end in white space, at least one line per chunk and at
  least one chunk per update.
\<close>
theorem parse_render_roundtrip:
  assumes "list_all hunk_ok hs"
  shows "parse_patch (render_patch hs) = Inr \<lparr>hunks = map hunk_of hs, patch_text = render_patch hs\<rparr>"
proof -
  let ?ls = "BEGIN_PATCH_MARKER # concat (map hunk_lines hs) @ [END_PATCH_MARKER]"
  have "check_patch_boundaries_strict ?ls = Inr ()"
    by (simp add: check_patch_boundaries_strict_def check_start_and_end_lines_strict_def)
  moreover have "join [10] ?ls = render_patch hs" by (simp add: render_patch_def)
  ultimately show ?thesis
    by (simp add: parse_patch_def trim_render render_lines [OF assms] parse_hunks_written [OF assms])
qed

theorem parse_render_roundtrip_witness:
  "parse_patch (render_patch
      [WAdd (u ''a'') [u ''x'', []], WDelete (u ''b''),
       WUpdate (u ''c'') (Some (u ''d'')) [(Some (u ''f''), [Ctx (u ''p''), Del (u ''q''), Add (u ''r'')], True)]])
   = Inr \<lparr>hunks = [AddFile (u ''a'') (u ''x'' @ [10, 10]), DeleteFile (u ''b''),
            UpdateFile (u ''c'') (Some (u ''d''))
              [\<lparr>change_context = Some (u ''f''), old_lines = [u ''p'', u ''q''],
                new_lines = [u ''p'', u ''r''], is_end_of_file = True\<rparr>]],
          patch_text = render_patch
      [WAdd (u ''a'') [u ''x'', []], WDelete (u ''b''),
       WUpdate (u ''c'') (Some (u ''d'')) [(Some (u ''f''), [Ctx (u ''p''), Del (u ''q''), Add (u ''r'')], True)]]\<rparr>"
  by (subst parse_render_roundtrip)
     (simp_all add: chunk_ok_def chunk_of_def header_path_def text_line_def is_whitespace_def u_simps)

text \<open>
  Parse errors are precise: an error in a hunk carries the number of a line of the patch between
  its markers or of the line after it, never one outside the text; every other error is one of the
  two messages on the first and the last line.
\<close>
lemma parse_error_line:
  assumes "parse_patch text = Inl e"
  shows "(\<exists>msg n. e = InvalidHunkError msg n \<and> 2 \<le> n \<and> n \<le> length (str_lines (trim text))) \<or>
         e = InvalidPatchError (u ''The first line of the patch must be '' @ [39] @ BEGIN_PATCH_MARKER @ [39]) \<or>
         e = InvalidPatchError (u ''The last line of the patch must be '' @ [39] @ END_PATCH_MARKER @ [39])"
proof -
  let ?L = "str_lines (trim text)"
  have two: "2 \<le> length ls" if "check_patch_boundaries_strict ls = Inr r" for ls and r :: unit
    using that
    by (cases ls rule: list.exhaust; cases "tl ls")
       (auto simp: check_patch_boundaries_strict_def check_start_and_end_lines_strict_def marker_defs u_simps
         split: if_splits)
  have strict: "check_patch_boundaries_strict ls = Inl e \<Longrightarrow> ?thesis" for ls
    by (auto simp: check_patch_boundaries_strict_def check_start_and_end_lines_strict_def
        split: list.splits if_splits)
  have hunks: ?thesis
    if "parse_hunks (butlast (tl ls)) 2 = Inl e" "length ls \<le> length ?L" "2 \<le> length ls" for ls
    using parse_hunks_error [OF that(1)] that(2, 3)
    by (cases e) (auto simp: error_within_def)
  show ?thesis
  proof (cases "check_patch_boundaries_strict ?L")
    case (Inr r)
    with assms hunks [of ?L] two show ?thesis
      by (auto simp: parse_patch_def Let_def split: sum.splits)
  next
    case (Inl e1)
    show ?thesis
    proof (cases "check_patch_boundaries_lenient ?L e1")
      case (Inl e2)
      with assms \<open>check_patch_boundaries_strict ?L = Inl e1\<close> have "e = e2"
        by (auto simp: parse_patch_def Let_def)
      with Inl \<open>check_patch_boundaries_strict ?L = Inl e1\<close> strict show ?thesis
        by (auto simp: check_patch_boundaries_lenient_def Let_def
            split: list.splits if_splits sum.splits)
    next
      case (Inr ls)
      then have "ls = butlast (tl ?L)" and "check_patch_boundaries_strict ls = Inr ()"
        by (auto simp: check_patch_boundaries_lenient_def Let_def
            split: list.splits if_splits sum.splits)
      with Inr assms hunks [of ls] two [of ls] \<open>check_patch_boundaries_strict ?L = Inl e1\<close>
      show ?thesis
        by (auto simp: parse_patch_def Let_def split: sum.splits)
    qed
  qed
qed

end
