(* ===== verification/Patch_Apply.thy ===== *)
theory Patch_Apply
  imports Patch_Parser
begin

text \<open>
  Matching and applying update chunks
  (\<^verbatim>\<open>codex/apply_patch/seek_sequence.rs\<close> and \<^verbatim>\<open>codex/apply_patch/apply.rs\<close>). The loops
  \<^verbatim>\<open>for i in a..=b\<close> are \<open>List.find\<close> over \<open>[a..<Suc b]\<close>; \<^verbatim>\<open>Vec::insert\<close> beyond the end
  panics, so applying replacements returns an option with \<open>None\<close> for the panic.
\<close>

section \<open>Finding a sequence of lines\<close>

definition normalise_char :: "uchar \<Rightarrow> uchar" where
  "normalise_char c =
     (if c \<in> {8208, 8209, 8210, 8211, 8212, 8213, 8722} then 45
      else if c \<in> {8216, 8217, 8218, 8219} then 39
      else if c \<in> {8220, 8221, 8222, 8223} then 34
      else if c \<in> {160, 8194, 8195, 8196, 8197, 8198, 8199, 8200, 8201, 8202, 8239, 8287, 12288} then 32
      else c)"

definition normalise :: "ustr \<Rightarrow> ustr" where
  "normalise s = map normalise_char (trim s)"

definition matches_at :: "(ustr \<Rightarrow> ustr) \<Rightarrow> ustr list \<Rightarrow> ustr list \<Rightarrow> nat \<Rightarrow> bool" where
  "matches_at f lines pattern i =
     list_all2 (\<lambda>l p. f l = f p) (take (length pattern) (drop i lines)) pattern"

definition seek_sequence :: "ustr list \<Rightarrow> ustr list \<Rightarrow> nat \<Rightarrow> bool \<Rightarrow> nat option" where
  "seek_sequence lines pattern start eof =
     (if pattern = [] then Some start
      else if length pattern > length lines then None
      else
        (let search_start = (if eof \<and> length lines \<ge> length pattern
                             then length lines - length pattern else start);
             candidates = [search_start ..< Suc (length lines - length pattern)] in
         case List.find (matches_at (\<lambda>l. l) lines pattern) candidates of
           Some i \<Rightarrow> Some i
         | None \<Rightarrow>
        (case List.find (matches_at trim_end lines pattern) candidates of
           Some i \<Rightarrow> Some i
         | None \<Rightarrow>
        (case List.find (matches_at trim lines pattern) candidates of
           Some i \<Rightarrow> Some i
         | None \<Rightarrow> List.find (matches_at normalise lines pattern) candidates))))"

section \<open>Replacements\<close>

type_synonym replacement = "nat \<times> nat \<times> ustr list"

datatype apply_error = ComputeReplacements ustr

definition context_not_found :: "ustr \<Rightarrow> ustr \<Rightarrow> apply_error" where
  "context_not_found ctx path =
     ComputeReplacements (u ''Failed to find context '' @ [39] @ ctx @ [39] @ u '' in '' @ path)"

definition lines_not_found :: "ustr \<Rightarrow> ustr list \<Rightarrow> apply_error" where
  "lines_not_found path ols =
     ComputeReplacements (u ''Failed to find expected lines in '' @ path @ u '':'' @ [10] @ join [10] ols)"

definition ends_blank :: "ustr list \<Rightarrow> bool" where
  "ends_blank ls \<longleftrightarrow> ls \<noteq> [] \<and> last ls = []"

text \<open>Where the search for a chunk's lines starts, given its context line.\<close>

definition seek_context ::
    "ustr list \<Rightarrow> ustr \<Rightarrow> update_file_chunk \<Rightarrow> nat \<Rightarrow> apply_error + nat" where
  "seek_context original_lines path chunk line_index =
     (case change_context chunk of
        None \<Rightarrow> Inr line_index
      | Some ctx_line \<Rightarrow>
          (case seek_sequence original_lines [ctx_line] line_index False of
             Some idx \<Rightarrow> Inr (idx + 1)
           | None \<Rightarrow> Inl (context_not_found ctx_line path)))"

text \<open>The match of a chunk with old lines: the start, the pattern and the new lines used.\<close>

definition seek_chunk ::
    "ustr list \<Rightarrow> update_file_chunk \<Rightarrow> nat \<Rightarrow> nat option \<times> ustr list \<times> ustr list" where
  "seek_chunk original_lines chunk line_index =
     (let pattern = old_lines chunk;
          found = seek_sequence original_lines pattern line_index (is_end_of_file chunk);
          new_slice = new_lines chunk in
      if found = None \<and> ends_blank pattern
      then (let pattern' = butlast pattern;
                new_slice' = (if ends_blank new_slice then butlast new_slice else new_slice) in
            (seek_sequence original_lines pattern' line_index (is_end_of_file chunk), pattern', new_slice'))
      else (found, pattern, new_slice))"

fun replacements_loop ::
    "ustr list \<Rightarrow> ustr \<Rightarrow> update_file_chunk list \<Rightarrow> nat \<Rightarrow> replacement list
       \<Rightarrow> apply_error + replacement list" where
  "replacements_loop original_lines path [] line_index replacements = Inr replacements"
| "replacements_loop original_lines path (chunk # chunks) line_index replacements =
     (case seek_context original_lines path chunk line_index of
        Inl e \<Rightarrow> Inl e
      | Inr line_index \<Rightarrow>
          if old_lines chunk = [] then
            (let insertion_idx = (if ends_blank original_lines then length original_lines - 1
                                  else length original_lines) in
             replacements_loop original_lines path chunks line_index
               (replacements @ [(insertion_idx, 0, new_lines chunk)]))
          else
            (case seek_chunk original_lines chunk line_index of
               (Some start_idx, pattern, new_slice) \<Rightarrow>
                 replacements_loop original_lines path chunks (start_idx + length pattern)
                   (replacements @ [(start_idx, length pattern, new_slice)])
             | (None, _, _) \<Rightarrow> Inl (lines_not_found path (old_lines chunk))))"

definition compute_replacements ::
    "ustr list \<Rightarrow> ustr \<Rightarrow> update_file_chunk list \<Rightarrow> apply_error + replacement list" where
  "compute_replacements original_lines path chunks =
     (case replacements_loop original_lines path chunks 0 [] of
        Inl e \<Rightarrow> Inl e
      | Inr replacements \<Rightarrow> Inr (sort_key fst replacements))"

definition vec_insert :: "nat \<Rightarrow> 'a \<Rightarrow> 'a list \<Rightarrow> 'a list option" where
  "vec_insert i x xs = (if i \<le> length xs then Some (take i xs @ x # drop i xs) else None)"

fun remove_lines :: "nat \<Rightarrow> nat \<Rightarrow> ustr list \<Rightarrow> ustr list" where
  "remove_lines start_idx 0 lines = lines"
| "remove_lines start_idx (Suc n) lines =
     remove_lines start_idx n
       (if start_idx < length lines then take start_idx lines @ drop (Suc start_idx) lines else lines)"

fun insert_lines :: "nat \<Rightarrow> ustr list \<Rightarrow> ustr list \<Rightarrow> ustr list option" where
  "insert_lines i [] lines = Some lines"
| "insert_lines i (x # xs) lines =
     (case vec_insert i x lines of None \<Rightarrow> None | Some lines' \<Rightarrow> insert_lines (Suc i) xs lines')"

definition apply_one :: "replacement \<Rightarrow> ustr list \<Rightarrow> ustr list option" where
  "apply_one r lines =
     (case r of (start_idx, old_len, new_segment) \<Rightarrow>
        insert_lines start_idx new_segment (remove_lines start_idx old_len lines))"

definition apply_replacements :: "ustr list \<Rightarrow> replacement list \<Rightarrow> ustr list option" where
  "apply_replacements lines replacements =
     foldr (\<lambda>r acc. Option.bind acc (apply_one r)) replacements (Some lines)"

definition file_lines :: "ustr \<Rightarrow> ustr list" where
  "file_lines original_content =
     (let ls = split_char 10 original_content in if last ls = [] then butlast ls else ls)"

definition finish_lines :: "ustr list \<Rightarrow> ustr" where
  "finish_lines new_lns = join [10] (if ends_blank new_lns then new_lns else new_lns @ [[]])"

text \<open>\<open>None\<close> stands for a panic.\<close>

definition derive_new_contents ::
    "ustr \<Rightarrow> ustr \<Rightarrow> update_file_chunk list \<Rightarrow> (apply_error + ustr) option" where
  "derive_new_contents original_content path chunks =
     (let original_lines = file_lines original_content in
      case compute_replacements original_lines path chunks of
        Inl e \<Rightarrow> Some (Inl e)
      | Inr replacements \<Rightarrow>
          (case apply_replacements original_lines replacements of
             None \<Rightarrow> None
           | Some new_lns \<Rightarrow> Some (Inr (finish_lines new_lns))))"

section \<open>The search is sound, complete and prefers strict matches\<close>

fun strictness :: "nat \<Rightarrow> ustr \<Rightarrow> ustr" where
  "strictness 0 = (\<lambda>l. l)"
| "strictness (Suc 0) = trim_end"
| "strictness (Suc (Suc 0)) = trim"
| "strictness (Suc (Suc (Suc n))) = normalise"

definition seek_from :: "ustr list \<Rightarrow> ustr list \<Rightarrow> nat \<Rightarrow> bool \<Rightarrow> nat" where
  "seek_from lines pattern start eof = (if eof then length lines - length pattern else start)"

definition loosely :: "ustr \<Rightarrow> ustr \<Rightarrow> bool" where
  "loosely l p \<longleftrightarrow> normalise l = normalise p"

lemma dropWhile_snoc_comm:
  "dropWhile P (rev (dropWhile P s)) = rev (dropWhile P (rev (dropWhile P (rev s))))"
proof (induction s)
  case (Cons c s)
  show ?case
  proof (cases "P c")
    case True
    with Cons show ?thesis
      by (cases "\<forall>x\<in>set s. P x") (auto simp: dropWhile_append dropWhile_eq_Nil_conv dest: set_dropWhileD)
  next
    case False
    then show ?thesis by (auto simp: dropWhile_append dropWhile_eq_Nil_conv)
  qed
qed simp

lemma trim_via_end: "trim s = trim_start (trim_end s)"
  using dropWhile_snoc_comm [of is_whitespace s]
  by (simp add: trim_def trim_start_def trim_end_def)

lemma strict_weaken: "strictness k l = strictness k p \<Longrightarrow> loosely l p"
proof (induction k rule: strictness.induct)
  case 2
  then show ?case by (simp add: loosely_def normalise_def trim_via_end)
qed (auto simp: loosely_def normalise_def)

lemma matches_at_loose: "matches_at (strictness k) lines p i \<Longrightarrow> matches_at normalise lines p i"
  unfolding matches_at_def using strict_weaken [of k, unfolded loosely_def]
  by (blast intro: list_all2_mono)

lemma matches_at_bound: "matches_at f lines p i \<Longrightarrow> p \<noteq> [] \<Longrightarrow> i + length p \<le> length lines"
  by (cases "i \<le> length lines") (auto simp: matches_at_def min_def split: if_splits dest!: list_all2_lengthD)

lemma seek_sequence_cases:
  fixes start :: nat and eof :: bool
  assumes "p \<noteq> []" "length p \<le> length lines"
  defines "cands \<equiv> [seek_from lines p start eof ..< Suc (length lines - length p)]"
  shows "seek_sequence lines p start eof =
    (case List.find (matches_at (strictness 0) lines p) cands of Some i \<Rightarrow> Some i | None \<Rightarrow>
    (case List.find (matches_at (strictness 1) lines p) cands of Some i \<Rightarrow> Some i | None \<Rightarrow>
    (case List.find (matches_at (strictness 2) lines p) cands of Some i \<Rightarrow> Some i | None \<Rightarrow>
      List.find (matches_at (strictness 3) lines p) cands)))"
proof -
  have "strictness 1 = trim_end" "strictness 2 = trim" "strictness 3 = normalise"
    by (simp_all add: numeral_2_eq_2 numeral_3_eq_3)
  with assms show ?thesis by (simp only: seek_sequence_def seek_from_def Let_def strictness.simps) simp
qed

lemma seek_sequence_Some:
  assumes "p \<noteq> []"
  shows "seek_sequence lines p start eof = Some i \<longleftrightarrow>
     (\<exists>k < 4. seek_from lines p start eof \<le> i \<and> i + length p \<le> length lines \<and>
        matches_at (strictness k) lines p i \<and>
        (\<forall>j. seek_from lines p start eof \<le> j \<and> j < i \<longrightarrow> \<not> matches_at (strictness k) lines p j) \<and>
        (\<forall>k' < k. \<forall>j. seek_from lines p start eof \<le> j \<and> j + length p \<le> length lines \<longrightarrow>
            \<not> matches_at (strictness k') lines p j))"
proof (cases "length p \<le> length lines")
  case False
  with assms show ?thesis by (auto simp: seek_sequence_def)
next
  case True
  have chain: "(case F 0 of Some i \<Rightarrow> Some i | None \<Rightarrow> (case F 1 of Some i \<Rightarrow> Some i | None \<Rightarrow>
      (case F 2 of Some i \<Rightarrow> Some i | None \<Rightarrow> F (3::nat)))) = Some i \<longleftrightarrow>
      (\<exists>k < 4. F k = Some i \<and> (\<forall>k' < k. F k' = None))" for F :: "nat \<Rightarrow> nat option"
  proof -
    have four: "(\<exists>k < 4. Q k) \<longleftrightarrow> Q 0 \<or> Q 1 \<or> Q 2 \<or> Q (3::nat)" for Q
      by (simp add: numeral_eq_Suc Ex_less_Suc disj_ac)
    have below: "(\<forall>k' < 0. R k') \<longleftrightarrow> True" "(\<forall>k' < 1. R k') \<longleftrightarrow> R 0" "(\<forall>k' < 2. R k') \<longleftrightarrow> R 0 \<and> R 1"
      "(\<forall>k' < 3. R k') \<longleftrightarrow> R 0 \<and> R 1 \<and> R (2::nat)" for R
      by (simp_all add: numeral_eq_Suc All_less_Suc conj_ac)
    show ?thesis
      unfolding four below by (cases "F 0"; cases "F 1"; cases "F 2"; simp)
  qed
  have len: "j < Suc (length lines - length p) \<longleftrightarrow> j + length p \<le> length lines" for j
    using True by auto
  show ?thesis
    unfolding seek_sequence_cases [OF assms True]
      chain [of "\<lambda>k. List.find (matches_at (strictness k) lines p)
        [seek_from lines p start eof ..< Suc (length lines - length p)]"]
      find_upt_Some find_upt_None len
    by (rule iff_exI) blast
qed

lemma seek_sequence_None:
  assumes "p \<noteq> []"
  shows "seek_sequence lines p start eof = None \<longleftrightarrow>
     (\<forall>j. seek_from lines p start eof \<le> j \<and> j + length p \<le> length lines \<longrightarrow>
        \<not> matches_at normalise lines p j)"
proof (cases "length p \<le> length lines")
  case False
  with assms show ?thesis by (auto simp: seek_sequence_def)
next
  case True
  have len: "j < Suc (length lines - length p) \<longleftrightarrow> j + length p \<le> length lines" for j
    using True by auto
  show ?thesis
  proof
    assume none: "seek_sequence lines p start eof = None"
    show "\<forall>j. seek_from lines p start eof \<le> j \<and> j + length p \<le> length lines \<longrightarrow>
        \<not> matches_at normalise lines p j"
      using none unfolding seek_sequence_cases [OF assms True]
      by (auto simp: find_upt_None len numeral_3_eq_3 simp del: upt_Suc split: option.splits)
  next
    assume no: "\<forall>j. seek_from lines p start eof \<le> j \<and> j + length p \<le> length lines \<longrightarrow>
        \<not> matches_at normalise lines p j"
    have "seek_sequence lines p start eof \<noteq> Some i" for i
      using no matches_at_loose [of _ lines p i] unfolding seek_sequence_Some [OF assms] by blast
    then show "seek_sequence lines p start eof = None" by (cases "seek_sequence lines p start eof") auto
  qed
qed

end
