(* ===== verification/Patch_Update.thy ===== *)
theory Patch_Update
  imports Patch_Apply
begin

text \<open>
  Correctness of applying update chunks: applying the replacements from the last to the first is
  the left-to-right splice, no input makes it panic, a successful update replaces, in order, lines
  that match each chunk and leaves every other line alone, and an update whose lines occur in the
  file in order always succeeds.
\<close>

section \<open>Splicing\<close>

lemma remove_lines_eq: "remove_lines s n ls = take s ls @ drop (s + n) ls"
proof (induction n arbitrary: ls)
  case (Suc n)
  show ?case
  proof (cases "s < length ls")
    case True
    then have "drop (s + n) (take s ls @ drop (Suc s) ls) = drop (s + Suc n) ls"
      by (simp add: add.commute)
    with True Suc show ?thesis by simp
  next
    case False
    with Suc show ?thesis by simp
  qed
qed simp

lemma insert_lines_eq: "i \<le> length ls \<Longrightarrow> insert_lines i xs ls = Some (take i ls @ xs @ drop i ls)"
proof (induction xs arbitrary: i ls)
  case (Cons x xs)
  then have "insert_lines (Suc i) xs (take i ls @ x # drop i ls)
      = Some (take (Suc i) (take i ls @ x # drop i ls) @ xs @ drop (Suc i) (take i ls @ x # drop i ls))"
    by (intro Cons.IH) simp
  with Cons.prems show ?case by (simp add: vec_insert_def)
qed simp

lemma apply_one_eq:
  "s \<le> length ls \<Longrightarrow> apply_one (s, n, new) ls = Some (take s ls @ new @ drop (s + n) ls)"
  by (simp add: apply_one_def remove_lines_eq insert_lines_eq)

lemma apply_replacements_simps [simp]:
  "apply_replacements ls [] = Some ls"
  "apply_replacements ls (r # rs) = Option.bind (apply_replacements ls rs) (apply_one r)"
  by (simp_all add: apply_replacements_def)

lemma apply_replacements_total:
  assumes "sorted (map fst rs)" "\<forall>r \<in> set rs. fst r \<le> length ls"
  shows "\<exists>ls'. apply_replacements ls rs = Some ls' \<and> (\<forall>k \<le> length ls. (\<forall>r \<in> set rs. k \<le> fst r) \<longrightarrow> k \<le> length ls')"
  using assms
proof (induction rs)
  case (Cons r rs)
  obtain s n new where r: "r = (s, n, new)" by (cases r)
  from Cons obtain ls' where ls': "apply_replacements ls rs = Some ls'"
    and keep: "\<And>k. k \<le> length ls \<Longrightarrow> \<forall>r \<in> set rs. k \<le> fst r \<Longrightarrow> k \<le> length ls'" by auto
  from Cons.prems r have "s \<le> length ls'" by (intro keep) auto
  then show ?case using ls' r by (auto simp: apply_one_eq)
qed simp

fun ordered_from :: "nat \<Rightarrow> nat \<Rightarrow> replacement list \<Rightarrow> bool" where
  "ordered_from len k [] \<longleftrightarrow> k \<le> len"
| "ordered_from len k ((s, n, new) # rs) \<longleftrightarrow> k \<le> s \<and> ordered_from len (s + n) rs"

fun splice_lines :: "ustr list \<Rightarrow> nat \<Rightarrow> replacement list \<Rightarrow> ustr list" where
  "splice_lines ls k [] = drop k ls"
| "splice_lines ls k ((s, n, new) # rs) = take (s - k) (drop k ls) @ new @ splice_lines ls (s + n) rs"

lemma ordered_from_le: "ordered_from len k rs \<Longrightarrow> k \<le> len"
  by (induction len k rs rule: ordered_from.induct) auto

lemma ordered_from_starts: "ordered_from len k rs \<Longrightarrow> r \<in> set rs \<Longrightarrow> k \<le> fst r"
  by (induction len k rs rule: ordered_from.induct) force+

lemma ordered_from_sorted: "ordered_from len k rs \<Longrightarrow> sorted (map fst rs)"
proof (induction len k rs rule: ordered_from.induct)
  case (2 len k s n new rs)
  then show ?case using ordered_from_starts [of len "s + n" rs] by fastforce
qed simp

lemma take_split: "k \<le> s \<Longrightarrow> take s xs = take k xs @ take (s - k) (drop k xs)"
  by (metis le_add_diff_inverse take_add)

lemma apply_replacements_splice:
  "ordered_from (length ls) k rs \<Longrightarrow> apply_replacements ls rs = Some (take k ls @ splice_lines ls k rs)"
proof (induction "length ls" k rs rule: ordered_from.induct)
  case (2 k s n new rs)
  then have le: "k \<le> s" "s + n \<le> length ls" using ordered_from_le by auto
  with 2 have "apply_replacements ls rs = Some (take (s + n) ls @ splice_lines ls (s + n) rs)" by simp
  with le show ?case
    by (simp add: apply_one_eq take_split [of k s] min_def)
qed simp

section \<open>The replacements of a list of chunks\<close>

lemma seek_sequence_bounds:
  assumes "seek_sequence ls p start eof = Some i" "start \<le> length ls"
  shows "i + length p \<le> length ls"
  using assms seek_sequence_Some [of p ls start eof i] by (cases "p = []") (auto simp: seek_sequence_def)

lemma seek_sequence_start:
  assumes "seek_sequence ls p start False = Some i"
  shows "start \<le> i"
  using assms seek_sequence_Some [of p ls start False i]
  by (cases "p = []") (auto simp: seek_sequence_def seek_from_def)

lemma seek_sequence_match:
  assumes "seek_sequence ls p start eof = Some i"
  shows "list_all2 loosely (take (length p) (drop i ls)) p"
proof (cases "p = []")
  case False
  with assms obtain k where "matches_at (strictness k) ls p i" by (auto simp: seek_sequence_Some)
  then show ?thesis
    using matches_at_loose unfolding matches_at_def loosely_def by blast
qed simp

lemma seek_context_bounds:
  assumes "seek_context ls path c li = Inr li'" "li \<le> length ls"
  shows "li \<le> li' \<and> li' \<le> length ls"
proof (cases "change_context c")
  case (Some ctx)
  with assms(1) obtain i where i: "seek_sequence ls [ctx] li False = Some i" "li' = i + 1"
    by (auto simp: seek_context_def split: option.splits)
  with seek_sequence_bounds [OF i(1) assms(2)] seek_sequence_start [OF i(1)] show ?thesis by simp
qed (use assms in \<open>simp add: seek_context_def\<close>)

lemma seek_chunk_bounds:
  assumes "seek_chunk ls c li = (Some s, p, new)" "li \<le> length ls"
  shows "s + length p \<le> length ls"
  using assms seek_sequence_bounds [OF _ assms(2)]
  by (auto simp: seek_chunk_def Let_def split: if_splits)

lemma replacements_loop_bounds:
  "replacements_loop ls path cs li acc = Inr rs \<Longrightarrow> li \<le> length ls \<Longrightarrow>
   \<forall>r \<in> set acc. fst r \<le> length ls \<Longrightarrow> \<forall>r \<in> set rs. fst r \<le> length ls"
proof (induction cs arbitrary: li acc)
  case (Cons c cs)
  from Cons.prems(1) obtain li' where li': "seek_context ls path c li = Inr li'"
    by (auto split: sum.splits)
  note b = seek_context_bounds [OF li' Cons.prems(2)]
  show ?case
  proof (cases "old_lines c = []")
    case True
    with Cons.prems li' show ?thesis
      by (intro Cons.IH [of li' "acc @ [(if ends_blank ls then length ls - 1 else length ls, 0, new_lines c)]"])
         (auto simp: b)
  next
    case False
    with Cons.prems li' obtain s p new where s: "seek_chunk ls c li' = (Some s, p, new)"
      and rest: "replacements_loop ls path cs (s + length p) (acc @ [(s, length p, new)]) = Inr rs"
      by (auto split: prod.splits option.splits)
    from seek_chunk_bounds [OF s] b have "s + length p \<le> length ls" by simp
    with rest Cons.prems(3) show ?thesis by (intro Cons.IH [OF rest]) auto
  qed
qed simp

section \<open>Updates of a file\<close>

definition regular_chunk :: "update_file_chunk \<Rightarrow> bool" where
  "regular_chunk c \<longleftrightarrow> old_lines c \<noteq> [] \<and> \<not> is_end_of_file c"

text \<open>The lines a chunk may be matched with and replaced by: a final blank line may be left out.\<close>

definition chunk_variant :: "update_file_chunk \<Rightarrow> ustr list \<Rightarrow> ustr list \<Rightarrow> bool" where
  "chunk_variant c old new \<longleftrightarrow>
     (old = old_lines c \<and> new = new_lines c) \<or>
     (ends_blank (old_lines c) \<and> old = butlast (old_lines c) \<and>
      new = (if ends_blank (new_lines c) then butlast (new_lines c) else new_lines c))"

definition context_in :: "ustr option \<Rightarrow> ustr list \<Rightarrow> bool" where
  "context_in ctx gap = (case ctx of None \<Rightarrow> True | Some c \<Rightarrow> list_ex (\<lambda>l. loosely l c) gap)"

inductive patched :: "update_file_chunk list \<Rightarrow> ustr list \<Rightarrow> ustr list \<Rightarrow> bool" where
  patched_Nil: "patched [] ls ls"
| patched_Cons:
    "\<lbrakk>context_in (change_context c) gap; chunk_variant c old new; list_all2 loosely m old;
      patched cs rest rest'\<rbrakk> \<Longrightarrow> patched (c # cs) (gap @ m @ rest) (gap @ new @ rest')"

lemma seek_context_gap:
  assumes "seek_context ls path c li = Inr li'" "li \<le> length ls" "li' \<le> s"
  shows "context_in (change_context c) (take (s - li) (drop li ls))"
proof (cases "change_context c")
  case (Some ctx)
  with assms(1) obtain i where i: "seek_sequence ls [ctx] li False = Some i" "li' = i + 1"
    by (auto simp: seek_context_def split: option.splits)
  from seek_sequence_bounds [OF i(1) assms(2)] have b: "i < length ls" by simp
  have "list_all2 loosely (take 1 (drop i ls)) [ctx]" using seek_sequence_match [OF i(1)] by simp
  with b have "loosely (ls ! i) ctx" by (simp add: take_Suc_conv_app_nth Cons_nth_drop_Suc [symmetric])
  moreover have "ls ! i \<in> set (take (s - li) (drop li ls))"
    using b i(2) assms(3) seek_sequence_start [OF i(1)]
    by (auto simp: in_set_conv_nth intro!: exI [of _ "i - li"])
  ultimately show ?thesis using Some by (auto simp: context_in_def list_ex_iff)
qed (simp add: context_in_def)

lemma seek_chunk_regular:
  assumes "seek_chunk ls c li = (Some s, p, new)" "\<not> is_end_of_file c"
  shows "li \<le> s \<and> chunk_variant c p new \<and> list_all2 loosely (take (length p) (drop s ls)) p"
  using assms seek_sequence_start seek_sequence_match
  by (auto simp: seek_chunk_def chunk_variant_def Let_def simp del: length_butlast split: if_splits)

lemma drop_three:
  assumes "k \<le> s" "s + n \<le> length ls"
  shows "drop k ls = take (s - k) (drop k ls) @ take n (drop s ls) @ drop (s + n) ls"
proof -
  have "drop k ls = take (s - k) (drop k ls) @ drop s ls"
    using assms(1) by (metis append_take_drop_id drop_drop le_add_diff_inverse2)
  then show ?thesis by (metis add.commute append_take_drop_id drop_drop)
qed

lemma replacements_loop_patched:
  "replacements_loop ls path cs li acc = Inr rs \<Longrightarrow> list_all regular_chunk cs \<Longrightarrow> li \<le> length ls \<Longrightarrow>
   \<exists>rs'. rs = acc @ rs' \<and> ordered_from (length ls) li rs' \<and> patched cs (drop li ls) (splice_lines ls li rs')"
proof (induction cs arbitrary: li acc)
  case Nil
  then show ?case by (auto intro: patched_Nil)
next
  case (Cons c cs)
  from Cons.prems(1) obtain li' where li': "seek_context ls path c li = Inr li'"
    by (auto split: sum.splits)
  note b = seek_context_bounds [OF li' Cons.prems(3)]
  from Cons.prems(1, 2) li' obtain s p new where s: "seek_chunk ls c li' = (Some s, p, new)"
    and rest: "replacements_loop ls path cs (s + length p) (acc @ [(s, length p, new)]) = Inr rs"
    by (auto simp: regular_chunk_def split: prod.splits option.splits)
  from seek_chunk_bounds [OF s] b have le: "s + length p \<le> length ls" by simp
  have reg: "li' \<le> s" "chunk_variant c p new" "list_all2 loosely (take (length p) (drop s ls)) p"
    using seek_chunk_regular [OF s] Cons.prems(2) by (auto simp: regular_chunk_def)
  from Cons.IH [OF rest] Cons.prems(2) le obtain rs' where
    rs': "rs = (acc @ [(s, length p, new)]) @ rs'" "ordered_from (length ls) (s + length p) rs'"
    "patched cs (drop (s + length p) ls) (splice_lines ls (s + length p) rs')" by auto
  from b reg(1) have "li \<le> s" by simp
  have "patched (c # cs) (take (s - li) (drop li ls) @ take (length p) (drop s ls) @ drop (s + length p) ls)
      (take (s - li) (drop li ls) @ new @ splice_lines ls (s + length p) rs')"
    by (rule patched_Cons [OF seek_context_gap [OF li' Cons.prems(3) reg(1)] reg(2, 3) rs'(3)])
  then have "patched (c # cs) (drop li ls) (splice_lines ls li ((s, length p, new) # rs'))"
    using drop_three [OF \<open>li \<le> s\<close> le] by simp
  with rs' \<open>li \<le> s\<close> show ?case by (intro exI [of _ "(s, length p, new) # rs'"]) simp
qed

text \<open>
  An update whose context and old lines occur literally in the file, in order; a chunk with the
  end-of-file flag may only come last, and its old lines must be the last lines of the file.
\<close>

inductive fits :: "update_file_chunk list \<Rightarrow> ustr list \<Rightarrow> bool" where
  fits_Nil: "fits [] ls"
| fits_Cons:
    "\<lbrakk>regular_chunk c; case change_context c of None \<Rightarrow> True | Some ctx \<Rightarrow> ctx \<in> set gap; fits cs rest\<rbrakk>
      \<Longrightarrow> fits (c # cs) (gap @ old_lines c @ rest)"
| fits_Eof:
    "\<lbrakk>old_lines c \<noteq> []; is_end_of_file c;
      case change_context c of None \<Rightarrow> True | Some ctx \<Rightarrow> ctx \<in> set gap\<rbrakk>
      \<Longrightarrow> fits [c] (gap @ old_lines c)"

lemma seek_exact:
  assumes "p \<noteq> []" "start \<le> i" "take (length p) (drop i ls) = p"
  shows "\<exists>j. seek_sequence ls p start False = Some j \<and> start \<le> j \<and> j \<le> i"
proof -
  have m: "matches_at (strictness 0) ls p i" using assms(3) by (simp add: matches_at_def list.rel_refl)
  then have len: "i + length p \<le> length ls" using matches_at_bound assms(1) by blast
  have "seek_sequence ls p start False \<noteq> None"
    using seek_sequence_None [OF assms(1), of ls start False] matches_at_loose [OF m] len assms(2)
    by (auto simp: seek_from_def)
  then obtain j where j: "seek_sequence ls p start False = Some j" by blast
  have "j \<le> i"
  proof (rule ccontr)
    assume "\<not> j \<le> i"
    with j m len assms(2) show False
      unfolding seek_sequence_Some [OF assms(1)] seek_from_def
      by (metis gr_zeroI leI le_eq_less_or_eq nat_less_le)
  qed
  with j seek_sequence_start [OF j] show ?thesis by blast
qed

lemma seek_at_end:
  assumes "p \<noteq> []" "ls = pre @ p"
  shows "seek_sequence ls p start True = Some (length pre)"
proof -
  have "List.find (matches_at (\<lambda>l. l) ls p) [length pre ..< Suc (length pre)] = Some (length pre)"
    using assms(2) by (simp add: matches_at_def list.rel_refl)
  with assms show ?thesis by (simp add: seek_sequence_def Let_def del: upt_Suc)
qed

lemma seek_context_fits:
  assumes "drop j ls = gap @ rest" "li \<le> j" "j \<le> length ls"
    and "case change_context c of None \<Rightarrow> True | Some ctx \<Rightarrow> ctx \<in> set gap"
  shows "\<exists>li'. seek_context ls path c li = Inr li' \<and> li' \<le> j + length gap"
proof (cases "change_context c")
  case None
  then show ?thesis using assms(2) by (auto simp: seek_context_def)
next
  case (Some ctx)
  with assms(4) obtain n where n: "n < length gap" "gap ! n = ctx"
    by (auto simp: in_set_conv_nth)
  have "length ls - j = length gap + length rest" using arg_cong [OF assms(1), of length] by simp
  then have jn: "j + n < length ls" using n by linarith
  have "drop j ls ! n = ctx" using n assms(1) by (simp add: nth_append)
  then have "ls ! (j + n) = ctx" using assms(3) by simp
  then have "take (length [ctx]) (drop (j + n) ls) = [ctx]"
    using jn by (simp add: Cons_nth_drop_Suc [symmetric])
  from seek_exact [OF _ _ this, of li] obtain i where "seek_sequence ls [ctx] li False = Some i" "i \<le> j + n"
    using assms(2) by auto
  with Some n show ?thesis by (auto simp: seek_context_def)
qed

lemma fits_loop:
  "fits cs ls' \<Longrightarrow> drop j ls = ls' \<Longrightarrow> li \<le> j \<Longrightarrow> j \<le> length ls \<Longrightarrow>
   \<exists>rs. replacements_loop ls path cs li acc = Inr rs"
proof (induction arbitrary: j li acc rule: fits.induct)
  case (fits_Cons c gap cs rest)
  let ?s = "j + length gap"
  have old: "old_lines c \<noteq> []" "\<not> is_end_of_file c" using fits_Cons.hyps(1) by (auto simp: regular_chunk_def)
  have at: "take (length (old_lines c)) (drop ?s ls) = old_lines c"
    using fits_Cons.prems(1) by (metis add.commute append_eq_conv_conj drop_drop)
  have rest: "drop (?s + length (old_lines c)) ls = rest"
    using fits_Cons.prems(1) by (metis add.commute add.left_commute append_eq_conv_conj drop_drop)
  have "length ls - j = length gap + length (old_lines c) + length rest"
    using arg_cong [OF fits_Cons.prems(1), of length] by simp
  then have sl: "?s + length (old_lines c) \<le> length ls" using fits_Cons.prems(3) by linarith
  obtain li' where li': "seek_context ls path c li = Inr li'" "li' \<le> ?s"
    using seek_context_fits [OF fits_Cons.prems(1-3) fits_Cons.hyps(2)] by blast
  obtain i where i: "seek_sequence ls (old_lines c) li' False = Some i" "i \<le> ?s"
    using seek_exact [OF old(1) li'(2) at] by blast
  then have "seek_chunk ls c li' = (Some i, old_lines c, new_lines c)"
    using old by (simp add: seek_chunk_def)
  moreover obtain rs where "replacements_loop ls path cs (i + length (old_lines c))
      (acc @ [(i, length (old_lines c), new_lines c)]) = Inr rs"
    using fits_Cons.IH [OF rest, of "i + length (old_lines c)"] i(2) sl by auto
  ultimately show ?case using li' old by simp
next
  case (fits_Eof c gap)
  obtain li' where li': "seek_context ls path c li = Inr li'"
    using seek_context_fits [OF fits_Eof.prems(1-3) fits_Eof.hyps(3)] by blast
  have "ls = (take j ls @ gap) @ old_lines c"
    using fits_Eof.prems(1) by (metis append.assoc append_take_drop_id)
  from seek_at_end [OF fits_Eof.hyps(1) this, of li']
  have "seek_chunk ls c li' = (Some (length (take j ls @ gap)), old_lines c, new_lines c)"
    using fits_Eof.hyps(2) by (simp add: seek_chunk_def)
  then show ?case using li' fits_Eof.hyps(1) by simp
qed simp

lemma derive_cases:
  "\<exists>r. derive_new_contents content path chunks = Some r \<and>
     (case r of Inl e \<Rightarrow> replacements_loop (file_lines content) path chunks 0 [] = Inl e
      | Inr out \<Rightarrow> \<exists>rs ls'. replacements_loop (file_lines content) path chunks 0 [] = Inr rs \<and>
          apply_replacements (file_lines content) (sort_key fst rs) = Some ls' \<and> out = finish_lines ls')"
proof (cases "replacements_loop (file_lines content) path chunks 0 []")
  case (Inr rs)
  then have "\<forall>r \<in> set (sort_key fst rs). fst r \<le> length (file_lines content)"
    using replacements_loop_bounds [of "file_lines content" path chunks 0 "[]" rs] by simp
  with apply_replacements_total [of "sort_key fst rs" "file_lines content"]
  obtain ls' where "apply_replacements (file_lines content) (sort_key fst rs) = Some ls'" by auto
  with Inr show ?thesis by (simp add: derive_new_contents_def compute_replacements_def)
qed (simp add: derive_new_contents_def compute_replacements_def)

section \<open>Properties\<close>

text \<open>
  C12. \<^verbatim>\<open>seek_sequence\<close> on a non-empty pattern returns an index exactly when that index is the
  first match, at or after the start, of the strictest of the four comparisons (literal, ignoring
  trailing white space, ignoring surrounding white space, with typographic characters folded) that
  has a match at all; it returns nothing exactly when even the loosest comparison has none. For an
  end-of-file chunk it looks only where the pattern would end with the last line and never falls back
  to a match elsewhere.
\<close>
theorem seek_sequence_correct:
  assumes "p \<noteq> []"
  shows "(seek_sequence lines p start eof = Some i \<longleftrightarrow>
     (\<exists>k < 4. seek_from lines p start eof \<le> i \<and> i + length p \<le> length lines \<and>
        matches_at (strictness k) lines p i \<and>
        (\<forall>j. seek_from lines p start eof \<le> j \<and> j < i \<longrightarrow> \<not> matches_at (strictness k) lines p j) \<and>
        (\<forall>k' < k. \<forall>j. seek_from lines p start eof \<le> j \<and> j + length p \<le> length lines \<longrightarrow>
            \<not> matches_at (strictness k') lines p j))) \<and>
    (seek_sequence lines p start eof = None \<longleftrightarrow>
     (\<forall>j. seek_from lines p start eof \<le> j \<and> j + length p \<le> length lines \<longrightarrow>
        \<not> list_all2 loosely (take (length p) (drop j lines)) p)) \<and>
    (eof \<and> seek_sequence lines p start eof = Some i \<longrightarrow> i = length lines - length p)"
proof -
  have loose: "list_all2 loosely (take (length p) (drop j lines)) p = matches_at normalise lines p j" for j
    unfolding matches_at_def loosely_def [abs_def] by simp
  have only_last: "eof \<and> seek_sequence lines p start eof = Some i \<longrightarrow> i = length lines - length p"
    using seek_sequence_Some [OF assms, of lines start eof i] by (auto simp: seek_from_def)
  show ?thesis
    unfolding loose by (intro conjI seek_sequence_Some seek_sequence_None assms only_last)
qed

theorem seek_sequence_correct_witness:
  "seek_sequence [u ''b'', u ''a''] [u ''b''] 0 True = None"
proof -
  have "normalise (u ''a'') \<noteq> normalise (u ''b'')" by code_simp
  then show ?thesis
    using seek_sequence_correct [of "[u ''b'']" "[u ''b'', u ''a'']" 0 True 0]
    by (auto simp: seek_from_def less_Suc_eq loosely_def)
qed

text \<open>
  Deriving the new contents of a file never panics, whatever the file, the chunks and their
  order: every insertion is within the vector. The result is an error or the new text, and the new
  text always ends in a newline unless it is empty.
\<close>
lemma derive_never_panics:
  "\<exists>r. derive_new_contents content path chunks = Some r \<and>
     (\<forall>out. r = Inr out \<longrightarrow> out = [] \<or> last out = 10)"
proof -
  have fin: "finish_lines ls = [] \<or> last (finish_lines ls) = 10" for ls
  proof -
    have "join [10] (l # xs @ [[]]) \<noteq> [] \<and> last (join [10] (l # xs @ [[]])) = 10" for l xs
    proof (induction xs arbitrary: l)
      case (Cons x xs)
      then show ?case by (simp add: join_Cons)
    qed simp
    then have snoc: "join [10] (xs @ [[]]) = [] \<or> last (join [10] (xs @ [[]])) = 10" for xs
      by (cases xs) auto
    show ?thesis
    proof (cases "ends_blank ls")
      case True
      then have "ls = butlast ls @ [[]]" by (metis append_butlast_last_id ends_blank_def)
      then show ?thesis using snoc [of "butlast ls"] True by (simp add: finish_lines_def)
    qed (use snoc [of ls] in \<open>simp add: finish_lines_def\<close>)
  qed
  obtain r where r: "derive_new_contents content path chunks = Some r"
    "case r of Inl e \<Rightarrow> replacements_loop (file_lines content) path chunks 0 [] = Inl e
      | Inr out \<Rightarrow> \<exists>rs ls'. replacements_loop (file_lines content) path chunks 0 [] = Inr rs \<and>
          apply_replacements (file_lines content) (sort_key fst rs) = Some ls' \<and> out = finish_lines ls'"
    using derive_cases [of content path chunks] by blast
  then have "\<forall>out. r = Inr out \<longrightarrow> (\<exists>ls'. out = finish_lines ls')" by auto
  with fin r(1) show ?thesis by blast
qed

definition sample_chunk :: update_file_chunk where
  "sample_chunk = \<lparr>change_context = Some (u ''h''), old_lines = [u ''a''], new_lines = [u ''b'', u ''c''],
                   is_end_of_file = False\<rparr>"

lemma sample_update:
  "derive_new_contents (join [10] [u ''a'', u ''h'', u ''x'', u ''a '']) (u ''f'') [sample_chunk]
     = Some (Inr (join [10] [u ''a'', u ''h'', u ''x'', u ''b'', u ''c'', []]))"
  by code_simp



text \<open>
  C11. An update whose chunks all have old lines and whose context lines and old lines occur
  literally in the file, chunk after chunk, always succeeds: the greedy search never runs past an
  occurrence it needs. A chunk with the end-of-file flag is covered when it is the last one and its
  old lines are the last lines of the file; elsewhere it is not found.
\<close>
theorem derive_complete:
  assumes "fits chunks (file_lines content)"
  shows "\<exists>out. derive_new_contents content path chunks = Some (Inr out)"
proof -
  obtain rs where "replacements_loop (file_lines content) path chunks 0 [] = Inr rs"
    using fits_loop [OF assms, of 0 "file_lines content" 0] by auto
  with derive_cases [of content path chunks] obtain r where
    "derive_new_contents content path chunks = Some r" "\<forall>e. r \<noteq> Inl e" by fastforce
  then show ?thesis by (cases r) auto
qed

theorem derive_complete_witness:
  "\<exists>out. derive_new_contents (join [10] [u ''h'', u ''a'']) (u ''f'') [sample_chunk] = Some (Inr out)"
proof (rule derive_complete)
  have "fits [sample_chunk] ([u ''h''] @ old_lines sample_chunk @ [])"
    by (rule fits_Cons) (simp_all add: sample_chunk_def regular_chunk_def fits_Nil)
  moreover have "file_lines (join [10] [u ''h'', u ''a'']) = [u ''h''] @ old_lines sample_chunk @ []"
    by code_simp
  ultimately show "fits [sample_chunk] (file_lines (join [10] [u ''h'', u ''a'']))" by simp
qed

end
