(* ===== verification/Utf8.thy ===== *)
theory Utf8
  imports Prelude
begin

text \<open>
  The bytes of a string: \<^verbatim>\<open>str::as_bytes\<close> (UTF-8) and \<^verbatim>\<open>String::from_utf8_lossy\<close>, which replaces
  every maximal ill-formed subsequence by U+FFFD. A byte is an integer between 0 and 255.
\<close>

type_synonym bytes = "int list"

definition is_scalar :: "uchar \<Rightarrow> bool" where
  "is_scalar c \<longleftrightarrow> (0 \<le> c \<and> c < 55296) \<or> (57344 \<le> c \<and> c \<le> 1114111)"

definition utf8_char :: "uchar \<Rightarrow> bytes" where
  "utf8_char c =
     (if c < 128 then [c]
      else if c < 2048 then [192 + c div 64, 128 + c mod 64]
      else if c < 65536 then [224 + c div 4096, 128 + (c div 64) mod 64, 128 + c mod 64]
      else [240 + c div 262144, 128 + (c div 4096) mod 64, 128 + (c div 64) mod 64, 128 + c mod 64])"

definition as_bytes :: "ustr \<Rightarrow> bytes" where
  "as_bytes s = concat (map utf8_char s)"

text \<open>The longest prefix of at most \<open>n\<close> bytes that ends at a character boundary.\<close>

fun take_bytes :: "nat \<Rightarrow> ustr \<Rightarrow> ustr" where
  "take_bytes n [] = []"
| "take_bytes n (c # cs) =
     (if length (utf8_char c) \<le> n then c # take_bytes (n - length (utf8_char c)) cs else [])"

definition is_cont :: "int \<Rightarrow> bool" where
  "is_cont b \<longleftrightarrow> 128 \<le> b \<and> b \<le> 191"

definition second3 :: "int \<Rightarrow> int \<Rightarrow> bool" where
  "second3 b c \<longleftrightarrow> is_cont c \<and> (b = 224 \<longrightarrow> 160 \<le> c) \<and> (b = 237 \<longrightarrow> c \<le> 159)"

definition second4 :: "int \<Rightarrow> int \<Rightarrow> bool" where
  "second4 b c \<longleftrightarrow> is_cont c \<and> (b = 240 \<longrightarrow> 144 \<le> c) \<and> (b = 244 \<longrightarrow> c \<le> 143)"

fun from_utf8_lossy :: "bytes \<Rightarrow> ustr" where
  "from_utf8_lossy [] = []"
| "from_utf8_lossy (b # bs) =
     (if b < 128 then b # from_utf8_lossy bs
      else if 194 \<le> b \<and> b \<le> 223 then
        (case bs of
           c # r \<Rightarrow> if is_cont c then ((b - 192) * 64 + (c - 128)) # from_utf8_lossy r
                    else 65533 # from_utf8_lossy bs
         | [] \<Rightarrow> [65533])
      else if 224 \<le> b \<and> b \<le> 239 then
        (case bs of
           c # r \<Rightarrow>
             if second3 b c then
               (case r of
                  d # r' \<Rightarrow> if is_cont d
                             then ((b - 224) * 4096 + (c - 128) * 64 + (d - 128)) # from_utf8_lossy r'
                             else 65533 # from_utf8_lossy r
                | [] \<Rightarrow> [65533])
             else 65533 # from_utf8_lossy bs
         | [] \<Rightarrow> [65533])
      else if 240 \<le> b \<and> b \<le> 244 then
        (case bs of
           c # r \<Rightarrow>
             if second4 b c then
               (case r of
                  d # r' \<Rightarrow>
                    if is_cont d then
                      (case r' of
                         e # r'' \<Rightarrow>
                           if is_cont e
                           then ((b - 240) * 262144 + (c - 128) * 4096 + (d - 128) * 64 + (e - 128))
                                  # from_utf8_lossy r''
                           else 65533 # from_utf8_lossy r'
                       | [] \<Rightarrow> [65533])
                    else 65533 # from_utf8_lossy r
                | [] \<Rightarrow> [65533])
             else 65533 # from_utf8_lossy bs
         | [] \<Rightarrow> [65533])
      else 65533 # from_utf8_lossy bs)"

lemma mod64_cont: "is_cont (128 + x mod 64)"
  using pos_mod_bound [of 64 x] pos_mod_sign [of 64 x] by (simp add: is_cont_def)

lemma split64: "(x div 64) * 64 + x mod 64 = (x :: int)"
  by (rule div_mult_mod_eq)

lemma div64_div64: "(x :: int) div 64 div 64 = x div 4096" "x div 4096 div 64 = x div 262144"
  by (simp_all flip: zdiv_zmult2_eq)

lemma lossy4:
  assumes "0 \<le> a" "a \<le> 4" "second4 (240 + a) y" "is_cont z" "is_cont w"
  shows "from_utf8_lossy ((240 + a) # y # z # w # rest) =
           (a * 262144 + (y - 128) * 4096 + (z - 128) * 64 + (w - 128)) # from_utf8_lossy rest"
  using assms by simp

lemma lossy_char:
  assumes "is_scalar c"
  shows "from_utf8_lossy (utf8_char c @ rest) = c # from_utf8_lossy rest"
proof -
  consider "c < 128" | "128 \<le> c" "c < 2048" | "2048 \<le> c" "c < 65536" | "65536 \<le> c" by linarith
  then show ?thesis
  proof cases
    case 1
    then show ?thesis by (simp add: utf8_char_def)
  next
    case 2
    then have "2 \<le> c div 64" "c div 64 \<le> 31" by auto
    with 2 show ?thesis by (simp add: utf8_char_def mod64_cont split64)
  next
    case 3
    have e: "c div 64 = c div 4096 * 64 + (c div 64) mod 64" using split64 [of "c div 64"] by (simp only: div64_div64)
    have "32 \<le> c div 64" "c < 55296 \<Longrightarrow> c div 64 < 864" using 3 by auto
    moreover have "57344 \<le> c \<Longrightarrow> 14 \<le> c div 4096" by simp
    ultimately have "second3 (224 + c div 4096) (128 + (c div 64) mod 64)"
      using assms 3 e mod64_cont [of "c div 64"] by (auto simp: second3_def is_scalar_def)
    moreover have "0 \<le> c div 4096" "c div 4096 \<le> 15" using 3 by auto
    moreover have "c div 4096 * 4096 + (c div 64) mod 64 * 64 + c mod 64 = c"
      using e split64 [of c] by linarith
    ultimately show ?thesis using 3 by (simp add: utf8_char_def mod64_cont)
  next
    case 4
    have le: "c \<le> 1114111" using assms 4 by (simp add: is_scalar_def)
    have e: "c div 4096 = c div 262144 * 64 + (c div 4096) mod 64" using split64 [of "c div 4096"] by (simp only: div64_div64)
    have e': "c div 64 = c div 4096 * 64 + (c div 64) mod 64" using split64 [of "c div 64"] by (simp only: div64_div64)
    have "16 \<le> c div 4096" "c div 4096 < 272" using 4 le by auto
    then have sec: "second4 (240 + c div 262144) (128 + (c div 4096) mod 64)"
      using e mod64_cont [of "c div 4096"] by (auto simp: second4_def)
    have hd: "0 \<le> c div 262144" "c div 262144 \<le> 4" using 4 le by auto
    have val: "c div 262144 * 262144 + (c div 4096) mod 64 * 4096 + (c div 64) mod 64 * 64 + c mod 64 = c"
      using e e' split64 [of c] by linarith
    have ch: "utf8_char c = [240 + c div 262144, 128 + (c div 4096) mod 64, 128 + (c div 64) mod 64, 128 + c mod 64]"
      using 4 unfolding utf8_char_def by (simp only: if_not_P not_less if_False)
    show ?thesis
      unfolding ch append_Cons append_Nil lossy4 [OF hd sec mod64_cont mod64_cont] add_diff_cancel_left' val ..
  qed
qed

lemma lossy_as_bytes:
  "list_all is_scalar s \<Longrightarrow> from_utf8_lossy (as_bytes s) = s"
  by (induction s) (simp_all add: as_bytes_def lossy_char)

lemma as_bytes_Nil [simp]: "as_bytes [] = []"
  by (simp add: as_bytes_def)

end
