(* ===== verification/Rust_Path.thy ===== *)
theory Rust_Path
  imports Prelude
begin

text \<open>
  The operations of \<^verbatim>\<open>std::path\<close> the modelled code calls, for Unix paths. \<open>path_components\<close> is what
  \<^verbatim>\<open>Path\<close> compares: whether the path is absolute and its components, where empty components and
  inner dots do not count.
\<close>

definition path_join :: "ustr \<Rightarrow> ustr \<Rightarrow> ustr" where
  "path_join base p =
     (if starts_with (u ''/'') p then p
      else if base = [] \<or> last base = 47 then base @ p
      else base @ [47] @ p)"

type_synonym path_key = "bool \<times> ustr list"

definition path_components :: "ustr \<Rightarrow> path_key" where
  "path_components p =
     (let cs = split_char 47 p;
          absolute = starts_with (u ''/'') p;
          leading_dot = (if \<not> absolute \<and> hd cs = u ''.'' then [u ''.''] else [])
      in (absolute, leading_dot @ filter (\<lambda>c. c \<noteq> [] \<and> c \<noteq> u ''.'') cs))"

definition path_parent :: "ustr \<Rightarrow> path_key option" where
  "path_parent p =
     (case path_components p of (absolute, cs) \<Rightarrow> if cs = [] then None else Some (absolute, butlast cs))"

definition key_file_name :: "path_key \<Rightarrow> ustr option" where
  "key_file_name k =
     (case k of (absolute, cs) \<Rightarrow>
        if cs = [] \<or> last cs = u ''..'' \<or> last cs = u ''.'' then None else Some (last cs))"

definition key_join :: "path_key \<Rightarrow> path_key \<Rightarrow> path_key" where
  "key_join base k =
     (case k of (absolute, cs) \<Rightarrow>
        if absolute then k else (fst base, snd base @ filter (\<lambda>c. c \<noteq> u ''.'') cs))"

definition key_text :: "path_key \<Rightarrow> ustr" where
  "key_text k = (if fst k then [47] else []) @ join [47] (snd k)"

end
