(* ===== verification/Patch_Tool.thy ===== *)
theory Patch_Tool
  imports Patch_Update Utf8 Rust_Path
begin

text \<open>
  The apply-patch tool (\<^verbatim>\<open>codex/apply_patch/tool.rs\<close>) on a file system
  (\<^verbatim>\<open>xai-grok-tools/src/computer/types.rs\<close>, trait \<^verbatim>\<open>AsyncFileSystem\<close>). The trait is a record of
  operations on an abstract state; \<open>mock_fs\<close> is the in-memory implementation
  (\<^verbatim>\<open>computer/local/mock_fs.rs\<close>). \<^verbatim>\<open>tokio::fs::create_dir_all\<close>, which the tool calls beside the
  trait, is the argument \<open>mkdir_err\<close> (the error message of the call, if it fails). The locale
  \<open>file_system\<close> states what the tool relies on. Paths are Unix paths; two paths denote the same
  file when they have the same components, as \<^verbatim>\<open>Path\<close> compares them.
\<close>

section \<open>File systems\<close>

record 's async_fs =
  read_file :: "'s \<Rightarrow> ustr \<Rightarrow> ustr + bytes"
  write_file :: "'s \<Rightarrow> ustr \<Rightarrow> bytes \<Rightarrow> 's \<times> ustr option"
  delete_file :: "'s \<Rightarrow> ustr \<Rightarrow> 's \<times> ustr option"

type_synonym mock_files = "path_key \<rightharpoonup> bytes"

definition mock_read :: "mock_files \<Rightarrow> ustr \<Rightarrow> ustr + bytes" where
  "mock_read files path =
     (case files (path_components path) of
        Some data \<Rightarrow> Inr data
      | None \<Rightarrow> Inl (u ''IO Error: File not found: '' @ path))"

definition mock_write :: "mock_files \<Rightarrow> ustr \<Rightarrow> bytes \<Rightarrow> mock_files \<times> ustr option" where
  "mock_write files path data = (files(path_components path \<mapsto> data), None)"

definition mock_delete :: "mock_files \<Rightarrow> ustr \<Rightarrow> mock_files \<times> ustr option" where
  "mock_delete files path = (files(path_components path := None), None)"

definition mock_fs :: "mock_files async_fs" where
  "mock_fs = \<lparr>read_file = mock_read, write_file = mock_write, delete_file = mock_delete\<rparr>"

section \<open>Computing the changes\<close>

datatype file_change =
    ChAdd ustr ustr
  | ChDelete ustr ustr
  | ChUpdate ustr ustr ustr
  | ChMove ustr ustr ustr ustr

record file_written =
  absolute_path :: ustr
  fw_content :: ustr
  previous_content :: "ustr option"
  is_new_file :: bool

record file_result =
  res_path :: ustr
  action :: ustr
  old_text :: "ustr option"
  new_text :: ustr
  move_to :: "ustr option"

datatype patch_output =
    OutParseError ustr
  | OutEmptyPatch ustr
  | OutApplicationError ustr
  | OutSuccess "file_result list" ustr

definition ensure_parent_dirs :: "(path_key \<Rightarrow> ustr option) \<Rightarrow> ustr \<Rightarrow> ustr option" where
  "ensure_parent_dirs mkdir_err path =
     (case path_parent path of
        None \<Rightarrow> None
      | Some parent \<Rightarrow> if parent = (False, []) then None else mkdir_err parent)"

definition read_file_as_string :: "'s async_fs \<Rightarrow> 's \<Rightarrow> ustr \<Rightarrow> ustr + ustr" where
  "read_file_as_string fs s path =
     (case read_file fs s path of Inl e \<Rightarrow> Inl e | Inr data \<Rightarrow> Inr (from_utf8_lossy data))"

text \<open>\<open>the\<close> is harmless below: \<open>derive_new_contents\<close> is never \<open>None\<close> (\<open>derive_cases\<close>).\<close>

definition change_of_hunk :: "ustr \<Rightarrow> 's async_fs \<Rightarrow> 's \<Rightarrow> hunk \<Rightarrow> ustr + file_change" where
  "change_of_hunk cwd fs s h =
     (case h of
        AddFile path contents \<Rightarrow> Inr (ChAdd (path_join cwd path) contents)
      | DeleteFile path \<Rightarrow>
          (let resolved = path_join cwd path in
           case read_file_as_string fs s resolved of
             Inl e \<Rightarrow> Inl (u ''Failed to read file: '' @ resolved @ u '', '' @ e)
           | Inr original \<Rightarrow> Inr (ChDelete resolved original))
      | UpdateFile path move_path chunks \<Rightarrow>
          (let resolved = path_join cwd path in
           case read_file_as_string fs s resolved of
             Inl e \<Rightarrow> Inl (u ''Failed to read file to update: '' @ resolved @ u '', '' @ e)
           | Inr original \<Rightarrow>
               (case the (derive_new_contents original resolved chunks) of
                  Inl (ComputeReplacements msg) \<Rightarrow> Inl msg
                | Inr new_content \<Rightarrow>
                    (case move_path of
                       Some dest \<Rightarrow> Inr (ChMove resolved (path_join cwd dest) original new_content)
                     | None \<Rightarrow> Inr (ChUpdate resolved original new_content)))))"

fun compute_all_changes ::
    "ustr \<Rightarrow> 's async_fs \<Rightarrow> 's \<Rightarrow> hunk list \<Rightarrow> ustr + file_change list" where
  "compute_all_changes cwd fs s [] = Inr []"
| "compute_all_changes cwd fs s (h # hs) =
     (case change_of_hunk cwd fs s h of
        Inl e \<Rightarrow> Inl e
      | Inr c \<Rightarrow>
          (case compute_all_changes cwd fs s hs of Inl e \<Rightarrow> Inl e | Inr cs \<Rightarrow> Inr (c # cs)))"

section \<open>Writing them\<close>

definition written :: "ustr \<Rightarrow> ustr \<Rightarrow> ustr option \<Rightarrow> bool \<Rightarrow> file_written" where
  "written p c prev new =
     \<lparr>absolute_path = p, fw_content = c, previous_content = prev, is_new_file = new\<rparr>"

text \<open>
  One change: the new state and, on success, the notifications sent and the result recorded; an
  error ends the call with a tool error.
\<close>

definition write_change ::
    "'s async_fs \<Rightarrow> (path_key \<Rightarrow> ustr option) \<Rightarrow> 's \<Rightarrow> file_change
       \<Rightarrow> 's \<times> (ustr + file_written list \<times> file_result)" where
  "write_change fs mkdir_err s change =
     (case change of
        ChAdd path content \<Rightarrow>
          (case ensure_parent_dirs mkdir_err path of
             Some e \<Rightarrow> (s, Inl e)
           | None \<Rightarrow>
               (case write_file fs s path (as_bytes content) of
                  (s', Some e) \<Rightarrow> (s', Inl e)
                | (s', None) \<Rightarrow>
                    (s', Inr ([written path content None True],
                       \<lparr>res_path = path, action = u ''added'', old_text = None, new_text = content,
                        move_to = None\<rparr>))))
      | ChDelete path original \<Rightarrow>
          (case delete_file fs s path of
             (s', Some e) \<Rightarrow> (s', Inl e)
           | (s', None) \<Rightarrow>
               (s', Inr ([written path [] (Some original) False],
                  \<lparr>res_path = path, action = u ''deleted'', old_text = Some original, new_text = [],
                   move_to = None\<rparr>)))
      | ChUpdate path original new_content \<Rightarrow>
          (case write_file fs s path (as_bytes new_content) of
             (s', Some e) \<Rightarrow> (s', Inl e)
           | (s', None) \<Rightarrow>
               (s', Inr ([written path new_content (Some original) False],
                  \<lparr>res_path = path, action = u ''modified'', old_text = Some original,
                   new_text = new_content, move_to = None\<rparr>)))
      | ChMove source dest original new_content \<Rightarrow>
          (case ensure_parent_dirs mkdir_err dest of
             Some e \<Rightarrow> (s, Inl e)
           | None \<Rightarrow>
               (case write_file fs s dest (as_bytes new_content) of
                  (s', Some e) \<Rightarrow> (s', Inl e)
                | (s', None) \<Rightarrow>
                    (case delete_file fs s' source of
                       (s'', Some e) \<Rightarrow> (s'', Inl e)
                     | (s'', None) \<Rightarrow>
                         (s'', Inr ([written dest new_content None True,
                                     written source [] (Some original) False],
                            \<lparr>res_path = source, action = u ''moved'', old_text = Some original,
                             new_text = new_content, move_to = Some dest\<rparr>))))))"

fun write_changes ::
    "'s async_fs \<Rightarrow> (path_key \<Rightarrow> ustr option) \<Rightarrow> 's \<Rightarrow> file_change list
       \<Rightarrow> 's \<times> file_written list \<times> (ustr + file_result list)" where
  "write_changes fs mkdir_err s [] = (s, [], Inr [])"
| "write_changes fs mkdir_err s (c # cs) =
     (case write_change fs mkdir_err s c of
        (s', Inl e) \<Rightarrow> (s', [], Inl e)
      | (s', Inr (notes, r)) \<Rightarrow>
          (case write_changes fs mkdir_err s' cs of
             (s'', notes', Inl e) \<Rightarrow> (s'', notes @ notes', Inl e)
           | (s'', notes', Inr rs) \<Rightarrow> (s'', notes @ notes', Inr (r # rs))))"

definition summary_line :: "file_result \<Rightarrow> ustr" where
  "summary_line r =
     (if action r = u ''added'' then u ''A'' else if action r = u ''deleted'' then u ''D'' else u ''M'')
       @ [32] @ res_path r @ [10]"

definition build_summary :: "file_result list \<Rightarrow> ustr" where
  "build_summary results =
     u ''Success. Updated the following files:'' @ [10] @ concat (map summary_line results)"

definition parse_error_message :: "parse_error \<Rightarrow> ustr" where
  "parse_error_message e =
     (case e of
        InvalidPatchError m \<Rightarrow> u ''Invalid patch: '' @ m
      | InvalidHunkError m n \<Rightarrow> u ''Invalid patch hunk on line '' @ show_nat n @ u '': '' @ m)"

text \<open>The tool call: \<open>Inl\<close> is a tool error.\<close>

definition run ::
    "'s async_fs \<Rightarrow> (path_key \<Rightarrow> ustr option) \<Rightarrow> ustr \<Rightarrow> 's \<Rightarrow> ustr
       \<Rightarrow> 's \<times> file_written list \<times> (ustr + patch_output)" where
  "run fs mkdir_err cwd s patch =
     (case parse_patch patch of
        Inl e \<Rightarrow> (s, [], Inr (OutParseError (parse_error_message e)))
      | Inr parsed \<Rightarrow>
          if hunks parsed = [] then (s, [], Inr (OutEmptyPatch (u ''No files were modified.'')))
          else
            (case compute_all_changes cwd fs s (hunks parsed) of
               Inl msg \<Rightarrow> (s, [], Inr (OutApplicationError msg))
             | Inr changes \<Rightarrow>
                 (case write_changes fs mkdir_err s changes of
                    (s', notes, Inl e) \<Rightarrow> (s', notes, Inl e)
                  | (s', notes, Inr results) \<Rightarrow>
                      (s', notes, Inr (OutSuccess results (build_summary results))))))"

section \<open>What the tool relies on\<close>

definition file_content :: "'s async_fs \<Rightarrow> 's \<Rightarrow> ustr \<Rightarrow> bytes option" where
  "file_content fs s p = (case read_file fs s p of Inl e \<Rightarrow> None | Inr data \<Rightarrow> Some data)"

fun change_effect :: "(ustr \<Rightarrow> 'k) \<Rightarrow> file_change \<Rightarrow> (ustr \<Rightarrow> bytes option) \<Rightarrow> ustr \<Rightarrow> bytes option" where
  "change_effect key (ChAdd p c) m = (\<lambda>q. if key q = key p then Some (as_bytes c) else m q)"
| "change_effect key (ChDelete p orig) m = (\<lambda>q. if key q = key p then None else m q)"
| "change_effect key (ChUpdate p orig c) m = (\<lambda>q. if key q = key p then Some (as_bytes c) else m q)"
| "change_effect key (ChMove p dest orig c) m =
     (\<lambda>q. if key q = key p then None else if key q = key dest then Some (as_bytes c) else m q)"

fun change_paths :: "file_change \<Rightarrow> ustr list" where
  "change_paths (ChAdd p c) = [p]"
| "change_paths (ChDelete p orig) = [p]"
| "change_paths (ChUpdate p orig c) = [p]"
| "change_paths (ChMove p dest orig c) = [p, dest]"

locale file_system =
  fixes fs :: "'s async_fs" and key :: "ustr \<Rightarrow> 'k"
  assumes write_ok: "write_file fs s p b = (s', None) \<Longrightarrow>
      file_content fs s' q = (if key q = key p then Some b else file_content fs s q)"
    and delete_ok: "delete_file fs s p = (s', None) \<Longrightarrow>
      file_content fs s' q = (if key q = key p then None else file_content fs s q)"
begin

lemma write_change_effect:
  "write_change fs mkdir_err s c = (s', Inr r) \<Longrightarrow>
   file_content fs s' = change_effect key c (file_content fs s)"
  by (cases c) (auto simp: write_change_def fun_eq_iff write_ok delete_ok
      split: option.splits prod.splits)

lemma write_changes_effect:
  "write_changes fs mkdir_err s cs = (s', ns, Inr rs) \<Longrightarrow>
   file_content fs s' = fold (change_effect key) cs (file_content fs s)"
proof (induction cs arbitrary: s s' ns rs)
  case (Cons c cs)
  from Cons.prems obtain s1 r ns' rs' where
    "write_change fs mkdir_err s c = (s1, Inr r)" "write_changes fs mkdir_err s1 cs = (s', ns', Inr rs')"
    by (auto split: prod.splits sum.splits)
  with Cons.IH write_change_effect show ?case by auto
qed simp

text \<open>Later changes do not touch the paths of an earlier one, so each keeps its effect.\<close>

lemma fold_other:
  "\<forall>c \<in> set cs. \<forall>p \<in> set (change_paths c). key p \<noteq> key q \<Longrightarrow> fold (change_effect key) cs m q = m q"
proof (induction cs arbitrary: m)
  case (Cons c cs)
  then have "change_effect key c m q = m q" by (cases c) auto
  with Cons show ?case by simp
qed simp

lemma fold_distinct:
  assumes "distinct (map key (concat (map change_paths cs)))" "c \<in> set cs" "p \<in> set (change_paths c)"
  shows "fold (change_effect key) cs m p = change_effect key c m p"
  using assms
proof (induction cs arbitrary: m)
  case (Cons d ds)
  show ?case
  proof (cases "c = d")
    case True
    with Cons.prems have "\<forall>e \<in> set ds. \<forall>q \<in> set (change_paths e). key q \<noteq> key p" by force
    with True fold_other show ?thesis by simp
  next
    case False
    with Cons.prems have c: "c \<in> set ds" by simp
    have "key q \<noteq> key p" if "q \<in> set (change_paths d)" for q
    proof -
      have "p \<in> set (concat (map change_paths ds))" using c Cons.prems(3) by auto
      moreover have "key ` set (change_paths d) \<inter> key ` set (concat (map change_paths ds)) = {}"
        using Cons.prems(1) by (simp add: image_UN)
      ultimately show ?thesis using that by blast
    qed
    then have "\<forall>q \<in> set (change_paths d). key q \<noteq> key p" by blast
    then have "change_effect key d m p = m p" by (cases d) auto
    moreover have "change_effect key c m1 p = change_effect key c m2 p" for m1 m2
      using Cons.prems(3) by (cases c) auto
    ultimately show ?thesis using Cons c by simp
  qed
qed simp

end

interpretation mock: file_system mock_fs path_components
  by unfold_locales
     (auto simp: mock_fs_def mock_write_def mock_delete_def file_content_def mock_read_def
        split: option.splits if_splits)

lemma mock_content [simp]: "file_content mock_fs files p = files (path_components p)"
  by (simp add: file_content_def mock_fs_def mock_read_def split: option.splits)

section \<open>Properties\<close>

lemma run_success:
  assumes "run fs mkdir_err cwd s patch = (s', ns, Inr (OutSuccess rs sm))"
  obtains parsed changes where "parse_patch patch = Inr parsed"
    "compute_all_changes cwd fs s (hunks parsed) = Inr changes"
    "write_changes fs mkdir_err s changes = (s', ns, Inr rs)"
  using assms by (auto simp: run_def split: sum.splits if_splits prod.splits)

lemma compute_all_changes_map:
  "compute_all_changes cwd fs s hs = Inr cs \<Longrightarrow>
     list_all2 (\<lambda>h c. change_of_hunk cwd fs s h = Inr c) hs cs"
  by (induction hs arbitrary: cs) (auto split: sum.splits)

fun hunk_paths :: "ustr \<Rightarrow> hunk \<Rightarrow> ustr list" where
  "hunk_paths cwd (AddFile p c) = [path_join cwd p]"
| "hunk_paths cwd (DeleteFile p) = [path_join cwd p]"
| "hunk_paths cwd (UpdateFile p None cs) = [path_join cwd p]"
| "hunk_paths cwd (UpdateFile p (Some d) cs) = [path_join cwd p, path_join cwd d]"

lemma change_of_hunk_paths: "change_of_hunk cwd fs s h = Inr c \<Longrightarrow> change_paths c = hunk_paths cwd h"
  by (cases h) (auto simp: change_of_hunk_def Let_def split: sum.splits option.splits apply_error.splits)

lemma hunk_paths_changes:
  "list_all2 (\<lambda>h c. change_of_hunk cwd fs s h = Inr c) hs cs \<Longrightarrow>
     map change_paths cs = map (hunk_paths cwd) hs"
  by (induction rule: list_all2_induct) (simp_all add: change_of_hunk_paths)

text \<open>What a hunk asks for, in terms of the files before and after.\<close>

fun hunk_done :: "ustr \<Rightarrow> mock_files \<Rightarrow> mock_files \<Rightarrow> hunk \<Rightarrow> bool" where
  "hunk_done cwd f f' (AddFile p c) \<longleftrightarrow> f' (path_components (path_join cwd p)) = Some (as_bytes c)"
| "hunk_done cwd f f' (DeleteFile p) \<longleftrightarrow>
     f (path_components (path_join cwd p)) \<noteq> None \<and> f' (path_components (path_join cwd p)) = None"
| "hunk_done cwd f f' (UpdateFile p dest chunks) \<longleftrightarrow>
     (\<exists>old new. f (path_components (path_join cwd p)) = Some old \<and>
        derive_new_contents (from_utf8_lossy old) (path_join cwd p) chunks = Some (Inr new) \<and>
        (case dest of
           None \<Rightarrow> f' (path_components (path_join cwd p)) = Some (as_bytes new)
         | Some d \<Rightarrow> f' (path_components (path_join cwd p)) = None \<and>
                     f' (path_components (path_join cwd d)) = Some (as_bytes new)))"

lemma derive_the:
  "the (derive_new_contents content path chunks) = r \<Longrightarrow> derive_new_contents content path chunks = Some r"
  using derive_cases [of content path chunks] by auto

lemma hunk_done_change:
  assumes "change_of_hunk cwd mock_fs f h = Inr c"
    and "\<And>p. p \<in> set (change_paths c) \<Longrightarrow>
           f' (path_components p) = change_effect path_components c (file_content mock_fs f) p"
    and "distinct (map path_components (change_paths c))"
  shows "hunk_done cwd f f' h"
proof (cases h)
  case (AddFile p c)
  with assms show ?thesis by (auto simp: change_of_hunk_def)
next
  case (DeleteFile p)
  with assms show ?thesis
    by (auto simp: change_of_hunk_def Let_def read_file_as_string_def mock_fs_def mock_read_def
        split: sum.splits option.splits)
next
  case (UpdateFile p dest chunks)
  let ?r = "path_join cwd p"
  from assms(1) UpdateFile obtain old new where old: "f (path_components ?r) = Some old"
    and new: "the (derive_new_contents (from_utf8_lossy old) ?r chunks) = Inr new"
    and c: "c = (case dest of Some d \<Rightarrow> ChMove ?r (path_join cwd d) (from_utf8_lossy old) new
                 | None \<Rightarrow> ChUpdate ?r (from_utf8_lossy old) new)"
    by (auto simp: change_of_hunk_def Let_def read_file_as_string_def mock_fs_def mock_read_def
        split: sum.splits option.splits apply_error.splits)
  from derive_the [OF new] old c assms(2, 3) UpdateFile show ?thesis by (cases dest) auto
qed

lemma distinct_map_part: "distinct (map f (concat xss)) \<Longrightarrow> xs \<in> set xss \<Longrightarrow> distinct (map f xs)"
  by (induction xss) auto

lemma list_all2_partner: "list_all2 P xs ys \<Longrightarrow> x \<in> set xs \<Longrightarrow> \<exists>y \<in> set ys. P x y"
  by (induction rule: list_all2_induct) auto

text \<open>
  C13. A call that reports anything but success (a parse error, an empty patch, a hunk that cannot be
  applied) has written nothing and sent no notification, on every file system and for every patch;
  when every write, delete and directory creation succeeds, the call never ends in a tool error, so
  a patch is applied as a whole or not at all.
\<close>
theorem apply_patch_all_or_nothing:
  "(\<forall>(fs :: 's async_fs) mkdir_err s s' ns out. run fs mkdir_err cwd s patch = (s', ns, Inr out) \<and>
       (\<forall>rs sm. out \<noteq> OutSuccess rs sm) \<longrightarrow> s' = s \<and> ns = []) \<and>
   (\<forall>files. \<exists>files' ns out. run mock_fs (\<lambda>_. None) cwd files patch = (files', ns, Inr out))"
proof (intro conjI allI impI)
  fix fs :: "'s async_fs" and mkdir_err s s' ns out
  assume "run fs mkdir_err cwd s patch = (s', ns, Inr out) \<and> (\<forall>rs sm. out \<noteq> OutSuccess rs sm)"
  then show "s' = s" "ns = []"
    by (auto simp: run_def split: sum.splits if_splits prod.splits)
next
  fix files
  have one: "\<exists>f' r. write_change mock_fs (\<lambda>_. None) f c = (f', Inr r)" for f c
    by (cases c) (auto simp: write_change_def ensure_parent_dirs_def mock_fs_def mock_write_def
        mock_delete_def split: option.splits)
  have "\<exists>f' ns rs. write_changes mock_fs (\<lambda>_. None) f cs = (f', ns, Inr rs)" for f cs
  proof (induction cs arbitrary: f)
    case (Cons c cs)
    obtain f1 ns r where "write_change mock_fs (\<lambda>_. None) f c = (f1, Inr (ns, r))"
      using one [of f c] by auto
    with Cons [of f1] show ?case by auto
  qed simp
  then show "\<exists>files' ns out. run mock_fs (\<lambda>_. None) cwd files patch = (files', ns, Inr out)"
    by (auto simp: run_def split: sum.splits) (metis (no_types, lifting) case_prod_conv sum.case(2))
qed


definition files_reported :: "ustr + patch_output \<Rightarrow> nat option" where
  "files_reported out = (case out of Inr (OutSuccess rs sm) \<Rightarrow> Some (length rs) | _ \<Rightarrow> None)"

definition two_file_patch :: ustr where
  "two_file_patch = join [10]
     [u ''*** Begin Patch'', u ''*** Add File: n'', u ''+x'', u ''*** Update File: f'', u ''*** Move to: g'',
      u ''@@'', u ''-a'', u ''+b'', u ''*** End Patch'']"

definition one_file :: mock_files where
  "one_file = Map.empty((True, [u ''f'']) \<mapsto> [97, 10])"

lemma two_file_parse:
  "parse_patch two_file_patch =
     Inr \<lparr>hunks = [AddFile (u ''n'') [120, 10], UpdateFile (u ''f'') (Some (u ''g''))
       [\<lparr>change_context = None, old_lines = [u ''a''], new_lines = [u ''b''], is_end_of_file = False\<rparr>]],
       patch_text = two_file_patch\<rparr>"
  by code_simp

lemma two_file_run:
  "run mock_fs (\<lambda>_. None) (u ''/'') one_file two_file_patch =
     (one_file((True, [u ''n'']) \<mapsto> [120, 10], (True, [u ''g'']) \<mapsto> [98, 10], (True, [u ''f'']) := None),
      [written (u ''/n'') [120, 10] None True, written (u ''/g'') [98, 10] None True,
       written (u ''/f'') [] (Some [97, 10]) False],
      Inr (OutSuccess
        [\<lparr>res_path = u ''/n'', action = u ''added'', old_text = None, new_text = [120, 10], move_to = None\<rparr>,
         \<lparr>res_path = u ''/f'', action = u ''moved'', old_text = Some [97, 10], new_text = [98, 10],
          move_to = Some (u ''/g'')\<rparr>]
        (u ''Success. Updated the following files:'' @ [10] @ u ''A /n'' @ [10] @ u ''M /f'' @ [10])))"
proof -
  have "one_file (path_components (path_join (u ''/'') (u ''f''))) = Some [97, 10]" by code_simp
  moreover have "path_join (u ''/'') (u ''n'') = u ''/n''" "path_join (u ''/'') (u ''f'') = u ''/f''"
    "path_join (u ''/'') (u ''g'') = u ''/g''" by code_simp+
  moreover have "path_components (u ''/n'') = (True, [u ''n''])" "path_components (u ''/f'') = (True, [u ''f''])"
    "path_components (u ''/g'') = (True, [u ''g''])" by code_simp+
  moreover have "derive_new_contents [97, 10] (u ''/f'')
      [\<lparr>change_context = None, old_lines = [u ''a''], new_lines = [u ''b''], is_end_of_file = False\<rparr>]
      = Some (Inr [98, 10])" by code_simp
  moreover have "from_utf8_lossy [97, 10] = [97, 10]" "as_bytes [120, 10] = [120, 10]" "as_bytes [98, 10] = [98, 10]"
    by code_simp+
  ultimately show ?thesis
    by (simp add: run_def two_file_parse change_of_hunk_def read_file_as_string_def mock_fs_def mock_read_def
        mock_write_def mock_delete_def write_change_def ensure_parent_dirs_def build_summary_def
        summary_line_def split: option.splits) (simp add: u_simps)
qed


theorem apply_patch_all_or_nothing_witness:
  "\<exists>e. run mock_fs (\<lambda>_. None) (u ''/'') one_file (u ''hello'') = (one_file, [], Inr (OutParseError e))"
proof -
  have "isl (parse_patch (u ''hello''))" by code_simp
  then have "\<exists>s ns e. run mock_fs (\<lambda>_. None) (u ''/'') one_file (u ''hello'') = (s, ns, Inr (OutParseError e))"
    by (auto simp: run_def isl_def)
  with apply_patch_all_or_nothing [of "u ''/''" "u ''hello''"] show ?thesis by fastforce
qed

text \<open>The contents of \<^verbatim>\<open>/f\<close> after a call in the root directory, and the number of files reported.\<close>

definition after_patch :: "ustr list \<Rightarrow> ustr list \<Rightarrow> bytes option \<times> nat option" where
  "after_patch content patch =
     (case run mock_fs (\<lambda>_. None) (u ''/'') (Map.empty((True, [u ''f'']) \<mapsto> as_bytes (join [10] content)))
             (join [10] ([u ''*** Begin Patch'', u ''*** Update File: f''] @ patch @ [u ''*** End Patch''])) of
        (files', ns, out) \<Rightarrow> (files' (True, [u ''f'']), files_reported out))"

text \<open>
  Three patches that are reported as successful and lose an edit. All hunks are computed from the
  files as they were before the call, so of two update hunks for one file the second overwrites the
  first. A move onto the file itself writes the new contents and then deletes them. A pure addition
  is placed before the final blank line of the original file, so a chunk that replaces this line
  deletes the added lines again.
\<close>
lemma successful_patches_lose_edits:
  "after_patch [u ''a'', u ''b'', []] [u ''-a'', u ''+x'', u ''*** Update File: f'', u ''-b'', u ''+y'']
     = (Some (as_bytes (join [10] [u ''a'', u ''y'', []])), Some 2) \<and>
   after_patch [u ''a'', []] [u ''*** Move to: f'', u ''-a'', u ''+x''] = (None, Some 1) \<and>
   after_patch [u ''a'', [], []] [u ''@@'', u ''-a'', u ''+b'', u '' '', u ''@@'', u ''+c'']
     = (Some (as_bytes (join [10] [u ''b'', [], []])), Some 1)"
  by (intro conjI) code_simp+

end
