(* ===== verification/Permission_Rules.thy ===== *)
theory Permission_Rules
  imports Prelude
begin

text \<open>
  Permission rules (\<^verbatim>\<open>crates/codegen/xai-grok-workspace/src/permission/types.rs\<close> and
  \<^verbatim>\<open>rules.rs\<close>): the data of a policy and the parser of rule strings such as
  \<^verbatim>\<open>Bash(npm run:*)\<close> or \<^verbatim>\<open>WebFetch(domain:example.com)\<close>. The scanning functions work on
  byte positions of ASCII characters in the source; in a list of code points the positions of these
  characters are in the same order, and slices between them are the same text.
\<close>

section \<open>Data\<close>

datatype 'j access_kind =
    Read "ustr option"
  | Grep "ustr option" "ustr option"
  | Edit ustr
  | Bash ustr
  | MCPTool ustr 'j
  | WebFetch ustr
  | WebSearch ustr

datatype decision =
    Allow
  | Ask
  | FollowupMessage ustr
  | Reject ustr
  | PolicyDeny ustr
  | Cancelled

datatype prompt_policy = PromptAsk | PromptDeny | PromptAuto

datatype pattern_mode = Glob | Domain

datatype rule_action = ActAllow | ActDeny | ActAsk

datatype tool_filter = TAny | TBash | TEdit | TRead | TGrep | TMcp | TWebFetch | TWebSearch

record permission_rule =
  action :: rule_action
  tool :: tool_filter
  pattern :: "ustr option"
  mode_of_pattern :: pattern_mode

record permission_config =
  rules :: "permission_rule list"
  policy_prompt :: prompt_policy

definition config_new :: "permission_rule list \<Rightarrow> permission_config" where
  "config_new rs = \<lparr>rules = rs, policy_prompt = PromptAsk\<rparr>"

datatype default_permission_mode =
  ModeDefault | AcceptEdits | Plan | ModeAuto | DontAsk | BypassPermissions

record default_mode_effects =
  prompt_policy_of :: prompt_policy
  accept_edits :: bool
  bypass_permissions :: bool

definition mode_from_str :: "ustr \<Rightarrow> ustr + default_permission_mode" where
  "mode_from_str s =
     (if s = u ''default'' then Inr ModeDefault
      else if s = u ''acceptEdits'' then Inr AcceptEdits
      else if s = u ''plan'' then Inr Plan
      else if s = u ''auto'' then Inr ModeAuto
      else if s = u ''dontAsk'' then Inr DontAsk
      else if s = u ''bypassPermissions'' then Inr BypassPermissions
      else Inl s)"

definition no_effects :: default_mode_effects where
  "no_effects = \<lparr>prompt_policy_of = PromptAsk, accept_edits = False, bypass_permissions = False\<rparr>"

definition effects :: "default_permission_mode \<Rightarrow> default_mode_effects" where
  "effects m =
     (case m of
        AcceptEdits \<Rightarrow> no_effects\<lparr>accept_edits := True\<rparr>
      | BypassPermissions \<Rightarrow> no_effects\<lparr>bypass_permissions := True\<rparr>
      | ModeDefault \<Rightarrow> no_effects
      | Plan \<Rightarrow> no_effects
      | DontAsk \<Rightarrow> no_effects\<lparr>prompt_policy_of := PromptDeny\<rparr>
      | ModeAuto \<Rightarrow> no_effects\<lparr>prompt_policy_of := PromptAuto\<rparr>)"

datatype rule_parse_error =
    UnsupportedToolPrefix ustr
  | UnknownToolPrefix ustr
  | MalformedRule ustr

section \<open>Parsing\<close>

definition tool_name_to_filter :: "ustr \<Rightarrow> tool_filter option" where
  "tool_name_to_filter name =
     (if name = u ''Bash'' then Some TBash
      else if name = u ''Read'' \<or> name = u ''NotebookRead'' then Some TRead
      else if name = u ''Edit'' \<or> name = u ''Write'' \<or> name = u ''NotebookEdit'' then Some TEdit
      else if name = u ''MCPTool'' then Some TMcp
      else if name = u ''Grep'' \<or> name = u ''Glob'' then Some TGrep
      else if name = u ''WebFetch'' then Some TWebFetch
      else if name = u ''WebSearch'' then Some TWebSearch
      else None)"

fun backslashes_before :: "ustr \<Rightarrow> nat \<Rightarrow> nat" where
  "backslashes_before bytes 0 = 0"
| "backslashes_before bytes (Suc j) =
     (if bytes ! j = 92 then Suc (backslashes_before bytes j) else 0)"

definition is_unescaped :: "ustr \<Rightarrow> nat \<Rightarrow> bool" where
  "is_unescaped bytes pos = (backslashes_before bytes pos mod 2 = 0)"

definition find_first_unescaped :: "ustr \<Rightarrow> uchar \<Rightarrow> nat option" where
  "find_first_unescaped s target =
     List.find (\<lambda>i. s ! i = target \<and> is_unescaped s i) [0 ..< length s]"

definition find_last_unescaped :: "ustr \<Rightarrow> uchar \<Rightarrow> nat option" where
  "find_last_unescaped s target =
     List.find (\<lambda>i. s ! i = target \<and> is_unescaped s i) (rev [0 ..< length s])"

definition unescape_rule_content :: "ustr \<Rightarrow> ustr" where
  "unescape_rule_content s =
     (if 92 \<notin> set s then s
      else str_replace [92, 92] [92] (str_replace [92, 41] [41] (str_replace [92, 40] [40] s)))"

definition strip_domain_prefix :: "ustr \<Rightarrow> ustr \<times> pattern_mode" where
  "strip_domain_prefix pat =
     (case strip_prefix (u ''domain:'') pat of Some domain \<Rightarrow> (domain, Domain) | None \<Rightarrow> (pat, Glob))"

definition strip_bash_colon_wildcard :: "ustr \<Rightarrow> ustr" where
  "strip_bash_colon_wildcard pat =
     (case strip_suffix (u '':*'') pat of Some prefix \<Rightarrow> prefix | None \<Rightarrow> pat)"

definition parse_permission_rule ::
    "ustr \<Rightarrow> rule_action \<Rightarrow> rule_parse_error + permission_rule" where
  "parse_permission_rule rule_text act =
     (let rule = trim rule_text in
      case find_first_unescaped rule 40 of
        Some open_paren \<Rightarrow>
          (let prefix_trimmed = trim (take open_paren rule);
               content_and_close = drop (open_paren + 1) rule in
           case find_last_unescaped content_and_close 41 of
             None \<Rightarrow> Inl (MalformedRule (u ''missing closing parenthesis''))
           | Some close_paren \<Rightarrow>
               (let raw_content = trim (take close_paren content_and_close);
                    pat = (if raw_content = [] \<or> raw_content = u ''*'' then []
                           else unescape_rule_content raw_content) in
                case tool_name_to_filter prefix_trimmed of
                  None \<Rightarrow>
                    if prefix_trimmed = u ''EnterWorktree'' then Inl (UnsupportedToolPrefix prefix_trimmed)
                    else Inl (UnknownToolPrefix prefix_trimmed)
                | Some t \<Rightarrow>
                    (let pat = (if t = TBash then strip_bash_colon_wildcard pat else pat) in
                     case strip_domain_prefix pat of
                       (pat, m) \<Rightarrow>
                         Inr \<lparr>action = act, tool = t, pattern = (if pat = [] then None else Some pat),
                              mode_of_pattern = m\<rparr>)))
      | None \<Rightarrow>
          (case tool_name_to_filter rule of
             Some t \<Rightarrow> Inr \<lparr>action = act, tool = t, pattern = None, mode_of_pattern = Glob\<rparr>
           | None \<Rightarrow>
               Inr \<lparr>action = act, tool = TAny, pattern = (if rule = [] then None else Some rule),
                    mode_of_pattern = Glob\<rparr>))"

section \<open>The three passes of unescaping are one pass\<close>

fun unescape_once :: "ustr \<Rightarrow> ustr" where
  "unescape_once (c # d # s) =
     (if c = 92 \<and> (d = 40 \<or> d = 41 \<or> d = 92) then d # unescape_once s
      else c # unescape_once (d # s))"
| "unescape_once s = s"

lemma replace2_simps [simp]:
  "str_replace [a, b] [r] [x] = [x]"
  "str_replace [a, b] [r] (x # y # s) =
     (if x = a \<and> y = b then r # str_replace [a, b] [r] s else x # str_replace [a, b] [r] (y # s))"
  by (auto split: option.splits)

declare str_replace.simps(2) [simp del]

lemma replace_run_paren:
  assumes "c \<noteq> 92" "b \<noteq> 92"
  shows "str_replace [92, b] [b] (replicate k 92 @ c # t) =
           replicate (if c = b then k - 1 else k) 92 @ c # str_replace [92, b] [b] t"
proof (induction k)
  case 0
  from assms show ?case by (cases t) auto
next
  case (Suc k)
  with assms show ?case by (cases k; cases t) auto
qed

lemma replace_run_end: "b \<noteq> 92 \<Longrightarrow> str_replace [92, b] [b] (replicate k 92) = replicate k 92"
proof (induction k)
  case (Suc k)
  then show ?case by (cases k) auto
qed simp

lemma replace_backslashes:
  "c \<noteq> 92 \<Longrightarrow> str_replace [92, 92] [92] (replicate k 92 @ c # t) =
     replicate ((k + 1) div 2) 92 @ c # str_replace [92, 92] [92] t"
proof (induction k rule: induct_nat_012)
  case 0
  then show ?case by (cases t) auto
next
  case 1
  then show ?case by (cases t) auto
qed auto

lemma replace_backslashes_end: "str_replace [92, 92] [92] (replicate k 92) = replicate ((k + 1) div 2) 92"
  by (induction k rule: induct_nat_012) auto

lemma unescape_run:
  "c \<noteq> 92 \<Longrightarrow> unescape_once (replicate k 92 @ c # t) =
     replicate (if c = 40 \<or> c = 41 then k div 2 else (k + 1) div 2) 92 @ c # unescape_once t"
proof (induction k rule: induct_nat_012)
  case 0
  then show ?case by (cases t) auto
next
  case 1
  then show ?case by (cases t) auto
qed auto

lemma unescape_run_end: "unescape_once (replicate k 92) = replicate ((k + 1) div 2) 92"
  by (induction k rule: induct_nat_012) auto

lemma backslash_run:
  obtains k where "s = replicate k 92"
  | k c t where "s = replicate k (92::int) @ c # t" "c \<noteq> 92"
proof (cases "dropWhile (\<lambda>c. c = 92) s")
  case Nil
  then have "\<forall>x \<in> set s. x = 92" by (simp add: dropWhile_eq_Nil_conv)
  then have "s = replicate (length s) 92" by (metis replicate_length_same)
  with that(1) show ?thesis .
next
  case (Cons c t)
  then have "s = takeWhile (\<lambda>c. c = 92) s @ c # t" and c: "c \<noteq> 92"
    by (simp_all add: dropWhile_eq_Cons_conv)
  moreover have "takeWhile (\<lambda>c. c = 92) s = replicate (length (takeWhile (\<lambda>c. c = 92) s)) 92"
    by (rule replicate_length_same [symmetric]) (auto dest: set_takeWhileD)
  ultimately have "s = replicate (length (takeWhile (\<lambda>c. c = 92) s)) 92 @ c # t" by simp
  then show ?thesis using that(2) c by blast
qed

lemma three_passes:
  "str_replace [92, 92] [92] (str_replace [92, 41] [41] (str_replace [92, 40] [40] s)) = unescape_once s"
proof (induction "length s" arbitrary: s rule: less_induct)
  case less
  show ?case
  proof (cases s rule: backslash_run)
    case (1 k)
    then show ?thesis by (simp add: replace_run_end replace_backslashes_end unescape_run_end)
  next
    case (2 k c t)
    then have "length t < length s" by simp
    note IH = less [OF this]
    have half: "(k - 1 + 1) div 2 = k div 2" by (cases k) auto
    show ?thesis
      unfolding 2(1) using 2(2) half
      by (cases "c = 40"; cases "c = 41")
         (simp_all add: replace_run_paren replace_backslashes unescape_run IH)
  qed
qed

section \<open>Writing a rule and reading it back\<close>

definition escape_rule :: "ustr \<Rightarrow> ustr" where
  "escape_rule p = concat (map (\<lambda>c. if c = 40 \<or> c = 41 \<or> c = 92 then [92, c] else [c]) p)"

lemma escape_rule_simps [simp]:
  "escape_rule [] = []"
  "escape_rule (c # p) = (if c = 40 \<or> c = 41 \<or> c = 92 then [92, c] else [c]) @ escape_rule p"
  "escape_rule (p @ q) = escape_rule p @ escape_rule q"
  by (simp_all add: escape_rule_def)

lemma unescape_skip: "c \<noteq> 92 \<Longrightarrow> unescape_once (c # s) = c # unescape_once s"
  by (cases s) auto

lemma unescape_escape: "unescape_once (escape_rule p) = p"
  by (induction p) (auto simp: unescape_skip)

lemma escape_plain: "92 \<notin> set (escape_rule p) \<Longrightarrow> escape_rule p = p"
  by (induction p) (auto split: if_splits)

lemma unescape_content_escape: "unescape_rule_content (escape_rule p) = p"
  using escape_plain [of p] by (auto simp: unescape_rule_content_def three_passes unescape_escape)

lemma backslashes_before_append: "j \<le> length s \<Longrightarrow> backslashes_before (s @ t) j = backslashes_before s j"
  by (induction j) (auto simp: nth_append)

lemma backslashes_before_none: "92 \<notin> set s \<Longrightarrow> j \<le> length s \<Longrightarrow> backslashes_before s j = 0"
  by (cases j) (auto simp: in_set_conv_nth Suc_le_eq)

lemma backslashes_snoc: "backslashes_before (s @ [c]) (Suc (length s)) = (if c = 92 then Suc (backslashes_before s (length s)) else 0)"
  by (simp add: backslashes_before_append)

lemma escape_even: "even (backslashes_before (escape_rule p) (length (escape_rule p)))"
proof (induction p rule: rev_induct)
  case (snoc c p)
  show ?case
  proof (cases "c = 40 \<or> c = 41 \<or> c = 92")
    case True
    have "backslashes_before ((escape_rule p @ [92]) @ [c]) (Suc (length (escape_rule p @ [92]))) =
        (if c = 92 then Suc (Suc (backslashes_before (escape_rule p) (length (escape_rule p)))) else 0)"
      by (simp only: backslashes_snoc) (simp add: backslashes_before_append)
    with True snoc show ?thesis by auto
  next
    case False
    then show ?thesis using backslashes_snoc [of "escape_rule p" c] by simp
  qed
qed simp

lemma find_close: "find_last_unescaped (escape_rule p @ [41]) 41 = Some (length (escape_rule p))"
  using escape_even [of p]
  by (simp add: find_last_unescaped_def is_unescaped_def backslashes_before_append nth_append even_iff_mod_2_eq_zero)

lemma find_open:
  assumes "92 \<notin> set name" "40 \<notin> set name"
  shows "find_first_unescaped (name @ 40 # s) 40 = Some (length name)"
  unfolding find_first_unescaped_def find_upt_Some is_unescaped_def
  using assms by (auto simp: nth_append backslashes_before_append backslashes_before_none dest: nth_mem)

definition tool_names :: "ustr list" where
  "tool_names = [u ''Bash'', u ''Read'', u ''NotebookRead'', u ''Edit'', u ''Write'', u ''NotebookEdit'',
                 u ''MCPTool'', u ''Grep'', u ''Glob'', u ''WebFetch'', u ''WebSearch'']"

lemma tool_names_plain:
  "list_all (\<lambda>n. 92 \<notin> set n \<and> 40 \<notin> set n \<and> trim n = n \<and> n \<noteq> [] \<and> \<not> is_whitespace (hd n)) tool_names"
  by code_simp

lemma tool_name_plain:
  assumes "tool_name_to_filter name = Some t"
  shows "92 \<notin> set name \<and> 40 \<notin> set name \<and> trim name = name \<and> name \<noteq> [] \<and> \<not> is_whitespace (hd name)"
proof -
  have "name \<in> set tool_names"
    using assms by (simp add: tool_name_to_filter_def tool_names_def split: if_splits) blast+
  with tool_names_plain show ?thesis by (simp add: list_all_iff)
qed

lemma escape_ends:
  assumes "p \<noteq> []" "\<not> is_whitespace (hd p)" "\<not> is_whitespace (last p)"
  shows "trim (escape_rule p) = escape_rule p"
proof -
  have bs: "\<not> is_whitespace 92" by (simp add: is_whitespace_def)
  obtain c q where p: "p = c # q" using assms(1) by (cases p) auto
  have "\<exists>d r. escape_rule p = d # r \<and> \<not> is_whitespace d" using assms(2) p bs by auto
  moreover have "last (escape_rule p) = last p"
    using assms(1) by (cases p rule: rev_cases) auto
  ultimately show ?thesis using assms(3) trim_id by metis
qed

definition mode_prefix :: "pattern_mode \<Rightarrow> ustr" where
  "mode_prefix m = (case m of Glob \<Rightarrow> [] | Domain \<Rightarrow> u ''domain:'')"

lemma strip_domain_written:
  "m = Glob \<longrightarrow> \<not> starts_with (u ''domain:'') p \<Longrightarrow> strip_domain_prefix (mode_prefix m @ p) = (p, m)"
  by (cases m) (auto simp: strip_domain_prefix_def mode_prefix_def starts_with_def split: option.splits)

section \<open>Properties\<close>

text \<open>
  C15. Unescaping the content of a rule by three successive replacements (parentheses first, then
  backslashes) gives, for every text, what one left-to-right pass gives in which a backslash
  followed by a parenthesis or a backslash stands for that character.
\<close>
theorem unescape_is_single_pass: "unescape_rule_content s = unescape_once s"
proof (cases "92 \<in> set s")
  case False
  then have "unescape_once s = s" by (induction s) (auto simp: unescape_skip)
  with False show ?thesis by (simp add: unescape_rule_content_def)
qed (simp add: unescape_rule_content_def three_passes)

text \<open>
  C14. Every pattern can be written as a rule: the tool name, an opening parenthesis, an optional
  \<^verbatim>\<open>domain:\<close> marker, the pattern with parentheses and backslashes escaped and a closing
  parenthesis parse to the rule for that tool, pattern and mode, with the given action. The pattern
  must not be empty or a lone star (these mean the whole tool), must not begin or end in white
  space, a Bash pattern must not end in \<^verbatim>\<open>:*\<close> and a glob must not begin with \<^verbatim>\<open>domain:\<close>.
\<close>
theorem rule_text_roundtrip:
  assumes "tool_name_to_filter name = Some t" and "p \<noteq> []" and "mode_prefix m @ p \<noteq> u ''*''"
    and "\<not> is_whitespace (hd p)" and "\<not> is_whitespace (last p)"
    and "t = TBash \<longrightarrow> \<not> ends_with (u '':*'') (mode_prefix m @ p)"
    and "m = Glob \<longrightarrow> \<not> starts_with (u ''domain:'') p"
  shows "parse_permission_rule (name @ u ''('' @ mode_prefix m @ escape_rule p @ u '')'') act =
           Inr \<lparr>action = act, tool = t, pattern = Some p, mode_of_pattern = m\<rparr>"
proof -
  let ?q = "mode_prefix m @ p"
  have q: "?q \<noteq> []" "\<not> is_whitespace (hd ?q)" "\<not> is_whitespace (last ?q)"
    using assms by (auto simp: mode_prefix_def u_simps is_whitespace_def split: pattern_mode.splits)
  have esc: "mode_prefix m @ escape_rule p = escape_rule ?q"
    by (simp add: mode_prefix_def u_simps split: pattern_mode.split)
  have plain: "92 \<notin> set name" "40 \<notin> set name" and tn: "trim name = name"
    and ne: "name \<noteq> []" "\<not> is_whitespace (hd name)" using tool_name_plain [OF assms(1)] by blast+
  from ne obtain c cs where name: "name = c # cs" "\<not> is_whitespace c" by (cases name) auto
  have trim: "trim (name @ 40 # escape_rule ?q @ [41]) = name @ 40 # escape_rule ?q @ [41]"
    using name trim_id [of c "cs @ 40 # escape_rule ?q @ [41]"] by (simp add: is_whitespace_def)
  have star: "escape_rule ?q \<noteq> u ''*''"
  proof
    assume *: "escape_rule ?q = u ''*''"
    then have "92 \<notin> set (escape_rule ?q)" by (simp add: u_simps)
    with * escape_plain assms(3) show False by metis
  qed
  have bash: "t = TBash \<Longrightarrow> strip_bash_colon_wildcard ?q = ?q"
    using assms(6) by (auto simp: strip_bash_colon_wildcard_def ends_with_def)
  have esc0: "escape_rule ?q \<noteq> []" using q(1) by (cases ?q) (auto split: if_splits)
  show ?thesis
    unfolding esc append_assoc [symmetric]
    using find_open [OF plain, of "escape_rule ?q @ [41]"] find_close [of ?q] trim tn assms(1, 2)
      strip_domain_written [OF assms(7)] bash star esc0
    by (simp add: parse_permission_rule_def u_simps Let_def escape_ends [OF q] unescape_content_escape
        del: escape_rule_simps)
qed

theorem rule_text_roundtrip_witness:
  "parse_permission_rule (u ''WebFetch'' @ u ''('' @ mode_prefix Domain @ escape_rule [97, 40, 92, 41] @ u '')'') ActDeny
     = Inr \<lparr>action = ActDeny, tool = TWebFetch, pattern = Some [97, 40, 92, 41], mode_of_pattern = Domain\<rparr>"
  by (rule rule_text_roundtrip)
     (simp_all add: tool_name_to_filter_def mode_prefix_def u_simps is_whitespace_def)

end
