(* ===== verification/Shell_Words.thy ===== *)
theory Shell_Words
  imports Utf8
begin

text \<open>
  Taking a shell script apart
  (\<^verbatim>\<open>crates/codegen/xai-grok-workspace/src/permission/bash_command_splitting.rs\<close>). The
  tree-sitter parser is a parameter: a function from the script to the tree of its nodes and the
  flag \<^verbatim>\<open>has_error\<close> of the root. A node carries its kind, whether it is named, the field it fills in
  its parent, its text, its byte range and its children; \<open>walk\<close> visits the nodes in the order of the
  explicit stack the code uses. An index into a command's words is represented by the list of the
  words from that index on.
\<close>

section \<open>Syntax trees\<close>

datatype tnode = TNode
  (n_kind: ustr) (n_named: bool) (n_field: "ustr option") (n_text: "ustr option")
  (n_start: nat) (n_end: nat) (n_children: "tnode list")

type_synonym shell_parser = "ustr \<Rightarrow> (tnode \<times> bool) option"

text \<open>
  The place of a node: for the node and each of its ancestors below the root, the kind of the next
  sibling and the kind of the parent.
\<close>

type_synonym place = "(ustr option \<times> ustr) list"

fun child_places :: "ustr \<Rightarrow> place \<Rightarrow> tnode list \<Rightarrow> (tnode \<times> place) list" where
  "child_places k pl [] = []"
| "child_places k pl (c # cs) =
     (c, ((case cs of [] \<Rightarrow> None | d # _ \<Rightarrow> Some (n_kind d)), k) # pl) # child_places k pl cs"

lemma map_fst_child_places [simp]: "map fst (child_places k pl cs) = cs"
  by (induction cs) auto

lemma children_size: "sum_list (map size (n_children n)) < size n"
proof (cases n)
  case (TNode k b f t s e cs)
  have "sum_list (map size cs) \<le> size_list size cs" by (induction cs) auto
  then show ?thesis by (simp add: TNode)
qed

function walk :: "(tnode \<times> place) list \<Rightarrow> (tnode \<times> place) list" where
  "walk [] = []"
| "walk ((n, pl) # st) = (n, pl) # walk (rev (child_places (n_kind n) pl (n_children n)) @ st)"
  by pat_completeness auto

termination
proof (relation "measure (\<lambda>st. sum_list (map (size \<circ> fst) st))")
  fix n :: tnode and pl and st :: "(tnode \<times> place) list"
  have "sum_list (map (size \<circ> fst) (child_places k pl cs)) = sum_list (map size cs)" for k and cs :: "tnode list"
    by (metis map_fst_child_places map_map)
  then have "sum_list (map (size \<circ> fst) (rev (child_places (n_kind n) pl (n_children n)))) < size n"
    using children_size [of n] by (simp add: rev_map [symmetric] sum_list_rev)
  then show "(rev (child_places (n_kind n) pl (n_children n)) @ st, (n, pl) # st)
      \<in> measure (\<lambda>st. sum_list (map (size \<circ> fst) st))" by simp
qed auto

definition nodes :: "tnode \<Rightarrow> tnode list" where
  "nodes root = map fst (walk [(root, [])])"

section \<open>Plain commands\<close>

record plain_command =
  words :: "ustr list"
  span_start :: nat
  span_end :: nat

definition is_kind :: "string \<Rightarrow> tnode \<Rightarrow> bool" where
  "is_kind k n \<longleftrightarrow> n_kind n = u k"

definition ALLOWED_KINDS :: "ustr list" where
  "ALLOWED_KINDS = map u
     [''program'', ''list'', ''pipeline'', ''command'', ''command_name'', ''word'', ''string'',
      ''string_content'', ''raw_string'', ''number'', ''concatenation'', ''variable_assignment'',
      ''variable_name'', ''redirected_statement'', ''file_redirect'', ''file_descriptor'', ''comment'',
      ''heredoc_redirect'', ''heredoc_start'', ''heredoc_body'', ''heredoc_content'', ''heredoc_end'']"

definition ALLOWED_PUNCT_TOKENS :: "ustr list" where
  "ALLOWED_PUNCT_TOKENS = map u
     [''&&'', ''||'', '';'', ''|'', [CHR 0x22], [CHR 0x27], ''='', ''>'', ''>>'', ''<'', ''<<'', ''>&'',
      ''&>'', ''&>>'']"

definition node_allowed :: "tnode \<Rightarrow> bool" where
  "node_allowed n =
     (if n_named n then n_kind n \<in> set ALLOWED_KINDS
      else \<not> (list_ex (\<lambda>c. c \<in> set (u ''&;|'')) (n_kind n) \<and> n_kind n \<notin> set ALLOWED_PUNCT_TOKENS) \<and>
           (n_kind n \<in> set ALLOWED_PUNCT_TOKENS \<or> trim (n_kind n) = []))"

definition named_children :: "tnode \<Rightarrow> tnode list" where
  "named_children n = filter n_named (n_children n)"

definition strip_quotes :: "uchar \<Rightarrow> ustr \<Rightarrow> ustr option" where
  "strip_quotes q s = Option.bind (strip_prefix [q] s) (strip_suffix [q])"

text \<open>The word a child of a command node contributes: \<open>None\<close> rejects the command, \<open>Some None\<close> is skipped.\<close>

definition plain_word :: "tnode \<Rightarrow> (ustr \<times> tnode) option option" where
  "plain_word child =
     (if is_kind ''variable_assignment'' child then Some None
      else if is_kind ''command_name'' child then
        (case named_children child of
           [] \<Rightarrow> None
         | w # _ \<Rightarrow>
             if \<not> is_kind ''word'' w then None
             else (case n_text w of None \<Rightarrow> None | Some t \<Rightarrow> Some (Some (t, w))))
      else if is_kind ''word'' child \<or> is_kind ''number'' child then
        (case n_text child of None \<Rightarrow> None | Some t \<Rightarrow> Some (Some (t, child)))
      else if is_kind ''string'' child then
        (case n_children child of
           [a, b, c] \<Rightarrow>
             if n_kind a = [34] \<and> is_kind ''string_content'' b \<and> n_kind c = [34]
             then (case n_text b of None \<Rightarrow> None | Some t \<Rightarrow> Some (Some (t, child)))
             else None
         | _ \<Rightarrow> None)
      else if is_kind ''raw_string'' child then
        (case n_text child of
           None \<Rightarrow> None
         | Some raw \<Rightarrow>
             (case strip_quotes 39 raw of None \<Rightarrow> None | Some s \<Rightarrow> Some (Some (s, child))))
      else if is_kind ''concatenation'' child then
        (case n_text child of None \<Rightarrow> None | Some t \<Rightarrow> Some (Some (t, child)))
      else None)"

fun plain_words ::
    "tnode list \<Rightarrow> ustr list \<Rightarrow> nat option \<Rightarrow> nat option \<Rightarrow> (ustr list \<times> nat option \<times> nat option) option" where
  "plain_words [] ws s e = Some (ws, s, e)"
| "plain_words (c # cs) ws s e =
     (case plain_word c of
        None \<Rightarrow> None
      | Some None \<Rightarrow> plain_words cs ws s e
      | Some (Some (t, span)) \<Rightarrow>
          plain_words cs (ws @ [t]) (if s = None then Some (n_start span) else s) (Some (n_end span)))"

definition parse_plain_command_from_node :: "tnode \<Rightarrow> plain_command option" where
  "parse_plain_command_from_node cmd =
     (if \<not> is_kind ''command'' cmd then None
      else (case plain_words (named_children cmd) [] None None of
              None \<Rightarrow> None
            | Some (ws, s, e) \<Rightarrow>
                Some \<lparr>words = ws,
                      span_start = (case s of Some x \<Rightarrow> x | None \<Rightarrow> n_start cmd),
                      span_end = (case e of Some x \<Rightarrow> x | None \<Rightarrow> n_end cmd)\<rparr>))"

fun all_some :: "'a option list \<Rightarrow> 'a list option" where
  "all_some [] = Some []"
| "all_some (None # xs) = None"
| "all_some (Some x # xs) = map_option (Cons x) (all_some xs)"

definition try_parse_word_only_commands_sequence :: "tnode \<times> bool \<Rightarrow> plain_command list option" where
  "try_parse_word_only_commands_sequence tree =
     (case tree of (root, has_error) \<Rightarrow>
        if has_error then None
        else if \<not> list_all node_allowed (nodes root) then None
        else all_some (map parse_plain_command_from_node
               (sort_key n_start (filter (\<lambda>n. n_named n \<and> is_kind ''command'' n) (nodes root)))))"

definition all_commands_from_script :: "shell_parser \<Rightarrow> ustr \<Rightarrow> plain_command list option" where
  "all_commands_from_script try_parse_shell script =
     (case try_parse_shell script of
        None \<Rightarrow> None
      | Some tree \<Rightarrow> try_parse_word_only_commands_sequence tree)"

definition is_setup_command :: "ustr list \<Rightarrow> bool" where
  "is_setup_command cmd =
     (case cmd of
        [] \<Rightarrow> True
      | c # _ \<Rightarrow> c \<in> set (map u [''cd'', ''pushd'', ''popd'', ''export'', ''unset'', ''set'', ''sleep'', ''timeout'']))"

section \<open>The primary command of a script\<close>

text \<open>\<^verbatim>\<open>sh_split_simple\<close>: the state is the rest of the text, the finished words, the current word and the two quote flags.\<close>

fun sh_split_loop :: "ustr \<Rightarrow> ustr list \<Rightarrow> ustr \<Rightarrow> bool \<Rightarrow> bool \<Rightarrow> ustr list" where
  "sh_split_loop [] result current in_single in_double =
     (if current \<noteq> [] then result @ [current] else result)"
| "sh_split_loop (c # cs) result current in_single in_double =
     (if c = 39 \<and> \<not> in_double then sh_split_loop cs result current (\<not> in_single) in_double
      else if c = 34 \<and> \<not> in_single then sh_split_loop cs result current in_single (\<not> in_double)
      else if c = 92 then
        (case cs of
           [] \<Rightarrow> sh_split_loop [] result current in_single in_double
         | n # cs' \<Rightarrow> sh_split_loop cs' result (current @ [n]) in_single in_double)
      else if is_whitespace c \<and> \<not> in_single \<and> \<not> in_double then
        (if current \<noteq> [] then sh_split_loop cs (result @ [current]) [] in_single in_double
         else sh_split_loop cs result current in_single in_double)
      else sh_split_loop cs result (current @ [c]) in_single in_double)"

definition sh_split_simple :: "ustr \<Rightarrow> ustr list" where
  "sh_split_simple s = sh_split_loop s [] [] False False"

record bash_command_highlights =
  highlight_prefix :: "ustr list"
  highlighted_words :: "ustr list"
  highlight_suffix :: "ustr list"

text \<open>The spans of a node are byte offsets at character boundaries of the script.\<close>

definition primary_command_from_script :: "shell_parser \<Rightarrow> ustr \<Rightarrow> bash_command_highlights option" where
  "primary_command_from_script try_parse_shell script =
     (case all_commands_from_script try_parse_shell script of
        None \<Rightarrow> None
      | Some commands \<Rightarrow>
          (case List.find (\<lambda>c. \<not> is_setup_command (words c)) commands of
             None \<Rightarrow> None
           | Some primary \<Rightarrow>
               Some \<lparr>highlight_prefix = sh_split_simple (from_utf8_lossy (take (span_start primary) (as_bytes script))),
                     highlighted_words = words primary,
                     highlight_suffix = sh_split_simple (from_utf8_lossy (drop (span_end primary) (as_bytes script)))\<rparr>))"

section \<open>Wrappers\<close>

definition shell_program_name :: "ustr \<Rightarrow> ustr" where
  "shell_program_name word = rev (takeWhile (\<lambda>c. c \<noteq> 47 \<and> c \<noteq> 92) (rev word))"

definition is_env_assignment :: "ustr \<Rightarrow> bool" where
  "is_env_assignment tok =
     (61 \<in> set tok \<and>
      (let name = takeWhile (\<lambda>c. c \<noteq> 61) tok in
       name \<noteq> [] \<and> (is_ascii_alphabetic (hd name) \<or> hd name = 95) \<and>
       list_all (\<lambda>c. is_ascii_alphabetic c \<or> is_ascii_digit c \<or> c = 95) name))"

text \<open>\<open>env_scan chdir ws\<close> scans the words after \<^verbatim>\<open>env\<close>: the target directory and the inner command.\<close>

fun env_scan :: "ustr option \<Rightarrow> ustr list \<Rightarrow> ustr option \<times> ustr list" where
  "env_scan chdir [] = (chdir, [])"
| "env_scan chdir (tok # ws) =
     (if tok = u ''--'' then (chdir, ws)
      else if tok \<noteq> u ''-'' \<and> starts_with (u ''-'') tok then
        (if tok = u ''-C'' \<or> tok = u ''--chdir'' then
           (case ws of [] \<Rightarrow> (None, []) | d # ws' \<Rightarrow> env_scan (Some d) ws')
         else if starts_with (u ''--chdir='') tok then
           env_scan (strip_prefix (u ''--chdir='') tok) ws
         else if starts_with (u ''-C'') tok then
           env_scan (strip_prefix (u ''-C'') tok) ws
         else if tok \<in> set (map u [''-u'', ''--unset'', ''-S'', ''--split-string'']) then
           (case ws of [] \<Rightarrow> (chdir, []) | _ # ws' \<Rightarrow> env_scan chdir ws')
         else env_scan chdir ws)
      else if is_env_assignment tok then env_scan chdir ws
      else (chdir, tok # ws))"

text \<open>Skipping the options of a wrapper; those in \<open>valued\<close> take the next word as value.\<close>

fun skip_options :: "ustr list \<Rightarrow> ustr list \<Rightarrow> ustr list" where
  "skip_options valued [] = []"
| "skip_options valued (w # ws) =
     (if starts_with (u ''-'') w then
        (if w \<in> set valued then (case ws of [] \<Rightarrow> [] | _ # ws' \<Rightarrow> skip_options valued ws')
         else skip_options valued ws)
      else w # ws)"

definition strip_wrapper_command :: "ustr list \<Rightarrow> ustr list option" where
  "strip_wrapper_command cmd =
     (case cmd of
        [] \<Rightarrow> None
      | w # ws \<Rightarrow>
          (let head = shell_program_name w;
               inner =
                 (if head = u ''timeout''
                  then Some (drop 1 (skip_options (map u [''-k'', ''-s'', ''--kill-after'', ''--signal'']) ws))
                  else if head = u ''nice'' then Some (skip_options (map u [''-n'', ''--adjustment'']) ws)
                  else if head = u ''ionice''
                  then Some (skip_options (map u [''-c'', ''-n'', ''-p'', ''-P'', ''-u'', ''--class'',
                                                 ''--classdata'', ''--pid'', ''--pgid'', ''--uid'']) ws)
                  else if head = u ''chrt'' then Some (drop 1 (skip_options [] ws))
                  else if head = u ''stdbuf'' then Some (skip_options (map u [''-i'', ''-o'', ''-e'']) ws)
                  else if head = u ''env'' then Some (snd (env_scan None ws))
                  else None) in
           case inner of None \<Rightarrow> None | Some i \<Rightarrow> if i = [] then None else Some i))"

definition is_wrapper_command :: "ustr list \<Rightarrow> bool" where
  "is_wrapper_command ws =
     (case ws of
        [] \<Rightarrow> False
      | w # _ \<Rightarrow> shell_program_name w \<in> set (map u [''timeout'', ''nice'', ''ionice'', ''chrt'', ''stdbuf'', ''env'']))"

fun unwrap_loop :: "nat \<Rightarrow> ustr list \<Rightarrow> ustr list" where
  "unwrap_loop 0 current = current"
| "unwrap_loop (Suc n) current =
     (case strip_wrapper_command current of Some inner \<Rightarrow> unwrap_loop n inner | None \<Rightarrow> current)"

definition unwrap_wrappers :: "ustr list \<Rightarrow> ustr list" where
  "unwrap_wrappers ws = unwrap_loop 8 ws"

fun chdir_loop :: "nat \<Rightarrow> ustr list \<Rightarrow> bool" where
  "chdir_loop 0 current = False"
| "chdir_loop (Suc n) current =
     (if (case current of [] \<Rightarrow> False
          | w # ws \<Rightarrow> shell_program_name w = u ''env'' \<and> fst (env_scan None ws) \<noteq> None)
      then True
      else (case strip_wrapper_command current of Some inner \<Rightarrow> chdir_loop n inner | None \<Rightarrow> False))"

definition wrapper_has_chdir :: "ustr list \<Rightarrow> bool" where
  "wrapper_has_chdir ws = chdir_loop 8 ws"

section \<open>Peeling wrappers\<close>

definition is_suffix :: "'a list \<Rightarrow> 'a list \<Rightarrow> bool" where
  "is_suffix xs ys \<longleftrightarrow> (\<exists>pre. ys = pre @ xs)"

lemma is_suffix_refl [simp]: "is_suffix xs xs" "is_suffix [] xs"
  by (auto simp: is_suffix_def)

lemma is_suffix_Cons: "is_suffix xs ys \<Longrightarrow> is_suffix xs (y # ys)"
  unfolding is_suffix_def by (metis append_Cons)

lemma is_suffix_drop: "is_suffix xs ys \<Longrightarrow> is_suffix (drop n xs) ys"
  unfolding is_suffix_def by (metis append.assoc append_take_drop_id)

lemma skip_options_suffix: "is_suffix (skip_options v ws) ws"
proof (induction v ws rule: skip_options.induct)
  case (2 v w ws)
  then show ?case by (cases ws) (simp_all add: is_suffix_Cons)
qed simp

lemma suffix_if:
  "is_suffix (snd x) l \<Longrightarrow> is_suffix (snd y) l \<Longrightarrow> is_suffix (snd (if b then x else y)) l"
  by simp

lemma env_scan_suffix: "is_suffix (snd (env_scan c ws)) ws"
proof (induction "length ws" arbitrary: c ws rule: less_induct)
  case less
  show ?case
  proof (cases ws)
    case (Cons tok ws')
    have one: "is_suffix (snd (env_scan c' ws')) (tok # ws')" for c'
      using less [of ws'] Cons by (simp add: is_suffix_Cons)
    have two: "is_suffix (snd (case ws' of [] \<Rightarrow> (c'', []) | d # ws'' \<Rightarrow> env_scan (c' d) ws'')) (tok # ws')" for c' c''
      using less Cons by (cases ws') (simp_all add: is_suffix_Cons)
    show ?thesis
      unfolding Cons env_scan.simps
      by (intro suffix_if one two) (simp_all add: is_suffix_Cons)
  qed simp
qed

lemma strip_wrapper_suffix:
  assumes "strip_wrapper_command cmd = Some inner"
  shows "inner \<noteq> [] \<and> (\<exists>pre. pre \<noteq> [] \<and> cmd = pre @ inner)"
proof -
  from assms obtain w ws where cmd: "cmd = w # ws" by (cases cmd) (auto simp: strip_wrapper_command_def)
  from assms cmd have "inner \<noteq> []" and "is_suffix inner ws"
    by (auto simp: strip_wrapper_command_def Let_def skip_options_suffix is_suffix_drop env_scan_suffix
        split: if_splits option.splits)
  then show ?thesis using cmd unfolding is_suffix_def by (metis append_Cons list.discI)
qed

inductive peels :: "nat \<Rightarrow> ustr list \<Rightarrow> ustr list \<Rightarrow> bool" where
  peels_0: "peels 0 ws ws"
| peels_Suc: "strip_wrapper_command ws = Some inner \<Longrightarrow> peels n inner ws' \<Longrightarrow> peels (Suc n) ws ws'"

lemma unwrap_loop_peels:
  "\<exists>k \<le> n. peels k ws (unwrap_loop n ws) \<and> (k < n \<longrightarrow> strip_wrapper_command (unwrap_loop n ws) = None)"
proof (induction n arbitrary: ws)
  case (Suc n)
  show ?case
  proof (cases "strip_wrapper_command ws")
    case None
    then show ?thesis by (auto intro: peels_0)
  next
    case (Some inner)
    from Suc [of inner] obtain k where "k \<le> n" "peels k inner (unwrap_loop n inner)"
      "k < n \<longrightarrow> strip_wrapper_command (unwrap_loop n inner) = None" by blast
    with Some show ?thesis by (intro exI [of _ "Suc k"]) (auto intro: peels_Suc)
  qed
qed (auto intro: peels_0)

lemma peels_suffix: "peels k ws ws' \<Longrightarrow> \<exists>pre. ws = pre @ ws' \<and> k \<le> length pre"
proof (induction rule: peels.induct)
  case (peels_Suc ws inner n ws')
  from strip_wrapper_suffix [OF peels_Suc.hyps(1)] obtain pre where "pre \<noteq> []" "ws = pre @ inner" by blast
  moreover from peels_Suc.IH obtain pre' where "inner = pre' @ ws'" "n \<le> length pre'" by blast
  ultimately have "ws = (pre @ pre') @ ws'" "Suc n \<le> length (pre @ pre')"
    by (auto simp: Suc_le_eq neq_Nil_conv)
  then show ?case by blast
qed simp



end
