(* ===== verification/Shell_Access.thy ===== *)
theory Shell_Access
  imports Permission_Policy Rust_Path
begin

text \<open>
  File accesses hidden in shell commands (\<^verbatim>\<open>permission/shell_access.rs\<close>): which files a command
  reads or writes, through operands, flags and redirections, and what the policy says about them.
  The syntax tree is the parser's (see \<^verbatim>\<open>Shell_Words\<close>); the calls into the file system that follow
  symbolic links are the fields of the argument \<open>os\<close>, on the components of a path.
\<close>

section \<open>Paths as the shell writes them\<close>

definition has_drive_prefix :: "ustr \<Rightarrow> bool" where
  "has_drive_prefix path = (case path of a # b # _ \<Rightarrow> a < 128 \<and> b = 58 | _ \<Rightarrow> False)"

definition is_absolute_shell_path :: "ustr \<Rightarrow> bool" where
  "is_absolute_shell_path path \<longleftrightarrow>
     starts_with (u ''/'') path \<or> starts_with (u ''~/'') path \<or> has_drive_prefix path"

definition normalize_shell_path_raw :: "ustr \<Rightarrow> ustr" where
  "normalize_shell_path_raw path =
     (let p = map (\<lambda>c. if c = 92 then 47 else c) (trim_matches [34, 39] path) in
      case strip_prefix (u ''/c/'') p of Some rest \<Rightarrow> u ''C:/'' @ rest | None \<Rightarrow> p)"

definition normalize_segment :: "bool \<Rightarrow> ustr list \<Rightarrow> ustr \<Rightarrow> ustr list" where
  "normalize_segment absolute out segment =
     (if segment = [] \<or> segment = u ''.'' then out
      else if segment = u ''..'' then
        (if out \<noteq> [] \<and> last out \<noteq> u ''..'' then butlast out
         else if \<not> absolute then out @ [u ''..''] else out)
      else out @ [segment])"

definition lexical_normalize :: "ustr \<Rightarrow> ustr" where
  "lexical_normalize path =
     (let prefix_len = (if has_drive_prefix path then 2 else 0);
          prefix = take prefix_len path; rest = drop prefix_len path;
          absolute = starts_with (u ''/'') rest;
          body = join [47] (foldl (normalize_segment absolute) [] (split_char 47 rest))
      in if absolute then prefix @ [47] @ body else prefix @ body)"

definition normalize_shell_path :: "ustr \<Rightarrow> ustr" where
  "normalize_shell_path path = lexical_normalize (normalize_shell_path_raw path)"

section \<open>Symbolic links\<close>

record os_links =
  canonicalize :: "path_key \<Rightarrow> path_key option"
  is_symlink :: "path_key \<Rightarrow> bool"
  read_link :: "path_key \<Rightarrow> path_key option"

text \<open>The source bounds the depth by 40, so 41 levels are entered; \<open>fuel\<close> is what is left.\<close>

fun resolve_following_symlinks :: "nat \<Rightarrow> os_links \<Rightarrow> path_key \<Rightarrow> path_key option" where
  "resolve_following_symlinks 0 os path = None"
| "resolve_following_symlinks (Suc fuel) os path =
     (case canonicalize os path of
        Some canonical \<Rightarrow> Some canonical
      | None \<Rightarrow>
          if snd path = [] then None
          else (case key_file_name path of
                  None \<Rightarrow> None
                | Some file_name \<Rightarrow>
                    (case resolve_following_symlinks fuel os (fst path, butlast (snd path)) of
                       None \<Rightarrow> None
                     | Some resolved_parent \<Rightarrow>
                         (let candidate = key_join resolved_parent (False, [file_name]) in
                          if is_symlink os candidate
                          then (case read_link os candidate of
                                  None \<Rightarrow> None
                                | Some target \<Rightarrow>
                                    resolve_following_symlinks fuel os (key_join resolved_parent target))
                          else Some candidate))))"

definition resolve_symlink_target :: "os_links \<Rightarrow> ustr \<Rightarrow> ustr option" where
  "resolve_symlink_target os absolute =
     (let path = path_components absolute in
      if \<not> fst path then None
      else map_option (\<lambda>k. normalize_shell_path (key_text k)) (resolve_following_symlinks 41 os path))"

definition path_has_symlink :: "os_links \<Rightarrow> ustr \<Rightarrow> bool" where
  "path_has_symlink os absolute =
     (let path = path_components absolute in
      fst path \<and> list_ex (\<lambda>n. is_symlink os (True, take n (snd path))) [0 ..< Suc (length (snd path))])"

section \<open>Operands\<close>

datatype shell_file_mode = FRead | FWrite

definition is_safe_write_sink :: "ustr \<Rightarrow> bool" where
  "is_safe_write_sink path \<longleftrightarrow> path \<in> set (map u [''/dev/null'', ''/dev/stdout'', ''/dev/stderr''])"

definition shell_readers :: "ustr list" where
  "shell_readers = map u
     [''cat'', ''tac'', ''nl'', ''head'', ''tail'', ''grep'', ''egrep'', ''fgrep'', ''rg'', ''sed'',
      ''awk'', ''less'', ''more'', ''bat'', ''strings'', ''xxd'', ''od'', ''hexdump'', ''base64'',
      ''base32'', ''cut'', ''sort'', ''uniq'', ''wc'', ''type'', ''get-content'', ''gc'', ''diff'',
      ''comm'', ''rev'', ''jq'', ''yq'', ''select-string'', ''sls'', ''ag'', ''ack'', ''zcat'',
      ''zless'', ''zmore'', ''zgrep'', ''zegrep'', ''zfgrep'', ''bzcat'', ''bzgrep'', ''xzcat'',
      ''xzgrep'', ''zstdcat'', ''lz4cat'']"

definition shell_writers :: "ustr list" where
  "shell_writers = map u [''tee'', ''set-content'', ''out-file'', ''add-content'', ''tee-object'', ''truncate'']"

definition file_mode_of :: "ustr \<Rightarrow> shell_file_mode option" where
  "file_mode_of program =
     (if program \<in> set shell_readers then Some FRead
      else if program \<in> set shell_writers then Some FWrite else None)"

definition short_flag_with :: "uchar \<Rightarrow> ustr \<Rightarrow> bool" where
  "short_flag_with c word \<longleftrightarrow> starts_with (u ''-'') word \<and> \<not> starts_with (u ''--'') word \<and> c \<in> set word"

definition shell_sed_in_place :: "ustr list \<Rightarrow> bool" where
  "shell_sed_in_place ws =
     list_ex (\<lambda>w. w = u ''--in-place'' \<or> starts_with (u ''--in-place='') w \<or> short_flag_with 105 w) (drop 1 ws)"

fun shell_output_flag_values :: "ustr list \<Rightarrow> ustr list" where
  "shell_output_flag_values [] = []"
| "shell_output_flag_values (token # ws) =
     (case strip_prefix (u ''--output='') token of
        Some v \<Rightarrow> [v]
      | None \<Rightarrow>
          (case strip_prefix (u ''-o'') token of
             Some v \<Rightarrow> if v \<noteq> [] then [v] else (case ws of [] \<Rightarrow> [] | w # _ \<Rightarrow> [w])
           | None \<Rightarrow>
               if token = u ''--output'' then (case ws of [] \<Rightarrow> [] | w # _ \<Rightarrow> [w]) else []))
     @ shell_output_flag_values ws"

fun value_flag_values :: "ustr \<Rightarrow> ustr list \<Rightarrow> ustr list" where
  "value_flag_values flag [] = []"
| "value_flag_values flag (token # ws) =
     (case strip_prefix (flag @ u ''='') token of
        Some v \<Rightarrow> [v]
      | None \<Rightarrow>
          if token = flag then (case ws of [] \<Rightarrow> [] | w # _ \<Rightarrow> [w])
          else if \<not> starts_with (u ''--'') flag
          then (case strip_prefix flag token of
                  Some v \<Rightarrow> if v \<noteq> [] then [v] else []
                | None \<Rightarrow> [])
          else [])
     @ value_flag_values flag ws"

fun candidates_loop :: "bool \<Rightarrow> ustr list \<Rightarrow> ustr list" where
  "candidates_loop end_of_options [] = []"
| "candidates_loop end_of_options (token # ws) =
     (if \<not> end_of_options \<and> token = u ''--'' then candidates_loop True ws
      else if end_of_options \<or> (token \<noteq> u ''-'' \<and> \<not> starts_with (u ''-'') token)
      then token # candidates_loop end_of_options ws
      else candidates_loop end_of_options ws)"

definition shell_file_candidates :: "ustr list \<Rightarrow> ustr list" where
  "shell_file_candidates ws = candidates_loop False (drop 1 ws)"

definition dd_operand :: "ustr \<Rightarrow> (ustr \<times> shell_file_mode) list" where
  "dd_operand token =
     (case strip_prefix (u ''if='') token of
        Some path \<Rightarrow> [(path, FRead)]
      | None \<Rightarrow> (case strip_prefix (u ''of='') token of Some path \<Rightarrow> [(path, FWrite)] | None \<Rightarrow> []))"

definition special_file_operands :: "ustr \<Rightarrow> ustr list \<Rightarrow> (ustr \<times> shell_file_mode) list" where
  "special_file_operands program ws =
     (if program = u ''dd'' then concat (map dd_operand (drop 1 ws))
      else if program \<in> set (map u [''sort'', ''go'', ''git''])
      then map (\<lambda>p. (p, FWrite)) (shell_output_flag_values ws)
      else if program = u ''rustc''
      then map (\<lambda>p. (p, FWrite)) (shell_output_flag_values ws @ value_flag_values (u ''--out-dir'') ws)
      else if program = u ''rustfmt'' then map (\<lambda>p. (p, FWrite)) (shell_file_candidates ws)
      else [])"

definition shell_path_command_operands ::
    "ustr \<Rightarrow> ustr list \<Rightarrow> (ustr \<times> shell_file_mode) list option" where
  "shell_path_command_operands program ws =
     (let operands = shell_file_candidates ws in
      if program \<in> set (map u [''cp'', ''mv'', ''ln'', ''install'']) then
        (if operands = [] then None
         else Some (map (\<lambda>s. (s, FRead)) (butlast operands) @ [(last operands, FWrite)]))
      else if program \<in> set (map u [''rm'', ''rmdir'', ''mkdir'', ''touch'']) then
        Some (map (\<lambda>c. (c, FWrite)) operands)
      else if program = u ''uniq'' then
        (case operands of
           input # output # _ \<Rightarrow> Some [(input, FRead), (output, FWrite)]
         | _ \<Rightarrow> None)
      else None)"

definition shell_arg_is_ambiguous :: "ustr \<Rightarrow> bool" where
  "shell_arg_is_ambiguous token \<longleftrightarrow> 42 \<in> set token \<or> 63 \<in> set token \<or> 91 \<in> set token"

definition is_directory_operand :: "ustr \<Rightarrow> bool" where
  "is_directory_operand token \<longleftrightarrow> token = u ''.'' \<or> token = u ''..'' \<or> ends_with (u ''/'') token"

definition shell_reader_can_recurse :: "ustr \<Rightarrow> ustr list \<Rightarrow> ustr list \<Rightarrow> bool" where
  "shell_reader_can_recurse program ws candidates \<longleftrightarrow>
     (program \<in> set (map u [''grep'', ''egrep'', ''fgrep'']) \<and>
        list_ex (\<lambda>w. w = u ''--recursive'' \<or> w = u ''--dereference-recursive'' \<or>
                     short_flag_with 114 w \<or> short_flag_with 82 w) ws) \<or>
     (program \<in> set (map u [''rg'', ''ag'', ''ack'']) \<and>
        (length candidates \<le> 1 \<or> list_ex is_directory_operand (drop 1 candidates)))"

definition writes_of :: "(ustr \<times> shell_file_mode) list \<Rightarrow> ustr list" where
  "writes_of ops = map fst (filter (\<lambda>(p, m). m = FWrite) ops)"

definition command_words_write_paths :: "ustr list \<Rightarrow> ustr list" where
  "command_words_write_paths ws =
     (let inner = unwrap_wrappers ws in
      case inner of
        [] \<Rightarrow> []
      | w # _ \<Rightarrow>
          (let program = to_ascii_lowercase (shell_program_name w);
               out = writes_of (special_file_operands program inner) in
           case shell_path_command_operands program inner of
             Some operands \<Rightarrow> out @ writes_of operands
           | None \<Rightarrow>
               if file_mode_of program = Some FWrite \<or> (program = u ''sed'' \<and> shell_sed_in_place inner)
               then out @ shell_file_candidates inner else out))"

section \<open>Reading the syntax tree\<close>

definition child_by_field_name :: "string \<Rightarrow> tnode \<Rightarrow> tnode option" where
  "child_by_field_name f n = List.find (\<lambda>c. n_field c = Some (u f)) (n_children n)"

fun runs_in_current_shell :: "place \<Rightarrow> bool" where
  "runs_in_current_shell [] = True"
| "runs_in_current_shell ((next_sibling, parent_kind) # pl) =
     (if next_sibling = Some (u ''&'') then False
      else if parent_kind \<in> set (map u [''subshell'', ''pipeline'', ''command_substitution'', ''process_substitution''])
      then False
      else runs_in_current_shell pl)"

definition cwd_poison_positions :: "tnode \<Rightarrow> nat list" where
  "cwd_poison_positions root =
     map (\<lambda>(n, pl). n_start n)
       (filter (\<lambda>(n, pl). is_kind ''command'' n \<and>
            (case Option.bind (child_by_field_name ''name'' n) n_text of
               None \<Rightarrow> False
             | Some p \<Rightarrow> shell_program_name p \<in> set (map u [''cd'', ''pushd'', ''popd''])) \<and>
            runs_in_current_shell pl)
          (walk [(root, [])]))"

definition cwd_unpinned_before :: "nat list \<Rightarrow> nat \<Rightarrow> bool" where
  "cwd_unpinned_before positions at = list_ex (\<lambda>p. p < at) positions"

datatype arg_text = Literal ustr | Ambiguous

definition node_has_expansion :: "tnode \<Rightarrow> bool" where
  "node_has_expansion node =
     list_ex (\<lambda>c. n_kind c \<in> set (map u [''expansion'', ''simple_expansion'', ''command_substitution'',
                                          ''arithmetic_expansion'', ''process_substitution'']))
       (concat (map n_children (nodes node)))"

definition quoted_literal :: "uchar \<Rightarrow> tnode \<Rightarrow> arg_text option" where
  "quoted_literal q node =
     map_option (\<lambda>raw. Literal (case strip_quotes q raw of Some s \<Rightarrow> s | None \<Rightarrow> raw)) (n_text node)"

definition shell_node_arg :: "tnode \<Rightarrow> arg_text option" where
  "shell_node_arg node =
     (if is_kind ''variable_assignment'' node then None
      else if is_kind ''word'' node \<or> is_kind ''number'' node then map_option Literal (n_text node)
      else if is_kind ''raw_string'' node then quoted_literal 39 node
      else if is_kind ''string'' node then
        (if node_has_expansion node then Some Ambiguous else quoted_literal 34 node)
      else if is_kind ''concatenation'' node then
        (if node_has_expansion node then Some Ambiguous else map_option Literal (n_text node))
      else Some Ambiguous)"

definition command_operand :: "tnode \<Rightarrow> arg_text option" where
  "command_operand child =
     (if is_kind ''command_name'' child
      then (case named_children child of [] \<Rightarrow> None | inner # _ \<Rightarrow> shell_node_arg inner)
      else shell_node_arg child)"

definition invocation_of :: "tnode \<Rightarrow> nat \<times> ustr list \<times> bool" where
  "invocation_of n =
     (let operands = map command_operand (named_children n) in
      (n_start n,
       concat (map (\<lambda>a. case a of Some (Literal w) \<Rightarrow> [w] | _ \<Rightarrow> []) operands),
       list_ex (\<lambda>a. a = Some Ambiguous) operands))"

definition shell_command_invocations :: "tnode \<Rightarrow> (nat \<times> ustr list \<times> bool) list" where
  "shell_command_invocations root =
     sort_key fst (map invocation_of (filter (is_kind ''command'') (nodes root)))"

fun redirect_operator :: "ustr list \<Rightarrow> ustr option" where
  "redirect_operator [] = None"
| "redirect_operator (kind # kinds) =
     (if str_contains (u ''<<'') kind then None
      else if 62 \<in> set kind \<or> 60 \<in> set kind then Some kind
      else redirect_operator kinds)"

definition shell_redirect_one :: "tnode \<Rightarrow> (ustr option \<times> shell_file_mode \<times> bool) option" where
  "shell_redirect_one node =
     (case redirect_operator (map n_kind (n_children node)) of
        None \<Rightarrow> None
      | Some redirect \<Rightarrow>
          (let mode = (if 62 \<in> set redirect then FWrite else FRead);
               duplicates_fd = (redirect = u ''>&'' \<or> redirect = u ''<&'') in
           case Option.bind (child_by_field_name ''destination'' node) shell_node_arg of
             None \<Rightarrow> None
           | Some (Literal s) \<Rightarrow>
               if s = [] \<or> starts_with (u ''&'') s \<or>
                  (duplicates_fd \<and> (s = u ''-'' \<or> list_all is_ascii_digit s))
               then None
               else Some (Some s, mode, shell_arg_is_ambiguous s)
           | Some Ambiguous \<Rightarrow> Some (None, mode, True)))"

definition shell_redirect_targets :: "tnode \<Rightarrow> (nat \<times> ustr option \<times> shell_file_mode \<times> bool) list" where
  "shell_redirect_targets root =
     concat (map (\<lambda>n. if is_kind ''file_redirect'' n
                      then (case shell_redirect_one n of None \<Rightarrow> [] | Some r \<Rightarrow> [(n_start n, r)])
                      else []) (nodes root))"

definition command_write_paths_in_tree :: "tnode \<Rightarrow> ustr list" where
  "command_write_paths_in_tree root =
     concat (map (\<lambda>(start, path, mode, amb).
               case path of Some p \<Rightarrow> if mode = FWrite then [p] else [] | None \<Rightarrow> [])
             (shell_redirect_targets root)) @
     concat (map (\<lambda>(start, raw_words, amb). command_words_write_paths raw_words)
             (shell_command_invocations root))"

section \<open>Evaluation\<close>

definition shell_access :: "shell_file_mode \<Rightarrow> ustr \<Rightarrow> unit access_kind" where
  "shell_access mode path = (case mode of FRead \<Rightarrow> Read (Some path) | FWrite \<Rightarrow> Edit path)"

definition shell_absolute :: "(ustr \<Rightarrow> ustr) \<Rightarrow> ustr \<Rightarrow> ustr \<Rightarrow> ustr" where
  "shell_absolute norm cwd token =
     (let path = norm token in
      if is_absolute_shell_path path then path else norm (path_join cwd path))"

definition evaluate_shell_path ::
    "permission_libs \<Rightarrow> os_links \<Rightarrow> compiled_policy \<Rightarrow> ustr \<Rightarrow> ustr \<Rightarrow> shell_file_mode \<Rightarrow> decision option" where
  "evaluate_shell_path libs os policy token cwd mode =
     (let path = normalize_shell_path token;
          absolute = shell_absolute normalize_shell_path cwd token;
          check = (\<lambda>p. escalate (evaluate libs policy (shell_access mode p)));
          raw_absolute = shell_absolute normalize_shell_path_raw cwd token;
          resolved_decision =
            (case resolve_symlink_target os raw_absolute of
               Some resolved \<Rightarrow> if resolved \<noteq> absolute then check resolved else None
             | None \<Rightarrow> if path_has_symlink os raw_absolute then Some Ask else None)
      in combine_decisions (combine_decisions (check path) (check absolute)) resolved_decision)"

text \<open>
  What one redirection and one invocation contribute: whether the user must be asked in any case,
  and the paths to evaluate with their modes.
\<close>

definition redirect_checks ::
    "nat list \<Rightarrow> nat \<times> ustr option \<times> shell_file_mode \<times> bool \<Rightarrow> bool \<times> (ustr \<times> shell_file_mode) list" where
  "redirect_checks cwd_changes r =
     (case r of (start_byte, path, mode, ambiguous) \<Rightarrow>
        (case path of
           None \<Rightarrow> (ambiguous, [])
         | Some p \<Rightarrow>
             (ambiguous \<or> (cwd_unpinned_before cwd_changes start_byte \<and>
                           \<not> is_absolute_shell_path (normalize_shell_path p)),
              [(p, mode)])))"

definition file_modes :: "ustr \<Rightarrow> ustr list \<Rightarrow> shell_file_mode list" where
  "file_modes program ws =
     (case file_mode_of program of
        Some m \<Rightarrow> if program = u ''sed'' \<and> shell_sed_in_place ws then [FRead, FWrite] else [m]
      | None \<Rightarrow> [])"

definition invocation_checks ::
    "nat list \<Rightarrow> bool \<Rightarrow> nat \<times> ustr list \<times> bool \<Rightarrow> bool \<times> (ustr \<times> shell_file_mode) list" where
  "invocation_checks cwd_changes parse_failed invocation =
     (case invocation of (start_byte, raw_words, arg_ambiguous) \<Rightarrow>
        (let ws = unwrap_wrappers raw_words in
         case ws of
           [] \<Rightarrow> (False, [])
         | w # _ \<Rightarrow>
             (let program = to_ascii_lowercase (shell_program_name w) in
              if program = u ''cd'' then (False, [])
              else
                (let cwd_unpinned = (cwd_unpinned_before cwd_changes start_byte \<or> wrapper_has_chdir raw_words);
                     candidates = shell_file_candidates ws;
                     path_operands = shell_path_command_operands program ws;
                     is_known = (program = u ''dd'' \<or> file_mode_of program \<noteq> None \<or> path_operands \<noteq> None);
                     forced = (is_known \<and> (cwd_unpinned \<or> arg_ambiguous \<or> parse_failed));
                     special = special_file_operands program ws;
                     forced_special = list_ex (\<lambda>(p, m). shell_arg_is_ambiguous p) special in
                 if program = u ''dd'' then (forced \<or> forced_special, special)
                 else (case path_operands of
                         Some operands \<Rightarrow>
                           (forced \<or> forced_special \<or> list_ex (\<lambda>(p, m). shell_arg_is_ambiguous p) operands,
                            special @ operands)
                       | None \<Rightarrow>
                           (let modes = file_modes program ws in
                            if modes = [] then (forced \<or> forced_special, special)
                            else
                              (forced \<or> forced_special \<or> list_ex shell_arg_is_ambiguous candidates \<or>
                               shell_reader_can_recurse program ws candidates,
                               special @ concat (map (\<lambda>c. map (\<lambda>m. (c, m)) modes) candidates))))))))"

definition file_checks :: "tnode \<times> bool \<Rightarrow> (bool \<times> (ustr \<times> shell_file_mode) list) list" where
  "file_checks tree =
     (case tree of (root, parse_failed) \<Rightarrow>
        (let cwd_changes = cwd_poison_positions root in
         map (redirect_checks cwd_changes) (shell_redirect_targets root) @
         map (invocation_checks cwd_changes parse_failed) (shell_command_invocations root)))"

definition evaluate_shell_file_access ::
    "permission_libs \<Rightarrow> os_links \<Rightarrow> shell_parser \<Rightarrow> compiled_policy \<Rightarrow> ustr \<Rightarrow> ustr \<Rightarrow> decision option" where
  "evaluate_shell_file_access libs os try_parse_shell policy cmd cwd =
     (if \<not> has_file_restrictions policy then None
      else (case try_parse_shell cmd of
              None \<Rightarrow> None
            | Some tree \<Rightarrow>
                (let checks = file_checks tree;
                     decision = foldl (\<lambda>d (p, m). combine_decisions d (evaluate_shell_path libs os policy p cwd m))
                                  None (concat (map snd checks));
                     forced_ask = list_ex fst checks
                 in combine_decisions decision (if forced_ask then Some Ask else None))))"

end
