(* ===== verification/Shell_Safety.thy ===== *)
theory Shell_Safety
  imports Shell_Access
begin

text \<open>
  What the file-access gate for shell commands guarantees: it only escalates, it rejects exactly the
  commands that access a rejected path, it asks exactly when a path must be asked about or cannot be told
  from the script, every path the write model lists is among the paths it
  checks, and the normal form it compares has no dot segments. The last section has commands that
  get past a deny rule.
\<close>

section \<open>Normal forms of paths\<close>

definition plain_segment :: "ustr \<Rightarrow> bool" where
  "plain_segment s \<longleftrightarrow> s \<noteq> [] \<and> s \<noteq> u ''.'' \<and> s \<noteq> u ''..'' \<and> 47 \<notin> set s"

lemma normalize_absolute_plain:
  "list_all plain_segment out \<Longrightarrow> \<forall>s \<in> set segs. 47 \<notin> set s \<Longrightarrow>
   list_all plain_segment (foldl (normalize_segment True) out segs)"
proof (induction segs arbitrary: out)
  case (Cons s segs)
  have "list_all plain_segment (normalize_segment True out s)"
  proof (cases "s = [] \<or> s = u ''.'' \<or> s = u ''..''")
    case True
    with Cons.prems(1) show ?thesis
      unfolding normalize_segment_def by (auto simp: list_all_iff dest: in_set_butlastD)
  next
    case False
    with Cons.prems(2) have "plain_segment s" by (simp add: plain_segment_def)
    with False Cons.prems(1) show ?thesis by (simp add: normalize_segment_def)
  qed
  with Cons show ?case by simp
qed simp

lemma normalize_plain_id:
  "list_all plain_segment segs \<Longrightarrow> foldl (normalize_segment True) out segs = out @ segs"
  by (induction segs arbitrary: out) (auto simp: normalize_segment_def plain_segment_def)

lemma split_slash_path:
  "list_all plain_segment segs \<Longrightarrow>
   foldl (normalize_segment True) [] (split_char 47 ([47] @ join [47] segs)) = segs"
proof (cases "segs = []")
  case True
  then show ?thesis by (simp add: normalize_segment_def)
next
  case False
  assume plain: "list_all plain_segment segs"
  then have "split_char 47 (join [47] segs) = segs"
    using False by (intro split_char_join) (auto simp: list_all_iff plain_segment_def)
  with plain normalize_plain_id [OF plain, of "[]"] show ?thesis by (simp add: normalize_segment_def)
qed

lemma set_join: "c \<in> set (join [47] ss) \<Longrightarrow> c = 47 \<or> (\<exists>s \<in> set ss. c \<in> set s)"
proof (induction ss)
  case (Cons s ss)
  then show ?case by (cases ss) auto
qed simp

lemma split_char_set: "l \<in> set (split_char d s) \<Longrightarrow> set l \<subseteq> set s"
proof (induction s arbitrary: l)
  case (Cons c s)
  then show ?case by (cases "split_char d s") (fastforce split: if_splits)+
qed simp

lemma normalize_segments_from:
  "s \<in> set (foldl (normalize_segment True) out segs) \<Longrightarrow> s \<in> set out \<or> s \<in> set segs"
proof (induction segs arbitrary: out)
  case (Cons x segs)
  then have "s \<in> set (normalize_segment True out x) \<or> s \<in> set segs" by auto
  then show ?case by (auto simp: normalize_segment_def split: if_splits dest: in_set_butlastD)
qed simp

lemma no_drive: "58 \<notin> set p \<Longrightarrow> \<not> has_drive_prefix p"
  by (auto simp: has_drive_prefix_def split: list.splits)

lemma lexical_normalize_plain:
  assumes "58 \<notin> set p" "p = 47 # q"
  shows "lexical_normalize p = [47] @ join [47] (foldl (normalize_segment True) [] (split_char 47 p))"
  using assms no_drive [OF assms(1)] by (simp add: lexical_normalize_def starts_with_iff u_simps)

text \<open>
  The normal form of an absolute path without colon is a slash followed by segments that are not
  empty, not a dot, not two dots and without slash, joined by slashes; normalising it again changes
  nothing. So no dot segments are left that could hide a path from a rule.
\<close>
lemma lexical_normalize_absolute:
  assumes "starts_with (u ''/'') p" "58 \<notin> set p"
  shows "\<exists>segs. list_all plain_segment segs \<and> lexical_normalize p = [47] @ join [47] segs \<and>
           lexical_normalize (lexical_normalize p) = lexical_normalize p"
proof -
  let ?segs = "foldl (normalize_segment True) [] (split_char 47 p)"
  obtain q where p: "p = 47 # q" using assms(1) by (auto simp: starts_with_iff u_simps)
  have plain: "list_all plain_segment ?segs"
    by (rule normalize_absolute_plain) (auto dest: split_char_no_sep)
  have once: "lexical_normalize p = [47] @ join [47] ?segs" by (rule lexical_normalize_plain [OF assms(2) p])
  have "58 \<notin> set ([47] @ join [47] ?segs)"
  proof
    assume "58 \<in> set ([47] @ join [47] ?segs)"
    then obtain s where "s \<in> set ?segs" "58 \<in> set s" using set_join [of 58 ?segs] by auto
    then show False using normalize_segments_from [of s "[]"] split_char_set [of s 47 p] assms(2) by auto
  qed
  then have "lexical_normalize ([47] @ join [47] ?segs) = [47] @ join [47] ?segs"
    using lexical_normalize_plain [of "[47] @ join [47] ?segs"] split_slash_path [OF plain] by simp
  with plain once show ?thesis by auto
qed

section \<open>The file-access gate\<close>

abbreviation file_gate ::
    "permission_libs \<Rightarrow> os_links \<Rightarrow> shell_parser \<Rightarrow> permission_config \<Rightarrow> ustr \<Rightarrow> ustr \<Rightarrow> decision option" where
  "file_gate libs os p cfg cmd cwd \<equiv> evaluate_shell_file_access libs os p (compile_policy libs cfg) cmd cwd"

abbreviation path_gate ::
    "permission_libs \<Rightarrow> os_links \<Rightarrow> permission_config \<Rightarrow> ustr \<Rightarrow> ustr \<times> shell_file_mode \<Rightarrow> decision option" where
  "path_gate libs os cfg cwd pm \<equiv> evaluate_shell_path libs os (compile_policy libs cfg) (fst pm) cwd (snd pm)"

definition checked_paths :: "tnode \<times> bool \<Rightarrow> (ustr \<times> shell_file_mode) list" where
  "checked_paths tree = concat (map snd (file_checks tree))"

lemma escalation_None [simp]: "escalation None" "escalation (Some Ask)"
  by (simp_all add: escalation_def)

lemma path_gate_escalation: "escalation (path_gate libs os cfg cwd pm)"
  unfolding evaluate_shell_path_def Let_def
  by (intro escalation_combine escalate_escalation) (auto simp: escalate_escalation split: option.split)

lemma ask_iff_rank: "escalation d \<Longrightarrow> at_least decision_rank 2 d \<longleftrightarrow> d \<noteq> None"
  by (cases d) (auto simp: escalation_def at_least_def decision_rank_def split: decision.splits)

lemma path_gate_at_least:
  assumes "2 \<le> k"
    and "at_least decision_rank k (decides libs cfg (shell_access (snd pm) (normalize_shell_path (fst pm)))) \<or>
         at_least decision_rank k (decides libs cfg (shell_access (snd pm)
           (shell_absolute normalize_shell_path cwd (fst pm))))"
  shows "at_least decision_rank k (path_gate libs os cfg cwd pm)"
  using assms by (auto simp: evaluate_shell_path_def Let_def cd.at_least_join at_least_escalate)

lemma file_gate_eq:
  assumes "has_file_restrictions (compile_policy libs cfg)" "p cmd = Some tree"
  shows "file_gate libs os p cfg cmd cwd =
    combine_decisions (foldl (\<lambda>d pm. combine_decisions d (path_gate libs os cfg cwd pm)) None (checked_paths tree))
      (if list_ex fst (file_checks tree) then Some Ask else None)"
proof -
  have "(\<lambda>d (q, m). combine_decisions d (evaluate_shell_path libs os (compile_policy libs cfg) q cwd m)) =
      (\<lambda>d pm. combine_decisions d (path_gate libs os cfg cwd pm))" by (auto simp: fun_eq_iff)
  with assms show ?thesis by (simp add: evaluate_shell_file_access_def checked_paths_def Let_def)
qed

lemma file_rule_restricts:
  assumes "decides libs cfg (shell_access m path) = Some d" "d \<noteq> Allow"
  shows "has_file_restrictions (compile_policy libs cfg)"
proof -
  let ?a = "shell_access m path"
  have "some_rule libs ?a ActDeny (set (rules cfg)) \<or> some_rule libs ?a ActAsk (set (rules cfg))"
    using assms evaluate_loop_no_deny [of libs ?a "rules cfg" False False]
    unfolding evaluate_compiled
    by (cases "some_rule libs ?a ActDeny (set (rules cfg))") (auto split: if_splits)
  then obtain r where r: "r \<in> set (rules cfg)" "action r = ActDeny \<or> action r = ActAsk"
    "tool_filter_matches ?a (tool r)"
    by (auto simp: some_rule_def rule_applies_def)
  from r(3) have "tool r \<in> {TRead, TEdit, TAny}"
    by (cases "tool r"; cases m) (auto simp: tool_filter_matches_def shell_access_def)
  with r show ?thesis by (auto simp: compile_policy_def list_ex_iff restricts_def)
qed

section \<open>What the gate looks for\<close>

text \<open>
  The accesses of a script, stated rule by rule and independently of the loops of the gate. A
  command runs the program \<open>prog\<close> on the words \<open>ws\<close> once its wrappers are peeled off; \<^verbatim>\<open>cd\<close> itself
  touches no file.
\<close>

definition runs_program :: "tnode \<Rightarrow> nat \<Rightarrow> ustr list \<Rightarrow> bool \<Rightarrow> ustr \<Rightarrow> ustr list \<Rightarrow> bool" where
  "runs_program root start raw amb prog ws \<longleftrightarrow>
     (start, raw, amb) \<in> set (shell_command_invocations root) \<and> unwrap_wrappers raw = ws \<and>
     ws \<noteq> [] \<and> prog = to_ascii_lowercase (shell_program_name (hd ws)) \<and> prog \<noteq> u ''cd''"

definition known_program :: "ustr \<Rightarrow> ustr list \<Rightarrow> bool" where
  "known_program prog ws \<longleftrightarrow>
     prog = u ''dd'' \<or> file_mode_of prog \<noteq> None \<or> shell_path_command_operands prog ws \<noteq> None"

text \<open>
  The files a program reads or writes: those named by a flag, the sources and destinations of a
  path-moving program, and the operands of a known reader or writer; \<^verbatim>\<open>sed -i\<close> does both.
\<close>

inductive file_operand :: "ustr \<Rightarrow> ustr list \<Rightarrow> ustr \<times> shell_file_mode \<Rightarrow> bool" for prog ws where
  flagged: "pm \<in> set (special_file_operands prog ws) \<Longrightarrow> file_operand prog ws pm"
| moved: "shell_path_command_operands prog ws = Some ops \<Longrightarrow> pm \<in> set ops \<Longrightarrow> file_operand prog ws pm"
| named: "shell_path_command_operands prog ws = None \<Longrightarrow> file_mode_of prog = Some m \<Longrightarrow>
    c \<in> set (shell_file_candidates ws) \<Longrightarrow> file_operand prog ws (c, m)"
| rewritten: "shell_path_command_operands prog ws = None \<Longrightarrow> prog = u ''sed'' \<Longrightarrow>
    shell_sed_in_place ws \<Longrightarrow> c \<in> set (shell_file_candidates ws) \<Longrightarrow> file_operand prog ws (c, FWrite)"

inductive accessed :: "tnode \<Rightarrow> ustr \<times> shell_file_mode \<Rightarrow> bool" for root where
  redirected: "(start, Some p, m, amb) \<in> set (shell_redirect_targets root) \<Longrightarrow> accessed root (p, m)"
| by_command: "runs_program root start raw amb prog ws \<Longrightarrow> file_operand prog ws pm \<Longrightarrow> accessed root pm"

text \<open>
  A script whose files cannot be told from its text: a redirection to an expanded word, or to a
  relative path after a change of directory; a known program after a change of directory, under a
  wrapper that changes it, with an expanded argument, or in a script that does not parse; an operand
  with a wildcard or a home directory; a reader that walks directories.
\<close>

inductive unpinned :: "tnode \<Rightarrow> bool \<Rightarrow> bool" for root err where
  expanded_target: "(start, q, m, True) \<in> set (shell_redirect_targets root) \<Longrightarrow> unpinned root err"
| moved_target: "(start, Some q, m, amb) \<in> set (shell_redirect_targets root) \<Longrightarrow>
    d \<in> set (cwd_poison_positions root) \<Longrightarrow> d < start \<Longrightarrow>
    \<not> is_absolute_shell_path (normalize_shell_path q) \<Longrightarrow> unpinned root err"
| moved_program: "runs_program root start raw amb prog ws \<Longrightarrow> known_program prog ws \<Longrightarrow>
    d \<in> set (cwd_poison_positions root) \<Longrightarrow> d < start \<Longrightarrow> unpinned root err"
| moved_by_wrapper: "runs_program root start raw amb prog ws \<Longrightarrow> known_program prog ws \<Longrightarrow>
    wrapper_has_chdir raw \<Longrightarrow> unpinned root err"
| expanded_argument: "runs_program root start raw True prog ws \<Longrightarrow> known_program prog ws \<Longrightarrow> unpinned root err"
| broken_script: "runs_program root start raw amb prog ws \<Longrightarrow> known_program prog ws \<Longrightarrow> err \<Longrightarrow> unpinned root err"
| ambiguous_operand: "runs_program root start raw amb prog ws \<Longrightarrow> file_operand prog ws (q, m) \<Longrightarrow>
    shell_arg_is_ambiguous q \<Longrightarrow> unpinned root err"
| walks_directories: "runs_program root start raw amb prog ws \<Longrightarrow>
    shell_path_command_operands prog ws = None \<Longrightarrow> file_mode_of prog \<noteq> None \<Longrightarrow>
    shell_reader_can_recurse prog ws (shell_file_candidates ws) \<Longrightarrow> unpinned root err"

inductive_simps file_operand_iff: "file_operand prog ws (q, m)"
inductive_simps accessed_pair_iff: "accessed root (q, m)"
inductive_simps unpinned_iff: "unpinned root err"

lemma known_modes:
  "file_mode_of (u ''cd'') = None" "file_mode_of (u ''dd'') = None" "file_mode_of (u ''sed'') = Some FRead"
  by code_simp+

lemma dd_no_operands: "shell_path_command_operands (u ''dd'') ws = None"
  by (simp add: shell_path_command_operands_def)

lemma file_modes_mem:
  "m \<in> set (file_modes prog ws) \<longleftrightarrow>
     file_mode_of prog = Some m \<or> (prog = u ''sed'' \<and> shell_sed_in_place ws \<and> m = FWrite)"
  by (cases m) (auto simp: file_modes_def known_modes split: option.splits)

lemma file_modes_Nil: "file_modes prog ws = [] \<longleftrightarrow> file_mode_of prog = None"
  by (auto simp: file_modes_def split: option.splits)

text \<open>The checks of one command, with the early exits of the loop turned into one formula.\<close>

lemma invocation_checks_program:
  fixes cwds :: "nat list" and start :: nat and amb err :: bool
  assumes "unwrap_wrappers raw = w # vs" "to_ascii_lowercase (shell_program_name w) = prog" "prog \<noteq> u ''cd''"
  defines "ws \<equiv> w # vs"
  defines "forced \<equiv> known_program prog ws \<and> (cwd_unpinned_before cwds start \<or> wrapper_has_chdir raw \<or> amb \<or> err)"
    and "special \<equiv> special_file_operands prog ws"
  shows "invocation_checks cwds err (start, raw, amb) =
    (case shell_path_command_operands prog ws of
       Some ops \<Rightarrow> (forced \<or> list_ex (\<lambda>(p, m). shell_arg_is_ambiguous p) (special @ ops), special @ ops)
     | None \<Rightarrow>
        (if file_mode_of prog = None then (forced \<or> list_ex (\<lambda>(p, m). shell_arg_is_ambiguous p) special, special)
         else (forced \<or> list_ex (\<lambda>(p, m). shell_arg_is_ambiguous p) special \<or>
               list_ex shell_arg_is_ambiguous (shell_file_candidates ws) \<or>
               shell_reader_can_recurse prog ws (shell_file_candidates ws),
               special @ concat (map (\<lambda>c. map (\<lambda>m. (c, m)) (file_modes prog ws)) (shell_file_candidates ws)))))"
proof -
  have "prog = u ''dd'' \<Longrightarrow> shell_path_command_operands prog ws = None \<and> file_mode_of prog = None"
    by (simp add: dd_no_operands known_modes)
  then show ?thesis
    using assms(1-3) unfolding ws_def forced_def special_def invocation_checks_def known_program_def
    by (simp add: Let_def file_modes_Nil split: option.split)
qed

lemma invocation_paths:
  assumes "unwrap_wrappers raw = w # vs" "to_ascii_lowercase (shell_program_name w) = prog" "prog \<noteq> u ''cd''"
  shows "(q, m) \<in> set (snd (invocation_checks cwds err (start, raw, amb))) \<longleftrightarrow> file_operand prog (w # vs) (q, m)"
  unfolding invocation_checks_program [OF assms]
  by (auto simp: file_operand_iff file_modes_mem known_modes image_iff split: option.split)

lemma invocation_forced:
  assumes "unwrap_wrappers raw = w # vs" "to_ascii_lowercase (shell_program_name w) = prog" "prog \<noteq> u ''cd''"
  shows "fst (invocation_checks cwds err (start, raw, amb)) \<longleftrightarrow>
     (known_program prog (w # vs) \<and> ((\<exists>d \<in> set cwds. d < start) \<or> wrapper_has_chdir raw \<or> amb \<or> err)) \<or>
     (\<exists>q m. file_operand prog (w # vs) (q, m) \<and> shell_arg_is_ambiguous q) \<or>
     (shell_path_command_operands prog (w # vs) = None \<and> file_mode_of prog \<noteq> None \<and>
      shell_reader_can_recurse prog (w # vs) (shell_file_candidates (w # vs)))"
proof -
  have sed: "prog = u ''sed'' \<Longrightarrow> file_mode_of prog \<noteq> None" by (simp add: known_modes)
  show ?thesis
    unfolding invocation_checks_program [OF assms] cwd_unpinned_before_def list_ex_iff
    using sed
    by (auto simp: file_operand_iff Bex_def split: option.split)
qed

lemma invocation_none:
  assumes "unwrap_wrappers raw = [] \<or>
    to_ascii_lowercase (shell_program_name (hd (unwrap_wrappers raw))) = u ''cd''"
  shows "invocation_checks cwds err (start, raw, amb) = (False, [])"
  using assms by (auto simp: invocation_checks_def Let_def split: list.split)

lemma runs_program_cases:
  assumes "(start, raw, amb) \<in> set (shell_command_invocations root)"
  obtains (none) "unwrap_wrappers raw = [] \<or>
      to_ascii_lowercase (shell_program_name (hd (unwrap_wrappers raw))) = u ''cd''"
    | (runs) w vs prog where "unwrap_wrappers raw = w # vs" "to_ascii_lowercase (shell_program_name w) = prog"
      "prog \<noteq> u ''cd''" "runs_program root start raw amb prog (w # vs)"
  using assms by (cases "unwrap_wrappers raw") (auto simp: runs_program_def)

lemma runs_programE:
  assumes "runs_program root start raw amb prog ws"
  obtains w vs where "ws = w # vs" "(start, raw, amb) \<in> set (shell_command_invocations root)"
    "unwrap_wrappers raw = w # vs" "to_ascii_lowercase (shell_program_name w) = prog" "prog \<noteq> u ''cd''"
  using assms by (cases ws) (auto simp: runs_program_def)

lemma checked_paths_iff: "pm \<in> set (checked_paths (root, err)) \<longleftrightarrow> accessed root pm"
proof -
  obtain q m where pm: "pm = (q, m)" by fastforce
  have redirect: "(q, m) \<in> set (snd (redirect_checks cwds x)) \<longleftrightarrow> (\<exists>start amb. x = (start, Some q, m, amb))" for cwds x
    by (cases x) (auto simp: redirect_checks_def split: option.splits)
  have command: "(\<exists>x \<in> set (shell_command_invocations root). (q, m) \<in> set (snd (invocation_checks cwds err x))) \<longleftrightarrow>
      (\<exists>start raw amb prog ws. runs_program root start raw amb prog ws \<and> file_operand prog ws (q, m))" for cwds
  proof
    assume "\<exists>x \<in> set (shell_command_invocations root). (q, m) \<in> set (snd (invocation_checks cwds err x))"
    then obtain start raw amb where x: "(start, raw, amb) \<in> set (shell_command_invocations root)"
      "(q, m) \<in> set (snd (invocation_checks cwds err (start, raw, amb)))" by auto
    from x(1) show "\<exists>start raw amb prog ws. runs_program root start raw amb prog ws \<and> file_operand prog ws (q, m)"
    proof (cases rule: runs_program_cases)
      case none
      with x(2) show ?thesis by (simp add: invocation_none)
    next
      case (runs w vs prog)
      with x(2) invocation_paths [OF runs(1-3)] show ?thesis by blast
    qed
  next
    assume "\<exists>start raw amb prog ws. runs_program root start raw amb prog ws \<and> file_operand prog ws (q, m)"
    then show "\<exists>x \<in> set (shell_command_invocations root). (q, m) \<in> set (snd (invocation_checks cwds err x))"
      by (auto elim!: runs_programE simp: invocation_paths intro!: bexI)
  qed
  show ?thesis
    unfolding pm accessed_pair_iff command [of "cwd_poison_positions root", symmetric]
    by (auto simp: checked_paths_def file_checks_def Let_def redirect)
qed

lemma forced_iff: "list_ex fst (file_checks (root, err)) \<longleftrightarrow> unpinned root err"
proof
  assume "list_ex fst (file_checks (root, err))"
  then consider
      (redirect) start q m amb where "(start, q, m, amb) \<in> set (shell_redirect_targets root)"
        "fst (redirect_checks (cwd_poison_positions root) (start, q, m, amb))"
    | (command) start raw amb where "(start, raw, amb) \<in> set (shell_command_invocations root)"
        "fst (invocation_checks (cwd_poison_positions root) err (start, raw, amb))"
    by (auto simp: file_checks_def Let_def list_ex_iff)
  then show "unpinned root err"
  proof cases
    case redirect
    then show ?thesis
      by (cases amb; cases q)
         (auto simp: redirect_checks_def cwd_unpinned_before_def list_ex_iff intro: expanded_target moved_target)
  next
    case command
    from command(1) show ?thesis
    proof (cases rule: runs_program_cases)
      case none
      with command(2) show ?thesis by (simp add: invocation_none)
    next
      case (runs w vs prog)
      note r = runs(4)
      from command(2) consider
          (cd) d where "known_program prog (w # vs)" "d \<in> set (cwd_poison_positions root)" "d < start"
        | (wrapper) "known_program prog (w # vs)" "wrapper_has_chdir raw"
        | (expanded) "known_program prog (w # vs)" "amb"
        | (broken) "known_program prog (w # vs)" "err"
        | (ambiguous) q m where "file_operand prog (w # vs) (q, m)" "shell_arg_is_ambiguous q"
        | (walk) "shell_path_command_operands prog (w # vs) = None" "file_mode_of prog \<noteq> None"
            "shell_reader_can_recurse prog (w # vs) (shell_file_candidates (w # vs))"
        unfolding invocation_forced [OF runs(1-3)] by (elim disjE conjE exE bexE)
      then show ?thesis
      proof cases
        case expanded
        then show ?thesis using expanded_argument [of root start raw prog "w # vs"] r by simp
      qed (rule moved_program [OF r] moved_by_wrapper [OF r] broken_script [OF r] ambiguous_operand [OF r]
          walks_directories [OF r]; assumption)+
    qed
  qed
next
  have command: "list_ex fst (file_checks (root, err))"
    if "runs_program root start raw amb prog ws"
      "known_program prog ws \<and> ((\<exists>d \<in> set (cwd_poison_positions root). d < start) \<or> wrapper_has_chdir raw \<or> amb \<or> err) \<or>
       (\<exists>q m. file_operand prog ws (q, m) \<and> shell_arg_is_ambiguous q) \<or>
       shell_path_command_operands prog ws = None \<and> file_mode_of prog \<noteq> None \<and>
         shell_reader_can_recurse prog ws (shell_file_candidates ws)" for start raw amb prog ws
  proof -
    from that(1) obtain w vs where r: "ws = w # vs" "(start, raw, amb) \<in> set (shell_command_invocations root)"
      "unwrap_wrappers raw = w # vs" "to_ascii_lowercase (shell_program_name w) = prog" "prog \<noteq> u ''cd''"
      by (rule runs_programE)
    with that(2) have "fst (invocation_checks (cwd_poison_positions root) err (start, raw, amb))"
      unfolding invocation_forced [OF r(3-5)] by simp
    with r(2) show ?thesis by (auto simp: file_checks_def Let_def list_ex_iff)
  qed
  have redirect: "list_ex fst (file_checks (root, err))"
    if "(start, q, m, amb) \<in> set (shell_redirect_targets root)"
      "amb \<or> (\<exists>p. q = Some p \<and> \<not> is_absolute_shell_path (normalize_shell_path p) \<and>
         (\<exists>d \<in> set (cwd_poison_positions root). d < start))" for start q m amb
  proof -
    from that(2) have "fst (redirect_checks (cwd_poison_positions root) (start, q, m, amb))"
      by (cases q) (auto simp: redirect_checks_def cwd_unpinned_before_def list_ex_iff)
    with that(1) show ?thesis by (auto simp: file_checks_def Let_def list_ex_iff)
  qed
  assume "unpinned root err"
  then show "list_ex fst (file_checks (root, err))"
  proof cases
    case (expanded_target start q m)
    then show ?thesis by (auto intro: redirect [of start q m True])
  next
    case (moved_target start q m amb d)
    then show ?thesis by (auto intro: redirect [of start "Some q" m amb])
  next
    case (moved_program start raw amb prog ws d)
    then show ?thesis by (auto intro: command [of start raw amb prog ws])
  next
    case (moved_by_wrapper start raw amb prog ws)
    then show ?thesis by (auto intro: command [of start raw amb prog ws])
  next
    case (expanded_argument start raw prog ws)
    then show ?thesis by (auto intro: command [of start raw True prog ws])
  next
    case (broken_script start raw amb prog ws)
    then show ?thesis using command [of start raw amb prog ws] by blast
  next
    case (ambiguous_operand start raw amb prog ws q m)
    then show ?thesis by (auto intro: command [of start raw amb prog ws])
  next
    case (walks_directories start raw amb prog ws)
    then show ?thesis by (auto intro: command [of start raw amb prog ws])
  qed
qed

section \<open>Every write is checked\<close>

lemma writes_of_mem: "w \<in> set (writes_of ops) \<longleftrightarrow> (w, FWrite) \<in> set ops"
  by (force simp: writes_of_def)

lemma cd_no_operands:
  "special_file_operands (u ''cd'') ws = []" "shell_path_command_operands (u ''cd'') ws = None"
  by (simp_all add: special_file_operands_def shell_path_command_operands_def)

lemma command_writes_checked:
  assumes "w \<in> set (command_words_write_paths raw)"
  shows "(w, FWrite) \<in> set (snd (invocation_checks cwds err (start, raw, amb)))"
proof -
  obtain v vs where ws: "unwrap_wrappers raw = v # vs"
    using assms by (cases "unwrap_wrappers raw") (auto simp: command_words_write_paths_def)
  define prog where "prog = to_ascii_lowercase (shell_program_name v)"
  have modes: "file_mode_of prog = Some FWrite \<or> (prog = u ''sed'' \<and> shell_sed_in_place (v # vs)) \<Longrightarrow>
      FWrite \<in> set (file_modes prog (v # vs))"
    by (auto simp: file_modes_def known_modes)
  have cd: "prog = u ''cd'' \<Longrightarrow> command_words_write_paths raw = []"
    using ws unfolding prog_def
    by (simp add: command_words_write_paths_def Let_def cd_no_operands known_modes writes_of_def)
  have dd: "prog = u ''dd'' \<Longrightarrow> shell_path_command_operands prog (v # vs) = None \<and> file_mode_of prog = None"
    by (simp add: shell_path_command_operands_def known_modes)
  from assms cd have "prog \<noteq> u ''cd''" by auto
  with assms ws modes dd show ?thesis
    unfolding command_words_write_paths_def invocation_checks_def
    by (auto simp: Let_def writes_of_mem prog_def [symmetric] split: option.splits if_splits)
qed

lemma writes_checked:
  assumes "w \<in> set (command_write_paths_in_tree root)"
  shows "(w, FWrite) \<in> set (checked_paths (root, err))"
proof -
  let ?c = "cwd_poison_positions root"
  have checks: "checked_paths (root, err) =
      concat (map (snd \<circ> redirect_checks ?c) (shell_redirect_targets root)) @
      concat (map (snd \<circ> invocation_checks ?c err) (shell_command_invocations root))"
    by (simp add: checked_paths_def file_checks_def Let_def)
  from assms consider
      (redirect) start amb where "(start, Some w, FWrite, amb) \<in> set (shell_redirect_targets root)"
    | (command) start raw amb where "(start, raw, amb) \<in> set (shell_command_invocations root)"
        "w \<in> set (command_words_write_paths raw)"
    by (fastforce simp: command_write_paths_in_tree_def split: option.splits if_splits)
  then show ?thesis
  proof cases
    case redirect
    then have "(w, FWrite) \<in> set (concat (map (snd \<circ> redirect_checks ?c) (shell_redirect_targets root)))"
      by (force simp: redirect_checks_def)
    then show ?thesis unfolding checks by simp
  next
    case command
    then have "(w, FWrite) \<in> set (concat (map (snd \<circ> invocation_checks ?c err) (shell_command_invocations root)))"
      using command_writes_checked [OF command(2), of ?c err start amb] by force
    then show ?thesis unfolding checks by simp
  qed
qed

section \<open>Properties\<close>


text \<open>
  C20. No write escapes a deny rule: every path that the write model of the shell finds in a command
  (an output redirection, a destination, an output flag, an in-place edit) is among the paths the
  gate checks for writing, so if the policy denies editing that path as written or taken relative to
  the working directory, the gate rejects the command.
\<close>
theorem denied_writes_rejected:
  assumes "p cmd = Some (root, err)" and "w \<in> set (command_write_paths_in_tree root)"
    and "decides libs cfg (Edit q :: unit access_kind) = Some (Reject r)"
    and "q = normalize_shell_path w \<or> q = shell_absolute normalize_shell_path cwd w"
  shows "\<exists>r'. file_gate libs os p cfg cmd cwd = Some (Reject r')"
proof -
  have acc: "shell_access FWrite q = Edit q" by (simp add: shell_access_def)
  have fr: "has_file_restrictions (compile_policy libs cfg)"
    using file_rule_restricts [of libs cfg FWrite q "Reject r"] assms(3) acc by simp
  have "at_least decision_rank 3 (path_gate libs os cfg cwd (w, FWrite))"
    using assms(3, 4) acc by (intro path_gate_at_least) (auto simp: at_least_def decision_rank_def)
  then have "at_least decision_rank 3 (file_gate libs os p cfg cmd cwd)"
    using writes_checked [OF assms(2), of err]
    unfolding file_gate_eq [of libs cfg p cmd "(root, err)" os cwd, OF fr assms(1)]
    unfolding cd.at_least_join cd.at_least_fold [where g = "path_gate libs os cfg cwd", OF refl] by blast
  moreover have "escalation (file_gate libs os p cfg cmd cwd)"
    unfolding file_gate_eq [of libs cfg p cmd "(root, err)" os cwd, OF fr assms(1)]
    by (intro escalation_combine cd.fold_closed [where P = escalation and g = "path_gate libs os cfg cwd"])
       (simp_all add: path_gate_escalation del: split_paired_All)
  ultimately show ?thesis using reject_iff_rank by blast
qed

section \<open>Instances\<close>

definition no_links :: os_links where
  "no_links = \<lparr>canonicalize = (\<lambda>k. None), is_symlink = (\<lambda>k. False), read_link = (\<lambda>k. None)\<rparr>"

definition deny_edit :: "string \<Rightarrow> permission_config" where
  "deny_edit path = config_new
     [\<lparr>action = ActDeny, tool = TAny, pattern = Some (u path), mode_of_pattern = Glob\<rparr>]"

definition gate :: "string \<Rightarrow> string \<Rightarrow> string \<Rightarrow> decision option" where
  "gate denied cwd cmd = file_gate sample_libs no_links sample_parser (deny_edit denied) (u cmd) (u cwd)"

definition rejected :: "decision option \<Rightarrow> bool" where
  "rejected d = (case d of Some (Reject _) \<Rightarrow> True | _ \<Rightarrow> False)"

lemma rejected_iff: "rejected d \<longleftrightarrow> (\<exists>r. d = Some (Reject r))"
  by (auto simp: rejected_def split: option.splits decision.splits)

lemma tee_rejected: "rejected (gate ''/w/f'' ''/w'' ''ls;env A=1 tee ./x/../f'')"
  by code_simp


theorem denied_writes_rejected_witness:
  "\<exists>r'. file_gate sample_libs no_links sample_parser (deny_edit ''/w/f'') (u ''ls;env A=1 tee ./x/../f'') (u ''/w'')
     = Some (Reject r')"
proof -
  let ?root = "fst (the (sample_parser (u ''ls;env A=1 tee ./x/../f'')))"
  have tree: "sample_parser (u ''ls;env A=1 tee ./x/../f'') = Some (?root, False)"
    by (simp add: sample_parser_def)
  have w: "u ''./x/../f'' \<in> set (command_write_paths_in_tree ?root)" by code_simp
  have deny: "rejected (decides sample_libs (deny_edit ''/w/f'')
      (Edit (shell_absolute normalize_shell_path (u ''/w'') (u ''./x/../f'')) :: unit access_kind))"
    by code_simp
  from deny obtain r where "decides sample_libs (deny_edit ''/w/f'')
      (Edit (shell_absolute normalize_shell_path (u ''/w'') (u ''./x/../f'')) :: unit access_kind) = Some (Reject r)"
    unfolding rejected_iff by blast
  with denied_writes_rejected [of sample_parser "u ''ls;env A=1 tee ./x/../f''" ?root False "u ''./x/../f''"
      sample_libs "deny_edit ''/w/f''" "shell_absolute normalize_shell_path (u ''/w'') (u ''./x/../f'')" r "u ''/w''" no_links]
    tree w show ?thesis by blast
qed

text \<open>
  Three ways past a deny rule, each next to the plain command that the rule catches. A ninth
  nested wrapper is not peeled, so a Bash rule on the wrapped program does not see it. After a change
  of directory, \<^verbatim>\<open>rustfmt\<close> (like \<^verbatim>\<open>git\<close>, \<^verbatim>\<open>go\<close> and \<^verbatim>\<open>rustc\<close>) is not asked about although its relative
  operand cannot be pinned down. A relative path whose first component is one character and a colon
  counts as absolute, so parent segments after it are not taken relative to the working directory.
\<close>
lemma deny_rules_dodged:
  "rejected (bash_gate sample_libs sample_parser deny_rm (u ''env env rm x'')) \<and>
   bash_gate sample_libs sample_parser deny_rm (u ''env env env env env env env env env rm x'') = None \<and>
   gate ''/w/s/f'' ''/w'' ''cd s;tee f'' = Some Ask \<and>
   gate ''/w/s/f'' ''/w'' ''cd s;rustfmt f'' = None \<and>
   rejected (gate ''/w/f'' ''/w'' ''tee x/../f'') \<and>
   gate ''/w/f'' ''/w'' ''tee x:/../f'' = None"
  by (intro conjI) code_simp+

end
