(* ===== verification/Scheduler.thy ===== *)
theory Scheduler
  imports Utf8
begin

text \<open>
  The scheduler of recurring prompts
  (\<^verbatim>\<open>xai-grok-tools/src/implementations/grok_build/scheduler/\<close>): interval strings
  (\<^verbatim>\<open>interval.rs\<close>), tasks (\<^verbatim>\<open>types.rs\<close>), the actor (\<^verbatim>\<open>actor.rs\<close>) and the three tools
  (\<^verbatim>\<open>create.rs\<close>, \<^verbatim>\<open>delete.rs\<close>, \<^verbatim>\<open>list.rs\<close>).

  Instants are nanoseconds (\<open>int\<close>). The crate \<^verbatim>\<open>chrono\<close> is the argument \<open>C\<close>: \<open>seconds\<close> is
  \<^verbatim>\<open>Duration::seconds\<close>, \<open>time_add\<close> the addition of a duration to an instant and \<open>rfc3339\<close> the text of
  an instant; \<open>None\<close> is a panic. The current time and the identifier drawn from the UUID generator are
  arguments. An operation of the actor returns the new list of tasks and the notifications it sends,
  in order; \<open>None\<close> means that the actor panicked.
\<close>

section \<open>Intervals\<close>

datatype interval_error =
    IntervalEmpty
  | IntervalFormat ustr
  | IntervalZero
  | IntervalSuffix ustr
  | IntervalTooLarge ustr

datatype scheduler_error = InvalidInterval interval_error | TaskLimitReached nat

definition MINIMUM_INTERVAL_SECS :: nat where "MINIMUM_INTERVAL_SECS = 60"

definition unit_secs :: "uchar \<Rightarrow> nat option" where
  "unit_secs c =
     (if c = 115 then Some 1 else if c = 109 then Some 60 else if c = 104 then Some 3600
      else if c = 100 then Some 86400 else None)"

text \<open>\<open>None\<close> is the panic of \<^verbatim>\<open>split_at\<close> inside a character: the last character has several bytes.\<close>

definition parse_interval :: "ustr \<Rightarrow> (scheduler_error + nat) option" where
  "parse_interval text =
     (let s = trim text in
      if s = [] then Some (Inl (InvalidInterval IntervalEmpty))
      else if 128 \<le> last s then None
      else Some
        (case parse_uint u64_max (butlast s) of
           None \<Rightarrow> Inl (InvalidInterval (IntervalFormat s))
         | Some value \<Rightarrow>
             if value = 0 then Inl (InvalidInterval IntervalZero)
             else (case unit_secs (last s) of
                     None \<Rightarrow> Inl (InvalidInterval (IntervalSuffix [last s]))
                   | Some n \<Rightarrow>
                       if u64_max < value * n then Inl (InvalidInterval (IntervalTooLarge s))
                       else Inr (max (value * n) MINIMUM_INTERVAL_SECS))))"

definition every :: "nat \<Rightarrow> string \<Rightarrow> ustr" where
  "every n noun = u ''every '' @ show_nat n @ u '' '' @ u noun @ (if n = 1 then [] else u ''s'')"

definition interval_to_human :: "nat \<Rightarrow> ustr" where
  "interval_to_human secs =
     (if secs mod 86400 = 0 then every (secs div 86400) ''day''
      else if secs mod 3600 = 0 then every (secs div 3600) ''hour''
      else if secs mod 60 = 0 then every (secs div 60) ''minute''
      else every secs ''second'')"

section \<open>Tasks\<close>

record scheduled_task =
  task_id :: ustr
  interval_secs :: nat
  prompt :: ustr
  recurring :: bool
  durable :: bool
  created_at :: int
  last_fired_at :: "int option"
  expires_at :: "int option"

record chrono =
  seconds :: "int \<Rightarrow> int option"
  time_add :: "int \<Rightarrow> int \<Rightarrow> int option"
  rfc3339 :: "int \<Rightarrow> ustr"

text \<open>\<^verbatim>\<open>u64 as i64\<close>.\<close>

definition as_i64 :: "nat \<Rightarrow> int" where
  "as_i64 n = (if n < 2 ^ 63 then int n else int n - 2 ^ 64)"

definition SEVEN_DAYS :: int where "SEVEN_DAYS = 7 * 86400"

text \<open>\<^verbatim>\<open>uuid::Uuid::now_v7().to_string().replace('-', "")[..12]\<close>.\<close>

definition id_of_uuid :: "ustr \<Rightarrow> ustr" where
  "id_of_uuid uuid = take 12 (filter (\<lambda>c. c \<noteq> 45) uuid)"

definition with_fire_immediately ::
    "chrono \<Rightarrow> int \<Rightarrow> ustr \<Rightarrow> nat \<Rightarrow> ustr \<Rightarrow> bool \<Rightarrow> bool \<Rightarrow> bool \<Rightarrow> scheduled_task option" where
  "with_fire_immediately C now uuid secs pr recur dur fire_immediately =
     (case (if fire_immediately
            then (case seconds C (as_i64 secs) of None \<Rightarrow> None | Some d \<Rightarrow> time_add C now (- d))
            else Some now) of
        None \<Rightarrow> None
      | Some created \<Rightarrow>
          (case (if recur
                 then (case seconds C SEVEN_DAYS of
                         None \<Rightarrow> None
                       | Some d \<Rightarrow> (case time_add C now d of None \<Rightarrow> None | Some e \<Rightarrow> Some (Some e)))
                 else Some None) of
             None \<Rightarrow> None
           | Some expiry \<Rightarrow>
               Some \<lparr>task_id = id_of_uuid uuid, interval_secs = secs, prompt = pr, recurring = recur,
                     durable = dur, created_at = created, last_fired_at = None, expires_at = expiry\<rparr>))"

definition next_fire_at :: "chrono \<Rightarrow> scheduled_task \<Rightarrow> int option" where
  "next_fire_at C t =
     (let anchor = (case last_fired_at t of Some l \<Rightarrow> l | None \<Rightarrow> created_at t) in
      case seconds C (as_i64 (interval_secs t)) of None \<Rightarrow> None | Some d \<Rightarrow> time_add C anchor d)"

definition is_expired :: "scheduled_task \<Rightarrow> int \<Rightarrow> bool" where
  "is_expired t now = (case expires_at t of None \<Rightarrow> False | Some e \<Rightarrow> e \<le> now)"

definition is_missed :: "chrono \<Rightarrow> scheduled_task \<Rightarrow> int \<Rightarrow> bool option" where
  "is_missed C t now =
     (if recurring t \<or> last_fired_at t \<noteq> None then Some False
      else map_option (\<lambda>n. n < now) (next_fire_at C t))"

section \<open>The actor\<close>

datatype notification =
    TaskCreated ustr ustr ustr "ustr option"
  | TaskFired ustr ustr ustr "ustr option"
  | TaskRemoved ustr

datatype delay = NoTask | Delay int

definition MAX_SCHEDULED_TASKS :: nat where "MAX_SCHEDULED_TASKS = 50"

definition task_created_payload :: "chrono \<Rightarrow> scheduled_task \<Rightarrow> notification option" where
  "task_created_payload C t =
     map_option (\<lambda>n. TaskCreated (task_id t) (prompt t) (interval_to_human (interval_secs t)) (Some (rfc3339 C n)))
       (next_fire_at C t)"

fun map_panic :: "('a \<Rightarrow> 'b option) \<Rightarrow> 'a list \<Rightarrow> 'b list option" where
  "map_panic f [] = Some []"
| "map_panic f (x # xs) =
     (case f x of None \<Rightarrow> None | Some y \<Rightarrow> map_option (Cons y) (map_panic f xs))"

definition compute_next_fire_delay :: "chrono \<Rightarrow> int \<Rightarrow> scheduled_task list \<Rightarrow> delay option" where
  "compute_next_fire_delay C now tasks =
     map_option (\<lambda>ns. if ns = [] then NoTask
                      else (let next = Min (set ns) in Delay (if next \<le> now then 0 else next - now)))
       (map_panic (next_fire_at C) tasks)"

text \<open>\<^verbatim>\<open>position\<close>: the tasks before the first due one, that task and the rest.\<close>

fun split_due ::
    "chrono \<Rightarrow> int \<Rightarrow> scheduled_task list \<Rightarrow>
       ((scheduled_task list \<times> scheduled_task \<times> scheduled_task list) option) option" where
  "split_due C now [] = Some None"
| "split_due C now (t # ts) =
     (case next_fire_at C t of
        None \<Rightarrow> None
      | Some n \<Rightarrow>
          if n \<le> now then Some (Some ([], t, ts))
          else map_option (map_option (\<lambda>(a, x, b). (t # a, x, b))) (split_due C now ts))"

definition fire_next_task ::
    "chrono \<Rightarrow> int \<Rightarrow> scheduled_task list \<Rightarrow> (scheduled_task list \<times> notification list) option" where
  "fire_next_task C now tasks =
     (case split_due C now tasks of
        None \<Rightarrow> None
      | Some None \<Rightarrow> Some (tasks, [])
      | Some (Some (before, t, after)) \<Rightarrow>
          (let t' = t\<lparr>last_fired_at := Some now\<rparr> in
           case next_fire_at C t' of
             None \<Rightarrow> None
           | Some n \<Rightarrow>
               (let should_remove = (if \<not> recurring t' then True else is_expired t' now);
                    fired = TaskFired (task_id t) (prompt t) (interval_to_human (interval_secs t))
                              (Some (rfc3339 C n)) in
                Some (before @ (if should_remove then [] else [t']) @ after,
                      fired # (if should_remove then [TaskRemoved (task_id t)] else [])))))"

definition handle_missed_tasks ::
    "chrono \<Rightarrow> int \<Rightarrow> scheduled_task list \<Rightarrow> (scheduled_task list \<times> notification list) option" where
  "handle_missed_tasks C now tasks =
     map_option (\<lambda>flags.
        (let missed = map fst (filter snd (zip tasks flags));
             fired_ids = map task_id missed in
         if missed = [] then (tasks, [])
         else (filter (\<lambda>t. task_id t \<notin> set fired_ids) tasks,
               map (\<lambda>t. TaskFired (task_id t) (prompt t) (interval_to_human (interval_secs t)) None) missed @
               map TaskRemoved fired_ids)))
       (map_panic (\<lambda>t. is_missed C t now) tasks)"

definition announce_existing_tasks :: "chrono \<Rightarrow> scheduled_task list \<Rightarrow> notification list option" where
  "announce_existing_tasks C tasks = map_panic (task_created_payload C) tasks"

datatype command = Create scheduled_task | Delete ustr | ListTasks

datatype reply =
    CreateReply "scheduler_error + scheduled_task"
  | DeleteReply bool
  | ListReply "scheduled_task list"

definition handle_command ::
    "chrono \<Rightarrow> command \<Rightarrow> scheduled_task list \<Rightarrow> (scheduled_task list \<times> notification list \<times> reply) option" where
  "handle_command C cmd tasks =
     (case cmd of
        Create t \<Rightarrow>
          if MAX_SCHEDULED_TASKS \<le> length tasks
          then Some (tasks, [], CreateReply (Inl (TaskLimitReached MAX_SCHEDULED_TASKS)))
          else map_option (\<lambda>n. (tasks @ [t], [n], CreateReply (Inr t))) (task_created_payload C t)
      | Delete i \<Rightarrow>
          (let tasks' = filter (\<lambda>t. task_id t \<noteq> i) tasks;
               removed = (length tasks \<noteq> length tasks') in
           Some (tasks', if removed then [TaskRemoved i] else [], DeleteReply removed))
      | ListTasks \<Rightarrow> Some (tasks, [], ListReply tasks))"

text \<open>
  The loop of \<^verbatim>\<open>run\<close>: after the start (missed tasks, then announcements) the actor handles commands
  and timer expiries; on cancellation it drains the tasks. \<open>log\<close> collects the notifications.
\<close>

datatype actor_phase = Starting | Running | Stopped

record actor =
  phase :: actor_phase
  tasks :: "scheduled_task list"
  log :: "notification list"

definition actor_start :: "chrono \<Rightarrow> int \<Rightarrow> actor \<Rightarrow> actor option" where
  "actor_start C now a =
     (case handle_missed_tasks C now (tasks a) of
        None \<Rightarrow> None
      | Some (ts, ns) \<Rightarrow>
          map_option (\<lambda>ms. a\<lparr>phase := Running, tasks := ts, log := log a @ ns @ ms\<rparr>)
            (announce_existing_tasks C ts))"

definition actor_shutdown :: "actor \<Rightarrow> actor" where
  "actor_shutdown a =
     a\<lparr>phase := Stopped, tasks := [], log := log a @ map (\<lambda>t. TaskRemoved (task_id t)) (tasks a)\<rparr>"

inductive actor_step :: "chrono \<Rightarrow> actor \<Rightarrow> actor \<Rightarrow> bool" for C where
  step_start: "phase a = Starting \<Longrightarrow> actor_start C now a = Some a' \<Longrightarrow> actor_step C a a'"
| step_command: "phase a = Running \<Longrightarrow> handle_command C cmd (tasks a) = Some (ts, ns, r) \<Longrightarrow>
     actor_step C a (a\<lparr>tasks := ts, log := log a @ ns\<rparr>)"
| step_timer: "phase a = Running \<Longrightarrow> fire_next_task C now (tasks a) = Some (ts, ns) \<Longrightarrow>
     actor_step C a (a\<lparr>tasks := ts, log := log a @ ns\<rparr>)"
| step_cancel: "phase a = Running \<Longrightarrow> actor_step C a (actor_shutdown a)"

inductive_cases actor_stepE: "actor_step C a a'"

section \<open>The tools\<close>

text \<open>
  The tools as seen by a session with a running actor, which handles their command at once. \<open>None\<close>
  is a panic: of the tool itself (parsing the interval, building the task, summarising a task) or of
  the actor, in which case the tool reports that the reply was dropped.
\<close>

definition create_tool ::
    "chrono \<Rightarrow> int \<Rightarrow> ustr \<Rightarrow> ustr \<Rightarrow> ustr \<Rightarrow> bool \<Rightarrow> bool option \<Rightarrow> bool \<Rightarrow> scheduled_task list \<Rightarrow>
       (scheduled_task list \<times> notification list \<times> (scheduler_error + ustr \<times> ustr \<times> bool)) option" where
  "create_tool C now uuid interval pr recur dur fire_immediately ts =
     (case parse_interval interval of
        None \<Rightarrow> None
      | Some (Inl e) \<Rightarrow> Some (ts, [], Inl e)
      | Some (Inr secs) \<Rightarrow>
          (case with_fire_immediately C now uuid secs pr recur (case dur of Some b \<Rightarrow> b | None \<Rightarrow> False)
                  fire_immediately of
             None \<Rightarrow> None
           | Some t \<Rightarrow>
               (case handle_command C (Create t) ts of
                  Some (ts', ns, CreateReply (Inr created)) \<Rightarrow>
                    Some (ts', ns, Inr (task_id created, interval_to_human secs, recur))
                | Some (ts', ns, CreateReply (Inl e)) \<Rightarrow> Some (ts', ns, Inl e)
                | _ \<Rightarrow> None)))"

definition delete_tool ::
    "chrono \<Rightarrow> ustr \<Rightarrow> scheduled_task list \<Rightarrow> (scheduled_task list \<times> notification list \<times> bool \<times> ustr) option" where
  "delete_tool C i ts =
     (case handle_command C (Delete i) ts of
        Some (ts', ns, DeleteReply removed) \<Rightarrow>
          Some (ts', ns, removed,
            if removed then u ''Scheduled task '' @ i @ u '' cancelled.''
            else u ''No scheduled task with ID '' @ i @ u '' found. Use scheduler_list to see active tasks.'')
      | _ \<Rightarrow> None)"

record task_summary =
  sum_id :: ustr
  sum_prompt :: ustr
  sum_interval :: ustr
  sum_next :: ustr
  sum_created :: ustr
  sum_recurring :: bool

definition summary_of :: "chrono \<Rightarrow> scheduled_task \<Rightarrow> task_summary option" where
  "summary_of C t =
     map_option (\<lambda>n.
        \<lparr>sum_id = task_id t,
         sum_prompt = (if 80 < length (as_bytes (prompt t)) then take_bytes 80 (prompt t) @ u ''...'' else prompt t),
         sum_interval = interval_to_human (interval_secs t), sum_next = rfc3339 C n,
         sum_created = rfc3339 C (created_at t), sum_recurring = recurring t\<rparr>)
       (next_fire_at C t)"

definition list_tool :: "chrono \<Rightarrow> scheduled_task list \<Rightarrow> task_summary list option" where
  "list_tool C ts =
     (case handle_command C ListTasks ts of
        Some (_, _, ListReply listed) \<Rightarrow> map_panic (summary_of C) listed
      | _ \<Rightarrow> None)"

end
