(* ===== verification/Scheduler_View.thy ===== *)
theory Scheduler_View
  imports Scheduler
begin

text \<open>
  The pager's view of the scheduled tasks
  (\<^verbatim>\<open>xai-grok-pager/src/app/acp_handler/background.rs\<close>), rebuilt from the notifications of the
  scheduler, and that it agrees with the scheduler's list of tasks.

  A session's \<^verbatim>\<open>scheduled_tasks\<close> is a map from identifiers to prompt, schedule and next fire time; the
  pager's own time stamp and the constant tag are left out.
\<close>

type_synonym task_info = "ustr \<times> ustr \<times> ustr option"
type_synonym pager_view = "ustr \<Rightarrow> task_info option"

definition provisional :: "ustr \<Rightarrow> bool" where
  "provisional k \<longleftrightarrow> starts_with (u ''provisional-'') k"

definition handle_scheduled_task_created ::
    "ustr \<Rightarrow> ustr \<Rightarrow> ustr \<Rightarrow> ustr option \<Rightarrow> pager_view \<Rightarrow> pager_view" where
  "handle_scheduled_task_created i pr sched next p =
     (let q = (\<lambda>k. if provisional k then None else p k) in
      case q i of Some _ \<Rightarrow> q | None \<Rightarrow> q(i \<mapsto> (pr, sched, next)))"

definition handle_scheduled_task_fired ::
    "ustr \<Rightarrow> ustr \<Rightarrow> ustr \<Rightarrow> ustr option \<Rightarrow> pager_view \<Rightarrow> pager_view" where
  "handle_scheduled_task_fired i pr sched next p =
     (case p i of
        Some (pr0, sched0, _) \<Rightarrow> p(i \<mapsto> (pr0, sched0, next))
      | None \<Rightarrow> if next = None then p else p(i \<mapsto> (pr, sched, next)))"

definition handle_scheduled_task_deleted :: "ustr \<Rightarrow> pager_view \<Rightarrow> pager_view" where
  "handle_scheduled_task_deleted i p = p(i := None)"

fun pager_step :: "pager_view \<Rightarrow> notification \<Rightarrow> pager_view" where
  "pager_step p (TaskCreated i pr sched next) = handle_scheduled_task_created i pr sched next p"
| "pager_step p (TaskFired i pr sched next) = handle_scheduled_task_fired i pr sched next p"
| "pager_step p (TaskRemoved i) = handle_scheduled_task_deleted i p"

definition pager_run :: "pager_view \<Rightarrow> notification list \<Rightarrow> pager_view" where
  "pager_run p ns = foldl pager_step p ns"

text \<open>What the pager should show for a list of tasks.\<close>

definition task_entry :: "chrono \<Rightarrow> scheduled_task \<Rightarrow> task_info" where
  "task_entry C t =
     (prompt t, interval_to_human (interval_secs t), map_option (rfc3339 C) (next_fire_at C t))"

definition view_of :: "chrono \<Rightarrow> scheduled_task list \<Rightarrow> pager_view" where
  "view_of C ts = map_of (map (\<lambda>t. (task_id t, task_entry C t)) ts)"

definition good_ids :: "scheduled_task list \<Rightarrow> bool" where
  "good_ids ts \<longleftrightarrow> distinct (map task_id ts) \<and> (\<forall>t \<in> set ts. \<not> provisional (task_id t))"

definition unique_step :: "chrono \<Rightarrow> actor \<Rightarrow> actor \<Rightarrow> bool" where
  "unique_step C a b \<longleftrightarrow> actor_step C a b \<and> good_ids (tasks b)"

definition fresh_actor :: "actor \<Rightarrow> bool" where
  "fresh_actor a \<longleftrightarrow>
     phase a = Starting \<and> log a = [] \<and> good_ids (tasks a) \<and> length (tasks a) \<le> MAX_SCHEDULED_TASKS"

definition synced :: "chrono \<Rightarrow> actor \<Rightarrow> bool" where
  "synced C a \<longleftrightarrow>
     good_ids (tasks a) \<and> length (tasks a) \<le> MAX_SCHEDULED_TASKS \<and>
     (case phase a of
        Starting \<Rightarrow> log a = []
      | Running \<Rightarrow> pager_run Map.empty (log a) = view_of C (tasks a)
      | Stopped \<Rightarrow> tasks a = [] \<and> pager_run Map.empty (log a) = Map.empty)"

section \<open>Views and lists of tasks\<close>

lemma pager_run_Nil [simp]: "pager_run p [] = p"
  and pager_run_Cons [simp]: "pager_run p (n # ns) = pager_run (pager_step p n) ns"
  and pager_run_append [simp]: "pager_run p (ms @ ns) = pager_run (pager_run p ms) ns"
  by (simp_all add: pager_run_def)

lemma view_of_Nil [simp]: "view_of C [] = Map.empty"
  by (simp add: view_of_def)

lemma view_of_None: "view_of C ts i = None \<longleftrightarrow> i \<notin> task_id ` set ts"
  by (auto simp: view_of_def map_of_eq_None_iff image_image)

lemma view_of_append: "view_of C (xs @ ys) = view_of C ys ++ view_of C xs"
  by (simp add: view_of_def)

lemma view_of_Cons: "view_of C (t # ts) = (view_of C ts)(task_id t \<mapsto> task_entry C t)"
  by (simp add: view_of_def)

lemma good_ids_append:
  "good_ids (xs @ ys) \<longleftrightarrow>
     good_ids xs \<and> good_ids ys \<and> task_id ` set xs \<inter> task_id ` set ys = {}"
  by (auto simp: good_ids_def)

lemma good_ids_Cons:
  "good_ids (t # ts) \<longleftrightarrow> \<not> provisional (task_id t) \<and> task_id t \<notin> task_id ` set ts \<and> good_ids ts"
  by (auto simp: good_ids_def)

lemma good_ids_Nil [simp]: "good_ids []"
  by (simp add: good_ids_def)

lemma good_ids_filter: "good_ids ts \<Longrightarrow> good_ids (filter P ts)"
  by (auto simp: good_ids_def distinct_map_filter)

lemma view_of_drop_provisional:
  "good_ids ts \<Longrightarrow> (\<lambda>k. if provisional k then None else view_of C ts k) = view_of C ts"
proof (rule ext)
  fix k
  assume "good_ids ts"
  then have "provisional k \<Longrightarrow> view_of C ts k = None" unfolding view_of_None good_ids_def by auto
  then show "(if provisional k then None else view_of C ts k) = view_of C ts k" by simp
qed

lemma view_of_middle:
  assumes "good_ids (xs @ t # ys)"
  shows "view_of C (xs @ t # ys) = (view_of C (xs @ ys))(task_id t \<mapsto> task_entry C t)"
proof -
  have "task_id t \<notin> task_id ` set xs" using assms by (auto simp: good_ids_append good_ids_Cons)
  then have "view_of C xs (task_id t) = None" by (simp add: view_of_None)
  then show ?thesis by (auto simp: view_of_append view_of_Cons map_add_def fun_eq_iff split: option.split)
qed

lemma view_of_without:
  assumes "good_ids (xs @ t # ys)"
  shows "(view_of C (xs @ ys))(task_id t := None) = view_of C (xs @ ys)"
proof -
  have "view_of C (xs @ ys) (task_id t) = None"
    using assms by (auto simp: view_of_None good_ids_append good_ids_Cons)
  then show ?thesis by (simp add: fun_upd_idem)
qed

lemma view_of_filter:
  "view_of C (filter (\<lambda>t. task_id t \<noteq> i) ts) = (view_of C ts)(i := None)"
  by (induction ts) (auto simp: view_of_Cons fun_eq_iff)

section \<open>The notifications of each operation\<close>

lemma created_entry:
  assumes "task_created_payload C t = Some n" and "good_ids (ts @ [t])"
  shows "pager_step (view_of C ts) n = view_of C (ts @ [t])"
proof -
  have "task_id t \<notin> task_id ` set ts" and g: "good_ids ts"
    using assms(2) by (auto simp: good_ids_append)
  then have "view_of C ts (task_id t) = None" by (simp add: view_of_None)
  then show ?thesis
    using assms(1) view_of_drop_provisional [OF g, of C] view_of_middle [of ts t "[]" C] assms(2)
    by (auto simp: task_created_payload_def handle_scheduled_task_created_def task_entry_def Let_def)
qed

lemma announce_view:
  "announce_existing_tasks C ts = Some ns \<Longrightarrow> good_ids (xs @ ts) \<Longrightarrow>
     pager_run (view_of C xs) ns = view_of C (xs @ ts)"
  unfolding announce_existing_tasks_def
proof (induction ts arbitrary: xs ns)
  case (Cons t ts)
  from Cons.prems(1) obtain n ms where
    n: "task_created_payload C t = Some n" and ms: "map_panic (task_created_payload C) ts = Some ms"
    and ns: "ns = n # ms"
    by (auto split: option.splits)
  have "good_ids (xs @ [t])" using Cons.prems(2) by (auto simp: good_ids_append good_ids_Cons)
  with n ns Cons.IH [OF ms, of "xs @ [t]"] Cons.prems(2) show ?case by (simp add: created_entry)
qed simp

lemma missed_view:
  assumes "handle_missed_tasks C now ts = Some (ts', ns)"
  shows "pager_run Map.empty ns = Map.empty" and "length ts' \<le> length ts"
proof -
  have f: "pager_run Map.empty (map (\<lambda>x. TaskFired (f x) (g x) (h x) None) xs) = Map.empty"
    for f g h and xs :: "(scheduled_task \<times> bool) list"
    by (induction xs) (auto simp: handle_scheduled_task_fired_def)
  have r: "pager_run Map.empty (map (\<lambda>x. TaskRemoved (f x)) xs) = Map.empty"
    for f and xs :: "(scheduled_task \<times> bool) list"
    by (induction xs) (auto simp: handle_scheduled_task_deleted_def)
  show "pager_run Map.empty ns = Map.empty"
    using assms by (auto simp: handle_missed_tasks_def Let_def f r comp_def split: if_splits)
  show "length ts' \<le> length ts"
    using assms by (auto simp: handle_missed_tasks_def Let_def split: if_splits)
qed

lemma split_due_Some:
  "split_due C now ts = Some (Some (xs, t, ys)) \<Longrightarrow>
     ts = xs @ t # ys \<and> (\<exists>n. next_fire_at C t = Some n \<and> n \<le> now) \<and>
     (\<forall>s \<in> set xs. \<exists>n. next_fire_at C s = Some n \<and> now < n)"
  by (induction ts arbitrary: xs) (auto split: option.splits if_splits)

lemma split_due_None:
  "split_due C now ts = Some None \<Longrightarrow> \<forall>s \<in> set ts. \<exists>n. next_fire_at C s = Some n \<and> now < n"
  by (induction ts) (auto split: option.splits if_splits)

lemma fire_view:
  assumes "fire_next_task C now ts = Some (ts', ns)" and "good_ids ts"
  shows "pager_run (view_of C ts) ns = view_of C ts'" and "length ts' \<le> length ts"
proof -
  consider "ts' = ts" "ns = []"
    | xs t ys n where "split_due C now ts = Some (Some (xs, t, ys))"
        "next_fire_at C (t\<lparr>last_fired_at := Some now\<rparr>) = Some n"
    using assms(1) by (auto simp: fire_next_task_def Let_def split: option.splits)
  then have "pager_run (view_of C ts) ns = view_of C ts' \<and> length ts' \<le> length ts"
  proof cases
    case 2
    let ?t = "t\<lparr>last_fired_at := Some now\<rparr>"
    have ts: "ts = xs @ t # ys" using split_due_Some [OF 2(1)] by simp
    have g: "good_ids (xs @ t # ys)" "good_ids (xs @ ?t # ys)"
      using assms(2) ts by (auto simp: good_ids_append good_ids_Cons)
    have v: "view_of C ts = (view_of C (xs @ ys))(task_id t \<mapsto> task_entry C t)"
      using ts view_of_middle [OF g(1)] by simp
    have v': "view_of C (xs @ ?t # ys) = (view_of C (xs @ ys))(task_id t \<mapsto> task_entry C ?t)"
      using view_of_middle [OF g(2), of C] by simp
    have e: "task_entry C ?t = (prompt t, interval_to_human (interval_secs t), Some (rfc3339 C n))"
      using 2(2) by (simp add: task_entry_def)
    note w = view_of_without [OF g(1), of C]
    show ?thesis
      using assms(1) 2 v v' e w ts
      by (auto simp: fire_next_task_def Let_def handle_scheduled_task_fired_def handle_scheduled_task_deleted_def
            task_entry_def split: if_splits)
  qed simp
  then show "pager_run (view_of C ts) ns = view_of C ts'" and "length ts' \<le> length ts" by simp_all
qed

lemma command_view:
  assumes "handle_command C cmd ts = Some (ts', ns, r)" and "good_ids ts'" and "length ts \<le> MAX_SCHEDULED_TASKS"
  shows "pager_run (view_of C ts) ns = view_of C ts' \<and> length ts' \<le> MAX_SCHEDULED_TASKS"
proof (cases cmd)
  case (Create t)
  with assms show ?thesis by (auto simp: handle_command_def created_entry split: if_splits)
next
  case (Delete i)
  let ?ts = "filter (\<lambda>t. task_id t \<noteq> i) ts"
  have ts': "ts' = ?ts" and ns: "ns = (if length ts \<noteq> length ?ts then [TaskRemoved i] else [])"
    using assms(1) Delete by (auto simp: handle_command_def Let_def)
  have "length ts' \<le> MAX_SCHEDULED_TASKS"
    unfolding ts' using assms(3) length_filter_le le_trans by blast
  moreover have "pager_run (view_of C ts) ns = view_of C ts'"
  proof (cases "length ts = length ?ts")
    case True
    then have "?ts = ts" by (metis filter_True length_filter_less less_irrefl)
    with True ns ts' show ?thesis by simp
  next
    case False
    with ns ts' show ?thesis by (simp add: handle_scheduled_task_deleted_def view_of_filter)
  qed
  ultimately show ?thesis by simp
next
  case ListTasks
  with assms show ?thesis by (simp add: handle_command_def)
qed

lemma pager_run_removed:
  "pager_run p (map (\<lambda>t. TaskRemoved (task_id t)) ts) = (\<lambda>k. if k \<in> task_id ` set ts then None else p k)"
  by (induction ts arbitrary: p) (auto simp: handle_scheduled_task_deleted_def fun_eq_iff)

lemma shutdown_view: "pager_run (view_of C ts) (map (\<lambda>t. TaskRemoved (task_id t)) ts) = Map.empty"
  unfolding pager_run_removed using view_of_None [of C ts] by (auto simp: fun_eq_iff)

lemma synced_step:
  assumes "unique_step C a b" and "synced C a"
  shows "synced C b"
proof -
  have good: "good_ids (tasks b)" and step: "actor_step C a b" using assms(1) by (auto simp: unique_step_def)
  from step show ?thesis
  proof (cases rule: actor_step.cases)
    case (step_start now)
    then obtain ts ns ms where
      m: "handle_missed_tasks C now (tasks a) = Some (ts, ns)" and an: "announce_existing_tasks C ts = Some ms"
      and b: "b = a\<lparr>phase := Running, tasks := ts, log := log a @ ns @ ms\<rparr>"
      by (auto simp: actor_start_def split: option.splits prod.splits)
    show ?thesis
      using assms(2) good step_start b missed_view [OF m] announce_view [OF an, of "[]"]
      by (auto simp: synced_def)
  next
    case (step_command cmd ts ns r)
    then show ?thesis using assms(2) good command_view [OF step_command(3)] by (auto simp: synced_def)
  next
    case (step_timer now ts ns)
    then show ?thesis using assms(2) good fire_view [OF step_timer(3)] by (auto simp: synced_def)
  next
    case step_cancel
    then show ?thesis using assms(2) shutdown_view by (auto simp: synced_def actor_shutdown_def)
  qed
qed

interpretation av: step_invariant fresh_actor "unique_step C" "synced C" for C
  by unfold_locales (simp add: fresh_actor_def synced_def, rule synced_step)

section \<open>Examples\<close>

text \<open>
  A concrete calendar: durations limited to \<^verbatim>\<open>i64::MAX\<close> milliseconds as \<^verbatim>\<open>chrono\<close> documents, instants
  without bound and printed as their number of nanoseconds.
\<close>

definition plain_chrono :: chrono where
  "plain_chrono =
     \<lparr>seconds = (\<lambda>n. if \<bar>n\<bar> \<le> 9223372036854775 then Some (n * 1000000000) else None),
      time_add = (\<lambda>t d. Some (t + d)), rfc3339 = (\<lambda>t. show_nat (nat t))\<rparr>"

definition demo_task :: "string \<Rightarrow> bool \<Rightarrow> int option \<Rightarrow> scheduled_task" where
  "demo_task i recur expiry =
     \<lparr>task_id = u i, interval_secs = 60, prompt = u ''check'', recurring = recur, durable = False,
      created_at = 0, last_fired_at = None, expires_at = expiry\<rparr>"

abbreviation "demo_actor \<equiv> \<lparr>phase = Starting, tasks = [demo_task ''a'' False None, demo_task ''b'' True None], log = []\<rparr>"

abbreviation "demo_started \<equiv> the (actor_start plain_chrono 100000000000 demo_actor)"

abbreviation "demo_stopped \<equiv> actor_shutdown demo_started"

lemmas demo_defs = demo_task_def plain_chrono_def next_fire_at_def as_i64_def is_missed_def
  task_created_payload_def is_expired_def

lemma demo_start:
  "actor_start plain_chrono 100000000000 demo_actor = Some demo_started"
  "tasks demo_started = [demo_task ''b'' True None]" "phase demo_started = Running"
  by (simp_all add: actor_start_def handle_missed_tasks_def announce_existing_tasks_def demo_defs Let_def)

lemma demo_good: "good_ids [demo_task ''a'' False None, demo_task ''b'' True None]" "good_ids [demo_task ''b'' True None]"
  by (simp_all add: good_ids_def demo_task_def provisional_def str_simps)

lemma demo_run: "rtranclp (unique_step plain_chrono) demo_actor demo_stopped"
proof -
  have "unique_step plain_chrono demo_actor demo_started"
    using demo_start demo_good by (auto simp: unique_step_def intro: step_start)
  moreover have "unique_step plain_chrono demo_started demo_stopped"
    using step_cancel [OF demo_start(3), of plain_chrono] by (simp add: unique_step_def)
      (simp add: actor_shutdown_def)
  ultimately show ?thesis by (simp add: converse_rtranclp_into_rtranclp)
qed

section \<open>Properties\<close>

text \<open>
  C22. As long as task identifiers are pairwise different and none looks provisional, the pager's list
  of scheduled tasks, rebuilt from nothing but the notifications, always agrees with the scheduler:
  the same tasks with their prompt, schedule and next fire time, through the start after a restore,
  creations, deletions, timer expiries and the final shutdown (which empties it); and there are never
  more than fifty.
\<close>

theorem pager_view_agrees:
  assumes "fresh_actor a" and "rtranclp (unique_step C) a b" and "phase b \<noteq> Starting"
  shows "pager_run Map.empty (log b) = view_of C (tasks b) \<and> length (tasks b) \<le> 50 \<and>
     (phase b = Stopped \<longrightarrow> pager_run Map.empty (log b) = Map.empty)"
  using av.reachable_inv [OF assms(1,2)] assms(3)
  by (cases "phase b") (auto simp: synced_def MAX_SCHEDULED_TASKS_def)

theorem pager_view_agrees_witness:
  "pager_run Map.empty (log demo_stopped) = Map.empty \<and> length (tasks demo_stopped) \<le> 50"
  using pager_view_agrees [of demo_actor plain_chrono demo_stopped] demo_run demo_good
  by (auto simp: fresh_actor_def actor_shutdown_def MAX_SCHEDULED_TASKS_def)

end
