(* ===== verification/Scheduler_Timing.thy ===== *)
theory Scheduler_Timing
  imports Scheduler_View
begin

text \<open>
  Intervals and timing of the scheduler: which interval strings are accepted, which task a timer
  expiry fires, and the inputs on which the scheduler goes wrong.
\<close>

text \<open>What \<^verbatim>\<open>chrono\<close> documents of the operations used, when they do not panic.\<close>

definition chrono_law :: "chrono \<Rightarrow> bool" where
  "chrono_law C \<longleftrightarrow>
     (\<forall>n d. seconds C n = Some d \<longrightarrow> d = n * 1000000000) \<and>
     (\<forall>t d e. time_add C t d = Some e \<longrightarrow> e = t + d)"

definition due :: "chrono \<Rightarrow> int \<Rightarrow> scheduled_task \<Rightarrow> bool" where
  "due C now t \<longleftrightarrow> (\<exists>n. next_fire_at C t = Some n \<and> n \<le> now)"

definition no_panic :: "chrono \<Rightarrow> int \<Rightarrow> scheduled_task \<Rightarrow> bool" where
  "no_panic C now t \<longleftrightarrow>
     next_fire_at C t \<noteq> None \<and> next_fire_at C (t\<lparr>last_fired_at := Some now\<rparr>) \<noteq> None"

section \<open>Interval strings\<close>

lemma unit_secs_cases:
  "unit_secs c = Some n \<Longrightarrow> (c, n) \<in> {(115, 1), (109, 60), (104, 3600), (100, 86400)}"
  by (auto simp: unit_secs_def split: if_splits)

lemma trim_show_nat: "\<not> is_whitespace c \<Longrightarrow> trim (show_nat n @ [c]) = show_nat n @ [c]"
proof -
  assume "\<not> is_whitespace c"
  moreover obtain d ds where "show_nat n = d # ds" and "d \<noteq> 43" and "d < 128"
    using show_nat_head by blast
  moreover have "is_ascii_digit d"
    using digits_value_show_nat [of n] \<open>show_nat n = d # ds\<close> by (simp split: if_splits)
  ultimately show ?thesis
    using trim_id [of d "ds @ [c]"] by (auto simp: is_whitespace_def is_ascii_digit_def)
qed

lemma parse_interval_shown:
  assumes "0 < v" and "unit_secs c = Some n" and "v * n \<le> u64_max"
  shows "parse_interval (show_nat v @ [c]) = Some (Inr (max (v * n) 60))"
proof -
  have c: "\<not> is_whitespace c" "c < 128" and "0 < n" using unit_secs_cases [OF assms(2)] by (auto simp: is_whitespace_def)
  have "v \<le> v * n" using \<open>0 < n\<close> by simp
  then have "parse_uint u64_max (show_nat v) = Some v" using assms(3) by (intro parse_uint_show_nat) linarith
  with assms c show ?thesis
    by (simp add: parse_interval_def trim_show_nat MINIMUM_INTERVAL_SECS_def not_le not_less)
qed

lemma interval_to_human_unit:
  "\<exists>n c noun m. unit_secs c = Some m \<and> secs = n * m \<and> interval_to_human secs = u ''every '' @ show_nat n @ [32, c] @ noun"
proof -
  have s: "u '' '' @ u noun @ t = [32, of_char (hd noun)] @ u (tl noun) @ t" if "noun \<noteq> []" for noun t
    using that by (cases noun) (simp_all add: str_simps)
  have e: "every n noun = u ''every '' @ show_nat n @ [32, of_char (hd noun)] @ (u (tl noun) @ (if n = 1 then [] else u ''s''))"
    if "noun \<noteq> []" for n noun
    unfolding every_def using s [OF that] by simp
  consider "secs mod 86400 = 0" | "secs mod 86400 \<noteq> 0" "secs mod 3600 = 0"
    | "secs mod 86400 \<noteq> 0" "secs mod 3600 \<noteq> 0" "secs mod 60 = 0"
    | "secs mod 86400 \<noteq> 0" "secs mod 3600 \<noteq> 0" "secs mod 60 \<noteq> 0" by blast
  then show ?thesis
  proof cases
    case 1
    then show ?thesis
      by (intro exI [of _ "secs div 86400"] exI [of _ 100]) (auto simp: interval_to_human_def e unit_secs_def)
  next
    case 2
    then show ?thesis
      by (intro exI [of _ "secs div 3600"] exI [of _ 104]) (auto simp: interval_to_human_def e unit_secs_def)
  next
    case 3
    then show ?thesis
      by (intro exI [of _ "secs div 60"] exI [of _ 109]) (auto simp: interval_to_human_def e unit_secs_def)
  next
    case 4
    then show ?thesis
      by (intro exI [of _ secs] exI [of _ 115]) (auto simp: interval_to_human_def e unit_secs_def)
  qed
qed

text \<open>
  C21. An accepted interval is at least a minute and fits 64 bits; the schedule shown for it,
  "every N unit", read back as N and the first letter of the unit, is the same interval; and the
  parser fails other than by an error (it panics) exactly on texts whose last visible character is
  not ASCII.
\<close>

theorem interval_roundtrip:
  assumes "parse_interval text = Some (Inr secs)"
  shows "60 \<le> secs \<and> secs \<le> u64_max \<and>
     (\<exists>n c noun. interval_to_human secs = u ''every '' @ show_nat n @ [32, c] @ noun \<and>
        parse_interval (show_nat n @ [c]) = Some (Inr secs)) \<and>
     (\<forall>s. parse_interval s = None \<longleftrightarrow> trim s \<noteq> [] \<and> 128 \<le> last (trim s))"
proof -
  have b: "60 \<le> secs \<and> secs \<le> u64_max"
    using assms
    by (auto simp: parse_interval_def Let_def MINIMUM_INTERVAL_SECS_def u64_max_def split: if_splits option.splits)
  obtain n c noun m where h: "unit_secs c = Some m" "secs = n * m"
    "interval_to_human secs = u ''every '' @ show_nat n @ [32, c] @ noun"
    using interval_to_human_unit by blast
  have "0 < n" using b h(2) by (cases n) auto
  then have "parse_interval (show_nat n @ [c]) = Some (Inr secs)"
    using parse_interval_shown [OF _ h(1), of n] b h(2) by (simp add: max_def)
  moreover have "parse_interval s = None \<longleftrightarrow> trim s \<noteq> [] \<and> 128 \<le> last (trim s)" for s
    by (simp add: parse_interval_def Let_def)
  ultimately show ?thesis using b h(3) by blast
qed

theorem interval_roundtrip_witness:
  "60 \<le> (7200 :: nat) \<and> (\<exists>n c noun. interval_to_human 7200 = u ''every '' @ show_nat n @ [32, c] @ noun \<and>
     parse_interval (show_nat n @ [c]) = Some (Inr 7200))"
proof -
  have "parse_interval (u ''120m'') = Some (Inr 7200)"
    by (simp add: parse_interval_def str_simps parse_uint_def u64_max_def is_ascii_digit_def unit_secs_def
        MINIMUM_INTERVAL_SECS_def)
  from interval_roundtrip [OF this] show ?thesis by simp
qed

section \<open>Timer expiries\<close>

lemma next_fire_at_fired:
  assumes "chrono_law C" and "interval_secs t < 2 ^ 63"
    and "next_fire_at C (t\<lparr>last_fired_at := Some now\<rparr>) = Some n"
  shows "n = now + int (interval_secs t) * 1000000000"
  using assms by (auto simp: chrono_law_def next_fire_at_def as_i64_def Let_def split: option.splits)

lemma split_due_exists:
  "\<forall>t \<in> set ts. next_fire_at C t \<noteq> None \<Longrightarrow> \<exists>t \<in> set ts. due C now t \<Longrightarrow>
     \<exists>xs t ys. split_due C now ts = Some (Some (xs, t, ys))"
proof (induction ts)
  case (Cons t ts)
  obtain n where n: "next_fire_at C t = Some n" using Cons.prems(1) by auto
  show ?case
  proof (cases "n \<le> now")
    case False
    then have "\<not> due C now t" using n by (simp add: due_def)
    then have "\<exists>xs t ys. split_due C now ts = Some (Some (xs, t, ys))" using Cons by simp
    with n False show ?thesis by auto
  qed (simp add: n)
qed simp

lemma split_due_none_due:
  "\<forall>t \<in> set ts. next_fire_at C t \<noteq> None \<and> \<not> due C now t \<Longrightarrow> split_due C now ts = Some None"
  by (induction ts) (auto simp: due_def)

lemma map_panic_eq: "\<forall>x \<in> set xs. f x \<noteq> None \<Longrightarrow> map_panic f xs = Some (map (\<lambda>x. the (f x)) xs)"
  by (induction xs) auto

lemma delay_eq:
  assumes "\<forall>t \<in> set ts. next_fire_at C t \<noteq> None"
  shows "compute_next_fire_delay C now ts =
     Some (if ts = [] then NoTask
           else (let next = Min ((\<lambda>t. the (next_fire_at C t)) ` set ts) in Delay (if next \<le> now then 0 else next - now)))"
  by (simp add: compute_next_fire_delay_def map_panic_eq [OF assms] Let_def)

lemma timer_zero:
  assumes "\<forall>t \<in> set ts. next_fire_at C t \<noteq> None"
  shows "compute_next_fire_delay C now ts = Some (Delay 0) \<longleftrightarrow> (\<exists>t \<in> set ts. due C now t)"
proof -
  have "due C now t \<longleftrightarrow> the (next_fire_at C t) \<le> now" if "t \<in> set ts" for t
    using assms that by (auto simp: due_def)
  then have "ts \<noteq> [] \<Longrightarrow> Min ((\<lambda>t. the (next_fire_at C t)) ` set ts) \<le> now \<longleftrightarrow> (\<exists>t \<in> set ts. due C now t)"
    by (subst Min_le_iff) auto
  then show ?thesis using delay_eq [OF assms] by (cases "ts = []") (auto simp: Let_def)
qed

lemma timer_wakes:
  assumes "\<forall>t \<in> set ts. next_fire_at C t \<noteq> None"
    and "compute_next_fire_delay C now ts = Some (Delay d)" and "0 < d"
  shows "(\<exists>t \<in> set ts. next_fire_at C t = Some (now + d)) \<and>
    (\<forall>t \<in> set ts. \<forall>n. next_fire_at C t = Some n \<longrightarrow> now + d \<le> n)"
proof -
  let ?ns = "(\<lambda>t. the (next_fire_at C t)) ` set ts"
  have "ts \<noteq> []" and d: "Min ?ns = now + d" using assms(2,3) delay_eq [OF assms(1)] by (auto simp: Let_def split: if_splits)
  then have "now + d \<in> ?ns" and le: "\<forall>x \<in> ?ns. now + d \<le> x" using Min_in [of ?ns] Min_le [of ?ns] by auto
  then obtain t where "t \<in> set ts" "next_fire_at C t = Some (now + d)" using assms(1) by auto
  with le show ?thesis by force
qed

text \<open>
  C23. A timer expiry. The timer is set to zero exactly when some task is due and otherwise to the time
  until the earliest fire time. Provided no date overflows and intervals are positive, an expiry with
  a due task announces the first due task of the list, with its next fire time one interval from now,
  and then announces its removal when it is a one-shot or expired; it leaves every other task as it
  was, and one task fewer is due, so that every due task is reached. With no due task nothing happens.
\<close>

theorem fire_next_task_correct:
  assumes "chrono_law C" and "\<forall>t \<in> set ts. no_panic C now t \<and> 0 < interval_secs t \<and> interval_secs t < 2 ^ 63"
  shows "(compute_next_fire_delay C now ts = Some (Delay 0) \<longleftrightarrow> (\<exists>t \<in> set ts. due C now t)) \<and>
    (\<forall>d. compute_next_fire_delay C now ts = Some (Delay d) \<and> 0 < d \<longrightarrow>
       (\<exists>t \<in> set ts. next_fire_at C t = Some (now + d)) \<and> (\<forall>t \<in> set ts. \<forall>n. next_fire_at C t = Some n \<longrightarrow> now + d \<le> n)) \<and>
    (if \<exists>t \<in> set ts. due C now t
     then \<exists>xs t ys kept ts'. ts = xs @ t # ys \<and> due C now t \<and> (\<forall>s \<in> set xs. \<not> due C now s) \<and>
        ts' = xs @ kept @ ys \<and>
        kept = (if recurring t \<and> \<not> is_expired t now then [t\<lparr>last_fired_at := Some now\<rparr>] else []) \<and>
        fire_next_task C now ts =
          Some (ts', TaskFired (task_id t) (prompt t) (interval_to_human (interval_secs t))
                       (Some (rfc3339 C (now + int (interval_secs t) * 1000000000))) #
                     (if kept = [] then [TaskRemoved (task_id t)] else [])) \<and>
        length (filter (due C now) ts') + 1 = length (filter (due C now) ts)
     else fire_next_task C now ts = Some (ts, []))"
  (is "?timer \<and> ?wake \<and> ?fire")
proof -
  have ok: "\<forall>t \<in> set ts. next_fire_at C t \<noteq> None" using assms(2) by (auto simp: no_panic_def)
  have ?timer using timer_zero [OF ok] .
  moreover have ?wake using timer_wakes [OF ok] by blast
  moreover have ?fire
  proof (cases "\<exists>t \<in> set ts. due C now t")
    case True
    then obtain xs t ys where sp: "split_due C now ts = Some (Some (xs, t, ys))"
      using split_due_exists [OF ok] by blast
    note sd = split_due_Some [OF sp]
    have t: "no_panic C now t" "interval_secs t < 2 ^ 63" "0 < interval_secs t" using assms(2) sd by auto
    then obtain n where n: "next_fire_at C (t\<lparr>last_fired_at := Some now\<rparr>) = Some n" by (auto simp: no_panic_def)
    have n': "n = now + int (interval_secs t) * 1000000000" using next_fire_at_fired [OF assms(1) t(2) n] .
    have "\<not> due C now (t\<lparr>last_fired_at := Some now\<rparr>)" using n n' t(3) by (simp add: due_def)
    moreover have "due C now t" "\<forall>s \<in> set xs. \<not> due C now s" using sd by (auto simp: due_def)
    moreover have "is_expired (t\<lparr>last_fired_at := Some now\<rparr>) now = is_expired t now" by (simp add: is_expired_def)
    ultimately show ?thesis
      using True sd sp n n'
      by (simp, intro exI [of _ xs] exI [of _ t] exI [of _ ys])
        (auto simp: fire_next_task_def Let_def)
  next
    case False
    then show ?thesis using split_due_none_due [of ts C now] ok by (auto simp: fire_next_task_def)
  qed
  ultimately show ?thesis by blast
qed

theorem fire_next_task_correct_witness:
  "compute_next_fire_delay plain_chrono 100000000000 [demo_task ''a'' False None] = Some (Delay 0) \<and>
   fire_next_task plain_chrono 100000000000 [demo_task ''a'' False None] =
     Some ([], [TaskFired (u ''a'') (u ''check'') (interval_to_human 60) (Some (show_nat 160000000000)),
                TaskRemoved (u ''a'')])"
proof -
  have "chrono_law plain_chrono" by (simp add: chrono_law_def plain_chrono_def)
  moreover have "\<forall>t \<in> set [demo_task ''a'' False None]. no_panic plain_chrono 100000000000 t \<and> 0 < interval_secs t \<and> interval_secs t < 2 ^ 63"
    by (simp add: no_panic_def demo_defs)
  ultimately show ?thesis
    using fire_next_task_correct [of plain_chrono "[demo_task ''a'' False None]" 100000000000]
    by (auto simp: due_def demo_defs Cons_eq_append_conv)
qed

section \<open>Inputs on which the scheduler goes wrong\<close>

text \<open>
  Four gaps. An interval ending in a character of several bytes panics the tool. A very long
  interval passes the parser and then panics the actor while it announces the task. Two tasks
  whose UUIDs were drawn within one millisecond get the same identifier, and deleting one deletes
  both. A recurring task past its expiry still fires once before it is removed.
\<close>

lemma scheduler_gaps:
  "parse_interval [53, 8364] = None \<and>
   (parse_interval (u ''9999999999999d'') = Some (Inr 863999999999913600) \<and>
    create_tool plain_chrono 0 (u ''0190abcd-1234-7aaa'') (u ''9999999999999d'') (u ''p'') True None False [] = None) \<and>
   (case create_tool plain_chrono 0 (u ''0190abcd-1234-7aaa'') (u ''1h'') (u ''p'') True None False [] of
      Some (ts, _, _) \<Rightarrow>
        (case create_tool plain_chrono 0 (u ''0190abcd-1234-7bbb'') (u ''2h'') (u ''q'') True None False ts of
           Some (ts', _, Inr (i, _, _)) \<Rightarrow>
             map prompt ts' = [u ''p'', u ''q''] \<and> (\<exists>ns msg. delete_tool plain_chrono i ts' = Some ([], ns, True, msg))
         | _ \<Rightarrow> False)
    | _ \<Rightarrow> False) \<and>
   (is_expired (demo_task ''a'' True (Some 1)) 100000000000 \<and>
    (\<exists>h next. fire_next_task plain_chrono 100000000000 [demo_task ''a'' True (Some 1)] =
       Some ([], [TaskFired (u ''a'') (u ''check'') h next, TaskRemoved (u ''a'')])))"
proof -
  note ev = parse_interval_def str_simps parse_uint_def u64_max_def is_ascii_digit_def unit_secs_def
    MINIMUM_INTERVAL_SECS_def create_tool_def with_fire_immediately_def handle_command_def id_of_uuid_def
    MAX_SCHEDULED_TASKS_def SEVEN_DAYS_def delete_tool_def
  have "parse_interval [53, 8364] = None" by (simp add: ev)
  moreover have "parse_interval (u ''9999999999999d'') = Some (Inr 863999999999913600)" by (simp add: ev)
  moreover have "create_tool plain_chrono 0 (u ''0190abcd-1234-7aaa'') (u ''9999999999999d'') (u ''p'') True None False [] = None"
    by (simp add: ev demo_defs)
  ultimately show ?thesis
    by (simp add: ev demo_defs fire_next_task_def)
qed

end
