(* ===== verification/Hunk_Diff.thy ===== *)
theory Hunk_Diff
  imports Utf8
begin

text \<open>
  Hunks of the hunk tracker (\<^verbatim>\<open>xai-hunk-tracker/src/types.rs\<close>, \<^verbatim>\<open>diff.rs\<close>): building them from a
  line diff, cutting them in and out of a text, matching them across edits, and their patch text.

  The line diff is the crate \<^verbatim>\<open>similar\<close>: the argument \<open>D\<close> gives for two texts the sequence of changes
  \<^verbatim>\<open>iter_all_changes\<close> yields, or \<open>None\<close> when the computation takes longer than the time limit.
  A hunk leaves out its creation time and its selection flag, which nothing here reads. The n-th
  UUID drawn is \<open>uuid n\<close>. Line numbers stay far below \<^verbatim>\<open>usize::MAX\<close>, so the saturating additions are
  plain ones.
\<close>

section \<open>Data\<close>

record hunk_line_info =
  old_start :: nat
  old_count :: nat
  new_start :: nat
  new_count :: nat

datatype hunk_source = AgentEdit nat | ExternalEditOnAgentFile | External

record hunk =
  h_id :: ustr
  h_path :: ustr
  h_lines :: hunk_line_info
  h_source :: hunk_source
  h_old :: "ustr option"
  h_new :: ustr
  h_patch :: "ustr option"

definition is_agent_edit :: "hunk_source \<Rightarrow> bool" where
  "is_agent_edit s = (case s of AgentEdit _ \<Rightarrow> True | _ \<Rightarrow> False)"

definition is_external :: "hunk_source \<Rightarrow> bool" where
  "is_external s = (case s of External \<Rightarrow> True | ExternalEditOnAgentFile \<Rightarrow> True | _ \<Rightarrow> False)"

definition is_agent_tracked :: "hunk_source \<Rightarrow> bool" where
  "is_agent_tracked s = (case s of AgentEdit _ \<Rightarrow> True | ExternalEditOnAgentFile \<Rightarrow> True | _ \<Rightarrow> False)"

definition prompt_index :: "hunk_source \<Rightarrow> nat option" where
  "prompt_index s = (case s of AgentEdit p \<Rightarrow> Some p | _ \<Rightarrow> None)"

text \<open>\<^verbatim>\<open>Hunk::file_created\<close> and \<^verbatim>\<open>Hunk::file_deleted\<close>, with the identifier drawn.\<close>

definition file_created :: "ustr \<Rightarrow> ustr \<Rightarrow> ustr \<Rightarrow> hunk_source \<Rightarrow> hunk" where
  "file_created i pth content src =
     \<lparr>h_id = i, h_path = pth,
      h_lines = \<lparr>old_start = 0, old_count = 0, new_start = 1, new_count = max (length (str_lines content)) 1\<rparr>,
      h_source = src, h_old = None, h_new = content, h_patch = None\<rparr>"

definition file_deleted :: "ustr \<Rightarrow> ustr \<Rightarrow> ustr \<Rightarrow> hunk_source \<Rightarrow> hunk" where
  "file_deleted i pth content src =
     \<lparr>h_id = i, h_path = pth,
      h_lines = \<lparr>old_start = 1, old_count = max (length (str_lines content)) 1, new_start = 0, new_count = 0\<rparr>,
      h_source = src, h_old = Some content, h_new = [], h_patch = None\<rparr>"

definition hunk_summary :: "hunk \<Rightarrow> ustr" where
  "hunk_summary h =
     u ''+'' @ show_nat (length (str_lines (h_new h))) @ u ''/-'' @
     show_nat (case h_old h of Some t \<Rightarrow> length (str_lines t) | None \<Rightarrow> 0)"

section \<open>Building hunks\<close>

datatype change = Equal ustr | DeleteLine ustr | InsertLine ustr

type_synonym differ = "ustr \<Rightarrow> ustr \<Rightarrow> change list option"

definition MAX_DIFF_FILE_SIZE :: nat where "MAX_DIFF_FILE_SIZE = 1024 * 1024"

definition CONTEXT_LINES :: nat where "CONTEXT_LINES = 3"

record hunk_builder =
  b_old_start :: nat
  b_new_start :: nat
  b_old_lines :: "ustr list"
  b_new_lines :: "ustr list"

definition builder_new :: "nat \<Rightarrow> nat \<Rightarrow> hunk_builder" where
  "builder_new ol nl = \<lparr>b_old_start = ol, b_new_start = nl, b_old_lines = [], b_new_lines = []\<rparr>"

definition add_old_line :: "ustr \<Rightarrow> hunk_builder \<Rightarrow> hunk_builder" where
  "add_old_line l b = b\<lparr>b_old_lines := b_old_lines b @ [l]\<rparr>"

definition add_new_line :: "ustr \<Rightarrow> hunk_builder \<Rightarrow> hunk_builder" where
  "add_new_line l b = b\<lparr>b_new_lines := b_new_lines b @ [l]\<rparr>"

definition build :: "ustr \<Rightarrow> hunk_source \<Rightarrow> ustr \<Rightarrow> hunk_builder \<Rightarrow> hunk" where
  "build pth src i b =
     \<lparr>h_id = i, h_path = pth,
      h_lines = \<lparr>old_start = b_old_start b, old_count = length (b_old_lines b),
                 new_start = b_new_start b, new_count = length (b_new_lines b)\<rparr>,
      h_source = src,
      h_old = (if b_old_lines b = [] then None else Some (concat (b_old_lines b))),
      h_new = concat (b_new_lines b), h_patch = None\<rparr>"

text \<open>The loop over the changes: finished builders in order; \<open>cur\<close> is the hunk in progress.\<close>

fun scan_changes :: "change list \<Rightarrow> nat \<Rightarrow> nat \<Rightarrow> hunk_builder option \<Rightarrow> hunk_builder list" where
  "scan_changes [] old_line new_line cur = (case cur of None \<Rightarrow> [] | Some b \<Rightarrow> [b])"
| "scan_changes (Equal l # cs) old_line new_line cur =
     (case cur of None \<Rightarrow> [] | Some b \<Rightarrow> [b]) @ scan_changes cs (old_line + 1) (new_line + 1) None"
| "scan_changes (DeleteLine l # cs) old_line new_line cur =
     (let b = (case cur of Some b \<Rightarrow> b | None \<Rightarrow> builder_new old_line new_line) in
      scan_changes cs (old_line + 1) new_line (Some (add_old_line l b)))"
| "scan_changes (InsertLine l # cs) old_line new_line cur =
     (let b = (case cur of Some b \<Rightarrow> b | None \<Rightarrow> builder_new old_line new_line) in
      scan_changes cs old_line (new_line + 1) (Some (add_new_line l b)))"

text \<open>Identifiers are drawn in the order the hunks are finished, from the \<open>n\<close>-th on.\<close>

definition build_all :: "(nat \<Rightarrow> ustr) \<Rightarrow> nat \<Rightarrow> ustr \<Rightarrow> hunk_source \<Rightarrow> hunk_builder list \<Rightarrow> hunk list" where
  "build_all uuid n pth src bs = map (\<lambda>(k, b). build pth src (uuid (n + k)) b) (enumerate 0 bs)"

definition compute_hunks ::
    "differ \<Rightarrow> (nat \<Rightarrow> ustr) \<Rightarrow> nat \<Rightarrow> ustr \<Rightarrow> ustr \<Rightarrow> ustr \<Rightarrow> hunk_source \<Rightarrow> hunk list" where
  "compute_hunks D uuid n pth base cur src =
     (if base = cur then []
      else if MAX_DIFF_FILE_SIZE < length (as_bytes base) \<or> MAX_DIFF_FILE_SIZE < length (as_bytes cur) then []
      else (case D base cur of
              None \<Rightarrow> []
            | Some cs \<Rightarrow> build_all uuid n pth src (scan_changes cs 1 1 None)))"

section \<open>Cutting a hunk in or out\<close>

definition patch_lines :: "ustr \<Rightarrow> nat \<Rightarrow> nat \<Rightarrow> ustr \<Rightarrow> ustr" where
  "patch_lines content start_line remove_count insert_text =
     (let ls = str_lines content;
          start_idx = start_line - 1;
          out = join [10] (take start_idx ls @ (if insert_text = [] then [] else str_lines insert_text) @
                           drop (start_idx + remove_count) ls) in
      if ends_with [10] content \<and> out \<noteq> [] then out @ [10] else out)"

text \<open>
  The loops of \<^verbatim>\<open>accept_hunks_batch\<close> and \<^verbatim>\<open>reject_hunks_batch\<close> (\<^verbatim>\<open>actor/actions.rs\<close>): the hunks are
  sorted by descending position (a stable sort) and cut into the baseline, or out of the current text.
\<close>

definition patch_in :: "hunk list \<Rightarrow> ustr \<Rightarrow> ustr" where
  "patch_in hs base =
     foldl (\<lambda>t h. patch_lines t (old_start (h_lines h)) (old_count (h_lines h)) (h_new h)) base
       (sort_key (\<lambda>h. - int (old_start (h_lines h))) hs)"

definition patch_out :: "hunk list \<Rightarrow> ustr \<Rightarrow> ustr" where
  "patch_out hs cur =
     foldl (\<lambda>t h. patch_lines t (new_start (h_lines h)) (new_count (h_lines h)) (case h_old h of Some x \<Rightarrow> x | None \<Rightarrow> [])) cur
       (sort_key (\<lambda>h. - int (new_start (h_lines h))) hs)"

section \<open>Matching hunks\<close>

definition hunks_match_content :: "hunk \<Rightarrow> hunk \<Rightarrow> bool" where
  "hunks_match_content a b \<longleftrightarrow> h_path a = h_path b \<and> h_old a = h_old b \<and> h_new a = h_new b"

definition hunk_moved :: "hunk \<Rightarrow> hunk \<Rightarrow> bool" where
  "hunk_moved a b \<longleftrightarrow> hunks_match_content a b \<and> h_lines a \<noteq> h_lines b"

definition hunks_overlap :: "hunk \<Rightarrow> hunk \<Rightarrow> bool" where
  "hunks_overlap a b \<longleftrightarrow>
     (if h_path a \<noteq> h_path b then False
      else (let a_start = old_start (h_lines a); a_end = a_start + old_count (h_lines a);
                b_start = old_start (h_lines b); b_end = b_start + old_count (h_lines b) in
            if old_count (h_lines a) = 0 \<and> old_count (h_lines b) = 0 then a_start = b_start
            else if old_count (h_lines a) = 0 then b_start \<le> a_start \<and> a_start \<le> b_end
            else if old_count (h_lines b) = 0 then a_start \<le> b_start \<and> b_start \<le> a_end
            else \<not> (a_end < b_start \<or> b_end < a_start)))"

definition calculate_overlap_size :: "hunk_line_info \<Rightarrow> hunk_line_info \<Rightarrow> nat" where
  "calculate_overlap_size a b =
     min (old_start a + old_count a) (old_start b + old_count b) - max (old_start a) (old_start b)"

definition abs_diff :: "nat \<Rightarrow> nat \<Rightarrow> nat" where
  "abs_diff a b = (if a < b then b - a else a - b)"

text \<open>\<^verbatim>\<open>Iterator::min_by_key\<close> returns the first minimum, \<^verbatim>\<open>max_by_key\<close> the last maximum.\<close>

fun min_by_key :: "('a \<Rightarrow> nat) \<Rightarrow> 'a list \<Rightarrow> 'a option" where
  "min_by_key f [] = None"
| "min_by_key f (x # xs) =
     (case min_by_key f xs of None \<Rightarrow> Some x | Some y \<Rightarrow> Some (if f x \<le> f y then x else y))"

fun max_by_key :: "('a \<Rightarrow> nat) \<Rightarrow> 'a list \<Rightarrow> 'a option" where
  "max_by_key f [] = None"
| "max_by_key f (x # xs) =
     (case max_by_key f xs of None \<Rightarrow> Some x | Some y \<Rightarrow> Some (if f y < f x then x else y))"

definition find_matching_old_hunk :: "hunk \<Rightarrow> hunk list \<Rightarrow> hunk option" where
  "find_matching_old_hunk new olds =
     (let content_matches = filter (\<lambda>h. hunks_match_content h new) olds in
      if content_matches \<noteq> []
      then min_by_key (\<lambda>h. abs_diff (new_start (h_lines h)) (new_start (h_lines new))) content_matches
      else max_by_key (\<lambda>h. calculate_overlap_size (h_lines h) (h_lines new))
             (filter (\<lambda>h. hunks_overlap h new) olds))"

definition find_overlapping_hunks :: "hunk \<Rightarrow> hunk list \<Rightarrow> hunk list" where
  "find_overlapping_hunks new olds = filter (\<lambda>h. hunks_overlap h new) olds"

section \<open>Patch text\<close>

definition prefixed :: "string \<Rightarrow> ustr list \<Rightarrow> ustr" where
  "prefixed mark ls = concat (map (\<lambda>l. u mark @ l @ [10]) ls)"

definition slice :: "nat \<Rightarrow> nat \<Rightarrow> 'a list \<Rightarrow> 'a list" where
  "slice a b xs = take (b - a) (drop a xs)"

definition hunk_header :: "nat \<Rightarrow> nat \<Rightarrow> nat \<Rightarrow> nat \<Rightarrow> ustr" where
  "hunk_header a b c d =
     u ''@@ -'' @ show_nat a @ u '','' @ show_nat b @ u '' +'' @ show_nat c @ u '','' @ show_nat d @ u '' @@''"

text \<open>\<open>None\<close> when one of the unsigned subtractions of the context sizes underflows.\<close>

definition generate_hunk_patch :: "ustr \<Rightarrow> ustr \<Rightarrow> hunk \<Rightarrow> ustr option" where
  "generate_hunk_patch base cur h =
     (let olds = str_lines base; news = str_lines cur; li = h_lines h;
          old_start_idx = old_start li - 1;
          new_start_idx = new_start li - 1;
          before_start = old_start_idx - CONTEXT_LINES;
          before_end = old_start_idx;
          end_new = new_start_idx + new_count li;
          after_end = min (end_new + CONTEXT_LINES) (length news);
          end_old = old_start_idx + old_count li;
          after_end_old = min (end_old + CONTEXT_LINES) (length olds) in
      if after_end_old < end_old \<or> after_end < end_new then None
      else Some
        (hunk_header (before_start + 1) ((before_end - before_start) + old_count li + (after_end_old - end_old))
           (before_start + 1) ((before_end - before_start) + new_count li + (after_end - end_new)) @ [10] @
         prefixed '' '' (slice before_start before_end olds) @
         (case h_old h of Some t \<Rightarrow> prefixed ''-'' (str_lines t) | None \<Rightarrow> []) @
         prefixed ''+'' (str_lines (h_new h)) @
         prefixed '' '' (slice end_new after_end news)))"

definition format_unified_diff :: "hunk \<Rightarrow> ustr" where
  "format_unified_diff h =
     u ''--- a/'' @ h_path h @ [10] @ u ''+++ b/'' @ h_path h @ [10] @
     hunk_header (old_start (h_lines h)) (old_count (h_lines h)) (new_start (h_lines h)) (new_count (h_lines h)) @ [10] @
     (case h_old h of Some t \<Rightarrow> prefixed ''-'' (str_lines t) | None \<Rightarrow> []) @
     prefixed ''+'' (str_lines (h_new h))"

end
