(* ===== verification/Hunk_State.thy ===== *)
theory Hunk_State
  imports Hunk_Diff "HOL-Library.AList"
begin

text \<open>
  The state of the hunk tracker (\<^verbatim>\<open>xai-hunk-tracker/src/actor/\<close>): classification of file contents
  (\<^verbatim>\<open>file_utils.rs\<close>, \<^verbatim>\<open>state.rs\<close>), recomputing the hunks of a file (\<^verbatim>\<open>hunks.rs\<close>) and the handlers of
  agent writes, file changes and git changes (\<^verbatim>\<open>mutations.rs\<close>, \<^verbatim>\<open>git.rs\<close>).

  Hash maps are association lists, whose order stands for the iteration order. The libraries are the
  record \<open>libs\<close>: the line diff and the UUIDs in the order drawn. What the outside world answers during
  one command is the record \<open>world\<close>: the HEAD commit, the result of a git status scan, the state of
  HEAD and index used to skip refreshes, and which files can be written. The disk is part of the
  state, since rejecting a hunk writes files; other programs may change it between commands. Paths
  are absolute and normalised.
\<close>

section \<open>File contents\<close>

datatype file_content_state =
    Missing
  | Binary "nat option"
  | TooLarge nat
  | LfsPointer nat
  | Symlink
  | Full ustr

definition MAX_TRACKED_TEXT_BYTES :: nat where "MAX_TRACKED_TEXT_BYTES = 1024 * 1024"

definition as_str :: "file_content_state \<Rightarrow> ustr option" where
  "as_str c = (case c of Full s \<Rightarrow> Some s | _ \<Rightarrow> None)"

definition is_diffable :: "file_content_state \<Rightarrow> bool" where
  "is_diffable c = (case c of Full _ \<Rightarrow> True | _ \<Rightarrow> False)"

definition LFS_POINTER_PREFIX :: bytes where
  "LFS_POINTER_PREFIX = u ''version https://git-lfs.github.com/spec/v1'' @ [10]"

definition is_lfs_pointer :: "bytes \<Rightarrow> bool" where
  "is_lfs_pointer bs \<longleftrightarrow> length bs < 1024 \<and> starts_with LFS_POINTER_PREFIX bs"

definition is_binary :: "bytes \<Rightarrow> bool" where
  "is_binary bs \<longleftrightarrow> 0 \<in> set (take 8000 bs)"

text \<open>\<^verbatim>\<open>String::from_utf8\<close>: decoding loses nothing exactly on well-formed bytes.\<close>

definition from_utf8 :: "bytes \<Rightarrow> ustr option" where
  "from_utf8 bs = (let s = from_utf8_lossy bs in if as_bytes s = bs then Some s else None)"

definition classify_bytes :: "bytes \<Rightarrow> file_content_state" where
  "classify_bytes bs =
     (if MAX_TRACKED_TEXT_BYTES < length bs then TooLarge (length bs)
      else if is_lfs_pointer bs then LfsPointer (length bs)
      else if is_binary bs then Binary (Some (length bs))
      else (case from_utf8 bs of Some s \<Rightarrow> Full s | None \<Rightarrow> Binary (Some (length bs))))"

definition classify_string :: "ustr \<Rightarrow> file_content_state" where
  "classify_string s =
     (let bs = as_bytes s in
      if MAX_TRACKED_TEXT_BYTES < length bs then TooLarge (length bs)
      else if is_lfs_pointer bs then LfsPointer (length bs)
      else if is_binary bs then Binary (Some (length bs))
      else Full s)"

datatype link_target = Dangling | ToFile | ToDir

datatype node = NoFile | Link link_target | Dir | File bytes

text \<open>Reading without I/O errors or short reads: the prefix tests and the full read see the same bytes.\<close>

definition read_file_bounded :: "node \<Rightarrow> file_content_state" where
  "read_file_bounded nd =
     (case nd of
        NoFile \<Rightarrow> Missing
      | Link _ \<Rightarrow> Symlink
      | Dir \<Rightarrow> Missing
      | File bs \<Rightarrow>
          if MAX_TRACKED_TEXT_BYTES < length bs then TooLarge (length bs)
          else (let prefix = take 8000 bs in
                if is_lfs_pointer prefix then LfsPointer (length bs)
                else if is_binary prefix then Binary (Some (length bs))
                else (case from_utf8 bs of Some s \<Rightarrow> Full s | None \<Rightarrow> Binary (Some (length bs)))))"

definition path_exists :: "node \<Rightarrow> bool" where
  "path_exists nd = (case nd of NoFile \<Rightarrow> False | Link t \<Rightarrow> t \<noteq> Dangling | _ \<Rightarrow> True)"

definition path_is_dir :: "node \<Rightarrow> bool" where
  "path_is_dir nd = (nd = Dir \<or> nd = Link ToDir)"

section \<open>The tracker\<close>

record file_hunk_state =
  baseline :: file_content_state
  current_content :: file_content_state
  hunks :: "hunk list"
  is_agent_file :: bool
  baseline_accepted :: bool

datatype removal_reason = Accepted | Rejected | Superseded

datatype hunk_event =
    HunkAdded ustr hunk
  | HunkRemoved ustr ustr removal_reason
  | HunkMoved ustr ustr hunk_line_info
  | HunkContentChanged ustr hunk hunk_source nat nat
  | FileAdded ustr bool
  | FileRemoved ustr
  | BaselineUpdated ustr

datatype tracking_mode = AgentOnly | AllDirty

record session_stats =
  accepted_hunks :: nat
  rejected_hunks :: nat
  accepted_lines_added :: nat
  accepted_lines_removed :: nat
  rejected_lines_added :: nat
  rejected_lines_removed :: nat

definition no_stats :: session_stats where
  "no_stats = \<lparr>accepted_hunks = 0, rejected_hunks = 0, accepted_lines_added = 0, accepted_lines_removed = 0,
     rejected_lines_added = 0, rejected_lines_removed = 0\<rparr>"

type_synonym sync_state = "ustr option \<times> int option"

record tracker =
  working_dir :: ustr
  file_states :: "(ustr \<times> file_hunk_state) list"
  turn_index :: "nat \<Rightarrow> ustr list"
  git_dirty_cache :: "ustr set"
  git_staged_cache :: "ustr set"
  repo_sync_state :: sync_state
  mode :: tracking_mode
  stats :: session_stats
  events :: "hunk_event list"
  disk :: "ustr \<Rightarrow> node"
  drawn :: nat

record libs =
  l_diff :: differ
  l_uuid :: "nat \<Rightarrow> ustr"

datatype git_entry = NoEntry | LinkEntry | Blob bytes

record world =
  w_repo :: bool
  w_head :: "ustr \<Rightarrow> git_entry"
  w_status :: "ustr list option \<Rightarrow> ustr list \<times> ustr list"
  w_sync :: "sync_state option"
  w_writable :: "ustr \<Rightarrow> bool"

definition tracker_new :: "ustr \<Rightarrow> tracking_mode \<Rightarrow> (ustr \<Rightarrow> node) \<Rightarrow> tracker" where
  "tracker_new wd m d =
     \<lparr>working_dir = wd, file_states = [], turn_index = (\<lambda>_. []), git_dirty_cache = {}, git_staged_cache = {},
      repo_sync_state = (None, None), mode = m, stats = no_stats, events = [], disk = d, drawn = 0\<rparr>"

definition state_of :: "tracker \<Rightarrow> ustr \<Rightarrow> file_hunk_state option" where
  "state_of T pth = map_of (file_states T) pth"

definition put_state :: "ustr \<Rightarrow> file_hunk_state \<Rightarrow> tracker \<Rightarrow> tracker" where
  "put_state pth st T = T\<lparr>file_states := AList.update pth st (file_states T)\<rparr>"

definition drop_state :: "ustr \<Rightarrow> tracker \<Rightarrow> tracker" where
  "drop_state pth T = T\<lparr>file_states := AList.delete pth (file_states T)\<rparr>"

definition send_events :: "hunk_event list \<Rightarrow> tracker \<Rightarrow> tracker" where
  "send_events es T = T\<lparr>events := events T @ es\<rparr>"

definition new_state :: "file_content_state \<Rightarrow> file_content_state \<Rightarrow> bool \<Rightarrow> file_hunk_state" where
  "new_state base cur agent =
     \<lparr>baseline = base, current_content = cur, hunks = [], is_agent_file = agent, baseline_accepted = False\<rparr>"

text \<open>\<^verbatim>\<open>path.strip_prefix(&self.working_dir)\<close>.\<close>

definition relative_path :: "ustr \<Rightarrow> ustr \<Rightarrow> ustr option" where
  "relative_path wd pth = strip_prefix (wd @ [47]) pth"

definition in_dirty_cache :: "tracker \<Rightarrow> ustr \<Rightarrow> bool" where
  "in_dirty_cache T pth \<longleftrightarrow>
     (case relative_path (working_dir T) pth of Some r \<Rightarrow> r | None \<Rightarrow> pth) \<in> git_dirty_cache T"

definition read_baseline :: "world \<Rightarrow> ustr \<Rightarrow> file_content_state" where
  "read_baseline W pth =
     (if \<not> w_repo W then Missing
      else (case w_head W pth of NoEntry \<Rightarrow> Missing | LinkEntry \<Rightarrow> Symlink | Blob bs \<Rightarrow> classify_bytes bs))"

section \<open>Recomputing hunks\<close>

definition diff_states ::
    "libs \<Rightarrow> nat \<Rightarrow> ustr \<Rightarrow> file_content_state \<Rightarrow> file_content_state \<Rightarrow> hunk_source \<Rightarrow> hunk list" where
  "diff_states L n pth base cur src =
     (case (base, cur) of
        (Full b, Full c) \<Rightarrow> compute_hunks (l_diff L) (l_uuid L) n pth b c src
      | (Full b, Missing) \<Rightarrow> if b = [] then [] else [file_deleted (l_uuid L n) pth b src]
      | (Missing, Full c) \<Rightarrow> if c = [] then [] else [file_created (l_uuid L n) pth c src]
      | _ \<Rightarrow> [])"

fun preserve_ids :: "hunk list \<Rightarrow> ustr list \<Rightarrow> hunk list \<Rightarrow> hunk list" where
  "preserve_ids olds claimed [] = []"
| "preserve_ids olds claimed (n # ns) =
     (case find_matching_old_hunk n olds of
        None \<Rightarrow> n # preserve_ids olds claimed ns
      | Some best \<Rightarrow>
          if h_id best \<in> set claimed then n # preserve_ids olds claimed ns
          else n\<lparr>h_id := h_id best,
                 h_source := (if is_external (h_source n) \<and> is_agent_edit (h_source best)
                              then h_source best else h_source n)\<rparr> #
               preserve_ids olds (h_id best # claimed) ns)"

definition index_remove :: "hunk \<Rightarrow> (nat \<Rightarrow> ustr list) \<Rightarrow> nat \<Rightarrow> ustr list" where
  "index_remove h ti =
     (case prompt_index (h_source h) of None \<Rightarrow> ti | Some p \<Rightarrow> ti(p := removeAll (h_id h) (ti p)))"

definition index_add :: "hunk \<Rightarrow> (nat \<Rightarrow> ustr list) \<Rightarrow> nat \<Rightarrow> ustr list" where
  "index_add h ti =
     (case prompt_index (h_source h) of
        None \<Rightarrow> ti
      | Some p \<Rightarrow> ti(p := (if h_id h \<in> set (ti p) then ti p else ti p @ [h_id h])))"

definition removed_events :: "ustr \<Rightarrow> hunk list \<Rightarrow> hunk list \<Rightarrow> hunk_event list" where
  "removed_events pth olds news =
     map (\<lambda>h. HunkRemoved pth (h_id h) Superseded)
       (filter (\<lambda>h. \<not> list_ex (\<lambda>n. hunks_overlap h n \<or> hunks_match_content h n) news) olds)"

definition new_hunk_events :: "ustr \<Rightarrow> hunk list \<Rightarrow> hunk_source \<Rightarrow> hunk \<Rightarrow> hunk_event list" where
  "new_hunk_events pth olds trigger n =
     (case List.find (\<lambda>h. hunks_match_content h n) olds of
        Some h \<Rightarrow> if hunk_moved h n then [HunkMoved pth (h_id h) (h_lines n)] else []
      | None \<Rightarrow>
          if \<not> list_ex (\<lambda>h. hunks_overlap h n) olds then [HunkAdded pth n]
          else (let prev = (case List.find (\<lambda>h. h_id h = h_id n) olds of
                              Some h \<Rightarrow> Some h | None \<Rightarrow> List.find (\<lambda>h. hunks_overlap h n) olds);
                    (added, removed) = (case prev of Some h \<Rightarrow> (new_count (h_lines h), old_count (h_lines h)) | None \<Rightarrow> (0, 0)) in
                [HunkContentChanged pth n trigger added removed]))"

definition emit_hunk_diff_events :: "ustr \<Rightarrow> hunk list \<Rightarrow> hunk list \<Rightarrow> hunk_source \<Rightarrow> hunk_event list" where
  "emit_hunk_diff_events pth olds news trigger =
     removed_events pth olds news @ concat (map (new_hunk_events pth olds trigger) news)"

definition recompute_hunks ::
    "libs \<Rightarrow> ustr \<Rightarrow> file_content_state option \<Rightarrow> hunk_source \<Rightarrow> tracker \<Rightarrow> tracker" where
  "recompute_hunks L pth new_current src T =
     (case state_of T pth of
        None \<Rightarrow> T
      | Some st \<Rightarrow>
          (let olds = hunks st;
               cur = (case new_current of Some c \<Rightarrow> c | None \<Rightarrow> Missing);
               fresh = diff_states L (drawn T) pth (baseline st) cur src;
               news = preserve_ids olds [] fresh in
           send_events (emit_hunk_diff_events pth olds news src)
             ((put_state pth (st\<lparr>current_content := cur, hunks := news\<rparr>) T)
              \<lparr>turn_index := fold index_add news (fold index_remove olds (turn_index T)),
               drawn := drawn T + length fresh\<rparr>)))"

end
