(* ===== verification/Hunk_Mutations.thy ===== *)
theory Hunk_Mutations
  imports Hunk_State Rust_Path
begin

text \<open>
  The handlers of the hunk tracker that follow file and git changes
  (\<^verbatim>\<open>xai-hunk-tracker/src/actor/mutations.rs\<close> and \<^verbatim>\<open>refresh_git_dirty_cache\<close> of \<^verbatim>\<open>git.rs\<close>).
\<close>

definition strip_single_trailing_newline :: "ustr \<Rightarrow> ustr" where
  "strip_single_trailing_newline s =
     (case strip_suffix [13, 10] s of
        Some t \<Rightarrow> t
      | None \<Rightarrow> (case strip_suffix [10] s of Some t \<Rightarrow> t | None \<Rightarrow> s))"

definition record_agent_write ::
    "libs \<Rightarrow> world \<Rightarrow> ustr \<Rightarrow> ustr \<Rightarrow> nat \<Rightarrow> ustr option \<Rightarrow> tracker \<Rightarrow> tracker" where
  "record_agent_write L W pth content p previous T =
     (let cur = classify_string content in
      if \<not> is_diffable cur
      then (case state_of T pth of
              None \<Rightarrow>
                (let base = (case previous of Some prev \<Rightarrow> classify_string prev | None \<Rightarrow> read_baseline W pth) in
                 send_events [FileAdded pth True] (put_state pth (new_state base cur True) T))
            | Some st \<Rightarrow> put_state pth (st\<lparr>is_agent_file := True, current_content := cur, hunks := []\<rparr>) T)
      else
        (let T1 = (case state_of T pth of
                     None \<Rightarrow>
                       (let base = (case read_baseline W pth of
                                      Missing \<Rightarrow> (case previous of Some prev \<Rightarrow> classify_string prev | None \<Rightarrow> Missing)
                                    | other \<Rightarrow> other) in
                        send_events [FileAdded pth True] (put_state pth (new_state base cur True) T))
                   | Some st \<Rightarrow> put_state pth (st\<lparr>is_agent_file := True\<rparr>) T) in
         recompute_hunks L pth (Some cur) (AgentEdit p) T1))"

text \<open>A path without a baseline that git does not report as dirty is ignored by git.\<close>

definition git_ignored :: "tracker \<Rightarrow> ustr \<Rightarrow> file_content_state \<Rightarrow> bool" where
  "git_ignored T pth base \<longleftrightarrow>
     mode T = AllDirty \<and> base = Missing \<and> \<not> path_is_dir (disk T pth) \<and> \<not> in_dirty_cache T pth"

definition matches_head :: "tracker \<Rightarrow> ustr \<Rightarrow> file_content_state \<Rightarrow> file_content_state \<Rightarrow> bool" where
  "matches_head T pth cur head =
     (case (cur, head) of
        (Full c, Full h) \<Rightarrow> strip_single_trailing_newline c = strip_single_trailing_newline h
      | (Missing, Missing) \<Rightarrow> True
      | (Binary _, Binary _) \<Rightarrow> True
      | (TooLarge _, TooLarge _) \<Rightarrow> True
      | (LfsPointer _, LfsPointer _) \<Rightarrow> True
      | (Symlink, Symlink) \<Rightarrow> True
      | (Symlink, Full _) \<Rightarrow> \<not> in_dirty_cache T pth
      | (Full _, Symlink) \<Rightarrow> \<not> in_dirty_cache T pth
      | _ \<Rightarrow> False)"

definition external_source :: "tracker \<Rightarrow> ustr \<Rightarrow> hunk_source" where
  "external_source T pth =
     (case state_of T pth of
        Some st \<Rightarrow> if is_agent_file st then ExternalEditOnAgentFile else External
      | None \<Rightarrow> External)"

definition process_file_change ::
    "libs \<Rightarrow> world \<Rightarrow> ustr \<Rightarrow> file_content_state option \<Rightarrow> tracker \<Rightarrow> tracker" where
  "process_file_change L W pth preloaded T =
     (let cur = read_file_bounded (disk T pth);
          head = (case preloaded of Some b \<Rightarrow> b | None \<Rightarrow> read_baseline W pth) in
      case state_of T pth of
        None \<Rightarrow>
          if mode T = AgentOnly then T
          else if git_ignored T pth head then T
          else if \<not> is_diffable cur
          then (let T1 = send_events [FileAdded pth False] (put_state pth (new_state head cur False) T) in
                if is_diffable head then recompute_hunks L pth None External T1 else T1)
          else (let T1 = send_events [FileAdded pth False] (put_state pth (new_state head Missing False) T) in
                recompute_hunks L pth (Some cur) (external_source T1 pth) T1)
      | Some st \<Rightarrow>
          if baseline_accepted st \<and> matches_head T pth cur head
          then put_state pth (st\<lparr>baseline := head, current_content := head, baseline_accepted := False, hunks := []\<rparr>) T
          else recompute_hunks L pth (Some cur) (external_source T pth) T)"

definition handle_file_change :: "libs \<Rightarrow> world \<Rightarrow> ustr \<Rightarrow> tracker \<Rightarrow> tracker" where
  "handle_file_change L W pth T = process_file_change L W pth None T"

definition needs_baseline :: "tracker \<Rightarrow> ustr \<Rightarrow> bool" where
  "needs_baseline T pth =
     (case state_of T pth of None \<Rightarrow> mode T \<noteq> AgentOnly | Some st \<Rightarrow> baseline_accepted st)"

fun process_all ::
    "libs \<Rightarrow> world \<Rightarrow> (ustr \<times> file_content_state) list \<Rightarrow> ustr list \<Rightarrow> tracker \<Rightarrow> tracker" where
  "process_all L W baselines [] T = T"
| "process_all L W baselines (p # ps) T =
     process_all L W (AList.delete p baselines) ps (process_file_change L W p (map_of baselines p) T)"

definition handle_file_changes_batch :: "libs \<Rightarrow> world \<Rightarrow> ustr list \<Rightarrow> tracker \<Rightarrow> tracker" where
  "handle_file_changes_batch L W paths T =
     (let baselines = (if w_repo W then map (\<lambda>p. (p, read_baseline W p)) (filter (needs_baseline T) paths) else []) in
      process_all L W baselines paths T)"

definition handle_file_deleted :: "libs \<Rightarrow> world \<Rightarrow> ustr \<Rightarrow> tracker \<Rightarrow> tracker" where
  "handle_file_deleted L W pth T =
     (case state_of T pth of
        None \<Rightarrow>
          if mode T = AgentOnly then T
          else if path_exists (disk T pth) then T
          else (let base = read_baseline W pth in
                if base = Missing then T
                else recompute_hunks L pth None External
                       (send_events [FileAdded pth False] (put_state pth (new_state base Missing False) T)))
      | Some st \<Rightarrow>
          if path_exists (disk T pth) then handle_file_change L W pth T
          else recompute_hunks L pth None (external_source T pth) T)"

definition superseded :: "ustr \<Rightarrow> hunk list \<Rightarrow> hunk_event list" where
  "superseded pth hs = map (\<lambda>h. HunkRemoved pth (h_id h) Superseded) hs"

definition reset_baseline :: "ustr \<Rightarrow> tracker \<Rightarrow> tracker" where
  "reset_baseline pth T =
     (case state_of T pth of
        None \<Rightarrow> T
      | Some st \<Rightarrow>
          send_events (superseded pth (hunks st) @ [BaselineUpdated pth])
            ((put_state pth (st\<lparr>baseline := current_content st, baseline_accepted := False, hunks := []\<rparr>) T)
             \<lparr>turn_index := fold index_remove (hunks st) (turn_index T)\<rparr>))"

definition refresh_git_dirty_cache :: "libs \<Rightarrow> world \<Rightarrow> ustr list option \<Rightarrow> tracker \<Rightarrow> tracker" where
  "refresh_git_dirty_cache L W scope T =
     (if \<not> w_repo W then T
      else (let (dirty, staged) = w_status W scope;
                to_track = filter (\<lambda>r. state_of T (path_join (working_dir T) r) = None) dirty;
                T1 = T\<lparr>git_dirty_cache := set dirty, git_staged_cache := set staged\<rparr> in
            if mode T = AllDirty
            then fold (\<lambda>r. handle_file_change L W (path_join (working_dir T) r)) to_track T1
            else T1))"

definition is_clean :: "tracker \<Rightarrow> ustr \<Rightarrow> file_content_state \<Rightarrow> file_content_state \<Rightarrow> bool" where
  "is_clean T pth base cur =
     (case (base, cur) of
        (Full b, Full c) \<Rightarrow> strip_single_trailing_newline b = strip_single_trailing_newline c
      | (Binary _, Binary _) \<Rightarrow> \<not> in_dirty_cache T pth
      | (TooLarge _, TooLarge _) \<Rightarrow> \<not> in_dirty_cache T pth
      | (LfsPointer _, LfsPointer _) \<Rightarrow> \<not> in_dirty_cache T pth
      | (Symlink, Symlink) \<Rightarrow> \<not> in_dirty_cache T pth
      | (LfsPointer _, _) \<Rightarrow> \<not> in_dirty_cache T pth
      | (_, LfsPointer _) \<Rightarrow> \<not> in_dirty_cache T pth
      | (Symlink, Full _) \<Rightarrow> \<not> in_dirty_cache T pth
      | (Full _, Symlink) \<Rightarrow> \<not> in_dirty_cache T pth
      | (Missing, Missing) \<Rightarrow> \<not> path_exists (disk T pth)
      | (Missing, _) \<Rightarrow> \<not> in_dirty_cache T pth
      | _ \<Rightarrow> False)"

text \<open>The loop of \<^verbatim>\<open>refresh_all_baselines_except\<close> for one path.\<close>

definition refresh_path :: "libs \<Rightarrow> world \<Rightarrow> ustr \<Rightarrow> tracker \<Rightarrow> tracker" where
  "refresh_path L W pth T =
     (case state_of T pth of
        None \<Rightarrow> T
      | Some st \<Rightarrow>
          (let base = read_baseline W pth;
               cur = read_file_bounded (disk T pth);
               st1 = st\<lparr>baseline := base, current_content := cur, baseline_accepted := False\<rparr> in
           if is_clean T pth base cur \<and> \<not> is_agent_file st
           then send_events (superseded pth (hunks st) @ [FileRemoved pth])
                  ((drop_state pth T)\<lparr>turn_index := fold index_remove (hunks st) (turn_index T)\<rparr>)
           else if is_clean T pth base cur
           then send_events (superseded pth (hunks st) @ [BaselineUpdated pth])
                  ((put_state pth (st1\<lparr>hunks := []\<rparr>) T)\<lparr>turn_index := fold index_remove (hunks st) (turn_index T)\<rparr>)
           else send_events [BaselineUpdated pth]
                  (recompute_hunks L pth (Some cur)
                     (if is_agent_file st then ExternalEditOnAgentFile else External) (put_state pth st1 T))))"

definition refresh_scan :: "libs \<Rightarrow> world \<Rightarrow> tracker \<Rightarrow> tracker" where
  "refresh_scan L W T =
     (case mode T of
        AllDirty \<Rightarrow> refresh_git_dirty_cache L W None T
      | AgentOnly \<Rightarrow>
          (let rels = List.map_filter (\<lambda>(p, _). relative_path (working_dir T) p) (file_states T) in
           if rels = [] then T\<lparr>git_dirty_cache := {}, git_staged_cache := {}\<rparr>
           else refresh_git_dirty_cache L W (Some rels) T))"

definition refresh_all_baselines_except :: "libs \<Rightarrow> world \<Rightarrow> ustr list \<Rightarrow> tracker \<Rightarrow> tracker" where
  "refresh_all_baselines_except L W skip T =
     (if mode T = AgentOnly \<and> file_states T = [] then T
      else (case w_sync W of
              Some s \<Rightarrow>
                if s = repo_sync_state T then T
                else (let T1 = refresh_scan L W (T\<lparr>repo_sync_state := s\<rparr>) in
                      fold (refresh_path L W) (filter (\<lambda>p. p \<notin> set skip) (map fst (file_states T1))) T1)
            | None \<Rightarrow>
                (let T1 = refresh_scan L W T in
                 fold (refresh_path L W) (filter (\<lambda>p. p \<notin> set skip) (map fst (file_states T1))) T1)))"

text \<open>Switching to agent-only tracking drops the files the agent has not written.\<close>

definition forget_file :: "ustr \<times> file_hunk_state \<Rightarrow> tracker \<Rightarrow> tracker" where
  "forget_file e T =
     (case e of (pth, st) \<Rightarrow>
        send_events (superseded pth (hunks st) @ [FileRemoved pth])
          ((drop_state pth T)\<lparr>turn_index := fold index_remove (hunks st) (turn_index T)\<rparr>))"

definition set_mode :: "libs \<Rightarrow> world \<Rightarrow> tracking_mode \<Rightarrow> tracker \<Rightarrow> tracker" where
  "set_mode L W m T =
     (let T1 = T\<lparr>mode := m\<rparr> in
      if mode T = AgentOnly \<and> m = AllDirty then refresh_git_dirty_cache L W None T1
      else if mode T = AllDirty \<and> m = AgentOnly
      then fold forget_file (filter (\<lambda>(_, st). \<not> is_agent_file st) (file_states T1)) T1
      else T1)"

end
