(* ===== verification/Hunk_Actions.thy ===== *)
theory Hunk_Actions
  imports Hunk_Mutations
begin

text \<open>
  Accepting and rejecting hunks (\<^verbatim>\<open>xai-hunk-tracker/src/actor/actions.rs\<close>), queries
  (\<^verbatim>\<open>queries.rs\<close>), snapshots and the command loop with its coalescing of file events (\<^verbatim>\<open>mod.rs\<close>).
\<close>

datatype hunk_action = Accept | Reject

datatype hunk_action_error = HunkNotFound ustr | WriteError ustr | DeleteError ustr

section \<open>Files\<close>

definition fs_write :: "world \<Rightarrow> ustr \<Rightarrow> ustr \<Rightarrow> tracker \<Rightarrow> hunk_action_error + tracker" where
  "fs_write W pth text T =
     (if \<not> w_writable W pth \<or> disk T pth = Dir \<or> disk T pth = Link ToDir then Inl (WriteError pth)
      else Inr (T\<lparr>disk := (disk T)(pth := (case disk T pth of Link _ \<Rightarrow> Link ToFile | _ \<Rightarrow> File (as_bytes text)))\<rparr>))"

definition fs_remove_file :: "world \<Rightarrow> ustr \<Rightarrow> tracker \<Rightarrow> hunk_action_error + tracker" where
  "fs_remove_file W pth T =
     (if \<not> w_writable W pth \<or> disk T pth = Dir \<or> disk T pth = NoFile then Inl (DeleteError pth)
      else Inr (T\<lparr>disk := (disk T)(pth := NoFile)\<rparr>))"

section \<open>Accepting and rejecting\<close>

definition sat_add :: "nat \<Rightarrow> nat \<Rightarrow> nat" where
  "sat_add a b = min (a + b) u64_max"

definition update_session_stats :: "hunk_line_info \<Rightarrow> bool \<Rightarrow> session_stats \<Rightarrow> session_stats" where
  "update_session_stats li accepted s =
     (if accepted
      then s\<lparr>accepted_hunks := sat_add (accepted_hunks s) 1,
             accepted_lines_added := sat_add (accepted_lines_added s) (new_count li),
             accepted_lines_removed := sat_add (accepted_lines_removed s) (old_count li)\<rparr>
      else s\<lparr>rejected_hunks := sat_add (rejected_hunks s) 1,
             rejected_lines_added := sat_add (rejected_lines_added s) (new_count li),
             rejected_lines_removed := sat_add (rejected_lines_removed s) (old_count li)\<rparr>)"

text \<open>Statistics and turn index are updated for a hunk before the action is carried out.\<close>

definition note_action :: "hunk_action \<Rightarrow> hunk \<Rightarrow> tracker \<Rightarrow> tracker" where
  "note_action act h T =
     T\<lparr>stats := update_session_stats (h_lines h) (act = Accept) (stats T),
       turn_index := index_remove h (turn_index T)\<rparr>"

definition without :: "hunk list \<Rightarrow> hunk list \<Rightarrow> hunk list" where
  "without hs all_hunks = filter (\<lambda>h. h_id h \<notin> h_id ` set hs) all_hunks"

definition remaining_source :: "tracker \<Rightarrow> ustr \<Rightarrow> hunk_source" where
  "remaining_source T pth =
     (case state_of T pth of Some st \<Rightarrow> (case hunks st of h # _ \<Rightarrow> h_source h | [] \<Rightarrow> External) | None \<Rightarrow> External)"

definition removed_for :: "ustr \<Rightarrow> removal_reason \<Rightarrow> hunk list \<Rightarrow> hunk_event list" where
  "removed_for pth reason hs = map (\<lambda>h. HunkRemoved pth (h_id h) reason) hs"

definition accept_hunk :: "libs \<Rightarrow> ustr \<Rightarrow> hunk \<Rightarrow> tracker \<Rightarrow> tracker" where
  "accept_hunk L pth h T =
     (case state_of T pth of
        None \<Rightarrow> T
      | Some st \<Rightarrow>
          (let evs = [HunkRemoved pth (h_id h) Accepted, BaselineUpdated pth];
               rest = filter (\<lambda>g. h_id g \<noteq> h_id h) (hunks st) in
           if baseline st = Missing
           then send_events evs
                  (put_state pth (st\<lparr>baseline := current_content st, baseline_accepted := True, hunks := rest\<rparr>) T)
           else (let base = (case baseline st of
                               Full b \<Rightarrow> Full (patch_lines b (old_start (h_lines h)) (old_count (h_lines h)) (h_new h))
                             | other \<Rightarrow> other);
                     T1 = send_events evs
                            (put_state pth (st\<lparr>baseline := base, baseline_accepted := True, hunks := rest\<rparr>) T) in
                 recompute_hunks L pth (Some (current_content st)) (remaining_source T1 pth) T1)))"

definition reject_hunk :: "libs \<Rightarrow> world \<Rightarrow> ustr \<Rightarrow> hunk \<Rightarrow> tracker \<Rightarrow> hunk_action_error option \<times> tracker" where
  "reject_hunk L W pth h T =
     (case state_of T pth of
        None \<Rightarrow> (None, T)
      | Some st \<Rightarrow>
          (let rest = filter (\<lambda>g. h_id g \<noteq> h_id h) (hunks st);
               ev = [HunkRemoved pth (h_id h) Rejected] in
           case (current_content st, baseline st) of
             (Missing, Full b) \<Rightarrow>
               (case fs_write W pth b T of
                  Inl e \<Rightarrow> (Some e, T)
                | Inr T1 \<Rightarrow> (None, send_events ev (put_state pth (st\<lparr>current_content := Full b, hunks := rest\<rparr>) T1)))
           | (Full c, Missing) \<Rightarrow>
               (case fs_remove_file W pth T of
                  Inl e \<Rightarrow> (Some e, T)
                | Inr T1 \<Rightarrow> (None, send_events ev (put_state pth (st\<lparr>current_content := Missing, hunks := rest\<rparr>) T1)))
           | (Full c, _) \<Rightarrow>
               (let patched = patch_lines c (new_start (h_lines h)) (new_count (h_lines h))
                                (case h_old h of Some x \<Rightarrow> x | None \<Rightarrow> []) in
                case fs_write W pth patched T of
                  Inl e \<Rightarrow> (Some e, T)
                | Inr T1 \<Rightarrow>
                    (let T2 = send_events ev (put_state pth (st\<lparr>current_content := Full patched, hunks := rest\<rparr>) T1) in
                     (None, recompute_hunks L pth (Some (Full patched)) (remaining_source T2 pth) T2)))
           | _ \<Rightarrow> (None, T)))"

definition locate_hunk :: "tracker \<Rightarrow> ustr \<Rightarrow> (ustr \<times> hunk) option" where
  "locate_hunk T i =
     List.find (\<lambda>(p, h). h_id h = i) (concat (map (\<lambda>(p, st). map (Pair p) (hunks st)) (file_states T)))"

definition apply_hunk_action ::
    "libs \<Rightarrow> world \<Rightarrow> ustr \<Rightarrow> hunk_action \<Rightarrow> tracker \<Rightarrow> hunk_action_error option \<times> tracker" where
  "apply_hunk_action L W i act T =
     (case locate_hunk T i of
        None \<Rightarrow> (Some (HunkNotFound i), T)
      | Some (pth, h) \<Rightarrow>
          (let T1 = note_action act h T in
           case act of
             Accept \<Rightarrow> (None, accept_hunk L pth h T1)
           | Reject \<Rightarrow> reject_hunk L W pth h T1))"

definition accept_hunks_batch :: "libs \<Rightarrow> ustr \<Rightarrow> hunk list \<Rightarrow> tracker \<Rightarrow> tracker" where
  "accept_hunks_batch L pth hs T =
     (if hs = [] then T
      else (case state_of T pth of
              None \<Rightarrow> T
            | Some st \<Rightarrow>
                (let evs = removed_for pth Accepted hs @ [BaselineUpdated pth];
                     rest = without hs (hunks st) in
                 if baseline st = Missing
                 then send_events evs
                        (put_state pth (st\<lparr>baseline := current_content st, baseline_accepted := True, hunks := rest\<rparr>) T)
                 else (let base = (case baseline st of Full b \<Rightarrow> Full (patch_in hs b) | other \<Rightarrow> other);
                           T1 = send_events evs
                                  (put_state pth (st\<lparr>baseline := base, baseline_accepted := True, hunks := rest\<rparr>) T) in
                       recompute_hunks L pth (Some (current_content st)) (remaining_source T1 pth) T1))))"

definition reject_hunks_batch ::
    "libs \<Rightarrow> world \<Rightarrow> ustr \<Rightarrow> hunk list \<Rightarrow> tracker \<Rightarrow> hunk_action_error option \<times> tracker" where
  "reject_hunks_batch L W pth hs T =
     (if hs = [] then (None, T)
      else (case state_of T pth of
              None \<Rightarrow> (None, T)
            | Some st \<Rightarrow>
                (let rest = without hs (hunks st); evs = removed_for pth Rejected hs in
                 case (current_content st, baseline st) of
                   (Missing, Full b) \<Rightarrow>
                     (case fs_write W pth b T of
                        Inl e \<Rightarrow> (Some e, T)
                      | Inr T1 \<Rightarrow> (None, send_events evs (put_state pth (st\<lparr>current_content := Full b, hunks := rest\<rparr>) T1)))
                 | (Full c, Missing) \<Rightarrow>
                     (case fs_remove_file W pth T of
                        Inl e \<Rightarrow> (Some e, T)
                      | Inr T1 \<Rightarrow> (None, send_events evs (put_state pth (st\<lparr>current_content := Missing, hunks := rest\<rparr>) T1)))
                 | (Full c, _) \<Rightarrow>
                     (let patched = patch_out hs c in
                      case fs_write W pth patched T of
                        Inl e \<Rightarrow> (Some e, T)
                      | Inr T1 \<Rightarrow>
                          (let T2 = send_events evs (put_state pth (st\<lparr>current_content := Full patched, hunks := rest\<rparr>) T1) in
                           (None, recompute_hunks L pth (Some (Full patched)) (remaining_source T2 pth) T2)))
                 | _ \<Rightarrow> (None, T))))"

fun apply_action_batch ::
    "libs \<Rightarrow> world \<Rightarrow> (ustr \<times> hunk list) list \<Rightarrow> hunk_action \<Rightarrow> ustr list \<Rightarrow> tracker \<Rightarrow>
       (hunk_action_error + ustr list) \<times> tracker" where
  "apply_action_batch L W [] act ids T = (Inr ids, T)"
| "apply_action_batch L W ((pth, hs) # rest) act ids T =
     (let T1 = fold (note_action act) hs T in
      case (case act of Accept \<Rightarrow> (None, accept_hunks_batch L pth hs T1) | Reject \<Rightarrow> reject_hunks_batch L W pth hs T1) of
        (Some e, T2) \<Rightarrow> (Inl e, T2)
      | (None, T2) \<Rightarrow> apply_action_batch L W rest act (ids @ map h_id hs) T2)"

definition apply_file_action ::
    "libs \<Rightarrow> world \<Rightarrow> ustr \<Rightarrow> hunk_action \<Rightarrow> tracker \<Rightarrow> (hunk_action_error + ustr list) \<times> tracker" where
  "apply_file_action L W pth act T =
     (case state_of T pth of
        None \<Rightarrow> (Inr [], T)
      | Some st \<Rightarrow> if hunks st = [] then (Inr [], T) else apply_action_batch L W [(pth, hunks st)] act [] T)"

definition apply_all_action ::
    "libs \<Rightarrow> world \<Rightarrow> hunk_action \<Rightarrow> tracker \<Rightarrow> (hunk_action_error + ustr list) \<times> tracker" where
  "apply_all_action L W act T =
     apply_action_batch L W
       (map (\<lambda>(p, st). (p, hunks st)) (filter (\<lambda>(_, st). hunks st \<noteq> []) (file_states T))) act [] T"

definition turn_hunks :: "nat \<Rightarrow> file_hunk_state \<Rightarrow> hunk list" where
  "turn_hunks p st = filter (\<lambda>h. prompt_index (h_source h) = Some p) (hunks st)"

definition apply_turn_action ::
    "libs \<Rightarrow> world \<Rightarrow> nat \<Rightarrow> hunk_action \<Rightarrow> tracker \<Rightarrow> (hunk_action_error + ustr list) \<times> tracker" where
  "apply_turn_action L W p act T =
     apply_action_batch L W
       (map (\<lambda>(q, st). (q, turn_hunks p st)) (filter (\<lambda>(_, st). turn_hunks p st \<noteq> []) (file_states T))) act [] T"

section \<open>Queries\<close>

definition get_all_hunks :: "tracker \<Rightarrow> hunk list" where
  "get_all_hunks T = concat (map (\<lambda>(_, st). hunks st) (file_states T))"

definition get_hunks_for_path :: "ustr \<Rightarrow> tracker \<Rightarrow> hunk list" where
  "get_hunks_for_path pth T = (case state_of T pth of Some st \<Rightarrow> hunks st | None \<Rightarrow> [])"

definition with_patch :: "file_hunk_state \<Rightarrow> hunk \<Rightarrow> hunk" where
  "with_patch st h =
     h\<lparr>h_patch := (case (as_str (baseline st), as_str (current_content st)) of
        (Some b, Some c) \<Rightarrow> generate_hunk_patch b c h
      | (None, Some c) \<Rightarrow> generate_hunk_patch [] c h
      | (Some b, None) \<Rightarrow> generate_hunk_patch b [] h
      | (None, None) \<Rightarrow> None)\<rparr>"

definition get_all_tracked_paths :: "tracker \<Rightarrow> ustr list" where
  "get_all_tracked_paths T = map fst (file_states T)"

definition get_hunks_by_source :: "bool \<Rightarrow> tracker \<Rightarrow> hunk list" where
  "get_hunks_by_source agent T =
     filter (\<lambda>h. if agent then is_agent_edit (h_source h) else is_external (h_source h)) (get_all_hunks T)"

definition get_hunk :: "tracker \<Rightarrow> ustr \<Rightarrow> hunk option" where
  "get_hunk T i = List.find (\<lambda>h. h_id h = i) (get_all_hunks T)"

definition get_hunks_for_turn :: "nat \<Rightarrow> tracker \<Rightarrow> hunk list" where
  "get_hunks_for_turn p T = List.map_filter (get_hunk T) (turn_index T p)"

section \<open>Snapshots\<close>

record snapshot =
  s_file_states :: "(ustr \<times> file_hunk_state) list"
  s_turn_index :: "nat \<Rightarrow> ustr list"
  s_stats :: session_stats

definition take_snapshot :: "tracker \<Rightarrow> snapshot" where
  "take_snapshot T = \<lparr>s_file_states = file_states T, s_turn_index = turn_index T, s_stats = stats T\<rparr>"

definition take_turn_delta :: "nat \<Rightarrow> tracker \<Rightarrow> (ustr \<times> file_hunk_state) list \<times> ustr list" where
  "take_turn_delta p T =
     (filter (\<lambda>(_, st). list_ex (\<lambda>h. h_id h \<in> set (turn_index T p)) (hunks st)) (file_states T), turn_index T p)"

definition restore_snapshot :: "snapshot \<Rightarrow> tracker \<Rightarrow> tracker" where
  "restore_snapshot s T = T\<lparr>file_states := s_file_states s, turn_index := s_turn_index s, stats := s_stats s\<rparr>"

text \<open>Moving a snapshot to another directory; for equal targets the later entry wins.\<close>

definition rewrite_single_path :: "ustr \<Rightarrow> ustr \<Rightarrow> ustr \<Rightarrow> ustr \<Rightarrow> ustr option" where
  "rewrite_single_path pth old_cwd canonical_old new_cwd =
     (case relative_path canonical_old pth of
        Some r \<Rightarrow> Some (path_join new_cwd r)
      | None \<Rightarrow> map_option (path_join new_cwd) (relative_path old_cwd pth))"

definition rewrite_entry :: "ustr \<Rightarrow> ustr \<Rightarrow> ustr \<Rightarrow> ustr \<times> file_hunk_state \<Rightarrow> ustr \<times> file_hunk_state" where
  "rewrite_entry old_cwd canonical_old new_cwd e =
     (case e of (pth, st) \<Rightarrow>
        (let target = (case rewrite_single_path pth old_cwd canonical_old new_cwd of Some q \<Rightarrow> q | None \<Rightarrow> pth) in
         (target, st\<lparr>hunks := map (\<lambda>h. h\<lparr>h_path := target\<rparr>) (hunks st)\<rparr>)))"

definition rewrite_paths :: "ustr \<Rightarrow> ustr \<Rightarrow> ustr \<Rightarrow> snapshot \<Rightarrow> snapshot" where
  "rewrite_paths old_cwd canonical_old new_cwd s =
     s\<lparr>s_file_states := fold (\<lambda>e. AList.update (fst e) (snd e))
          (map (rewrite_entry old_cwd canonical_old new_cwd) (s_file_states s)) []\<rparr>"

section \<open>Commands\<close>

datatype tracker_command =
    RecordAgentWrite ustr ustr nat "ustr option"
  | HandleFileChange ustr
  | HandleFileDeleted ustr
  | RefreshGitDirtyCache
  | ResetBaseline ustr
  | SetMode tracking_mode
  | HunkAction ustr hunk_action
  | FileAction ustr hunk_action
  | AllAction hunk_action
  | TurnAction nat hunk_action
  | Query
  | ResetStats
  | RefreshAllBaselines
  | RestoreState snapshot

text \<open>The new state of each command; the replies are the results of the actions and queries above.\<close>

definition tracker_command_step :: "libs \<Rightarrow> world \<Rightarrow> tracker_command \<Rightarrow> tracker \<Rightarrow> tracker" where
  "tracker_command_step L W cmd T =
     (case cmd of
        RecordAgentWrite pth content p previous \<Rightarrow> record_agent_write L W pth content p previous T
      | HandleFileChange pth \<Rightarrow> handle_file_change L W pth T
      | HandleFileDeleted pth \<Rightarrow> handle_file_deleted L W pth T
      | RefreshGitDirtyCache \<Rightarrow> refresh_git_dirty_cache L W None T
      | ResetBaseline pth \<Rightarrow> reset_baseline pth T
      | SetMode m \<Rightarrow> set_mode L W m T
      | HunkAction i act \<Rightarrow> snd (apply_hunk_action L W i act T)
      | FileAction pth act \<Rightarrow> snd (apply_file_action L W pth act T)
      | AllAction act \<Rightarrow> snd (apply_all_action L W act T)
      | TurnAction p act \<Rightarrow> snd (apply_turn_action L W p act T)
      | Query \<Rightarrow> T
      | ResetStats \<Rightarrow> T\<lparr>stats := no_stats\<rparr>
      | RefreshAllBaselines \<Rightarrow> refresh_all_baselines_except L W [] T
      | RestoreState s \<Rightarrow> restore_snapshot s T)"

section \<open>Coalescing\<close>

datatype path_action = Changed | Deleted | DeletedThenChanged

record batch =
  file_actions :: "(ustr \<times> path_action) list"
  refresh_all :: bool
  refresh_dirty :: bool
  other_commands :: "tracker_command list"

definition batch_new :: batch where
  "batch_new = \<lparr>file_actions = [], refresh_all = False, refresh_dirty = False, other_commands = []\<rparr>"

definition batch_add :: "tracker_command \<Rightarrow> batch \<Rightarrow> batch" where
  "batch_add cmd b =
     (case cmd of
        HandleFileChange pth \<Rightarrow>
          b\<lparr>file_actions := AList.update pth
              (case map_of (file_actions b) pth of
                 None \<Rightarrow> Changed
               | Some Deleted \<Rightarrow> DeletedThenChanged
               | Some a \<Rightarrow> a) (file_actions b)\<rparr>
      | HandleFileDeleted pth \<Rightarrow> b\<lparr>file_actions := AList.update pth Deleted (file_actions b)\<rparr>
      | RefreshAllBaselines \<Rightarrow> b\<lparr>refresh_all := True\<rparr>
      | RefreshGitDirtyCache \<Rightarrow> b\<lparr>refresh_dirty := True\<rparr>
      | _ \<Rightarrow> b\<lparr>other_commands := other_commands b @ [cmd]\<rparr>)"

definition is_coalescable :: "tracker_command \<Rightarrow> bool" where
  "is_coalescable cmd =
     (case cmd of
        HandleFileChange _ \<Rightarrow> True
      | HandleFileDeleted _ \<Rightarrow> True
      | RefreshAllBaselines \<Rightarrow> True
      | RefreshGitDirtyCache \<Rightarrow> True
      | _ \<Rightarrow> False)"

definition drain_and_coalesce :: "tracker_command list \<Rightarrow> batch" where
  "drain_and_coalesce cmds = fold batch_add cmds batch_new"

text \<open>File actions when a refresh follows: untracked changes and tracked deletions; paths done are collected.\<close>

definition pre_refresh :: "libs \<Rightarrow> world \<Rightarrow> ustr \<times> path_action \<Rightarrow> ustr list \<times> tracker \<Rightarrow> ustr list \<times> tracker" where
  "pre_refresh L W e S =
     (case (e, S) of ((pth, a), (processed, T)) \<Rightarrow>
        if a = Deleted
        then (if state_of T pth \<noteq> None then (processed, handle_file_deleted L W pth T) else (processed, T))
        else (if state_of T pth = None then (processed @ [pth], handle_file_change L W pth T) else (processed, T)))"

definition handle_coalesced_batch :: "libs \<Rightarrow> world \<Rightarrow> batch \<Rightarrow> tracker \<Rightarrow> tracker" where
  "handle_coalesced_batch L W b T =
     (let T1 = (if refresh_dirty b \<and> \<not> refresh_all b then refresh_git_dirty_cache L W None T else T);
          T2 = (if refresh_all b
                then (case fold (pre_refresh L W) (file_actions b) ([], T1) of
                        (processed, T') \<Rightarrow> refresh_all_baselines_except L W processed T')
                else handle_file_changes_batch L W (map fst (filter (\<lambda>(_, a). a \<noteq> Deleted) (file_actions b)))
                       (fold (\<lambda>(p, _). handle_file_deleted L W p) (filter (\<lambda>(_, a). a = Deleted) (file_actions b)) T1)) in
      fold (tracker_command_step L W) (other_commands b) T2)"

text \<open>
  One turn of the loop of \<^verbatim>\<open>run\<close>: a file or git event is taken together with everything queued behind
  it; any other command is taken alone. The result is the state and the commands left.
\<close>

definition tracker_turn ::
    "libs \<Rightarrow> world \<Rightarrow> tracker_command list \<Rightarrow> tracker \<Rightarrow> tracker_command list \<times> tracker" where
  "tracker_turn L W queue T =
     (case queue of
        [] \<Rightarrow> ([], T)
      | cmd # rest \<Rightarrow>
          if is_coalescable cmd then ([], handle_coalesced_batch L W (drain_and_coalesce queue) T)
          else (rest, tracker_command_step L W cmd T))"

end
