(* ===== verification/Hunk_Invariant.thy ===== *)
theory Hunk_Invariant
  imports Hunk_Actions
begin

text \<open>
  The invariant of the hunk tracker: the hunks kept for a file are the diff of its baseline against
  its current content (or none), hunk identifiers are unique, and the turn index never gives a hunk to
  the wrong turn. It is stated over the file states, the turn index and the number of UUIDs drawn; \<open>X\<close>
  are the paths whose hunks are being recomputed.
\<close>

named_theorems tracker_simps \<open>what the primitive updates do to the parts of the tracker\<close>

definition body :: "hunk \<Rightarrow> ustr \<times> hunk_line_info \<times> ustr option \<times> ustr" where
  "body h = (h_path h, h_lines h, h_old h, h_new h)"

definition faithful :: "libs \<Rightarrow> ustr \<Rightarrow> file_hunk_state \<Rightarrow> bool" where
  "faithful L pth st \<longleftrightarrow>
     hunks st = [] \<or>
     map body (hunks st) = map body (diff_states L 0 pth (baseline st) (current_content st) External)"

definition unique_ids :: "(nat \<Rightarrow> ustr) \<Rightarrow> (ustr \<times> file_hunk_state) list \<Rightarrow> nat \<Rightarrow> bool" where
  "unique_ids U fs n \<longleftrightarrow>
     (\<forall>p st. map_of fs p = Some st \<longrightarrow>
        distinct (map h_id (hunks st)) \<and> h_id ` set (hunks st) \<subseteq> U ` {..<n}) \<and>
     (\<forall>p q st st'. map_of fs p = Some st \<and> map_of fs q = Some st' \<and> p \<noteq> q \<longrightarrow>
        h_id ` set (hunks st) \<inter> h_id ` set (hunks st') = {})"

definition index_sound :: "(nat \<Rightarrow> ustr) \<Rightarrow> (ustr \<times> file_hunk_state) list \<Rightarrow> (nat \<Rightarrow> ustr list) \<Rightarrow> nat \<Rightarrow> bool" where
  "index_sound U fs ti n \<longleftrightarrow>
     (\<forall>t. \<forall>i \<in> set (ti t). i \<in> U ` {..<n} \<and>
        (\<forall>p st h. map_of fs p = Some st \<and> h \<in> set (hunks st) \<and> h_id h = i \<longrightarrow> prompt_index (h_source h) = Some t))"

definition tracked_ok ::
    "libs \<Rightarrow> ustr set \<Rightarrow> (ustr \<times> file_hunk_state) list \<Rightarrow> (nat \<Rightarrow> ustr list) \<Rightarrow> nat \<Rightarrow> bool" where
  "tracked_ok L X fs ti n \<longleftrightarrow>
     distinct (map fst fs) \<and> unique_ids (l_uuid L) fs n \<and> index_sound (l_uuid L) fs ti n \<and>
     (\<forall>p st. map_of fs p = Some st \<and> p \<notin> X \<longrightarrow> faithful L p st)"

abbreviation tracker_ok :: "libs \<Rightarrow> ustr set \<Rightarrow> tracker \<Rightarrow> bool" where
  "tracker_ok L X T \<equiv> tracked_ok L X (file_states T) (turn_index T) (drawn T)"

section \<open>Primitive updates\<close>

lemma parts [tracker_simps, simp]:
  "file_states (put_state pth st T) = AList.update pth st (file_states T)"
  "turn_index (put_state pth st T) = turn_index T"
  "drawn (put_state pth st T) = drawn T"
  "disk (put_state pth st T) = disk T"
  "file_states (drop_state pth T) = AList.delete pth (file_states T)"
  "turn_index (drop_state pth T) = turn_index T"
  "drawn (drop_state pth T) = drawn T"
  "disk (drop_state pth T) = disk T"
  "file_states (send_events es T) = file_states T"
  "turn_index (send_events es T) = turn_index T"
  "drawn (send_events es T) = drawn T"
  "disk (send_events es T) = disk T"
  by (simp_all add: put_state_def drop_state_def send_events_def)

lemma state_of_map: "state_of T pth = map_of (file_states T) pth"
  by (simp add: state_of_def)

text \<open>
  A shrinking update keeps, per file, a selection of the hunks that were there, and takes nothing
  but entries out of the turn index.
\<close>

definition shrinks ::
    "(ustr \<times> file_hunk_state) list \<Rightarrow> (nat \<Rightarrow> ustr list) \<Rightarrow> (ustr \<times> file_hunk_state) list \<Rightarrow> (nat \<Rightarrow> ustr list) \<Rightarrow> bool" where
  "shrinks fs ti fs' ti' \<longleftrightarrow>
     (\<forall>p st'. map_of fs' p = Some st' \<longrightarrow>
        hunks st' = [] \<or> (\<exists>st P. map_of fs p = Some st \<and> hunks st' = filter P (hunks st))) \<and>
     (\<forall>t. set (ti' t) \<subseteq> set (ti t))"

lemma unique_shrinks:
  assumes "unique_ids U fs n" and "shrinks fs ti fs' ti'"
  shows "unique_ids U fs' n"
  unfolding unique_ids_def
proof (intro conjI allI impI)
  fix p st assume st: "map_of fs' p = Some st"
  have "distinct (map h_id (hunks st)) \<and> h_id ` set (hunks st) \<subseteq> U ` {..<n}"
  proof (cases "hunks st = []")
    case False
    then obtain s P where s: "map_of fs p = Some s" "hunks st = filter P (hunks s)"
      using st assms(2) unfolding shrinks_def by blast
    then have "distinct (map h_id (hunks s))" "h_id ` set (hunks s) \<subseteq> U ` {..<n}"
      using assms(1) unfolding unique_ids_def by blast+
    then show ?thesis using s(2) by (auto simp: distinct_map_filter)
  qed simp
  then show "distinct (map h_id (hunks st))" and "h_id ` set (hunks st) \<subseteq> U ` {..<n}" by auto
next
  fix p q st st' assume *: "map_of fs' p = Some st \<and> map_of fs' q = Some st' \<and> p \<noteq> q"
  show "h_id ` set (hunks st) \<inter> h_id ` set (hunks st') = {}"
  proof (cases "hunks st = [] \<or> hunks st' = []")
    case False
    then obtain s s' P P' where "map_of fs p = Some s" "hunks st = filter P (hunks s)"
        "map_of fs q = Some s'" "hunks st' = filter P' (hunks s')"
      using * assms(2) unfolding shrinks_def by blast
    moreover from this have "h_id ` set (hunks s) \<inter> h_id ` set (hunks s') = {}"
      using * assms(1) unfolding unique_ids_def by blast
    ultimately show ?thesis by auto
  qed auto
qed

lemma index_shrinks:
  assumes "index_sound U fs ti n" and "shrinks fs ti fs' ti'"
  shows "index_sound U fs' ti' n"
  unfolding index_sound_def
proof (intro allI ballI conjI impI)
  fix t i assume "i \<in> set (ti' t)"
  then have i: "i \<in> set (ti t)" using assms(2) by (auto simp: shrinks_def)
  then show "i \<in> U ` {..<n}" using assms(1) by (auto simp: index_sound_def)
  fix p st h assume *: "map_of fs' p = Some st \<and> h \<in> set (hunks st) \<and> h_id h = i"
  then obtain s where "map_of fs p = Some s" "h \<in> set (hunks s)"
    using assms(2) unfolding shrinks_def by fastforce
  then show "prompt_index (h_source h) = Some t" using assms(1) i * unfolding index_sound_def by blast
qed

lemma shrink_ok:
  assumes "tracked_ok L X fs ti n" and "shrinks fs ti fs' ti'" and "distinct (map fst fs')"
    and "\<And>p st. map_of fs' p = Some st \<Longrightarrow> p \<notin> Y \<Longrightarrow> faithful L p st"
  shows "tracked_ok L Y fs' ti' n"
  using assms unique_shrinks index_shrinks unfolding tracked_ok_def by blast

lemma shrinks_update:
  assumes "hunks st' = [] \<or> (\<exists>st P. map_of fs pth = Some st \<and> hunks st' = filter P (hunks st))"
    and "\<And>t. set (ti' t) \<subseteq> set (ti t)"
  shows "shrinks fs ti (AList.update pth st' fs) ti'"
proof -
  have "\<exists>P. hunks st = filter P (hunks st)" for st by (rule exI [of _ "\<lambda>_. True"]) simp
  then show ?thesis using assms by (auto simp: shrinks_def update_conv' split: if_splits)
qed

lemma shrinks_delete:
  assumes "\<And>t. set (ti' t) \<subseteq> set (ti t)"
  shows "shrinks fs ti (AList.delete pth fs) ti'"
proof -
  have "\<exists>P. hunks st = filter P (hunks st)" for st by (rule exI [of _ "\<lambda>_. True"]) simp
  then show ?thesis using assms by (auto simp: shrinks_def delete_conv' split: if_splits)
qed

lemma alist_update_ok:
  assumes "tracked_ok L X fs ti n"
    and "hunks st' = [] \<or> (\<exists>st P. map_of fs pth = Some st \<and> hunks st' = filter P (hunks st))"
    and "\<And>t. set (ti' t) \<subseteq> set (ti t)"
  shows "tracked_ok L (insert pth X) (AList.update pth st' fs) ti' n"
    and "faithful L pth st' \<Longrightarrow> tracked_ok L (X - {pth}) (AList.update pth st' fs) ti' n"
proof -
  have d: "distinct (map fst (AList.update pth st' fs))"
    using assms(1) by (simp add: tracked_ok_def distinct_update)
  show "tracked_ok L (insert pth X) (AList.update pth st' fs) ti' n"
    using assms(1) by (intro shrink_ok [OF assms(1) shrinks_update [OF assms(2,3)] d])
      (auto simp: tracked_ok_def update_conv' split: if_splits)
  show "tracked_ok L (X - {pth}) (AList.update pth st' fs) ti' n" if "faithful L pth st'"
    using assms(1) that by (intro shrink_ok [OF assms(1) shrinks_update [OF assms(2,3)] d])
      (auto simp: tracked_ok_def update_conv' split: if_splits)
qed

lemma delete_ok:
  assumes "tracked_ok L X fs ti n" and "\<And>t. set (ti' t) \<subseteq> set (ti t)"
  shows "tracked_ok L X (AList.delete pth fs) ti' n"
  using assms(1) by (intro shrink_ok [OF assms(1) shrinks_delete [OF assms(2)]])
    (auto simp: tracked_ok_def delete_conv' distinct_delete split: if_splits)

section \<open>Recomputing\<close>

lemma min_by_key_in: "min_by_key f xs = Some x \<Longrightarrow> x \<in> set xs"
  by (induction xs arbitrary: x) (auto split: option.splits if_splits)

lemma max_by_key_in: "max_by_key f xs = Some x \<Longrightarrow> x \<in> set xs"
  by (induction xs arbitrary: x) (auto split: option.splits if_splits)

lemma find_matching_in: "find_matching_old_hunk n olds = Some h \<Longrightarrow> h \<in> set olds"
  by (auto simp: find_matching_old_hunk_def Let_def split: if_splits dest!: min_by_key_in max_by_key_in)

lemma preserve_body: "map body (preserve_ids olds claimed ns) = map body ns"
  by (induction olds claimed ns rule: preserve_ids.induct) (auto simp: body_def split: option.splits)

lemma preserve_ids_in:
  "h \<in> set (preserve_ids olds claimed ns) \<Longrightarrow>
     h_id h \<in> h_id ` set ns \<or> h_id h \<in> h_id ` set olds - set claimed"
  by (induction olds claimed ns rule: preserve_ids.induct)
    (auto split: option.splits if_splits dest!: find_matching_in)

lemma preserve_ids_sub:
  "h_id ` set (preserve_ids olds claimed ns) \<subseteq> h_id ` set ns \<union> (h_id ` set olds - set claimed)"
  using preserve_ids_in by blast

lemma preserve_ids_distinct:
  "distinct (map h_id ns) \<Longrightarrow> h_id ` set ns \<inter> h_id ` set olds = {} \<Longrightarrow>
     distinct (map h_id (preserve_ids olds claimed ns))"
proof (induction olds claimed ns rule: preserve_ids.induct)
  case (2 olds claimed n ns)
  have tail: "h_id n \<notin> h_id ` set (preserve_ids olds c ns)" for c
    using "2.prems" preserve_ids_sub [of olds c ns] by auto
  show ?case
  proof (cases "find_matching_old_hunk n olds")
    case None
    then show ?thesis using "2.IH"(1) "2.prems" tail by simp
  next
    case (Some best)
    have "h_id best \<notin> h_id ` set (preserve_ids olds (h_id best # claimed) ns)"
      using preserve_ids_sub [of olds "h_id best # claimed" ns] "2.prems"(2) imageI [OF find_matching_in [OF Some], of h_id]
      by auto
    then show ?thesis using Some "2.IH"(2,3) "2.prems" tail by simp
  qed
qed simp

lemma body_build: "body (build pth src i b) = body (build pth src' i' b)"
  by (simp add: body_def build_def)

lemma diff_states_body:
  "map body (diff_states L n pth base cur src) = map body (diff_states L 0 pth base cur External)"
proof -
  have "map body (build_all U n pth src bs) = map body (build_all U 0 pth External bs)" for U bs
    by (auto simp: build_all_def comp_def case_prod_unfold intro: body_build)
  then show ?thesis
    by (auto simp: diff_states_def compute_hunks_def body_def file_deleted_def file_created_def
        split: file_content_state.splits option.splits)
qed

lemma diff_states_ids: "map h_id (diff_states L n pth base cur src) =
    map (l_uuid L) [n..<n + length (diff_states L n pth base cur src)]"
proof -
  have en: "map (\<lambda>(k, b). U (n + k)) (enumerate m bs) = map U [n + m..<n + m + length bs]" for U m and bs :: "hunk_builder list"
    by (induction bs arbitrary: m) (simp_all del: upt_Suc add: upt_conv_Cons)
  have "map h_id (build_all U n pth src bs) = map U [n..<n + length bs]" for U bs
    using en [of U 0 bs] by (simp add: build_all_def build_def comp_def case_prod_unfold)
  moreover have "length (build_all U n pth src bs) = length bs" for U bs by (simp add: build_all_def)
  ultimately show ?thesis
    by (auto simp: diff_states_def compute_hunks_def file_deleted_def file_created_def
        split: file_content_state.splits option.splits)
qed

lemma set_index_remove: "set (fold index_remove hs ti t) = set (ti t) - {h_id h | h. h \<in> set hs \<and> prompt_index (h_source h) = Some t}"
  by (induction hs arbitrary: ti) (auto simp: index_remove_def split: option.splits)

lemma set_index_add: "set (fold index_add hs ti t) = set (ti t) \<union> {h_id h | h. h \<in> set hs \<and> prompt_index (h_source h) = Some t}"
  by (induction hs arbitrary: ti) (auto simp: index_add_def split: option.splits)

lemma recompute_parts:
  assumes "state_of T pth = Some st"
    and "cur = (case c of Some x \<Rightarrow> x | None \<Rightarrow> Missing)"
    and "fresh = diff_states L (drawn T) pth (baseline st) cur src"
    and "news = preserve_ids (hunks st) [] fresh"
  shows "file_states (recompute_hunks L pth c src T) =
      AList.update pth (st\<lparr>current_content := cur, hunks := news\<rparr>) (file_states T)"
    and "turn_index (recompute_hunks L pth c src T) = fold index_add news (fold index_remove (hunks st) (turn_index T))"
    and "drawn (recompute_hunks L pth c src T) = drawn T + length fresh"
  using assms by (simp_all add: recompute_hunks_def Let_def)

lemma unique_ids_disjoint:
  "unique_ids U fs n \<Longrightarrow> map_of fs p = Some st \<Longrightarrow> map_of fs q = Some st' \<Longrightarrow> p \<noteq> q \<Longrightarrow>
     h_id ` set (hunks st) \<inter> h_id ` set (hunks st') = {}"
  unfolding unique_ids_def by blast

lemma unique_ids_file:
  "unique_ids U fs n \<Longrightarrow> map_of fs p = Some st \<Longrightarrow> distinct (map h_id (hunks st))"
  "unique_ids U fs n \<Longrightarrow> map_of fs p = Some st \<Longrightarrow> h_id ` set (hunks st) \<subseteq> U ` {..<n}"
  unfolding unique_ids_def by blast+

lemma set_apart: "N \<subseteq> F \<union> G \<Longrightarrow> F \<inter> V = {} \<Longrightarrow> G \<inter> S = {} \<Longrightarrow> S \<subseteq> V \<Longrightarrow> N \<inter> S = {}"
  by blast

lemma recompute_unique:
  assumes inj: "inj (l_uuid L)" and u: "unique_ids (l_uuid L) fs n" and st: "map_of fs pth = Some st"
    and fresh: "map h_id fresh = map (l_uuid L) [n..<n + length fresh]"
  shows "unique_ids (l_uuid L) (AList.update pth (st\<lparr>current_content := cur, hunks := preserve_ids (hunks st) [] fresh\<rparr>) fs)
    (n + length fresh)"
proof -
  let ?U = "l_uuid L" and ?news = "preserve_ids (hunks st) [] fresh"
  have old: "distinct (map h_id (hunks st))" "h_id ` set (hunks st) \<subseteq> ?U ` {..<n}"
    using unique_ids_file [OF u st] by blast+
  have fr: "h_id ` set fresh = ?U ` {n..<n + length fresh}"
    using arg_cong [OF fresh, of set] by simp
  have "distinct (map h_id fresh)" unfolding fresh using inj by (simp add: distinct_map inj_on_subset [OF inj])
  moreover have disj: "h_id ` set fresh \<inter> ?U ` {..<n} = {}"
    unfolding fr using inj by (auto dest: injD)
  ultimately have dist: "distinct (map h_id ?news)" using old by (intro preserve_ids_distinct) blast+
  have sub: "h_id ` set ?news \<subseteq> h_id ` set fresh \<union> h_id ` set (hunks st)"
    using preserve_ids_sub [of "hunks st" "[]" fresh] by auto
  have mono: "?U ` {..<n} \<subseteq> ?U ` {..<n + length fresh}" "?U ` {n..<n + length fresh} \<subseteq> ?U ` {..<n + length fresh}" by auto
  then have "h_id ` set fresh \<union> h_id ` set (hunks st) \<subseteq> ?U ` {..<n + length fresh}"
    unfolding fr using old(2) by (metis Un_least subset_trans)
  then have bound: "h_id ` set ?news \<subseteq> ?U ` {..<n + length fresh}"
    using sub by (rule subset_trans [rotated])
  have apart: "h_id ` set ?news \<inter> h_id ` set (hunks st') = {}" if "map_of fs q = Some st'" "q \<noteq> pth" for q st'
  proof -
    have "h_id ` set (hunks st) \<inter> h_id ` set (hunks st') = {}" "h_id ` set (hunks st') \<subseteq> ?U ` {..<n}"
      using unique_ids_disjoint [OF u st that(1)] unique_ids_file(2) [OF u that(1)] that(2) by auto
    with sub disj show ?thesis by (rule set_apart)
  qed
  show ?thesis
    unfolding unique_ids_def update_conv'
  proof (intro conjI allI impI)
    fix p st'
    assume *: "((map_of fs)(pth \<mapsto> st\<lparr>current_content := cur, hunks := ?news\<rparr>)) p = Some st'"
    have "distinct (map h_id (hunks st')) \<and> h_id ` set (hunks st') \<subseteq> ?U ` {..<n}" if "p \<noteq> pth"
      using * that u unfolding unique_ids_def by simp
    then show "distinct (map h_id (hunks st'))" and "h_id ` set (hunks st') \<subseteq> ?U ` {..<n + length fresh}"
      using * dist bound mono by (cases "p = pth"; auto)+
  next
    fix p q s s'
    assume *: "((map_of fs)(pth \<mapsto> st\<lparr>current_content := cur, hunks := ?news\<rparr>)) p = Some s \<and>
      ((map_of fs)(pth \<mapsto> st\<lparr>current_content := cur, hunks := ?news\<rparr>)) q = Some s' \<and> p \<noteq> q"
    consider "p = pth" | "q = pth" | "p \<noteq> pth" "q \<noteq> pth" by blast
    then show "h_id ` set (hunks s) \<inter> h_id ` set (hunks s') = {}"
    proof cases
      case 1
      then show ?thesis using * apart [of q s'] by clarsimp
    next
      case 2
      then show ?thesis using * apart [of p s] by (clarsimp simp: Int_commute)
    next
      case 3
      then show ?thesis using * u unfolding unique_ids_def by simp
    qed
  qed
qed

lemma recompute_index:
  assumes inj: "inj (l_uuid L)" and u: "unique_ids (l_uuid L) fs n" and ix: "index_sound (l_uuid L) fs ti n"
    and st: "map_of fs pth = Some st"
    and fresh: "map h_id fresh = map (l_uuid L) [n..<n + length fresh]"
    and news: "news = preserve_ids (hunks st) [] fresh"
    and u': "unique_ids (l_uuid L) (AList.update pth (st\<lparr>current_content := cur, hunks := news\<rparr>) fs) (n + length fresh)"
  shows "index_sound (l_uuid L) (AList.update pth (st\<lparr>current_content := cur, hunks := news\<rparr>) fs)
    (fold index_add news (fold index_remove (hunks st) ti)) (n + length fresh)"
  unfolding index_sound_def
proof (intro allI ballI conjI impI)
  let ?U = "l_uuid L" and ?fs = "AList.update pth (st\<lparr>current_content := cur, hunks := news\<rparr>) fs"
  fix t i assume "i \<in> set (fold index_add news (fold index_remove (hunks st) ti) t)"
  then consider g where "g \<in> set news" "h_id g = i" "prompt_index (h_source g) = Some t"
    | "i \<in> set (ti t)" "\<And>g. g \<in> set (hunks st) \<Longrightarrow> h_id g = i \<Longrightarrow> prompt_index (h_source g) \<noteq> Some t"
    unfolding set_index_add set_index_remove by auto
  note cases = this
  have pth: "map_of ?fs pth = Some (st\<lparr>current_content := cur, hunks := news\<rparr>)" by (simp add: update_conv')
  have news_ids: "distinct (map h_id news)" "h_id ` set news \<subseteq> ?U ` {..<n + length fresh}"
    using unique_ids_file [OF u' pth] by simp_all
  show "i \<in> ?U ` {..<n + length fresh}"
    using cases
  proof cases
    case 1
    then show ?thesis using news_ids by blast
  next
    case 2
    then have "i \<in> ?U ` {..<n}" using ix unfolding index_sound_def by blast
    then show ?thesis by auto
  qed
  fix p s h assume *: "map_of ?fs p = Some s \<and> h \<in> set (hunks s) \<and> h_id h = i"
  show "prompt_index (h_source h) = Some t"
    using cases
  proof cases
    case 1
    have "p = pth"
    proof (rule ccontr)
      assume "p \<noteq> pth"
      then have "h_id ` set (hunks s) \<inter> h_id ` set news = {}"
        using unique_ids_disjoint [OF u' _ pth, of p s] * by simp
      then show False using * 1 by blast
    qed
    then have "h \<in> set news" using * pth by auto
    then have "h = g" using 1 * news_ids(1) by (auto simp: distinct_map dest: inj_onD)
    then show ?thesis using 1 by simp
  next
    case 2
    then have old: "i \<in> ?U ` {..<n}" using ix unfolding index_sound_def by blast
    show ?thesis
    proof (cases "p = pth")
      case False
      then have "map_of fs p = Some s" using * by (simp add: update_conv')
      then show ?thesis using ix 2(1) * unfolding index_sound_def by blast
    next
      case True
      then have "i \<in> h_id ` set news" using * pth by auto
      moreover have "i \<notin> h_id ` set fresh"
      proof -
        have "h_id ` set fresh = ?U ` {n..<n + length fresh}"
          using arg_cong [OF fresh, of set] by simp
        then show ?thesis using old inj by (auto dest: injD)
      qed
      ultimately have "i \<in> h_id ` set (hunks st)" using preserve_ids_sub [of "hunks st" "[]" fresh] news by blast
      then show ?thesis using ix st 2 unfolding index_sound_def by blast
    qed
  qed
qed

lemma recompute_ok:
  assumes inj: "inj (l_uuid L)" and ok: "tracker_ok L X T"
  shows "tracker_ok L (X - {pth}) (recompute_hunks L pth c src T)"
proof (cases "state_of T pth")
  case None
  then show ?thesis using ok by (auto simp: recompute_hunks_def tracked_ok_def state_of_map)
next
  case (Some st)
  define cur where "cur = (case c of Some x \<Rightarrow> x | None \<Rightarrow> Missing)"
  define fresh where "fresh = diff_states L (drawn T) pth (baseline st) cur src"
  define news where "news = preserve_ids (hunks st) [] fresh"
  note parts = recompute_parts [OF Some cur_def fresh_def news_def]
  have st: "map_of (file_states T) pth = Some st" using Some by (simp add: state_of_map)
  have ids: "map h_id fresh = map (l_uuid L) [drawn T..<drawn T + length fresh]"
    unfolding fresh_def by (rule diff_states_ids)
  have u: "unique_ids (l_uuid L) (file_states T) (drawn T)"
    and ix: "index_sound (l_uuid L) (file_states T) (turn_index T) (drawn T)"
    using ok by (simp_all add: tracked_ok_def)
  note u' = recompute_unique [OF inj u st ids, of cur, folded news_def]
  have "map body news = map body (diff_states L 0 pth (baseline st) cur External)"
    unfolding news_def preserve_body fresh_def by (rule diff_states_body)
  then have "faithful L pth (st\<lparr>current_content := cur, hunks := news\<rparr>)" by (simp add: faithful_def)
  then show ?thesis
    unfolding parts tracked_ok_def
    using ok u' recompute_index [OF inj u ix st ids news_def u']
    by (auto simp: tracked_ok_def distinct_update update_conv' split: if_splits)
qed

end
