(* ===== verification/Hunk_Text.thy ===== *)
theory Hunk_Text
  imports Hunk_Diff "HOL-Library.Multiset"
begin

text \<open>
  What cutting hunks in and out does to a text. A diff is read as a list of segments (common lines
  and edits); rejecting a set of hunks puts the old lines of exactly these edits back, accepting a set
  puts their new lines into the baseline.
\<close>

section \<open>Segments of a diff\<close>

datatype seg = Same ustr | Edit "ustr list" "ustr list"

fun close_seg :: "(ustr list \<times> ustr list) option \<Rightarrow> seg list" where
  "close_seg None = []"
| "close_seg (Some (a, b)) = [Edit a b]"

fun segs :: "change list \<Rightarrow> (ustr list \<times> ustr list) option \<Rightarrow> seg list" where
  "segs [] cur = close_seg cur"
| "segs (Equal l # cs) cur = close_seg cur @ Same l # segs cs None"
| "segs (DeleteLine l # cs) cur =
     (case cur of None \<Rightarrow> segs cs (Some ([l], [])) | Some (a, b) \<Rightarrow> segs cs (Some (a @ [l], b)))"
| "segs (InsertLine l # cs) cur =
     (case cur of None \<Rightarrow> segs cs (Some ([], [l])) | Some (a, b) \<Rightarrow> segs cs (Some (a, b @ [l])))"

fun old_side :: "change list \<Rightarrow> ustr list" where
  "old_side [] = []"
| "old_side (Equal l # cs) = l # old_side cs"
| "old_side (DeleteLine l # cs) = l # old_side cs"
| "old_side (InsertLine l # cs) = old_side cs"

fun new_side :: "change list \<Rightarrow> ustr list" where
  "new_side [] = []"
| "new_side (Equal l # cs) = l # new_side cs"
| "new_side (DeleteLine l # cs) = new_side cs"
| "new_side (InsertLine l # cs) = l # new_side cs"

fun mirror :: "seg \<Rightarrow> seg" where
  "mirror (Same l) = Same l"
| "mirror (Edit a b) = Edit b a"

fun seg_new :: "seg list \<Rightarrow> ustr list" where
  "seg_new [] = []"
| "seg_new (Same l # ss) = l # seg_new ss"
| "seg_new (Edit a b # ss) = b @ seg_new ss"

text \<open>The lines after the edits that start at a line in \<open>S\<close> (counted in the new text) are undone.\<close>

fun undone :: "nat set \<Rightarrow> nat \<Rightarrow> seg list \<Rightarrow> ustr list" where
  "undone S n [] = []"
| "undone S n (Same l # ss) = l # undone S (n + 1) ss"
| "undone S n (Edit a b # ss) = (if n \<in> S then a else b) @ undone S (n + length b) ss"

fun seg_edits :: "nat \<Rightarrow> seg list \<Rightarrow> (nat \<times> nat \<times> ustr list) list" where
  "seg_edits n [] = []"
| "seg_edits n (Same l # ss) = seg_edits (n + 1) ss"
| "seg_edits n (Edit a b # ss) = (n, length b, a) # seg_edits (n + length b) ss"

fun separated :: "seg list \<Rightarrow> bool" where
  "separated (Edit a b # Edit c d # ss) \<longleftrightarrow> False"
| "separated (s # ss) \<longleftrightarrow> separated ss"
| "separated [] \<longleftrightarrow> True"

fun seg_builders :: "nat \<Rightarrow> nat \<Rightarrow> seg list \<Rightarrow> hunk_builder list" where
  "seg_builders m n [] = []"
| "seg_builders m n (Same l # ss) = seg_builders (m + 1) (n + 1) ss"
| "seg_builders m n (Edit a b # ss) =
     \<lparr>b_old_start = m, b_new_start = n, b_old_lines = a, b_new_lines = b\<rparr> #
     seg_builders (m + length a) (n + length b) ss"

lemma scan_segs:
  "scan_changes cs m n None = seg_builders m n (segs cs None)"
  "scan_changes cs (m + length a) (n + length b)
     (Some \<lparr>b_old_start = m, b_new_start = n, b_old_lines = a, b_new_lines = b\<rparr>) =
   seg_builders m n (segs cs (Some (a, b)))"
proof (induction cs arbitrary: m n a b)
  case (Cons c cs)
  case 1
  show ?case
    using Cons(2) [of m "[_]" n "[]"] Cons(2) [of m "[]" n "[_]"] Cons(1)
    by (cases c) (simp_all add: builder_new_def add_old_line_def add_new_line_def)
next
  case (Cons c cs)
  case 2
  show ?case
    using Cons(2) [of m "a @ [_]" n b] Cons(2) [of m a n "b @ [_]"] Cons(1)
    by (cases c) (simp_all add: add_old_line_def add_new_line_def)
qed simp_all

lemma mirror_mirror [simp]: "mirror (mirror s) = s"
  by (cases s) auto

lemma seg_sides:
  "seg_new (segs cs cur) = (case cur of None \<Rightarrow> [] | Some (a, b) \<Rightarrow> b) @ new_side cs"
  "seg_new (map mirror (segs cs cur)) = (case cur of None \<Rightarrow> [] | Some (a, b) \<Rightarrow> a) @ old_side cs"
  by (induction cs cur rule: segs.induct) (auto split: option.splits)

lemma undone_none: "undone {} n ss = seg_new ss"
  by (induction "{} :: nat set" n ss rule: undone.induct) auto

lemma undone_all: "undone UNIV n ss = seg_new (map mirror ss)"
  by (induction "UNIV :: nat set" n ss rule: undone.induct) auto

section \<open>Lines\<close>

definition lf_line :: "ustr \<Rightarrow> bool" where
  "lf_line l \<longleftrightarrow> (\<exists>x. l = x @ [10] \<and> 10 \<notin> set x \<and> 13 \<notin> set x)"

definition lf_segs :: "seg list \<Rightarrow> bool" where
  "lf_segs ss \<longleftrightarrow> list_all lf_line (seg_new ss) \<and> list_all lf_line (seg_new (map mirror ss))"

lemma split_char_lf: "list_all lf_line ls \<Longrightarrow> split_char 10 (concat ls) = map butlast ls @ [[]]"
  by (induction ls) (auto simp: lf_line_def split_char_append)

lemma strip_cr_id: "13 \<notin> set l \<Longrightarrow> strip_cr l = l"
  by (cases "strip_suffix [13] l") (auto simp: strip_cr_def strip_suffix_iff)

lemma str_lines_lf: "list_all lf_line ls \<Longrightarrow> str_lines (concat ls) = map butlast ls"
  by (auto simp: str_lines_def split_char_lf butlast_append Let_def lf_line_def list_all_iff intro!: map_idI strip_cr_id)

lemma join_lf: "list_all lf_line ls \<Longrightarrow> ls \<noteq> [] \<Longrightarrow> join [10] (map butlast ls) @ [10] = concat ls"
proof (induction ls)
  case (Cons l ls)
  then show ?case by (cases "ls = []") (auto simp: lf_line_def join_Cons)
qed simp

lemma ends_with_lf: "list_all lf_line ls \<Longrightarrow> ls \<noteq> [] \<Longrightarrow> ends_with [10] (concat ls)"
  using join_lf [of ls] by (metis ends_with_def option.distinct(1) strip_suffix_iff)

lemma join_lf_empty: "list_all lf_line ls \<Longrightarrow> join [10] (map butlast ls) = [] \<longleftrightarrow> ls = [] \<or> ls = [[10]]"
proof (induction ls)
  case (Cons l ls)
  then show ?case by (cases "ls = []") (auto simp: lf_line_def join_Cons)
qed simp

lemma patch_lines_lf:
  assumes "list_all lf_line ls" and "list_all lf_line ins" and "ls \<noteq> []"
    and "take (s - 1) ls @ ins @ drop (s - 1 + c) ls \<noteq> [[10]]"
  shows "patch_lines (concat ls) s c (concat ins) = concat (take (s - 1) ls @ ins @ drop (s - 1 + c) ls)"
proof -
  define out where "out = take (s - 1) ls @ ins @ drop (s - 1 + c) ls"
  have lf: "list_all lf_line out"
    using assms(1,2) by (auto simp: out_def list_all_iff dest: in_set_takeD in_set_dropD)
  have ins: "(if concat ins = [] then [] else str_lines (concat ins)) = map butlast ins"
  proof (cases "ins = []")
    case False
    then have "concat ins \<noteq> []" using assms(2) by (cases ins) (auto simp: lf_line_def)
    then show ?thesis using str_lines_lf [OF assms(2)] by (simp only: if_False)
  qed simp
  have "take (s - 1) (map butlast ls) @ map butlast ins @ drop (s - 1 + c) (map butlast ls) = map butlast out"
    by (simp add: out_def take_map drop_map)
  then have "patch_lines (concat ls) s c (concat ins) =
      (if join [10] (map butlast out) \<noteq> [] then join [10] (map butlast out) @ [10] else join [10] (map butlast out))"
    using ends_with_lf [OF assms(1,3)] by (simp only: patch_lines_def str_lines_lf [OF assms(1)] ins Let_def) simp
  also have "\<dots> = concat out"
    using join_lf_empty [OF lf] join_lf [OF lf] assms(4) [folded out_def] by (cases "out = []") simp_all
  finally show ?thesis by (simp add: out_def)
qed

section \<open>Undoing edits\<close>

text \<open>
  A diff is anchored when the two texts share a line that is not blank, or when it is one edit of the
  whole text that neither starts from an empty text nor ends in a single blank line.
\<close>

definition anchored :: "seg list \<Rightarrow> bool" where
  "anchored ss \<longleftrightarrow>
     (\<exists>l. Same l \<in> set ss \<and> l \<noteq> [10]) \<or> (\<exists>a b. ss = [Edit a b] \<and> b \<noteq> [] \<and> a \<noteq> [[10]])"

abbreviation text_edit :: "nat \<times> nat \<times> ustr list \<Rightarrow> ustr \<Rightarrow> ustr" where
  "text_edit \<equiv> \<lambda>(s, c, i) t. patch_lines t s c (concat i)"

lemma lf_segs_simps [simp]:
  "lf_segs (Same l # ss) \<longleftrightarrow> lf_line l \<and> lf_segs ss"
  "lf_segs (Edit a b # ss) \<longleftrightarrow> list_all lf_line a \<and> list_all lf_line b \<and> lf_segs ss"
  "lf_segs []"
  by (auto simp: lf_segs_def)

lemma undone_lf: "lf_segs ss \<Longrightarrow> list_all lf_line (undone S n ss)"
  by (induction S n ss rule: undone.induct) auto

lemma undone_anchor: "Same l \<in> set ss \<Longrightarrow> l \<in> set (undone S n ss)"
  by (induction S n ss rule: undone.induct) auto

lemma edits_text:
  assumes "lf_segs ss" and "list_all lf_line pre" and "l \<noteq> [10]" and "l \<in> set pre \<or> Same l \<in> set ss"
    and "n = length pre + 1"
  shows "foldr text_edit (filter (\<lambda>e. fst e \<in> S) (seg_edits n ss)) (concat (pre @ seg_new ss)) =
    concat (pre @ undone S n ss)"
  using assms
proof (induction n ss arbitrary: pre rule: seg_edits.induct)
  case (2 n k ss)
  then show ?case using "2.IH" [of "pre @ [k]"] by auto
next
  case (3 n a b ss)
  let ?rest = "pre @ b @ undone S (n + length b) ss"
  have tail: "foldr text_edit (filter (\<lambda>e. fst e \<in> S) (seg_edits (n + length b) ss)) (concat (pre @ b @ seg_new ss)) = concat ?rest"
    using "3.IH" [of "pre @ b"] "3.prems" by auto
  show ?case
  proof (cases "n \<in> S")
    case True
    have "l \<in> set pre \<or> l \<in> set (undone S (n + length b) ss)" using "3.prems"(4) undone_anchor by auto
    then have ne: "?rest \<noteq> []" and "pre @ a @ undone S (n + length b) ss \<noteq> [[10]]"
      using "3.prems"(3) by (auto simp: append_eq_Cons_conv)
    moreover have "list_all lf_line ?rest" using "3.prems" undone_lf by auto
    moreover have "n - 1 = length pre" using "3.prems"(5) by simp
    ultimately have "patch_lines (concat ?rest) n (length b) (concat a) = concat (pre @ a @ undone S (n + length b) ss)"
      using patch_lines_lf [of ?rest a n "length b"] "3.prems"(1) by auto
    then show ?thesis using True tail by simp
  next
    case False
    then show ?thesis using tail by simp
  qed
qed simp

lemma edits_undone:
  assumes "lf_segs ss" and "anchored ss"
  shows "foldr text_edit (filter (\<lambda>e. fst e \<in> S) (seg_edits 1 ss)) (concat (seg_new ss)) = concat (undone S 1 ss)"
  using assms(2) unfolding anchored_def
proof (elim disjE exE conjE)
  fix l assume "Same l \<in> set ss" and "l \<noteq> [10]"
  then show ?thesis using edits_text [OF assms(1), of "[]" l 1 S] by simp
next
  fix a b assume ss: "ss = [Edit a b]" and "b \<noteq> []" and "a \<noteq> [[10]]"
  then have "patch_lines (concat b) 1 (length b) (concat a) = concat a"
    using patch_lines_lf [of b a 1 "length b"] assms(1) by simp
  then show ?thesis using ss by simp
qed

section \<open>Hunks as edits\<close>

definition undo_edit :: "hunk \<Rightarrow> nat \<times> nat \<times> ustr" where
  "undo_edit h = (new_start (h_lines h), new_count (h_lines h), case h_old h of Some x \<Rightarrow> x | None \<Rightarrow> [])"

definition redo_edit :: "hunk \<Rightarrow> nat \<times> nat \<times> ustr" where
  "redo_edit h = (old_start (h_lines h), old_count (h_lines h), h_new h)"

lemma build_all_map: "map f (build_all uuid n pth src bs) = map (\<lambda>(k, b). f (build pth src (uuid (n + k)) b)) (enumerate 0 bs)"
  by (simp add: build_all_def comp_def case_prod_unfold)

lemma map_enumerate: "map (\<lambda>(k, b). f b) (enumerate n bs) = map f bs"
  by (induction bs arbitrary: n) auto

lemma undo_edits:
  "map undo_edit (build_all uuid k pth src (seg_builders m n ss)) = map (\<lambda>(s, c, i). (s, c, concat i)) (seg_edits n ss)"
proof -
  have "undo_edit (build pth src i b) = (b_new_start b, length (b_new_lines b), concat (b_old_lines b))" for i b
    by (auto simp: undo_edit_def build_def)
  then have "map undo_edit (build_all uuid k pth src (seg_builders m n ss)) =
      map (\<lambda>b. (b_new_start b, length (b_new_lines b), concat (b_old_lines b))) (seg_builders m n ss)"
    by (simp add: build_all_map map_enumerate)
  also have "\<dots> = map (\<lambda>(s, c, i). (s, c, concat i)) (seg_edits n ss)"
    by (induction m n ss rule: seg_builders.induct) auto
  finally show ?thesis .
qed

lemma redo_edits:
  "map redo_edit (build_all uuid k pth src (seg_builders m n ss)) =
     map (\<lambda>(s, c, i). (s, c, concat i)) (seg_edits m (map mirror ss))"
proof -
  have "redo_edit (build pth src i b) = (b_old_start b, length (b_old_lines b), concat (b_new_lines b))" for i b
    by (auto simp: redo_edit_def build_def)
  then have "map redo_edit (build_all uuid k pth src (seg_builders m n ss)) =
      map (\<lambda>b. (b_old_start b, length (b_old_lines b), concat (b_new_lines b))) (seg_builders m n ss)"
    by (simp add: build_all_map map_enumerate)
  also have "\<dots> = map (\<lambda>(s, c, i). (s, c, concat i)) (seg_edits m (map mirror ss))"
    by (induction m n ss rule: seg_builders.induct) auto
  finally show ?thesis .
qed

lemma seg_edits_ge: "e \<in> set (seg_edits n ss) \<Longrightarrow> n \<le> fst e"
  by (induction n ss rule: seg_edits.induct) fastforce+

lemma seg_edits_sorted: "separated ss \<Longrightarrow> sorted_wrt (<) (map fst (seg_edits n ss))"
proof (induction n ss rule: seg_edits.induct)
  case (3 n a b ss)
  have "separated ss" using "3.prems" by (cases ss) (auto elim: separated.elims)
  moreover have "n < fst e" if "e \<in> set (seg_edits (n + length b) ss)" for e
    using "3.prems" that by (cases ss; cases "hd ss") (auto dest!: seg_edits_ge)
  ultimately show ?case using "3.IH" by simp
qed auto

lemma separated_close: "separated (close_seg cur)" "separated (close_seg cur @ Same l # ss) = separated ss"
  by (induction cur rule: close_seg.induct) auto

lemma separated_segs: "separated (segs cs cur)"
  by (induction cs cur rule: segs.induct) (auto split: option.splits simp: separated_close)

lemma separated_mirror: "separated (map mirror ss) = separated ss"
  by (induction ss rule: separated.induct) auto

text \<open>Sorting hunks by descending position reverses them, because positions increase.\<close>

lemma sort_descending:
  assumes "sorted_wrt (<) (map f hs)"
  shows "sort_key (\<lambda>h. - int (f h)) (filter P hs) = rev (filter P hs)"
proof (rule sort_key_inj_key_eq)
  show "mset (filter P hs) = mset (rev (filter P hs))" by simp
  have "distinct (map f hs)" using assms by (simp add: strict_sorted_iff)
  then have "inj_on f (set hs)" by (simp add: distinct_map)
  then show "inj_on (\<lambda>h. - int (f h)) (set (filter P hs))" by (auto simp: inj_on_def)
  have "sorted_wrt (<) (map f (filter P hs))"
    using assms by (simp add: sorted_wrt_map sorted_wrt_filter)
  then have "sorted_wrt (\<lambda>x y. - int (f y) \<le> - int (f x)) (filter P hs)"
    by (simp add: sorted_wrt_map) (erule sorted_wrt_mono_rel [rotated], simp)
  then show "sorted (map (\<lambda>h. - int (f h)) (rev (filter P hs)))"
    by (simp add: sorted_wrt_map sorted_wrt_rev)
qed

lemma filter_by_position:
  fixes f :: "'a \<Rightarrow> nat"
  assumes "sorted_wrt (<) (map f hs)"
  shows "filter (\<lambda>h. f h \<in> f ` set (filter P hs)) hs = filter P hs"
proof (rule filter_cong [OF refl])
  fix h assume "h \<in> set hs"
  moreover have "inj_on f (set hs)"
    using assms by (metis distinct_map strict_sorted_iff)
  ultimately show "(f h \<in> f ` set (filter P hs)) = P h" by (auto dest: inj_onD)
qed

lemma filter_edits:
  assumes "map f hs = map (\<lambda>(s, c, i). (s, c, concat i)) es"
  shows "map f (filter (\<lambda>h. fst (f h) \<in> S) hs) = map (\<lambda>(s, c, i). (s, c, concat i)) (filter (\<lambda>e. fst e \<in> S) es)"
  using assms by (induction hs arbitrary: es) auto

lemma foldr_edits:
  "map f hs = map (\<lambda>(s, c, i). (s, c, concat i)) es \<Longrightarrow>
     foldr (\<lambda>h t. patch_lines t (fst (f h)) (fst (snd (f h))) (snd (snd (f h)))) hs t = foldr text_edit es t"
  by (induction hs arbitrary: es) auto

lemma patch_fold:
  assumes es: "map f hs = map (\<lambda>(s, c, i). (s, c, concat i)) (seg_edits 1 ss)"
    and ok: "separated ss" "lf_segs ss" "anchored ss"
  shows "foldl (\<lambda>t h. patch_lines t (fst (f h)) (fst (snd (f h))) (snd (snd (f h)))) (concat (seg_new ss))
      (sort_key (\<lambda>h. - int (fst (f h))) (filter P hs)) =
    concat (undone ((\<lambda>h. fst (f h)) ` set (filter P hs)) 1 ss)"
proof -
  have "map (\<lambda>h. fst (f h)) hs = map fst (seg_edits 1 ss)"
    using arg_cong [OF es, of "map fst"] by (simp add: comp_def case_prod_unfold)
  then have sorted: "sorted_wrt (<) (map (\<lambda>h. fst (f h)) hs)" using seg_edits_sorted [OF ok(1)] by metis
  let ?S = "(\<lambda>h. fst (f h)) ` set (filter P hs)"
  have sel: "filter P hs = filter (\<lambda>h. fst (f h) \<in> ?S) hs" using filter_by_position [OF sorted] by simp
  have "map f (filter P hs) = map (\<lambda>(s, c, i). (s, c, concat i)) (filter (\<lambda>e. fst e \<in> ?S) (seg_edits 1 ss))"
    by (subst sel) (rule filter_edits [OF es])
  note foldr = foldr_edits [OF this, of "concat (seg_new ss)"]
  show ?thesis
    unfolding sort_descending [OF sorted, of P] foldl_conv_foldr rev_rev_ident
    using foldr edits_undone [OF ok(2,3), of ?S] by simp
qed

lemma patch_out_undone:
  assumes "map undo_edit hs = map undo_edit (build_all uuid k pth src (scan_changes cs 1 1 None))"
    and "lf_segs (segs cs None)" and "anchored (segs cs None)"
  shows "patch_out (filter P hs) (concat (new_side cs)) =
    concat (undone ((\<lambda>h. new_start (h_lines h)) ` set (filter P hs)) 1 (segs cs None))"
proof -
  have "map undo_edit hs = map (\<lambda>(s, c, i). (s, c, concat i)) (seg_edits 1 (segs cs None))"
    using assms(1) undo_edits [of uuid k pth src 1 1 "segs cs None"] by (simp add: scan_segs)
  from patch_fold [OF this separated_segs assms(2,3), of P] show ?thesis
    using seg_sides(1) [of cs None] by (simp add: patch_out_def undo_edit_def)
qed

lemma patch_in_undone:
  assumes "map redo_edit hs = map redo_edit (build_all uuid k pth src (scan_changes cs 1 1 None))"
    and "lf_segs (segs cs None)" and "anchored (map mirror (segs cs None))"
  shows "patch_in (filter P hs) (concat (old_side cs)) =
    concat (undone ((\<lambda>h. old_start (h_lines h)) ` set (filter P hs)) 1 (map mirror (segs cs None)))"
proof -
  have "map redo_edit hs = map (\<lambda>(s, c, i). (s, c, concat i)) (seg_edits 1 (map mirror (segs cs None)))"
    using assms(1) redo_edits [of uuid k pth src 1 1 "segs cs None"] by (simp add: scan_segs)
  moreover have "lf_segs (map mirror (segs cs None))" using assms(2) by (simp add: lf_segs_def comp_def)
  moreover have "separated (map mirror (segs cs None))" by (simp add: separated_mirror separated_segs)
  ultimately show ?thesis
    using patch_fold [OF _ _ _ assms(3), of redo_edit hs P] seg_sides(2) [of cs None]
    by (simp add: patch_in_def redo_edit_def)
qed

text \<open>Undoing every hunk gives the other side of the diff.\<close>

lemma undone_all_edits:
  assumes "map f hs = map (\<lambda>(s, c, i). (s, c, concat i)) (seg_edits n ss)"
  shows "undone ((\<lambda>h. fst (f h)) ` set hs) n ss = seg_new (map mirror ss)"
proof -
  have "map (\<lambda>h. fst (f h)) hs = map fst (seg_edits n ss)"
    using arg_cong [OF assms, of "map fst"] by (simp add: comp_def case_prod_unfold)
  then have "(\<lambda>h. fst (f h)) ` set hs = fst ` set (seg_edits n ss)" by (metis list.set_map)
  moreover have "undone S n ss = seg_new (map mirror ss)" if "fst ` set (seg_edits n ss) \<subseteq> S" for S n ss
    using that by (induction S n ss rule: undone.induct) auto
  ultimately show ?thesis by simp
qed

lemma undone_every:
  assumes "map undo_edit hs = map undo_edit (build_all uuid k pth src (scan_changes cs 1 1 None))"
  shows "undone ((\<lambda>h. new_start (h_lines h)) ` set hs) 1 (segs cs None) = old_side cs"
  using undone_all_edits [of undo_edit hs 1 "segs cs None"] assms undo_edits [of uuid k pth src 1 1 "segs cs None"]
    seg_sides(2) [of cs None]
  by (simp add: scan_segs undo_edit_def)

lemma undone_every_in:
  assumes "map redo_edit hs = map redo_edit (build_all uuid k pth src (scan_changes cs 1 1 None))"
  shows "undone ((\<lambda>h. old_start (h_lines h)) ` set hs) 1 (map mirror (segs cs None)) = new_side cs"
  using undone_all_edits [of redo_edit hs 1 "map mirror (segs cs None)"] assms
    redo_edits [of uuid k pth src 1 1 "segs cs None"] seg_sides(1) [of cs None]
  by (simp add: scan_segs redo_edit_def comp_def)

section \<open>Texts with line feeds\<close>

text \<open>\<^verbatim>\<open>str::split_inclusive('\n')\<close>.\<close>

fun lines_incl :: "ustr \<Rightarrow> ustr list" where
  "lines_incl [] = []"
| "lines_incl (c # cs) =
     (if c = 10 then [10] # lines_incl cs
      else (case lines_incl cs of [] \<Rightarrow> [[c]] | l # ls \<Rightarrow> (c # l) # ls))"

text \<open>What \<^verbatim>\<open>similar\<close> documents of a line diff, for texts without carriage returns.\<close>

definition differ_law :: "differ \<Rightarrow> bool" where
  "differ_law D \<longleftrightarrow>
     (\<forall>b c cs. D b c = Some cs \<longrightarrow>
        (13 \<notin> set b \<longrightarrow> old_side cs = lines_incl b) \<and> (13 \<notin> set c \<longrightarrow> new_side cs = lines_incl c))"

definition unix_text :: "ustr \<Rightarrow> bool" where
  "unix_text t \<longleftrightarrow> 13 \<notin> set t \<and> (t = [] \<or> last t = 10)"

lemma concat_lines_incl [simp]: "concat (lines_incl t) = t"
  by (induction t) (auto split: list.splits)

lemma unix_lines: "unix_text t \<Longrightarrow> list_all lf_line (lines_incl t)"
proof (induction t)
  case (Cons c t)
  then have IH: "list_all lf_line (lines_incl t)" by (auto simp: unix_text_def split: if_splits)
  show ?case
  proof (cases "c = 10")
    case True
    moreover have "lf_line [10]" by (simp add: lf_line_def)
    ultimately show ?thesis using IH by simp
  next
    case False
    then have "t \<noteq> []" using Cons.prems by (auto simp: unix_text_def)
    then obtain l ls where l: "lines_incl t = l # ls" by (metis concat.simps(1) concat_lines_incl neq_Nil_conv)
    obtain x where "l = x @ [10]" "10 \<notin> set x" "13 \<notin> set x" using IH l by (auto simp: lf_line_def)
    then have "c # l = (c # x) @ [10]" "10 \<notin> set (c # x)" "13 \<notin> set (c # x)"
      using False Cons.prems by (auto simp: unix_text_def)
    then have "lf_line (c # l)" unfolding lf_line_def by blast
    then show ?thesis using False l IH by simp
  qed
qed simp

lemma unix_segs:
  assumes "differ_law D" and "D b c = Some cs" and "unix_text b" and "unix_text c"
  shows "lf_segs (segs cs None)" and "concat (old_side cs) = b" and "concat (new_side cs) = c"
proof -
  have "old_side cs = lines_incl b" "new_side cs = lines_incl c"
    using assms by (auto simp: differ_law_def unix_text_def)
  then show "lf_segs (segs cs None)" and "concat (old_side cs) = b" and "concat (new_side cs) = c"
    using unix_lines assms(3,4) seg_sides [of cs None] by (auto simp: lf_segs_def)
qed

end
