(* ===== verification/Hunk_Safety.thy ===== *)
theory Hunk_Safety
  imports Hunk_Invariant Hunk_Text
begin

text \<open>
  Every command of the hunk tracker keeps its invariant, and what accepting and rejecting do to a file.
\<close>

section \<open>Helpers\<close>

lemma put_empty_ok:
  "tracked_ok L {} fs ti n \<Longrightarrow> hunks st' = [] \<Longrightarrow> (\<And>t. set (ti' t) \<subseteq> set (ti t)) \<Longrightarrow>
     tracked_ok L {} (AList.update pth st' fs) ti' n"
  using alist_update_ok(2) [of L "{}" fs ti n st' pth ti'] by (simp add: faithful_def)

lemma put_forget_ok:
  "tracked_ok L {} fs ti n \<Longrightarrow> hunks st' = [] \<Longrightarrow>
     tracked_ok L {} (AList.update pth st' fs) (fold index_remove hs ti) n"
  by (erule put_empty_ok) (auto simp: set_index_remove)

lemma delete_forget_ok:
  "tracked_ok L {} fs ti n \<Longrightarrow> tracked_ok L {} (AList.delete pth fs) (fold index_remove hs ti) n"
  by (erule delete_ok) (auto simp: set_index_remove)

lemma put_filter_ok:
  "tracked_ok L {} fs ti n \<Longrightarrow> map_of fs pth = Some st \<Longrightarrow> hunks st' = filter P (hunks st) \<Longrightarrow>
     tracked_ok L {pth} (AList.update pth st' fs) ti n"
  using alist_update_ok(1) [of L "{}" fs ti n st' pth ti] by auto

lemma put_same_ok:
  "tracked_ok L {} fs ti n \<Longrightarrow> map_of fs pth = Some st \<Longrightarrow> hunks st' = hunks st \<Longrightarrow>
     tracked_ok L {pth} (AList.update pth st' fs) ti n"
  using put_filter_ok [of L fs ti n pth st st' "\<lambda>_. True"] by simp

lemma recompute_fix:
  assumes "inj (l_uuid L)" and "tracker_ok L {} T \<or> tracker_ok L {pth} T"
  shows "tracker_ok L {} (recompute_hunks L pth c src T)"
  using recompute_ok [OF assms(1), of "{}" T pth c src] recompute_ok [OF assms(1), of "{pth}" T pth c src] assms(2)
  by auto

lemma fold_ok: "(\<And>x T. P T \<Longrightarrow> P (f x T)) \<Longrightarrow> P T \<Longrightarrow> P (fold f xs T)"
  by (induction xs arbitrary: T) auto

section \<open>File and git changes\<close>

lemma record_agent_write_ok:
  assumes inj: "inj (l_uuid L)" and ok: "tracker_ok L {} T"
  shows "tracker_ok L {} (record_agent_write L W pth content p previous T)"
proof (cases "is_diffable (classify_string content)")
  case False
  then show ?thesis
    using ok by (auto simp: record_agent_write_def Let_def new_state_def split: option.splits intro!: put_empty_ok)
next
  case True
  let ?T1 = "case state_of T pth of
               None \<Rightarrow>
                 (let base = (case read_baseline W pth of
                                Missing \<Rightarrow> (case previous of Some prev \<Rightarrow> classify_string prev | None \<Rightarrow> Missing)
                              | other \<Rightarrow> other) in
                  send_events [FileAdded pth True] (put_state pth (new_state base (classify_string content) True) T))
             | Some st \<Rightarrow> put_state pth (st\<lparr>is_agent_file := True\<rparr>) T"
  have "tracker_ok L {} ?T1 \<or> tracker_ok L {pth} ?T1"
  proof (cases "state_of T pth")
    case None
    have "tracker_ok L {} ?T1" unfolding None Let_def option.case parts
      by (rule put_empty_ok [OF ok]) (simp_all add: new_state_def)
    then show ?thesis ..
  next
    case (Some st)
    then show ?thesis using put_same_ok [OF ok, of pth st "st\<lparr>is_agent_file := True\<rparr>"] by (simp add: state_of_map)
  qed
  from recompute_fix [OF inj this] show ?thesis
    using True by (simp only: record_agent_write_def Let_def simp_thms if_False)
qed

lemma new_file_ok: "tracker_ok L {} T \<Longrightarrow> tracker_ok L {} (send_events es (put_state pth (new_state b c a) T))"
  unfolding parts by (erule put_empty_ok) (simp_all add: new_state_def)

lemma process_file_change_ok:
  assumes "inj (l_uuid L)" and "tracker_ok L {} T"
  shows "tracker_ok L {} (process_file_change L W pth pre T)"
proof (cases "state_of T pth")
  case None
  then show ?thesis
    unfolding process_file_change_def Let_def
    using assms(2) new_file_ok [OF assms(2)] recompute_fix [OF assms(1)] by simp
next
  case (Some st)
  have "tracker_ok L {} (put_state pth (st\<lparr>baseline := h, current_content := h, baseline_accepted := False, hunks := []\<rparr>) T)" for h
    unfolding parts by (rule put_empty_ok [OF assms(2)]) simp_all
  then show ?thesis
    using Some assms(2) recompute_fix [OF assms(1)] unfolding process_file_change_def Let_def by simp
qed

lemma handle_file_change_ok:
  "inj (l_uuid L) \<Longrightarrow> tracker_ok L {} T \<Longrightarrow> tracker_ok L {} (handle_file_change L W pth T)"
  unfolding handle_file_change_def by (rule process_file_change_ok)

lemma process_all_ok:
  "inj (l_uuid L) \<Longrightarrow> tracker_ok L {} T \<Longrightarrow> tracker_ok L {} (process_all L W bs ps T)"
  by (induction L W bs ps T rule: process_all.induct) (simp_all add: process_file_change_ok)

lemma handle_file_changes_batch_ok:
  "inj (l_uuid L) \<Longrightarrow> tracker_ok L {} T \<Longrightarrow> tracker_ok L {} (handle_file_changes_batch L W ps T)"
  unfolding handle_file_changes_batch_def Let_def by (rule process_all_ok)

lemma handle_file_deleted_ok:
  assumes "inj (l_uuid L)" and "tracker_ok L {} T"
  shows "tracker_ok L {} (handle_file_deleted L W pth T)"
  unfolding handle_file_deleted_def Let_def
  using assms(2) recompute_fix [OF assms(1)] new_file_ok [OF assms(2)] handle_file_change_ok [OF assms]
  by (simp split: option.split)

lemma reset_baseline_ok:
  assumes "tracker_ok L {} T"
  shows "tracker_ok L {} (reset_baseline pth T)"
  unfolding reset_baseline_def
  using assms put_forget_ok [OF assms] by (simp split: option.split)

lemma refresh_git_dirty_cache_ok:
  assumes "inj (l_uuid L)" and "tracker_ok L {} T"
  shows "tracker_ok L {} (refresh_git_dirty_cache L W scope T)"
proof -
  have "tracker_ok L {} (fold (\<lambda>r. handle_file_change L W (path_join wd r)) rs S)" if "tracker_ok L {} S" for wd rs S
    using that by (rule fold_ok [rotated]) (rule handle_file_change_ok [OF assms(1)])
  then show ?thesis using assms(2) by (auto simp: refresh_git_dirty_cache_def Let_def split: prod.splits)
qed

lemma refresh_path_ok:
  assumes "inj (l_uuid L)" and "tracker_ok L {} T"
  shows "tracker_ok L {} (refresh_path L W pth T)"
proof (cases "state_of T pth")
  case (Some st)
  have "tracker_ok L {pth} (put_state pth (st\<lparr>baseline := b, current_content := c, baseline_accepted := False\<rparr>) T)" for b c
    using put_same_ok [OF assms(2), of pth st "st\<lparr>baseline := b, current_content := c, baseline_accepted := False\<rparr>"] Some by (simp add: state_of_map)
  then show ?thesis
    using Some put_forget_ok [OF assms(2)] delete_forget_ok [OF assms(2)] recompute_fix [OF assms(1)]
    unfolding refresh_path_def Let_def by simp
qed (simp add: refresh_path_def assms)

lemma refresh_scan_ok:
  assumes "inj (l_uuid L)" and "tracker_ok L {} T"
  shows "tracker_ok L {} (refresh_scan L W T)"
  using assms refresh_git_dirty_cache_ok [OF assms] by (simp add: refresh_scan_def Let_def split: tracking_mode.split)

lemma refresh_all_baselines_ok:
  assumes "inj (l_uuid L)" and "tracker_ok L {} T"
  shows "tracker_ok L {} (refresh_all_baselines_except L W skip T)"
proof -
  have "tracker_ok L {} (fold (refresh_path L W) ps (refresh_scan L W S))" if "tracker_ok L {} S" for ps S
    using refresh_scan_ok [OF assms(1) that]
    by (rule fold_ok [where P = "tracker_ok L {}", rotated]) (rule refresh_path_ok [OF assms(1)])
  then show ?thesis
    using assms(2) by (auto simp: refresh_all_baselines_except_def Let_def split: option.split)
qed

lemma set_mode_ok:
  assumes "inj (l_uuid L)" and "tracker_ok L {} T"
  shows "tracker_ok L {} (set_mode L W m T)"
proof -
  have "tracker_ok L {} (fold forget_file es S)" if "tracker_ok L {} S" for es S
    using that by (rule fold_ok [rotated]) (auto simp: forget_file_def split: prod.splits intro: delete_forget_ok)
  then show ?thesis
    using assms(2) refresh_git_dirty_cache_ok [OF assms(1)] by (simp add: set_mode_def Let_def)
qed

section \<open>Accepting and rejecting\<close>

lemma length_diff_states: "base = Missing \<or> cur = Missing \<Longrightarrow> length (diff_states L n pth base cur src) \<le> 1"
  by (auto simp: diff_states_def split: file_content_state.splits)

lemma faithful_single:
  assumes "faithful L pth st" and "baseline st = Missing \<or> current_content st = Missing"
  shows "length (hunks st) \<le> 1"
  using assms length_diff_states [of "baseline st" "current_content st" L 0 pth External]
  unfolding faithful_def by (metis le0 length_map list.size(3))

lemma without_single: "length all_hunks \<le> 1 \<Longrightarrow> hs \<noteq> [] \<Longrightarrow> set hs \<subseteq> set all_hunks \<Longrightarrow> without hs all_hunks = []"
  by (cases hs) (auto simp: without_def filter_empty_conv length_Suc_conv le_Suc_eq)

lemma faithful_patchable:
  assumes "faithful L pth st" and "hunks st \<noteq> []"
  shows "(\<exists>b c. baseline st = Full b \<and> current_content st = Full c) \<or>
    (\<exists>b. baseline st = Full b \<and> current_content st = Missing) \<or>
    (\<exists>c. baseline st = Missing \<and> current_content st = Full c)"
proof -
  have "diff_states L 0 pth (baseline st) (current_content st) External \<noteq> []"
    using assms unfolding faithful_def by fastforce
  then show ?thesis by (auto simp: diff_states_def split: file_content_state.splits)
qed

lemma note_parts [simp]:
  "file_states (note_action act h T) = file_states T"
  "drawn (note_action act h T) = drawn T"
  "disk (note_action act h T) = disk T"
  by (simp_all add: note_action_def)

lemma note_fold_parts [simp]:
  "file_states (fold (note_action act) hs T) = file_states T"
  "drawn (fold (note_action act) hs T) = drawn T"
  "disk (fold (note_action act) hs T) = disk T"
  by (induction hs arbitrary: T) simp_all

lemma note_ok:
  assumes "tracker_ok L X T"
  shows "tracker_ok L X (note_action act h T)"
proof -
  have "set (index_remove h ti t) \<subseteq> set (ti t)" for ti t using set_index_remove [of "[h]" ti t] by simp
  then have "shrinks (file_states T) (turn_index T) (file_states T) (index_remove h (turn_index T))"
    unfolding shrinks_def by (auto intro: exI [of _ "\<lambda>_. True"])
  from shrink_ok [OF assms this, of X] assms show ?thesis
    by (simp add: note_action_def tracked_ok_def)
qed

lemma fs_write_parts:
  assumes "fs_write W pth t T = Inr T'"
  shows "file_states T' = file_states T" "turn_index T' = turn_index T" "drawn T' = drawn T"
  using assms by (auto simp: fs_write_def split: if_splits)

lemma fs_remove_parts:
  assumes "fs_remove_file W pth T = Inr T'"
  shows "file_states T' = file_states T" "turn_index T' = turn_index T" "drawn T' = drawn T"
  using assms by (auto simp: fs_remove_file_def split: if_splits)

text \<open>Accepting or rejecting one hunk is the batch of that hunk.\<close>

lemma without_one: "filter (\<lambda>g. h_id g \<noteq> h_id h) hs = without [h] hs"
  by (simp add: without_def)

lemma accept_hunk_batch: "accept_hunk L pth h = accept_hunks_batch L pth [h]"
  by (rule ext) (auto simp: accept_hunk_def accept_hunks_batch_def without_one patch_in_def removed_for_def Let_def
      split: option.splits file_content_state.splits)

lemma reject_hunk_batch: "reject_hunk L W pth h = reject_hunks_batch L W pth [h]"
  by (rule ext) (auto simp: reject_hunk_def reject_hunks_batch_def without_one patch_out_def removed_for_def Let_def
      split: option.splits file_content_state.splits sum.splits)

lemma accept_batch_ok:
  assumes inj: "inj (l_uuid L)" and ok: "tracker_ok L {} T" and st: "state_of T pth = Some st"
    and hs: "hs \<noteq> []" "set hs \<subseteq> set (hunks st)"
  shows "tracker_ok L {} (accept_hunks_batch L pth hs T)"
proof -
  have m: "map_of (file_states T) pth = Some st" using st by (simp add: state_of_map)
  then have f: "faithful L pth st" using ok by (auto simp: tracked_ok_def)
  have "baseline st = Missing \<Longrightarrow> without hs (hunks st) = []"
    using faithful_single [OF f] hs without_single by blast
  moreover have "tracker_ok L {pth} (put_state pth (st\<lparr>baseline := b, baseline_accepted := True, hunks := without hs (hunks st)\<rparr>) T)" for b
    unfolding parts by (rule put_filter_ok [OF ok m]) (simp add: without_def)
  ultimately show ?thesis
    using st hs put_empty_ok [OF ok, of _ "turn_index T"] recompute_fix [OF inj]
    unfolding accept_hunks_batch_def Let_def by (simp only: option.case if_False parts) simp
qed

lemma reject_batch_ok:
  assumes inj: "inj (l_uuid L)" and ok: "tracker_ok L {} T" and st: "state_of T pth = Some st"
    and hs: "hs \<noteq> []" "set hs \<subseteq> set (hunks st)"
  shows "tracker_ok L {} (snd (reject_hunks_batch L W pth hs T))"
proof -
  have m: "map_of (file_states T) pth = Some st" using st by (simp add: state_of_map)
  then have f: "faithful L pth st" using ok by (auto simp: tracked_ok_def)
  have gone: "baseline st = Missing \<or> current_content st = Missing \<Longrightarrow> without hs (hunks st) = []"
    using faithful_single [OF f] hs without_single by blast
  have part: "tracker_ok L {pth} (send_events es (put_state pth (st\<lparr>current_content := c, hunks := without hs (hunks st)\<rparr>) T'))"
    if "fs_write W pth t T = Inr T'" for c t T' es
    unfolding parts fs_write_parts [OF that] by (rule put_filter_ok [OF ok m]) (simp add: without_def)
  have whole: "tracker_ok L {} (send_events es (put_state pth (st\<lparr>current_content := c, hunks := []\<rparr>) T'))"
    if "file_states T' = file_states T" "turn_index T' = turn_index T" "drawn T' = drawn T" for c T' es
    unfolding parts that by (rule put_empty_ok [OF ok]) simp_all
  consider b c where "baseline st = Full b" "current_content st = Full c"
    | b where "baseline st = Full b" "current_content st = Missing"
    | c where "baseline st = Missing" "current_content st = Full c"
    using faithful_patchable [OF f] hs by (cases "hunks st") auto
  then show ?thesis
  proof cases
    case 1
    then show ?thesis
      using st hs(1) ok part recompute_fix [OF inj] by (simp add: reject_hunks_batch_def Let_def split: sum.split)
  next
    case 2
    then show ?thesis
      using st hs(1) ok gone whole fs_write_parts
      by (simp add: reject_hunks_batch_def Let_def split: sum.split)
  next
    case 3
    then show ?thesis
      using st hs(1) ok gone whole fs_remove_parts
      by (simp add: reject_hunks_batch_def Let_def split: sum.split)
  qed
qed

text \<open>An action on one file leaves the others alone.\<close>

lemma state_of_simps [simp]:
  "state_of (put_state pth st T) q = (if q = pth then Some st else state_of T q)"
  "state_of (send_events es T) q = state_of T q"
  "state_of (T\<lparr>turn_index := ti\<rparr>) q = state_of T q"
  "state_of (T\<lparr>drawn := n\<rparr>) q = state_of T q"
  "state_of (T\<lparr>disk := d\<rparr>) q = state_of T q"
  "state_of (note_action act h T) q = state_of T q"
  "state_of (fold (note_action act) hs T) q = state_of T q"
  by (simp_all add: state_of_map update_conv')

lemma recompute_other: "q \<noteq> pth \<Longrightarrow> state_of (recompute_hunks L pth c src T) q = state_of T q"
  by (simp add: recompute_hunks_def Let_def split: option.split)

lemma fs_state_of:
  "fs_write W pth t T = Inr T' \<Longrightarrow> state_of T' q = state_of T q"
  "fs_remove_file W pth T = Inr T' \<Longrightarrow> state_of T' q = state_of T q"
  by (simp_all add: state_of_map fs_write_parts fs_remove_parts)

lemma accept_other: "q \<noteq> pth \<Longrightarrow> state_of (accept_hunks_batch L pth hs T) q = state_of T q"
  by (auto simp: accept_hunks_batch_def Let_def recompute_other split: option.split)

lemma reject_other: "q \<noteq> pth \<Longrightarrow> state_of (snd (reject_hunks_batch L W pth hs T)) q = state_of T q"
  by (auto simp: reject_hunks_batch_def Let_def recompute_other fs_state_of
      split: option.split file_content_state.split sum.split)

definition selects :: "tracker \<Rightarrow> (ustr \<times> hunk list) list \<Rightarrow> bool" where
  "selects T sel \<longleftrightarrow>
     distinct (map fst sel) \<and>
     (\<forall>(pth, hs) \<in> set sel. hs \<noteq> [] \<and> (\<exists>st. state_of T pth = Some st \<and> set hs \<subseteq> set (hunks st)))"

lemma notes_ok: "tracker_ok L X T \<Longrightarrow> tracker_ok L X (fold (note_action act) hs T)"
  by (rule fold_ok [where P = "tracker_ok L X"]) (rule note_ok)

lemma selects_tail:
  assumes "selects T ((pth, hs) # sel)" and "\<And>q. q \<noteq> pth \<Longrightarrow> state_of T' q = state_of T q"
  shows "selects T' sel"
  unfolding selects_def
proof (intro conjI ballI)
  show "distinct (map fst sel)" using assms(1) by (simp add: selects_def)
  fix e assume e: "e \<in> set sel"
  obtain q hs' where q: "e = (q, hs')" by (cases e)
  have "pth \<notin> fst ` set sel" using conjunct1 [OF assms(1) [unfolded selects_def]] by simp
  then have "fst e \<noteq> pth" using e by blast
  then have "state_of T' q = state_of T q" using q by (intro assms(2)) simp
  moreover have "hs' \<noteq> [] \<and> (\<exists>st. state_of T q = Some st \<and> set hs' \<subseteq> set (hunks st))"
    using bspec [OF conjunct2 [OF assms(1) [unfolded selects_def]], of e] e unfolding q by simp
  ultimately show "case e of (q, hs') \<Rightarrow> hs' \<noteq> [] \<and> (\<exists>st. state_of T' q = Some st \<and> set hs' \<subseteq> set (hunks st))"
    unfolding q by simp
qed

lemma apply_action_batch_ok:
  assumes "inj (l_uuid L)"
  shows "tracker_ok L {} T \<Longrightarrow> selects T sel \<Longrightarrow> tracker_ok L {} (snd (apply_action_batch L W sel act ids T))"
proof (induction sel arbitrary: ids T)
  case (Cons e sel)
  obtain pth hs where e: "e = (pth, hs)" by (cases e)
  let ?T1 = "fold (note_action act) hs T"
  obtain st where st: "state_of ?T1 pth = Some st" "hs \<noteq> []" "set hs \<subseteq> set (hunks st)"
    using Cons.prems(2) e by (auto simp: selects_def)
  note ok1 = notes_ok [OF Cons.prems(1), of act hs]
  obtain r T2 where r: "(case act of Accept \<Rightarrow> (None, accept_hunks_batch L pth hs ?T1) | Reject \<Rightarrow> reject_hunks_batch L W pth hs ?T1) = (r, T2)"
    by fastforce
  have ok2: "tracker_ok L {} T2"
    using r accept_batch_ok [OF assms ok1 st] reject_batch_ok [OF assms ok1 st, of W]
    by (cases act) (auto simp: prod_eq_iff)
  have "state_of T2 q = state_of T q" if "q \<noteq> pth" for q
    using r that accept_other [OF that, of L hs ?T1] reject_other [OF that, of L W hs ?T1]
    by (cases act) (auto simp: prod_eq_iff)
  with Cons.prems(2) have "selects T2 sel" unfolding e by (rule selects_tail)
  then show ?case using Cons.IH ok2 e r by (cases r) simp_all
qed simp

lemma keys_distinct: "tracker_ok L X T \<Longrightarrow> distinct (map fst (file_states T))"
  by (simp add: tracked_ok_def)

lemma in_file_states: "tracker_ok L X T \<Longrightarrow> (pth, st) \<in> set (file_states T) \<Longrightarrow> state_of T pth = Some st"
  using keys_distinct by (simp add: state_of_map)

lemma selects_by:
  assumes "tracker_ok L X T" and "\<And>st. set (f st) \<subseteq> set (hunks st)"
  shows "selects T (map (\<lambda>(p, st). (p, f st)) (filter (\<lambda>(_, st). f st \<noteq> []) (file_states T)))"
proof -
  have "fst \<circ> (\<lambda>(p :: ustr, st). (p, f st)) = fst" by (auto simp: fun_eq_iff)
  then show ?thesis
    using keys_distinct [OF assms(1)] in_file_states [OF assms(1)] assms(2)
    unfolding selects_def by (auto simp: distinct_map_filter)
qed

lemma apply_hunk_action_ok:
  assumes inj: "inj (l_uuid L)" and ok: "tracker_ok L {} T"
  shows "tracker_ok L {} (snd (apply_hunk_action L W i act T))"
proof (cases "locate_hunk T i")
  case (Some e)
  obtain pth h where e: "e = (pth, h)" by (cases e)
  then obtain st where "(pth, st) \<in> set (file_states T)" and h: "h \<in> set (hunks st)"
    using Some unfolding locate_hunk_def by (auto simp: find_Some_iff in_set_conv_nth [symmetric] dest!: nth_mem)
  then have st: "state_of (note_action act h T) pth = Some st" using in_file_states [OF ok] by simp
  have hs: "[h] \<noteq> []" "set [h] \<subseteq> set (hunks st)" using h by auto
  show ?thesis
    using Some e accept_batch_ok [OF inj note_ok [OF ok] st hs] reject_batch_ok [OF inj note_ok [OF ok] st hs, of W]
    by (cases act) (simp_all add: apply_hunk_action_def accept_hunk_batch reject_hunk_batch Let_def)
qed (simp add: apply_hunk_action_def ok)

lemma apply_group_ok:
  assumes inj: "inj (l_uuid L)" and ok: "tracker_ok L {} T"
  shows "tracker_ok L {} (snd (apply_file_action L W pth act T))"
    and "tracker_ok L {} (snd (apply_all_action L W act T))"
    and "tracker_ok L {} (snd (apply_turn_action L W p act T))"
proof -
  show "tracker_ok L {} (snd (apply_file_action L W pth act T))"
  proof (cases "state_of T pth")
    case (Some st)
    then have "hunks st \<noteq> [] \<Longrightarrow> selects T [(pth, hunks st)]" by (simp add: selects_def)
    then show ?thesis using Some ok apply_action_batch_ok [OF inj ok] by (simp add: apply_file_action_def del: apply_action_batch.simps)
  qed (simp add: apply_file_action_def ok)
  show "tracker_ok L {} (snd (apply_all_action L W act T))"
    unfolding apply_all_action_def by (rule apply_action_batch_ok [OF inj ok selects_by [OF ok]]) simp
  show "tracker_ok L {} (snd (apply_turn_action L W p act T))"
    unfolding apply_turn_action_def
    by (rule apply_action_batch_ok [OF inj ok selects_by [OF ok, of "turn_hunks p"]]) (auto simp: turn_hunks_def)
qed

end
