(* ===== verification/Hunk_Runs.thy ===== *)
theory Hunk_Runs
  imports Hunk_Safety
begin

text \<open>
  Runs of the hunk tracker: commands are queued in any order, the loop takes them with its coalescing,
  and other programs change the disk in between. The properties of the component are stated here.
\<close>

section \<open>UUIDs are only ever drawn\<close>

text \<open>No operation gives a UUID back: the number drawn never goes down.\<close>

named_theorems drawn_mono

lemma recompute_drawn [drawn_mono]: "drawn T \<le> drawn (recompute_hunks L pth c src T)"
  by (simp add: recompute_hunks_def Let_def split: option.split)

lemma fold_drawn: "(\<And>x T. drawn T \<le> drawn (f x T)) \<Longrightarrow> drawn T \<le> drawn (fold f xs T)"
  using fold_ok [where P = "\<lambda>S. drawn T \<le> drawn S" and f = f] order_trans by blast

lemma recompute_drawn_from:
  "drawn T \<le> drawn S \<Longrightarrow> drawn T \<le> drawn (recompute_hunks L pth c src S)"
  using recompute_drawn order_trans by blast

lemma record_agent_write_drawn [drawn_mono]: "drawn T \<le> drawn (record_agent_write L W pth content p previous T)"
  by (auto simp: record_agent_write_def Let_def intro!: recompute_drawn_from split: option.split)

lemma process_file_change_drawn [drawn_mono]: "drawn T \<le> drawn (process_file_change L W pth pre T)"
  by (auto simp: process_file_change_def Let_def intro!: recompute_drawn_from split: option.split)

lemma handle_file_change_drawn [drawn_mono]: "drawn T \<le> drawn (handle_file_change L W pth T)"
  unfolding handle_file_change_def by (rule process_file_change_drawn)

lemma process_all_drawn: "drawn T \<le> drawn (process_all L W bs ps T)"
  by (induction L W bs ps T rule: process_all.induct) (auto intro: order_trans [OF process_file_change_drawn])

lemma handle_file_changes_batch_drawn [drawn_mono]: "drawn T \<le> drawn (handle_file_changes_batch L W ps T)"
  unfolding handle_file_changes_batch_def Let_def by (rule process_all_drawn)

lemma handle_file_deleted_drawn [drawn_mono]: "drawn T \<le> drawn (handle_file_deleted L W pth T)"
  by (auto simp: handle_file_deleted_def Let_def handle_file_change_drawn intro!: recompute_drawn_from split: option.split)

lemma reset_baseline_drawn [drawn_mono]: "drawn T \<le> drawn (reset_baseline pth T)"
  by (simp add: reset_baseline_def split: option.split)

lemma refresh_git_dirty_cache_drawn [drawn_mono]: "drawn T \<le> drawn (refresh_git_dirty_cache L W scope T)"
proof -
  have "drawn S \<le> drawn (fold (\<lambda>r. handle_file_change L W (path_join wd r)) rs S)" for wd rs S
    by (rule fold_drawn) (rule handle_file_change_drawn)
  from order_trans [OF _ this] show ?thesis
    by (auto simp: refresh_git_dirty_cache_def Let_def split: prod.splits)
qed

lemma refresh_path_drawn [drawn_mono]: "drawn T \<le> drawn (refresh_path L W pth T)"
  by (auto simp: refresh_path_def Let_def intro!: recompute_drawn_from split: option.split)

lemma refresh_scan_drawn [drawn_mono]: "drawn T \<le> drawn (refresh_scan L W T)"
  by (simp add: refresh_scan_def Let_def refresh_git_dirty_cache_drawn split: tracking_mode.split)

lemma refresh_all_baselines_drawn [drawn_mono]: "drawn T \<le> drawn (refresh_all_baselines_except L W skip T)"
proof -
  have "drawn S \<le> drawn (fold (refresh_path L W) ps (refresh_scan L W S))" for ps S
    using fold_drawn [of "refresh_path L W", OF refresh_path_drawn] refresh_scan_drawn order_trans by blast
  from order_trans [OF _ this] show ?thesis
    by (auto simp: refresh_all_baselines_except_def Let_def split: option.split)
qed

lemma set_mode_drawn [drawn_mono]: "drawn T \<le> drawn (set_mode L W m T)"
proof -
  have "drawn S \<le> drawn (fold forget_file es S)" for es S
    by (rule fold_drawn) (simp add: forget_file_def split: prod.split)
  from this [of "T\<lparr>mode := m\<rparr>"] refresh_git_dirty_cache_drawn [of "T\<lparr>mode := m\<rparr>" L W]
  show ?thesis by (cases m) (simp_all add: set_mode_def Let_def)
qed

lemma accept_batch_drawn [drawn_mono]: "drawn T \<le> drawn (accept_hunks_batch L pth hs T)"
  by (auto simp: accept_hunks_batch_def Let_def intro!: recompute_drawn_from split: option.split)

lemma reject_batch_drawn [drawn_mono]: "drawn T \<le> drawn (snd (reject_hunks_batch L W pth hs T))"
  by (auto simp: reject_hunks_batch_def Let_def fs_write_parts fs_remove_parts intro!: recompute_drawn_from
      split: option.split file_content_state.split sum.split)

lemma apply_action_batch_drawn [drawn_mono]: "drawn T \<le> drawn (snd (apply_action_batch L W sel act ids T))"
proof (induction sel arbitrary: ids T)
  case (Cons e sel)
  obtain pth hs where e: "e = (pth, hs)" by (cases e)
  let ?T1 = "fold (note_action act) hs T"
  obtain r T2 where r: "(case act of Accept \<Rightarrow> (None, accept_hunks_batch L pth hs ?T1) | Reject \<Rightarrow> reject_hunks_batch L W pth hs ?T1) = (r, T2)"
    by fastforce
  have "drawn T \<le> drawn T2"
    using r accept_batch_drawn [of ?T1 L pth hs] reject_batch_drawn [of ?T1 L W pth hs]
    by (cases act) (auto simp: prod_eq_iff)
  then show ?case using Cons.IH [of T2] e r by (cases r) (auto intro: order_trans)
qed simp

lemma apply_group_drawn [drawn_mono]:
  "drawn T \<le> drawn (snd (apply_hunk_action L W i act T))"
  "drawn T \<le> drawn (snd (apply_file_action L W pth act T))"
  "drawn T \<le> drawn (snd (apply_all_action L W act T))"
  "drawn T \<le> drawn (snd (apply_turn_action L W p act T))"
proof -
  show "drawn T \<le> drawn (snd (apply_hunk_action L W i act T))"
    using accept_batch_drawn [of "note_action act h T" L f "[h]" for h f]
      reject_batch_drawn [of "note_action act h T" L W f "[h]" for h f]
    by (cases act)
       (auto simp: apply_hunk_action_def accept_hunk_batch reject_hunk_batch Let_def split: option.split prod.split)
  show "drawn T \<le> drawn (snd (apply_file_action L W pth act T))"
    by (auto simp: apply_file_action_def apply_action_batch_drawn simp del: apply_action_batch.simps split: option.split)
  show "drawn T \<le> drawn (snd (apply_all_action L W act T))"
    unfolding apply_all_action_def by (rule apply_action_batch_drawn)
  show "drawn T \<le> drawn (snd (apply_turn_action L W p act T))"
    unfolding apply_turn_action_def by (rule apply_action_batch_drawn)
qed

lemma command_drawn: "drawn T \<le> drawn (tracker_command_step L W cmd T)"
  by (cases cmd) (simp_all add: tracker_command_step_def drawn_mono restore_snapshot_def)

section \<open>Runs\<close>

text \<open>
  A snapshot that may be restored: its hunks are diffs of its contents, its identifiers are distinct
  and among the first \<open>n\<close> UUIDs, and its turn index is sound. \<open>snapshot_taken_ok\<close> below shows it for
  every snapshot a tracker takes.
\<close>

definition snapshot_ok :: "libs \<Rightarrow> nat \<Rightarrow> snapshot \<Rightarrow> bool" where
  "snapshot_ok L n s \<longleftrightarrow> tracked_ok L {} (s_file_states s) (s_turn_index s) n"

text \<open>
  Commands are queued in any order, a restored snapshot being well formed; the loop takes them; other
  programs change the disk; and other trackers draw from the same supply of UUIDs, so that a snapshot
  may come from an earlier session.
\<close>

inductive tracker_step ::
    "libs \<Rightarrow> tracker_command list \<times> tracker \<Rightarrow> tracker_command list \<times> tracker \<Rightarrow> bool" for L where
  step_queue: "(\<And>s. cmd = RestoreState s \<Longrightarrow> snapshot_ok L (drawn T) s) \<Longrightarrow>
    tracker_step L (q, T) (q @ [cmd], T)"
| step_turn: "tracker_step L (q, T) (tracker_turn L W q T)"
| step_disk: "tracker_step L (q, T) (q, T\<lparr>disk := d\<rparr>)"
| step_uuids: "tracker_step L (q, T) (q, T\<lparr>drawn := drawn T + k\<rparr>)"

inductive_cases tracker_stepE: "tracker_step L s t"

definition restores_ok :: "libs \<Rightarrow> nat \<Rightarrow> tracker_command list \<Rightarrow> bool" where
  "restores_ok L n q \<longleftrightarrow> (\<forall>s. RestoreState s \<in> set q \<longrightarrow> snapshot_ok L n s)"

definition run_ok :: "libs \<Rightarrow> tracker_command list \<times> tracker \<Rightarrow> bool" where
  "run_ok L s \<longleftrightarrow> restores_ok L (drawn (snd s)) (fst s) \<and> tracker_ok L {} (snd s)"

definition fresh_tracker :: "tracker_command list \<times> tracker \<Rightarrow> bool" where
  "fresh_tracker s \<longleftrightarrow> (\<exists>wd m d. s = ([], tracker_new wd m d))"

lemma tracked_ok_mono:
  assumes "tracked_ok L X fs ti n" and "n \<le> k"
  shows "tracked_ok L X fs ti k"
proof -
  have "l_uuid L ` {..<n} \<subseteq> l_uuid L ` {..<k}" using assms(2) by auto
  then have "unique_ids (l_uuid L) fs n \<Longrightarrow> unique_ids (l_uuid L) fs k"
    and "index_sound (l_uuid L) fs ti n \<Longrightarrow> index_sound (l_uuid L) fs ti k"
    unfolding unique_ids_def index_sound_def by (meson subset_trans, meson subsetD)
  with assms(1) show ?thesis unfolding tracked_ok_def by blast
qed

lemma restores_ok_mono: "restores_ok L n q \<Longrightarrow> n \<le> k \<Longrightarrow> restores_ok L k q"
  unfolding restores_ok_def snapshot_ok_def using tracked_ok_mono by blast

lemma snapshot_taken_ok: "tracker_ok L {} T \<Longrightarrow> snapshot_ok L (drawn T) (take_snapshot T)"
  by (simp add: snapshot_ok_def take_snapshot_def)

lemma command_ok:
  assumes "inj (l_uuid L)" and "tracker_ok L {} T" and "\<And>s. cmd = RestoreState s \<Longrightarrow> snapshot_ok L (drawn T) s"
  shows "tracker_ok L {} (tracker_command_step L W cmd T)"
  using assms record_agent_write_ok [OF assms(1,2)] handle_file_change_ok [OF assms(1,2)]
    handle_file_deleted_ok [OF assms(1,2)] refresh_git_dirty_cache_ok [OF assms(1,2)] reset_baseline_ok [OF assms(2)]
    set_mode_ok [OF assms(1,2)] apply_hunk_action_ok [OF assms(1,2)] apply_group_ok [OF assms(1,2)]
    refresh_all_baselines_ok [OF assms(1,2)]
  by (cases cmd) (simp_all add: tracker_command_step_def restore_snapshot_def snapshot_ok_def)

lemma commands_ok:
  "inj (l_uuid L) \<Longrightarrow> tracker_ok L {} T \<Longrightarrow> restores_ok L (drawn T) cmds \<Longrightarrow>
     tracker_ok L {} (fold (tracker_command_step L W) cmds T)"
proof (induction cmds arbitrary: T)
  case (Cons cmd cmds)
  have "tracker_ok L {} (tracker_command_step L W cmd T)"
    using Cons.prems(3) by (intro command_ok [OF Cons.prems(1,2)]) (auto simp: restores_ok_def)
  moreover have "restores_ok L (drawn (tracker_command_step L W cmd T)) cmds"
    using restores_ok_mono [OF Cons.prems(3) command_drawn, of L W cmd] by (simp add: restores_ok_def)
  ultimately show ?case using Cons.IH [OF Cons.prems(1)] by simp
qed simp

lemma drain_others: "set (other_commands (fold batch_add cmds b)) \<subseteq> set (other_commands b) \<union> set cmds"
proof (induction cmds arbitrary: b)
  case (Cons cmd cmds)
  have "set (other_commands (batch_add cmd b)) \<subseteq> insert cmd (set (other_commands b))"
    by (cases cmd) (auto simp: batch_add_def)
  then show ?case using Cons.IH [of "batch_add cmd b"] by auto
qed simp

text \<open>The batch before its other commands, which also only draws UUIDs.\<close>

lemma batch_ok:
  assumes inj: "inj (l_uuid L)" and ok: "tracker_ok L {} T" and nr: "restores_ok L (drawn T) (other_commands b)"
  shows "tracker_ok L {} (handle_coalesced_batch L W b T)"
proof -
  let ?P = "\<lambda>S. tracker_ok L {} S \<and> drawn T \<le> drawn S"
  have change: "?P (handle_file_change L W p S)" and deleted: "?P (handle_file_deleted L W p S)" if "?P S" for p S
    using that handle_file_change_ok [OF inj] handle_file_deleted_ok [OF inj]
      order_trans [OF _ handle_file_change_drawn] order_trans [OF _ handle_file_deleted_drawn] by auto
  have "?P (snd (pre_refresh L W e s))" if "?P (snd s)" for e s
    using that change deleted by (cases e; cases s) (simp add: pre_refresh_def)
  then have pre: "?P (snd (fold (pre_refresh L W) es s))" if "?P (snd s)" for es s
    using that by (rule fold_ok [where P = "\<lambda>s. ?P (snd s)"])
  have del: "?P (fold (\<lambda>(p, _). handle_file_deleted L W p) es S)" if "?P S"
    for S and es :: "(ustr \<times> path_action) list"
    using fold_ok [where P = ?P and f = "\<lambda>(p, _). handle_file_deleted L W p" and T = S and xs = es] that
      deleted by (simp split: prod.split)
  have all: "?P (case fold (pre_refresh L W) es ([], S) of (processed, T') \<Rightarrow> refresh_all_baselines_except L W processed T')"
    if "?P S" for es S
    using pre [of "([], S)" es] that refresh_all_baselines_ok [OF inj] order_trans [OF _ refresh_all_baselines_drawn]
    by (auto split: prod.split)
  have batch: "?P (handle_file_changes_batch L W ps S)" and dirty: "?P (refresh_git_dirty_cache L W sc S)" if "?P S" for ps sc S
    using that handle_file_changes_batch_ok [OF inj] refresh_git_dirty_cache_ok [OF inj]
      order_trans [OF _ handle_file_changes_batch_drawn] order_trans [OF _ refresh_git_dirty_cache_drawn] by auto
  have start: "?P T" using ok by simp
  have finish: "tracker_ok L {} (fold (tracker_command_step L W) (other_commands b) S)" if "?P S" for S
    using that restores_ok_mono [OF nr] by (intro commands_ok [OF inj]) auto
  show ?thesis
    unfolding handle_coalesced_batch_def Let_def
    by (intro finish) (simp add: start all del batch dirty del: order_refl)
qed

lemma run_ok_step:
  assumes inj: "inj (l_uuid L)" and "tracker_step L s t" and "run_ok L s"
  shows "run_ok L t"
  using assms(2)
proof (cases rule: tracker_step.cases)
  case (step_queue cmd T q)
  then show ?thesis using assms(3) by (auto simp: run_ok_def restores_ok_def)
next
  case (step_turn q T W)
  then have nr: "restores_ok L (drawn T) q" and ok: "tracker_ok L {} T" using assms(3) by (auto simp: run_ok_def)
  show ?thesis
  proof (cases q)
    case (Cons cmd rest)
    have "restores_ok L (drawn T) (other_commands (drain_and_coalesce q))"
      using drain_others [of q batch_new] nr by (auto simp: drain_and_coalesce_def restores_ok_def batch_new_def)
    then have "tracker_ok L {} (handle_coalesced_batch L W (drain_and_coalesce q) T)" by (rule batch_ok [OF inj ok])
    moreover have "tracker_ok L {} (tracker_command_step L W cmd T)"
      using nr Cons by (intro command_ok [OF inj ok]) (auto simp: restores_ok_def)
    moreover have "restores_ok L (drawn (tracker_command_step L W cmd T)) rest"
      using restores_ok_mono [OF nr command_drawn, of L W cmd] Cons by (simp add: restores_ok_def)
    ultimately show ?thesis using step_turn(2) Cons by (auto simp: tracker_turn_def run_ok_def restores_ok_def)
  qed (use step_turn ok nr in \<open>simp add: tracker_turn_def run_ok_def\<close>)
next
  case (step_disk q T d)
  then show ?thesis using assms(3) by (simp add: run_ok_def)
next
  case (step_uuids q T k)
  then show ?thesis
    using assms(3) restores_ok_mono [of L "drawn T" q "drawn T + k"] tracked_ok_mono [of L "{}" _ _ "drawn T" "drawn T + k"]
    by (simp add: run_ok_def)
qed

lemma fresh_run_ok: "fresh_tracker s \<Longrightarrow> run_ok L s"
  by (auto simp: fresh_tracker_def run_ok_def restores_ok_def tracker_new_def tracked_ok_def unique_ids_def index_sound_def)

definition fixed_step :: "libs \<Rightarrow> tracker_command list \<times> tracker \<Rightarrow> tracker_command list \<times> tracker \<Rightarrow> bool" where
  "fixed_step L s t \<longleftrightarrow> inj (l_uuid L) \<and> tracker_step L s t"

interpretation hr: step_invariant fresh_tracker "fixed_step L" "run_ok L" for L
  by unfold_locales (auto simp: fixed_step_def intro: fresh_run_ok run_ok_step)

lemma reachable_ok:
  assumes "inj (l_uuid L)" and "rtranclp (tracker_step L) ([], tracker_new wd m d) (q, T)"
  shows "tracker_ok L {} T"
proof -
  have "rtranclp (fixed_step L) ([], tracker_new wd m d) (q, T)"
    using assms(2) by (rule rtranclp_mono [THEN predicate2D, rotated]) (auto simp: fixed_step_def assms(1))
  then have "run_ok L (q, T)" by (rule hr.reachable_inv [rotated]) (auto simp: fresh_tracker_def)
  then show ?thesis by (simp add: run_ok_def)
qed

section \<open>What the invariant says of the queries\<close>

lemma in_all_hunks:
  assumes "tracker_ok L X T"
  shows "h \<in> set (get_all_hunks T) \<longleftrightarrow> (\<exists>pth st. state_of T pth = Some st \<and> h \<in> set (hunks st))"
  using keys_distinct [OF assms] by (fastforce simp: get_all_hunks_def state_of_map)

lemma all_ids_distinct:
  assumes "distinct (map fst fs)" and "unique_ids U fs n"
  shows "distinct (map h_id (concat (map (\<lambda>(_, st). hunks st) fs)))"
  using assms
proof (induction fs)
  case (Cons e fs)
  obtain p st where e: "e = (p, st)" by (cases e)
  have sub: "map_of (e # fs) q = map_of fs q" if "q \<in> fst ` set fs" for q
    using Cons.prems(1) e that by auto
  have in_fs: "q \<in> fst ` set fs" if "map_of fs q = Some s" for q s
    using that by (metis map_of_SomeD fst_conv imageI)
  have "unique_ids U fs n"
    using Cons.prems(2) sub in_fs unfolding unique_ids_def by metis
  then have tail: "distinct (map h_id (concat (map (\<lambda>(_, st). hunks st) fs)))" using Cons by simp
  have "h_id ` set (hunks st) \<inter> h_id ` set (hunks s) = {}" if "(q, s) \<in> set fs" for q s
  proof -
    have "q \<in> fst ` set fs" using that by force
    moreover have "map_of fs q = Some s" using that Cons.prems(1) by simp
    ultimately show ?thesis
      using unique_ids_disjoint [OF Cons.prems(2), of p st q s] sub [of q] e Cons.prems(1) by auto
  qed
  then have "h_id ` set (hunks st) \<inter> h_id ` set (concat (map (\<lambda>(_, st). hunks st) fs)) = {}"
    by (fastforce simp: disjoint_iff)
  moreover have "distinct (map h_id (hunks st))"
    using unique_ids_file(1) [OF Cons.prems(2), of p st] e by simp
  ultimately show ?case using tail e by simp
qed simp

lemma index_soundD:
  "index_sound U fs ti n \<Longrightarrow> i \<in> set (ti t) \<Longrightarrow> map_of fs p = Some st \<Longrightarrow> h \<in> set (hunks st) \<Longrightarrow> h_id h = i \<Longrightarrow>
     prompt_index (h_source h) = Some t"
  unfolding index_sound_def by blast

lemma turn_query_sound:
  assumes "tracker_ok L X T" and "h \<in> set (get_hunks_for_turn p T)"
  shows "h \<in> set (get_all_hunks T) \<and> prompt_index (h_source h) = Some p"
proof -
  obtain i where i: "i \<in> set (turn_index T p)" "get_hunk T i = Some h"
    using assms(2) by (auto simp: get_hunks_for_turn_def map_filter_def)
  then have h: "h \<in> set (get_all_hunks T)" "h_id h = i" by (auto simp: get_hunk_def find_Some_iff)
  then obtain pth st where "map_of (file_states T) pth = Some st" "h \<in> set (hunks st)"
    using in_all_hunks [OF assms(1)] by (auto simp: state_of_map)
  moreover have "index_sound (l_uuid L) (file_states T) (turn_index T) (drawn T)"
    using assms(1) by (simp add: tracked_ok_def)
  ultimately show ?thesis using h i(1) index_soundD by blast
qed

section \<open>The effect of actions\<close>

lemma body_edits:
  "map body hs = map body hs' \<Longrightarrow> map undo_edit hs = map undo_edit hs' \<and> map redo_edit hs = map redo_edit hs'"
proof -
  assume b: "map body hs = map body hs'"
  have undo: "undo_edit = (\<lambda>(p, l, old, new). (new_start l, new_count l, case old of Some x \<Rightarrow> x | None \<Rightarrow> [])) \<circ> body"
    and redo: "redo_edit = (\<lambda>(p, l, old, new). (old_start l, old_count l, new)) \<circ> body"
    by (auto simp: fun_eq_iff undo_edit_def redo_edit_def body_def)
  show ?thesis unfolding undo redo map_map [symmetric] b by blast
qed

lemma faithful_script:
  assumes "faithful L pth st" and "hunks st \<noteq> []" and "baseline st = Full b" and "current_content st = Full c"
  obtains cs k src where "l_diff L b c = Some cs" and "b \<noteq> c"
    and "map undo_edit (hunks st) = map undo_edit (build_all (l_uuid L) k pth src (scan_changes cs 1 1 None))"
    and "map redo_edit (hunks st) = map redo_edit (build_all (l_uuid L) k pth src (scan_changes cs 1 1 None))"
proof -
  have e: "map body (hunks st) = map body (compute_hunks (l_diff L) (l_uuid L) 0 pth b c External)"
    using assms by (auto simp: faithful_def diff_states_def)
  then have "compute_hunks (l_diff L) (l_uuid L) 0 pth b c External \<noteq> []" using assms(2) by auto
  then obtain cs where "l_diff L b c = Some cs" "b \<noteq> c"
    "compute_hunks (l_diff L) (l_uuid L) 0 pth b c External = build_all (l_uuid L) 0 pth External (scan_changes cs 1 1 None)"
    by (auto simp: compute_hunks_def split: if_splits option.splits)
  with body_edits [OF e] that show thesis by simp
qed

end
