(* ===== verification/Hunk_Properties.thy ===== *)
theory Hunk_Properties
  imports Hunk_Runs
begin

text \<open>The properties of the hunk tracker, with concrete libraries for the examples.\<close>

section \<open>Effects\<close>

lemma recompute_disk [simp]: "disk (recompute_hunks L pth c src T) = disk T"
  by (simp add: recompute_hunks_def Let_def split: option.split)

lemma recompute_state:
  "state_of T pth = Some st \<Longrightarrow>
     state_of (recompute_hunks L pth (Some cur) src T) pth =
       Some (st\<lparr>current_content := cur,
                hunks := preserve_ids (hunks st) [] (diff_states L (drawn T) pth (baseline st) cur src)\<rparr>)"
  by (simp add: recompute_hunks_def Let_def)

lemma diff_states_same [simp]: "diff_states L n pth (Full t) (Full t) src = []"
  by (simp add: diff_states_def compute_hunks_def)

lemma reject_batch_effect:
  assumes "state_of T pth = Some st" and "hs \<noteq> []" and "baseline st = Full b" and "current_content st = Full c"
    and "w_writable W pth" and "disk T pth = File x"
  shows "\<exists>T' ns. reject_hunks_batch L W pth hs T = (None, T') \<and>
    state_of T' pth = Some (st\<lparr>current_content := Full (patch_out hs c), hunks := ns\<rparr>) \<and>
    disk T' = (disk T)(pth := File (as_bytes (patch_out hs c))) \<and> (patch_out hs c = b \<longrightarrow> ns = [])"
  using assms by (auto simp: reject_hunks_batch_def fs_write_def Let_def recompute_state)

lemma accept_batch_effect:
  assumes "state_of T pth = Some st" and "hs \<noteq> []" and "baseline st = Full b" and "current_content st = Full c"
  shows "\<exists>ns. state_of (accept_hunks_batch L pth hs T) pth =
      Some (st\<lparr>baseline := Full (patch_in hs b), baseline_accepted := True, hunks := ns\<rparr>) \<and>
    disk (accept_hunks_batch L pth hs T) = disk T \<and> (patch_in hs b = c \<longrightarrow> ns = [])"
  using assms by (cases st) (auto simp: accept_hunks_batch_def Let_def recompute_state)

lemma reachable_patches:
  assumes "inj (l_uuid L)" and "differ_law (l_diff L)" and "rtranclp (tracker_step L) ([], tracker_new wd m d) (q, T)"
    and "state_of T pth = Some st" and "baseline st = Full b" and "current_content st = Full c"
    and "unix_text b" and "unix_text c" and "hunks st \<noteq> []" and "l_diff L b c = Some cs"
  shows "anchored (segs cs None) \<Longrightarrow> patch_out (filter P (hunks st)) c =
      concat (undone ((\<lambda>h. new_start (h_lines h)) ` set (filter P (hunks st))) 1 (segs cs None))"
    and "anchored (map mirror (segs cs None)) \<Longrightarrow> patch_in (filter P (hunks st)) b =
      concat (undone ((\<lambda>h. old_start (h_lines h)) ` set (filter P (hunks st))) 1 (map mirror (segs cs None)))"
    and "anchored (segs cs None) \<Longrightarrow> patch_out (hunks st) c = b"
    and "anchored (map mirror (segs cs None)) \<Longrightarrow> patch_in (hunks st) b = c"
proof -
  have "tracker_ok L {} T" using reachable_ok [OF assms(1,3)] .
  then have "faithful L pth st" using assms(4) by (auto simp: tracked_ok_def state_of_map)
  from faithful_script [OF this assms(9,5,6)] obtain k src where
    e: "map undo_edit (hunks st) = map undo_edit (build_all (l_uuid L) k pth src (scan_changes cs 1 1 None))"
    "map redo_edit (hunks st) = map redo_edit (build_all (l_uuid L) k pth src (scan_changes cs 1 1 None))"
    using assms(10) by (metis option.inject)
  note u = unix_segs [OF assms(2,10,7,8)]
  show out: "patch_out (filter P (hunks st)) c =
      concat (undone ((\<lambda>h. new_start (h_lines h)) ` set (filter P (hunks st))) 1 (segs cs None))"
    if "anchored (segs cs None)" for P
    using patch_out_undone [OF e(1) u(1) that, of P] u(3) by simp
  show into: "patch_in (filter P (hunks st)) b =
      concat (undone ((\<lambda>h. old_start (h_lines h)) ` set (filter P (hunks st))) 1 (map mirror (segs cs None)))"
    if "anchored (map mirror (segs cs None))" for P
    using patch_in_undone [OF e(2) u(1) that, of P] u(2) by simp
  show "patch_out (hunks st) c = b" if "anchored (segs cs None)"
    using out [OF that, of "\<lambda>_. True"] undone_every [OF e(1)] u(2) by simp
  show "patch_in (hunks st) b = c" if "anchored (map mirror (segs cs None))"
    using into [OF that, of "\<lambda>_. True"] undone_every_in [OF e(2)] u(3) by simp
qed

section \<open>Examples\<close>

text \<open>A line diff that compares line by line, and UUIDs that are distinct.\<close>

fun pos_diff :: "ustr list \<Rightarrow> ustr list \<Rightarrow> change list" where
  "pos_diff [] ys = map InsertLine ys"
| "pos_diff (x # xs) [] = map DeleteLine (x # xs)"
| "pos_diff (x # xs) (y # ys) =
     (if x = y then [Equal x] else [DeleteLine x, InsertLine y]) @ pos_diff xs ys"

definition demo_libs :: libs where
  "demo_libs = \<lparr>l_diff = (\<lambda>b c. Some (pos_diff (lines_incl b) (lines_incl c))), l_uuid = (\<lambda>n. replicate n 97)\<rparr>"

definition demo_world :: "ustr \<Rightarrow> bool \<Rightarrow> world" where
  "demo_world head writable =
     \<lparr>w_repo = True, w_head = (\<lambda>_. Blob (as_bytes head)), w_status = (\<lambda>_. ([], [])), w_sync = None,
      w_writable = (\<lambda>_. writable)\<rparr>"

abbreviation "demo_path \<equiv> u ''/w/f''"
abbreviation "demo_head \<equiv> [97, 10, 98, 10, 99, 10] :: ustr"
abbreviation "demo_text \<equiv> [120, 10, 98, 10, 122, 10] :: ustr"
abbreviation "demo_init \<equiv> tracker_new (u ''/w'') AgentOnly (\<lambda>_. File demo_text)"
abbreviation "demo_write \<equiv> RecordAgentWrite demo_path demo_text 2 None"
abbreviation "demo_T \<equiv> tracker_command_step demo_libs (demo_world demo_head True) demo_write demo_init"

lemma pos_diff_sides: "old_side (pos_diff xs ys) = xs" "new_side (pos_diff xs ys) = ys"
proof -
  have m: "old_side (map InsertLine zs) = []" "new_side (map InsertLine zs) = zs"
    "old_side (map DeleteLine zs) = zs" "new_side (map DeleteLine zs) = []" for zs
    by (induction zs) auto
  show "old_side (pos_diff xs ys) = xs" "new_side (pos_diff xs ys) = ys"
    by (induction xs ys rule: pos_diff.induct) (auto simp: m)
qed

lemma demo_libs_ok: "inj (l_uuid demo_libs)" "differ_law (l_diff demo_libs)"
  by (auto simp: demo_libs_def differ_law_def pos_diff_sides inj_def dest: arg_cong [of _ _ length])

lemma demo_reachable: "rtranclp (tracker_step demo_libs) ([], demo_init) ([], demo_T)"
proof -
  have "tracker_step demo_libs ([], demo_init) ([] @ [demo_write], demo_init)" by (rule step_queue) simp
  moreover have "tracker_turn demo_libs (demo_world demo_head True) [demo_write] demo_init = ([], demo_T)"
    by (simp add: tracker_turn_def is_coalescable_def)
  then have "tracker_step demo_libs ([demo_write], demo_init) ([], demo_T)"
    using step_turn [of demo_libs "[demo_write]" demo_init "demo_world demo_head True"] by simp
  ultimately show ?thesis by (simp add: converse_rtranclp_into_rtranclp)
qed

lemma preserve_none [simp]: "preserve_ids [] claimed ns = ns"
  by (induction ns) (auto simp: find_matching_old_hunk_def)

lemma first_write_state:
  assumes "classify_string content = Full content" and "state_of T pth = None" and "read_baseline W pth = Full b"
  shows "state_of (record_agent_write L W pth content p previous T) pth =
    Some \<lparr>baseline = Full b, current_content = Full content,
          hunks = diff_states L (drawn T) pth (Full b) (Full content) (AgentEdit p),
          is_agent_file = True, baseline_accepted = False\<rparr>"
  using assms by (simp add: record_agent_write_def is_diffable_def recompute_state new_state_def Let_def)

lemmas classify_eval = classify_string_def classify_bytes_def from_utf8_def is_lfs_pointer_def
  LFS_POINTER_PREFIX_def is_binary_def MAX_TRACKED_TEXT_BYTES_def as_bytes_def utf8_char_def read_baseline_def
  demo_world_def

lemmas diff_eval = diff_states_def compute_hunks_def MAX_DIFF_FILE_SIZE_def build_all_def build_def builder_new_def
  add_old_line_def add_new_line_def as_bytes_def utf8_char_def demo_libs_def

lemma demo_contents: "classify_string demo_text = Full demo_text" "read_baseline (demo_world demo_head w) pth = Full demo_head"
  by (simp_all add: classify_eval str_simps)

definition demo_hunks :: "hunk list" where
  "demo_hunks =
     [\<lparr>h_id = [], h_path = demo_path, h_lines = \<lparr>old_start = 1, old_count = 1, new_start = 1, new_count = 1\<rparr>,
       h_source = AgentEdit 2, h_old = Some [97, 10], h_new = [120, 10], h_patch = None\<rparr>,
      \<lparr>h_id = [97], h_path = demo_path, h_lines = \<lparr>old_start = 3, old_count = 1, new_start = 3, new_count = 1\<rparr>,
       h_source = AgentEdit 2, h_old = Some [99, 10], h_new = [122, 10], h_patch = None\<rparr>]"

definition demo_state :: file_hunk_state where
  "demo_state =
     \<lparr>baseline = Full demo_head, current_content = Full demo_text, hunks = demo_hunks, is_agent_file = True,
      baseline_accepted = False\<rparr>"

lemma first_write_parts:
  assumes "classify_string content = Full content" and "state_of T pth = None" and "read_baseline W pth = Full b"
    and "hs = diff_states L (drawn T) pth (Full b) (Full content) (AgentEdit p)"
  shows "file_states (record_agent_write L W pth content p previous T) =
      AList.update pth \<lparr>baseline = Full b, current_content = Full content, hunks = hs, is_agent_file = True,
        baseline_accepted = False\<rparr> (file_states T)"
    and "turn_index (record_agent_write L W pth content p previous T) = fold index_add hs (turn_index T)"
    and "stats (record_agent_write L W pth content p previous T) = stats T"
    and "disk (record_agent_write L W pth content p previous T) = disk T"
  using assms
  by (simp_all add: record_agent_write_def is_diffable_def new_state_def recompute_hunks_def Let_def)
    (simp_all add: put_state_def send_events_def)

lemma demo_T_state: "state_of demo_T demo_path = Some demo_state"
proof -
  have "diff_states demo_libs 0 demo_path (Full demo_head) (Full demo_text) (AgentEdit 2) = demo_hunks"
    by (simp add: diff_eval demo_hunks_def)
  moreover have "state_of demo_init demo_path = None" "drawn demo_init = 0"
    by (simp_all add: tracker_new_def state_of_def)
  ultimately show ?thesis
    using first_write_state [OF demo_contents(1), of demo_init demo_path "demo_world demo_head True" demo_head demo_libs 2 None]
      demo_contents(2) by (simp add: tracker_command_step_def demo_state_def)
qed

lemma demo_T_parts:
  "file_states demo_T = [(demo_path, demo_state)]" "turn_index demo_T 2 = [[], [97]]" "stats demo_T = no_stats"
proof -
  have hs: "demo_hunks = diff_states demo_libs (drawn demo_init) demo_path (Full demo_head) (Full demo_text) (AgentEdit 2)"
    by (simp add: diff_eval demo_hunks_def tracker_new_def)
  have "state_of demo_init demo_path = None" by (simp add: tracker_new_def state_of_def)
  note p = first_write_parts [OF demo_contents(1) this demo_contents(2) hs]
  show "file_states demo_T = [(demo_path, demo_state)]" "turn_index demo_T 2 = [[], [97]]" "stats demo_T = no_stats"
    using p by (simp_all add: tracker_command_step_def demo_state_def tracker_new_def)
      (simp add: demo_hunks_def index_add_def prompt_index_def)
qed

section \<open>Properties\<close>

text \<open>
  C24. In every state the tracker can reach, whatever commands arrive and whatever other programs do to
  the disk: the hunks shown for a file are none or exactly the diff of its baseline against its
  current content; no two hunks share an identifier; and asking for the hunks of a turn returns only
  pending hunks of that turn. The assumptions are that UUIDs are distinct and that a snapshot that is
  restored is well formed (\<open>snapshot_ok\<close>); every snapshot taken in a reachable state is, and stays so
  while further UUIDs are drawn.
\<close>

theorem tracker_keeps_diffs:
  assumes "inj (l_uuid L)" and "rtranclp (tracker_step L) ([], tracker_new wd m d) (q, T)"
  shows "(\<forall>pth st. state_of T pth = Some st \<longrightarrow> hunks st = [] \<or>
       map body (hunks st) = map body (diff_states L 0 pth (baseline st) (current_content st) External)) \<and>
    distinct (map h_id (get_all_hunks T)) \<and>
    (\<forall>p. \<forall>h \<in> set (get_hunks_for_turn p T). h \<in> set (get_all_hunks T) \<and> prompt_index (h_source h) = Some p) \<and>
    (\<forall>k. snapshot_ok L (drawn T + k) (take_snapshot T))"
proof -
  have ok: "tracker_ok L {} T" using reachable_ok [OF assms] .
  then have "snapshot_ok L (drawn T + k) (take_snapshot T)" for k
    unfolding snapshot_ok_def take_snapshot_def by (auto intro: tracked_ok_mono)
  moreover have "state_of T pth = Some st \<Longrightarrow> faithful L pth st" for pth st
    using ok by (auto simp: tracked_ok_def state_of_map)
  moreover have "distinct (map h_id (get_all_hunks T))"
    unfolding get_all_hunks_def using ok by (intro all_ids_distinct) (auto simp: tracked_ok_def)
  ultimately show ?thesis using turn_query_sound [OF ok] unfolding faithful_def by blast
qed


theorem tracker_keeps_diffs_witness:
  "inj (l_uuid demo_libs) \<and>
   map body (hunks demo_state) = map body (diff_states demo_libs 0 demo_path (Full demo_head) (Full demo_text) External) \<and>
   distinct (map h_id (get_all_hunks demo_T))"
proof -
  note t = tracker_keeps_diffs [OF demo_libs_ok(1) demo_reachable]
  have "hunks demo_state \<noteq> []" by (simp add: demo_state_def demo_hunks_def)
  then have "map body (hunks demo_state) =
      map body (diff_states demo_libs 0 demo_path (baseline demo_state) (current_content demo_state) External)"
    using t demo_T_state by blast
  then show ?thesis using t demo_libs_ok(1) by (simp add: demo_state_def)
qed




lemma failed_reject:
  "(\<exists>T'. apply_hunk_action demo_libs (demo_world demo_head False) [] Reject demo_T = (Some (WriteError demo_path), T') \<and>
      state_of T' demo_path = Some demo_state \<and> [] \<notin> set (turn_index T' 2) \<and> rejected_hunks (stats T') = 1)"
proof -
  let ?h = "hd demo_hunks"
  have "locate_hunk demo_T [] = Some (demo_path, ?h)"
    by (simp add: locate_hunk_def demo_T_parts demo_state_def demo_hunks_def)
  moreover have "fs_write (demo_world demo_head False) demo_path t T = Inl (WriteError demo_path)" for t T
    by (simp add: fs_write_def demo_world_def)
  ultimately have "apply_hunk_action demo_libs (demo_world demo_head False) [] Reject demo_T =
      (Some (WriteError demo_path), note_action Reject ?h demo_T)"
    using demo_T_state by (simp add: apply_hunk_action_def reject_hunk_def demo_state_def Let_def)
  moreover have "[] \<notin> set (turn_index (note_action Reject ?h demo_T) 2)" "rejected_hunks (stats (note_action Reject ?h demo_T)) = 1"
    by (simp_all add: note_action_def index_remove_def prompt_index_def demo_hunks_def demo_T_parts
        update_session_stats_def no_stats_def sat_add_def u64_max_def)
  ultimately show ?thesis using demo_T_state by simp
qed

lemma binary_shown_deleted:
  "(\<exists>st. state_of (handle_file_change demo_libs (demo_world demo_head True) demo_path
             (tracker_new (u ''/w'') AllDirty (\<lambda>_. File [0]))) demo_path = Some st \<and>
      current_content st = Missing \<and> map h_old (hunks st) = [Some demo_head] \<and> map h_new (hunks st) = [[]])"
proof -
  have "read_file_bounded (File [0]) = Binary (Some 1)"
    by (simp add: read_file_bounded_def classify_eval str_simps)
  then show ?thesis
    by (simp add: handle_file_change_def process_file_change_def demo_contents(2) git_ignored_def is_diffable_def
        new_state_def recompute_hunks_def diff_states_def file_deleted_def tracker_new_def state_of_def Let_def put_state_def send_events_def
        del: preserve_ids.simps)
qed

lemma deletion_overtakes:
  "(let queue = [HandleFileChange (u ''/w/g''), demo_write, HandleFileDeleted demo_path];
        T0 = tracker_new (u ''/w'') AgentOnly (\<lambda>_. NoFile); W = demo_world demo_head True in
    map_option current_content (state_of (snd (tracker_turn demo_libs W queue T0)) demo_path) = Some (Full demo_text) \<and>
    map_option current_content (state_of (fold (tracker_command_step demo_libs W) queue T0) demo_path) = Some Missing)"
proof -
  let ?W = "demo_world demo_head True" and ?T0 = "tracker_new (u ''/w'') AgentOnly (\<lambda>_. NoFile)"
  let ?T1 = "record_agent_write demo_libs ?W demo_path demo_text 2 None ?T0"
  have none: "state_of ?T0 p = None" "mode ?T0 = AgentOnly" for p by (simp_all add: tracker_new_def state_of_def)
  note w = first_write_state [OF demo_contents(1) none(1) demo_contents(2) [of True]]
  have skip: "handle_file_change demo_libs ?W p ?T0 = ?T0" "handle_file_deleted demo_libs ?W p ?T0 = ?T0"
    "handle_file_changes_batch demo_libs ?W [p] ?T0 = ?T0" for p
    using none by (simp_all add: handle_file_change_def handle_file_deleted_def handle_file_changes_batch_def process_file_change_def Let_def)
  have "disk ?T1 demo_path = NoFile"
    using first_write_parts(4) [OF demo_contents(1) none(1) demo_contents(2) [of True] refl] by (simp add: tracker_new_def)
  then have "map_option current_content (state_of (handle_file_deleted demo_libs ?W demo_path ?T1) demo_path) = Some Missing"
    using w by (simp add: handle_file_deleted_def path_exists_def recompute_hunks_def Let_def)
  then show ?thesis
    using w skip none
    by (simp add: tracker_turn_def is_coalescable_def drain_and_coalesce_def batch_add_def batch_new_def
        handle_coalesced_batch_def tracker_command_step_def Let_def str_simps)
qed

text \<open>
  Seven places where the tracker does not do what it means to. Rejecting a hunk of a file with CRLF
  line ends rewrites every line end of the file. Rejecting the emptying of a file loses the final line
  feed. Restoring a text of one blank line writes an empty file. A rejection whose write fails still
  counts as rejected and drops the pending hunk from its turn. A committed text replaced on disk by a
  binary file is shown as deleted. A deletion queued behind an agent write is handled before it, so the
  tracker goes on showing a text that is not on disk. The patch of a hunk below an insertion gives
  its position in the old text as position in the new text.
\<close>

lemma hunk_gaps:
  "patch_lines [97, 13, 10, 98, 13, 10] 2 1 [120, 13, 10] = [97, 10, 120, 10] \<and>
   patch_lines [] 1 0 [97, 10] = [97] \<and>
   patch_lines [97, 10] 1 1 [10] = [] \<and>
   (\<exists>T'. apply_hunk_action demo_libs (demo_world demo_head False) [] Reject demo_T = (Some (WriteError demo_path), T') \<and>
      state_of T' demo_path = Some demo_state \<and> [] \<notin> set (turn_index T' 2) \<and> rejected_hunks (stats T') = 1) \<and>
   (\<exists>st. state_of (handle_file_change demo_libs (demo_world demo_head True) demo_path
             (tracker_new (u ''/w'') AllDirty (\<lambda>_. File [0]))) demo_path = Some st \<and>
      current_content st = Missing \<and> map h_old (hunks st) = [Some demo_head] \<and> map h_new (hunks st) = [[]]) \<and>
   (let queue = [HandleFileChange (u ''/w/g''), demo_write, HandleFileDeleted demo_path];
        T0 = tracker_new (u ''/w'') AgentOnly (\<lambda>_. NoFile); W = demo_world demo_head True in
    map_option current_content (state_of (snd (tracker_turn demo_libs W queue T0)) demo_path) = Some (Full demo_text) \<and>
    map_option current_content (state_of (fold (tracker_command_step demo_libs W) queue T0) demo_path) = Some Missing) \<and>
   (let base = [97, 10, 98, 10, 99, 10]; cur = [120, 10, 97, 10, 98, 10, 121, 10] in
    map (generate_hunk_patch base cur) [\<lparr>h_id = [], h_path = demo_path,
        h_lines = \<lparr>old_start = 3, old_count = 1, new_start = 4, new_count = 1\<rparr>,
        h_source = External, h_old = Some [99, 10], h_new = [121, 10], h_patch = None\<rparr>] =
      [Some (u ''@@ -1,3 +1,3 @@'' @ [10] @ u '' a'' @ [10] @ u '' b'' @ [10] @ u ''-c'' @ [10] @ u ''+y'' @ [10])])"
  (is "?crlf \<and> ?emptied \<and> ?blank \<and> ?failed \<and> ?binary \<and> ?order \<and> ?patch")
proof -
  have ?crlf ?emptied ?blank
    by (simp_all add: patch_lines_def str_lines_def strip_cr_def str_simps)
  moreover note failed_reject binary_shown_deleted deletion_overtakes
  moreover have ?patch
    by (simp add: generate_hunk_patch_def str_lines_def strip_cr_def str_simps CONTEXT_LINES_def hunk_header_def
        prefixed_def slice_def show_nat.simps Let_def)
  ultimately show ?thesis by blast
qed

end
