(* ===== verification/Conversation.thy ===== *)
theory Conversation
  imports Utf8
begin

text \<open>
  Conversations (\<^verbatim>\<open>codegen/xai-grok-sampling-types/src/conversation.rs\<close>): the items a conversation is made
  of, the text of an item, the repair of tool calls without result and of duplicated results, and the
  place where a conversation is cut when the user goes back to an earlier prompt.

  The items wrap types of the Responses API client; their fields are those the code reads or sets.
  Slicing a string in the middle of a character panics; \<open>None\<close> is that panic. A loop that walks an
  index over the vector is a recursion over the rest of the list.
\<close>

section \<open>Items\<close>

datatype content_part = TextPart ustr | ImagePart ustr

datatype synthetic_reason =
    CompactionMeta | SystemReminder | ProjectInstructions | AutoContinue | AutoRecovery | Interjection
  | TaskCompleted | SubagentCompleted | NotificationDrain | GoalSummary | GoalClassifierNudge
  | SchedulerFired | UnknownReason

definition starts_prompt_turn :: "synthetic_reason \<Rightarrow> bool" where
  "starts_prompt_turn r \<longleftrightarrow>
     r \<in> {TaskCompleted, SubagentCompleted, NotificationDrain, GoalClassifierNudge, SchedulerFired}"

datatype prior_turn_interrupt =
    MidTurnAbort | PermissionRejected | PermissionCancelled | UnknownInterrupt

record user_item =
  user_content :: "content_part list"
  synthetic_reason :: "synthetic_reason option"
  prior_turn_interrupt :: "prior_turn_interrupt option"
  item_prompt_index :: "nat option"

record tool_call =
  call_id :: ustr
  call_name :: ustr
  call_arguments :: ustr

datatype reasoning_effort = NoEffort | Minimal | Low | Medium | High | Xhigh

record assistant_item =
  assistant_content :: ustr
  tool_calls :: "tool_call list"
  model_id :: "ustr option"
  model_fingerprint :: "ustr option"
  item_reasoning_effort :: "reasoning_effort option"

record tool_result_item =
  tool_call_id :: ustr
  result_content :: ustr
  result_images :: "content_part list"

datatype web_search_action =
    Search ustr | OpenPage "ustr option" | FindAction ustr ustr | FindInPage ustr ustr

datatype backend_tool_kind =
    WebSearch ustr web_search_action
  | XSearch ustr ustr ustr
  | CodeInterpreter ustr "ustr option"

record reasoning_item =
  reasoning_id :: ustr
  summary_parts :: "ustr list"
  reasoning_content :: "ustr list option"
  encrypted_content :: "ustr option"

datatype conversation_item =
    System ustr
  | User user_item
  | Assistant assistant_item
  | ToolResult tool_result_item
  | BackendToolCall backend_tool_kind
  | Reasoning reasoning_item

definition user_with_reason :: "synthetic_reason option \<Rightarrow> ustr \<Rightarrow> conversation_item" where
  "user_with_reason r text =
     User \<lparr>user_content = [TextPart text], synthetic_reason = r, prior_turn_interrupt = None,
           item_prompt_index = None\<rparr>"

definition user :: "ustr \<Rightarrow> conversation_item" where "user = user_with_reason None"
definition user_meta :: "ustr \<Rightarrow> conversation_item" where "user_meta = user_with_reason (Some CompactionMeta)"
definition system_reminder :: "ustr \<Rightarrow> conversation_item" where
  "system_reminder = user_with_reason (Some SystemReminder)"
definition project_instructions :: "ustr \<Rightarrow> conversation_item" where
  "project_instructions = user_with_reason (Some ProjectInstructions)"

definition assistant_tool_calls :: "tool_call list \<Rightarrow> conversation_item" where
  "assistant_tool_calls cs =
     Assistant \<lparr>assistant_content = [], tool_calls = cs, model_id = None, model_fingerprint = None,
                item_reasoning_effort = None\<rparr>"

definition tool_result :: "ustr \<Rightarrow> ustr \<Rightarrow> conversation_item" where
  "tool_result i c = ToolResult \<lparr>tool_call_id = i, result_content = c, result_images = []\<rparr>"

section \<open>Text of an item\<close>

text \<open>\<^verbatim>\<open>&s[..n]\<close> panics unless \<open>n\<close> bytes end at a character boundary.\<close>

fun slice_to :: "nat \<Rightarrow> ustr \<Rightarrow> ustr option" where
  "slice_to 0 s = Some []"
| "slice_to (Suc n) [] = None"
| "slice_to (Suc n) (c # cs) =
     (if length (utf8_char c) \<le> Suc n then map_option ((#) c) (slice_to (Suc n - length (utf8_char c)) cs)
      else None)"

definition code_preview :: "ustr \<Rightarrow> ustr option" where
  "code_preview c =
     (if 100 < length (as_bytes c) then map_option (\<lambda>p. p @ u ''...'') (slice_to 100 c) else Some c)"

definition action_desc :: "web_search_action \<Rightarrow> ustr" where
  "action_desc a =
     (case a of
        Search q \<Rightarrow> u ''search: '' @ q
      | OpenPage url \<Rightarrow> u ''open: '' @ (case url of None \<Rightarrow> u ''?'' | Some x \<Rightarrow> x)
      | FindAction p url \<Rightarrow> u ''find '' @ [34] @ p @ [34] @ u '' in '' @ url
      | FindInPage p url \<Rightarrow> u ''find '' @ [34] @ p @ [34] @ u '' in '' @ url)"

definition text_summary :: "backend_tool_kind \<Rightarrow> ustr option" where
  "text_summary k =
     (case k of
        WebSearch _ a \<Rightarrow> Some (u ''[backend web_search] '' @ action_desc a)
      | XSearch _ name input \<Rightarrow> Some (u ''[backend x_search] '' @ name @ u ''('' @ input @ u '')'')
      | CodeInterpreter _ code \<Rightarrow>
          map_option (\<lambda>p. u ''[backend code_interpreter] '' @ p)
            (case code of None \<Rightarrow> Some [] | Some c \<Rightarrow> code_preview c))"

definition reasoning_item_text :: "reasoning_item \<Rightarrow> ustr" where
  "reasoning_item_text r =
     join [10] (summary_parts r @ (case reasoning_content r of None \<Rightarrow> [] | Some cs \<Rightarrow> cs))"

definition part_text :: "content_part \<Rightarrow> ustr option" where
  "part_text p = (case p of TextPart t \<Rightarrow> Some t | ImagePart _ \<Rightarrow> None)"

definition text_content :: "conversation_item \<Rightarrow> ustr option" where
  "text_content item =
     (case item of
        System s \<Rightarrow> Some s
      | User x \<Rightarrow> Some (join [10] (List.map_filter part_text (user_content x)))
      | Assistant a \<Rightarrow> Some (assistant_content a)
      | ToolResult t \<Rightarrow> Some (result_content t)
      | BackendToolCall b \<Rightarrow> text_summary b
      | Reasoning r \<Rightarrow> Some (reasoning_item_text r))"

section \<open>Repair of tool calls\<close>

definition is_result :: "conversation_item \<Rightarrow> bool" where
  "is_result x \<longleftrightarrow> (case x of ToolResult _ \<Rightarrow> True | _ \<Rightarrow> False)"

definition is_user :: "conversation_item \<Rightarrow> bool" where
  "is_user x \<longleftrightarrow> (case x of User _ \<Rightarrow> True | _ \<Rightarrow> False)"

definition result_id :: "conversation_item \<Rightarrow> ustr option" where
  "result_id x = (case x of ToolResult t \<Rightarrow> Some (tool_call_id t) | _ \<Rightarrow> None)"

definition call_ids :: "conversation_item \<Rightarrow> ustr list" where
  "call_ids x = (case x of Assistant a \<Rightarrow> map call_id (tool_calls a) | _ \<Rightarrow> [])"

datatype dangling_tool_call_reason = UserCancelled | HarnessHalted ustr

definition synthetic_dangling_result_text :: "ustr \<Rightarrow> dangling_tool_call_reason \<Rightarrow> ustr" where
  "synthetic_dangling_result_text name reason =
     (case reason of
        UserCancelled \<Rightarrow>
          u ''Tool execution was cancelled by the user (tool `'' @ name @ u ''` was not executed).''
      | HarnessHalted class \<Rightarrow>
          u ''Tool execution was halted by the harness ('' @ class @ u ''); the tool `'' @ name
          @ u ''` was not executed.'')"

definition synthetic_results ::
  "dangling_tool_call_reason \<Rightarrow> tool_call list \<Rightarrow> conversation_item list \<Rightarrow> conversation_item list" where
  "synthetic_results reason calls run =
     map (\<lambda>tc. tool_result (call_id tc) (synthetic_dangling_result_text (call_name tc) reason))
       (filter (\<lambda>tc. Some (call_id tc) \<notin> set (map result_id run)) calls)"

lemma length_dropWhile_less: "length (dropWhile P xs) < Suc (length xs)"
  using length_dropWhile_le [of P xs] by simp

text \<open>The conversation with the missing results filled in, and their number.\<close>

function repair_dangling_tool_calls ::
  "dangling_tool_call_reason \<Rightarrow> conversation_item list \<Rightarrow> conversation_item list \<times> nat" where
  "repair_dangling_tool_calls reason [] = ([], 0)"
| "repair_dangling_tool_calls reason (x # xs) =
     (case x of
        Assistant a \<Rightarrow>
          if tool_calls a \<noteq> [] then
            let run = takeWhile is_result xs;
                synthetic = synthetic_results reason (tool_calls a) run;
                (rest, n) = repair_dangling_tool_calls reason (dropWhile is_result xs)
            in (x # run @ synthetic @ rest, length synthetic + n)
          else let (rest, n) = repair_dangling_tool_calls reason xs in (x # rest, n)
      | _ \<Rightarrow> let (rest, n) = repair_dangling_tool_calls reason xs in (x # rest, n))"
  by pat_completeness auto
termination repair_dangling_tool_calls
  by (relation "measure (\<lambda>(reason, xs). length xs)") (auto simp: length_dropWhile_less)

function has_dangling_tool_calls :: "conversation_item list \<Rightarrow> bool" where
  "has_dangling_tool_calls [] = False"
| "has_dangling_tool_calls (x # xs) =
     (case x of
        Assistant a \<Rightarrow>
          if tool_calls a \<noteq> [] then
            if list_ex (\<lambda>tc. Some (call_id tc) \<notin> set (map result_id (takeWhile is_result xs))) (tool_calls a)
            then True
            else has_dangling_tool_calls (dropWhile is_result xs)
          else has_dangling_tool_calls xs
      | _ \<Rightarrow> has_dangling_tool_calls xs)"
  by pat_completeness auto
termination has_dangling_tool_calls
  by (relation "measure length") (auto simp: length_dropWhile_less)

text \<open>Of the results with the same identifier the last one is kept.\<close>

fun keep_last :: "conversation_item list \<Rightarrow> conversation_item list" where
  "keep_last [] = []"
| "keep_last (x # xs) =
     (if result_id x \<in> set (map result_id xs) then keep_last xs else x # keep_last xs)"

lemma length_keep_last: "length (keep_last xs) \<le> length xs"
  by (induction xs) auto

lemma keep_last_shorter: "keep_last xs \<noteq> xs \<Longrightarrow> length (keep_last xs) < length xs"
proof (induction xs)
  case (Cons x xs)
  then show ?case using length_keep_last [of xs] by (auto split: if_splits)
qed simp

lemma length_takeWhile_dropWhile: "length (takeWhile P xs) + length (dropWhile P xs) = length xs"
  by (metis length_append takeWhile_dropWhile_id)

text \<open>After a removal the same assistant message is scanned again.\<close>

function dedup_duplicate_tool_results :: "conversation_item list \<Rightarrow> conversation_item list \<times> nat" where
  "dedup_duplicate_tool_results [] = ([], 0)"
| "dedup_duplicate_tool_results (x # xs) =
     (case x of
        Assistant a \<Rightarrow>
          if tool_calls a \<noteq> [] then
            let run = takeWhile is_result xs; after = dropWhile is_result xs; kept = keep_last run
            in if kept \<noteq> run then
                 let (rest, n) = dedup_duplicate_tool_results (x # kept @ after)
                 in (rest, length run - length kept + n)
               else let (rest, n) = dedup_duplicate_tool_results after in (x # run @ rest, n)
          else let (rest, n) = dedup_duplicate_tool_results xs in (x # rest, n)
      | _ \<Rightarrow> let (rest, n) = dedup_duplicate_tool_results xs in (x # rest, n))"
  by pat_completeness auto
termination dedup_duplicate_tool_results
proof (relation "measure length", goal_cases)
  case (4 x xs a run after kept)
  have "length kept < length run" using 4 keep_last_shorter [of run] by simp
  moreover have "length run + length after = length xs"
    using 4 length_takeWhile_dropWhile [of is_result xs] by simp
  ultimately show ?case by simp
qed (auto simp: length_dropWhile_less)

declare repair_dangling_tool_calls.simps [simp del] has_dangling_tool_calls.simps [simp del]
  dedup_duplicate_tool_results.simps [simp del]

text \<open>
  Results outside the run of results after the assistant message that declares their identifier are
  dropped (\<^verbatim>\<open>codegen/xai-chat-state/src/compaction_utils.rs\<close>); \<open>run_ids\<close> are the identifiers of the
  last assistant message while only results have followed it.
\<close>

fun strip_displaced :: "ustr list \<Rightarrow> conversation_item list \<Rightarrow> conversation_item list \<times> ustr list" where
  "strip_displaced run_ids [] = ([], [])"
| "strip_displaced run_ids (x # xs) =
     (case x of
        Assistant a \<Rightarrow> let (rest, ids) = strip_displaced (map call_id (tool_calls a)) xs in (x # rest, ids)
      | ToolResult t \<Rightarrow>
          let (rest, ids) = strip_displaced run_ids xs
          in if tool_call_id t \<in> set run_ids then (x # rest, ids) else (rest, tool_call_id t # ids)
      | _ \<Rightarrow> let (rest, ids) = strip_displaced [] xs in (x # rest, ids))"

definition strip_displaced_tool_results :: "conversation_item list \<Rightarrow> conversation_item list \<times> ustr list" where
  "strip_displaced_tool_results = strip_displaced []"

record history_repair_report =
  duplicates_removed :: nat
  stripped_tool_result_ids :: "ustr list"
  synthetic_results_inserted :: nat

definition report_changed :: "history_repair_report \<Rightarrow> bool" where
  "report_changed r \<longleftrightarrow>
     0 < duplicates_removed r \<or> stripped_tool_result_ids r \<noteq> [] \<or> 0 < synthetic_results_inserted r"

definition repair_history :: "conversation_item list \<Rightarrow> conversation_item list \<times> history_repair_report" where
  "repair_history items =
     (let (items1, d) = dedup_duplicate_tool_results items;
          (items2, ids) = strip_displaced_tool_results items1;
          (items3, n) = repair_dangling_tool_calls (HarnessHalted (u ''history_repair'')) items2
      in (items3, \<lparr>duplicates_removed = d, stripped_tool_result_ids = ids, synthetic_results_inserted = n\<rparr>))"

fun validate_from :: "ustr list \<Rightarrow> conversation_item list \<Rightarrow> ustr list" where
  "validate_from seen [] = []"
| "validate_from seen (x # xs) =
     (case x of
        Assistant a \<Rightarrow> validate_from (map call_id (tool_calls a) @ seen) xs
      | ToolResult t \<Rightarrow>
          (if tool_call_id t \<in> set seen then [] else [tool_call_id t]) @ validate_from seen xs
      | _ \<Rightarrow> validate_from seen xs)"

definition validate_compacted_history :: "conversation_item list \<Rightarrow> ustr list" where
  "validate_compacted_history = validate_from []"

fun sanitize_from :: "ustr list \<Rightarrow> conversation_item list \<Rightarrow> conversation_item list \<times> ustr list" where
  "sanitize_from seen [] = ([], [])"
| "sanitize_from seen (x # xs) =
     (case x of
        Assistant a \<Rightarrow> let (rest, ids) = sanitize_from (map call_id (tool_calls a) @ seen) xs in (x # rest, ids)
      | ToolResult t \<Rightarrow>
          let (rest, ids) = sanitize_from seen xs
          in if tool_call_id t \<in> set seen then (x # rest, ids) else (rest, tool_call_id t # ids)
      | _ \<Rightarrow> let (rest, ids) = sanitize_from seen xs in (x # rest, ids))"

definition sanitize_compacted_history :: "conversation_item list \<Rightarrow> conversation_item list \<times> ustr list" where
  "sanitize_compacted_history = sanitize_from []"

section \<open>Going back to an earlier prompt\<close>

text \<open>
  How many items to keep so that the turn of a prompt and everything after it is dropped. \<open>i\<close> is the
  index of the first item of the list, \<open>next\<close> the index of the next prompt without marker, \<open>seen\<close>
  whether the preamble (the first user message without marker) has been passed.
\<close>

fun truncate_markers_only :: "nat \<Rightarrow> nat \<Rightarrow> conversation_item list \<Rightarrow> nat" where
  "truncate_markers_only target i [] = i"
| "truncate_markers_only target i (x # xs) =
     (case x of
        User m \<Rightarrow>
          (case item_prompt_index m of
             Some idx \<Rightarrow> if target \<le> idx then i else truncate_markers_only target (Suc i) xs
           | None \<Rightarrow> truncate_markers_only target (Suc i) xs)
      | _ \<Rightarrow> truncate_markers_only target (Suc i) xs)"

text \<open>The effective index of a user message without marker, and whether the preamble has been seen.\<close>

definition unmarked_index :: "nat \<Rightarrow> bool \<Rightarrow> user_item \<Rightarrow> nat option \<times> bool" where
  "unmarked_index next seen m =
     (case synthetic_reason m of
        None \<Rightarrow> if \<not> seen then (None, True) else (Some next, seen)
      | Some r \<Rightarrow> if starts_prompt_turn r then (Some next, seen) else (None, seen))"

fun truncate_legacy :: "nat \<Rightarrow> nat \<Rightarrow> bool \<Rightarrow> nat \<Rightarrow> conversation_item list \<Rightarrow> nat" where
  "truncate_legacy target next seen i [] = i"
| "truncate_legacy target next seen i (x # xs) =
     (case x of
        User m \<Rightarrow>
          (case unmarked_index next seen m of
             (Some idx, seen') \<Rightarrow> if target \<le> idx then i else truncate_legacy target (idx + 1) seen' (Suc i) xs
           | (None, seen') \<Rightarrow> truncate_legacy target next seen' (Suc i) xs)
      | _ \<Rightarrow> truncate_legacy target next seen (Suc i) xs)"

fun count_legacy_turns :: "nat \<Rightarrow> bool \<Rightarrow> conversation_item list \<Rightarrow> nat" where
  "count_legacy_turns turns seen [] = turns"
| "count_legacy_turns turns seen (x # xs) =
     (case x of
        User m \<Rightarrow>
          if item_prompt_index m \<noteq> None then turns
          else (case unmarked_index turns seen m of
                  (Some idx, seen') \<Rightarrow> count_legacy_turns (turns + 1) seen' xs
                | (None, seen') \<Rightarrow> count_legacy_turns turns seen' xs)
      | _ \<Rightarrow> count_legacy_turns turns seen xs)"

fun truncate_progressive ::
  "nat \<Rightarrow> nat \<Rightarrow> bool \<Rightarrow> bool \<Rightarrow> nat \<Rightarrow> conversation_item list \<Rightarrow> nat" where
  "truncate_progressive target next seen marked i [] = i"
| "truncate_progressive target next seen marked i (x # xs) =
     (case x of
        User m \<Rightarrow>
          (case item_prompt_index m of
             Some idx \<Rightarrow> if target \<le> idx then i else truncate_progressive target next seen True (Suc i) xs
           | None \<Rightarrow>
               if marked then truncate_progressive target next seen marked (Suc i) xs
               else (case unmarked_index next seen m of
                       (Some idx, seen') \<Rightarrow>
                         if target \<le> idx then i
                         else truncate_progressive target (idx + 1) seen' marked (Suc i) xs
                     | (None, seen') \<Rightarrow> truncate_progressive target next seen' marked (Suc i) xs))
      | _ \<Rightarrow> truncate_progressive target next seen marked (Suc i) xs)"

definition marker :: "conversation_item \<Rightarrow> nat option" where
  "marker x = (case x of User m \<Rightarrow> item_prompt_index m | _ \<Rightarrow> None)"

definition conversation_truncate_for_prompt :: "conversation_item list \<Rightarrow> nat \<Rightarrow> nat" where
  "conversation_truncate_for_prompt conv target =
     (case List.map_filter marker conv of
        [] \<Rightarrow> truncate_legacy target 0 False 0 conv
      | first # _ \<Rightarrow>
          if count_legacy_turns 0 False conv \<noteq> first then truncate_markers_only target 0 conv
          else truncate_progressive target 0 False False 0 conv)"

section \<open>Moving a conversation to another working directory\<close>

text \<open>\<^verbatim>\<open>str::replace\<close> with an empty pattern inserts before every character and at the end.\<close>

definition replace_all :: "ustr \<Rightarrow> ustr \<Rightarrow> ustr \<Rightarrow> ustr" where
  "replace_all p r s = (if p = [] then r @ concat (map (\<lambda>c. c # r) s) else str_replace p r s)"

definition move_text :: "ustr \<Rightarrow> ustr \<Rightarrow> ustr \<Rightarrow> ustr" where
  "move_text source target text = (if str_contains source text then replace_all source target text else text)"

definition move_part :: "ustr \<Rightarrow> ustr \<Rightarrow> content_part \<Rightarrow> content_part" where
  "move_part source target p = (case p of TextPart t \<Rightarrow> TextPart (move_text source target t) | ImagePart url \<Rightarrow> p)"

definition move_item :: "ustr \<Rightarrow> ustr \<Rightarrow> conversation_item \<Rightarrow> conversation_item" where
  "move_item source target x =
     (let mv = move_text source target in
      case x of
        System s \<Rightarrow> System (mv s)
      | User m \<Rightarrow> User (m\<lparr>user_content := map (move_part source target) (user_content m)\<rparr>)
      | Assistant a \<Rightarrow>
          Assistant (a\<lparr>assistant_content := mv (assistant_content a),
                       tool_calls := map (\<lambda>tc. tc\<lparr>call_arguments := mv (call_arguments tc)\<rparr>) (tool_calls a)\<rparr>)
      | ToolResult t \<Rightarrow> ToolResult (t\<lparr>result_content := mv (result_content t)\<rparr>)
      | BackendToolCall b \<Rightarrow> x
      | Reasoning r \<Rightarrow>
          Reasoning (r\<lparr>summary_parts := map mv (summary_parts r),
                       reasoning_content := map_option (map mv) (reasoning_content r)\<rparr>))"

definition transform_conversation_cwd :: "ustr \<Rightarrow> ustr \<Rightarrow> conversation_item list \<Rightarrow> conversation_item list" where
  "transform_conversation_cwd source target = map (move_item source target)"

end
