(* ===== verification/Chat_Tokens.thy ===== *)
theory Chat_Tokens
  imports Complex_Main Conversation
begin

text \<open>
  Counting tokens and money: the bytes/4 estimate (\<^verbatim>\<open>codegen/xai-token-estimation/src/lib.rs\<close> and the
  estimates of \<^verbatim>\<open>codegen/xai-chat-state/src/actor/state.rs\<close>) and the usage ledgers
  (\<^verbatim>\<open>usage.rs\<close>). Saturating operations on \<^verbatim>\<open>u64\<close> and \<^verbatim>\<open>i64\<close> are written out; doubles that stand for
  non-negative numbers are rationals rounded to 53 significant bits, ties to even.
\<close>

section \<open>Doubles\<close>

fun bit_len :: "nat \<Rightarrow> nat" where
  "bit_len n = (if n = 0 then 0 else Suc (bit_len (n div 2)))"

declare bit_len.simps [simp del]

definition pow2 :: "int \<Rightarrow> rat" where
  "pow2 e = (if 0 \<le> e then 2 ^ nat e else 1 / 2 ^ nat (- e))"

definition round_half_even :: "rat \<Rightarrow> int" where
  "round_half_even m =
     (let f = \<lfloor>m\<rfloor>; r = m - of_int f
      in if r < 1 / 2 then f else if 1 / 2 < r then f + 1 else if even f then f else f + 1)"

definition f64_rnd :: "rat \<Rightarrow> rat" where
  "f64_rnd q =
     (if q \<le> 0 then 0
      else let (p, d) = quotient_of q;
               k = int (bit_len (nat p)) - int (bit_len (nat d));
               l = (if pow2 k \<le> q then k else k - 1);
               e = l - 52
           in of_int (round_half_even (q / pow2 e)) * pow2 e)"

definition f64_of_nat :: "nat \<Rightarrow> rat" where
  "f64_of_nat n = f64_rnd (of_nat n)"

text \<open>\<^verbatim>\<open>f64::round\<close> rounds halves away from zero; the cast to \<^verbatim>\<open>u64\<close> saturates.\<close>

definition f64_round_to_u64 :: "rat \<Rightarrow> nat" where
  "f64_round_to_u64 x = min u64_max (nat \<lfloor>x + 1 / 2\<rfloor>)"

section \<open>Estimates\<close>

definition sat_mul :: "nat \<Rightarrow> nat \<Rightarrow> nat" where "sat_mul a b = min u64_max (a * b)"
definition sat_add :: "nat \<Rightarrow> nat \<Rightarrow> nat" where "sat_add a b = min u64_max (a + b)"
definition u64_add :: "nat \<Rightarrow> nat \<Rightarrow> nat" where "u64_add a b = (a + b) mod 2 ^ 64"

definition BYTES_PER_TOKEN :: nat where "BYTES_PER_TOKEN = 4"
definition IMAGE_TOKEN_ESTIMATE :: nat where "IMAGE_TOKEN_ESTIMATE = 765"

abbreviation byte_len :: "ustr \<Rightarrow> nat" where "byte_len s \<equiv> length (as_bytes s)"

definition estimate_tokens :: "ustr \<Rightarrow> nat" where "estimate_tokens s = byte_len s div BYTES_PER_TOKEN"

definition estimate_chars :: "nat \<Rightarrow> nat" where "estimate_chars tokens = sat_mul tokens BYTES_PER_TOKEN"

definition estimate_image_tokens :: "nat \<Rightarrow> nat" where
  "estimate_image_tokens n = sat_mul n IMAGE_TOKEN_ESTIMATE"

definition usage_percentage :: "nat \<Rightarrow> nat \<Rightarrow> rat" where
  "usage_percentage used window =
     (if window = 0 then 0 else min 100 (f64_rnd (f64_rnd (f64_of_nat used / f64_of_nat window) * 100)))"

definition usage_percentage_u8 :: "nat \<Rightarrow> nat \<Rightarrow> nat" where
  "usage_percentage_u8 used window = min 255 (nat \<lfloor>usage_percentage used window + 1 / 2\<rfloor>)"

definition usage_percentage_truncated_u8 :: "nat \<Rightarrow> nat \<Rightarrow> nat" where
  "usage_percentage_truncated_u8 used window = (if window = 0 then 0 else min (sat_mul used 100 div window) 100)"

definition free_tokens :: "nat \<Rightarrow> nat \<Rightarrow> nat" where "free_tokens window used = window - used"

definition exceeds_threshold :: "nat \<Rightarrow> nat \<Rightarrow> nat \<Rightarrow> bool" where
  "exceeds_threshold used context_window threshold_percent \<longleftrightarrow>
     context_window \<noteq> 0 \<and> sat_mul context_window threshold_percent \<le> sat_mul used 100"

definition exceeds_threshold_with_headroom :: "nat \<Rightarrow> nat \<Rightarrow> nat \<Rightarrow> nat \<Rightarrow> bool" where
  "exceeds_threshold_with_headroom used context_window threshold_percent headroom \<longleftrightarrow>
     context_window \<noteq> 0 \<and>
     sat_mul context_window threshold_percent - sat_mul headroom 100 \<le> sat_mul used 100"

text \<open>\<open>None\<close>: the summary of a code-interpreter call panics (\<open>text_summary\<close>).\<close>

definition estimate_item_tokens :: "conversation_item \<Rightarrow> nat option" where
  "estimate_item_tokens item =
     (case item of
        System s \<Rightarrow> Some (estimate_tokens s)
      | User m \<Rightarrow>
          Some (sum_list (map byte_len (List.map_filter part_text (user_content m))) div BYTES_PER_TOKEN
                + estimate_image_tokens (length (filter (\<lambda>p. part_text p = None) (user_content m))))
      | Assistant a \<Rightarrow>
          Some ((byte_len (assistant_content a) + sum_list (map (\<lambda>tc. byte_len (call_arguments tc)) (tool_calls a)))
                div BYTES_PER_TOKEN)
      | ToolResult t \<Rightarrow> Some (estimate_tokens (result_content t))
      | BackendToolCall b \<Rightarrow> map_option estimate_tokens (text_summary b)
      | Reasoning r \<Rightarrow>
          Some ((byte_len (reasoning_item_text r)
                 + (case encrypted_content r of None \<Rightarrow> 0 | Some e \<Rightarrow> byte_len e)) div BYTES_PER_TOKEN))"

definition sum_panic :: "('a \<Rightarrow> nat option) \<Rightarrow> 'a list \<Rightarrow> nat option" where
  "sum_panic f xs = map_option sum_list (those (map f xs))"

definition estimate_conversation_tokens :: "conversation_item list \<Rightarrow> nat option" where
  "estimate_conversation_tokens = sum_panic estimate_item_tokens"

definition is_system :: "conversation_item \<Rightarrow> bool" where
  "is_system x \<longleftrightarrow> (case x of System _ \<Rightarrow> True | _ \<Rightarrow> False)"

definition estimate_messages_tokens :: "conversation_item list \<Rightarrow> nat option" where
  "estimate_messages_tokens items = sum_panic estimate_item_tokens (filter (\<lambda>x. \<not> is_system x) items)"

definition estimate_system_message_tokens :: "conversation_item \<Rightarrow> nat" where
  "estimate_system_message_tokens item = (case item of System s \<Rightarrow> estimate_tokens s | _ \<Rightarrow> 0)"

section \<open>Ledgers\<close>

record token_usage =
  prompt_tokens :: nat
  completion_tokens :: nat
  usage_total_tokens :: nat
  usage_reasoning_tokens :: nat
  cached_prompt_tokens :: nat

record usage_totals =
  input_tokens :: nat
  output_tokens :: nat
  cached_read_tokens :: nat
  reasoning_tokens :: nat
  model_calls :: nat
  api_duration_ms :: nat
  cost_usd_ticks :: "int option"
  cost_missing_calls :: nat

definition no_usage :: usage_totals where
  "no_usage = \<lparr>input_tokens = 0, output_tokens = 0, cached_read_tokens = 0, reasoning_tokens = 0,
     model_calls = 0, api_duration_ms = 0, cost_usd_ticks = None, cost_missing_calls = 0\<rparr>"

definition reported_cost_ticks :: "int option \<Rightarrow> int option" where
  "reported_cost_ticks raw = (case raw of Some t \<Rightarrow> if 0 < t then Some t else None | None \<Rightarrow> None)"

definition from_call :: "token_usage \<Rightarrow> nat option \<Rightarrow> int option \<Rightarrow> usage_totals" where
  "from_call usage duration cost =
     (let c = reported_cost_ticks cost in
      \<lparr>input_tokens = prompt_tokens usage, output_tokens = completion_tokens usage,
       cached_read_tokens = cached_prompt_tokens usage, reasoning_tokens = usage_reasoning_tokens usage,
       model_calls = 1, api_duration_ms = (case duration of None \<Rightarrow> 0 | Some d \<Rightarrow> d),
       cost_usd_ticks = c, cost_missing_calls = (if c = None then 1 else 0)\<rparr>)"

definition ledger_total_tokens :: "usage_totals \<Rightarrow> nat" where
  "ledger_total_tokens t = sat_add (input_tokens t) (output_tokens t)"

definition cost_is_partial :: "usage_totals \<Rightarrow> bool" where
  "cost_is_partial t \<longleftrightarrow> cost_usd_ticks t \<noteq> None \<and> 0 < cost_missing_calls t"

definition i64_sat_add :: "int \<Rightarrow> int \<Rightarrow> int" where
  "i64_sat_add a b = max (- (2 ^ 63)) (min (2 ^ 63 - 1) (a + b))"

definition merge_cost_ticks :: "int option \<Rightarrow> int option \<Rightarrow> int option" where
  "merge_cost_ticks a b =
     (case (a, b) of
        (None, None) \<Rightarrow> None
      | _ \<Rightarrow> Some (i64_sat_add (case a of None \<Rightarrow> 0 | Some x \<Rightarrow> x) (case b of None \<Rightarrow> 0 | Some x \<Rightarrow> x)))"

definition fold_totals :: "usage_totals \<Rightarrow> usage_totals \<Rightarrow> usage_totals" where
  "fold_totals self other =
     \<lparr>input_tokens = sat_add (input_tokens self) (input_tokens other),
      output_tokens = sat_add (output_tokens self) (output_tokens other),
      cached_read_tokens = sat_add (cached_read_tokens self) (cached_read_tokens other),
      reasoning_tokens = sat_add (reasoning_tokens self) (reasoning_tokens other),
      model_calls = sat_add (model_calls self) (model_calls other),
      api_duration_ms = sat_add (api_duration_ms self) (api_duration_ms other),
      cost_usd_ticks = merge_cost_ticks (cost_usd_ticks self) (cost_usd_ticks other),
      cost_missing_calls = sat_add (cost_missing_calls self) (cost_missing_calls other)\<rparr>"

text \<open>An \<^verbatim>\<open>IndexMap\<close> keeps the order of first insertion.\<close>

record usage_ledger =
  totals :: usage_totals
  by_model :: "(ustr \<times> usage_totals) list"
  main_loop_model_calls :: nat
  incomplete :: bool

definition no_ledger :: usage_ledger where
  "no_ledger = \<lparr>totals = no_usage, by_model = [], main_loop_model_calls = 0, incomplete = False\<rparr>"

fun fold_model :: "ustr \<Rightarrow> usage_totals \<Rightarrow> (ustr \<times> usage_totals) list \<Rightarrow> (ustr \<times> usage_totals) list" where
  "fold_model m t [] = [(m, fold_totals no_usage t)]"
| "fold_model m t ((m', t') # rest) =
     (if m' = m then (m', fold_totals t' t) # rest else (m', t') # fold_model m t rest)"

definition fold_entry :: "ustr \<Rightarrow> usage_totals \<Rightarrow> usage_ledger \<Rightarrow> usage_ledger" where
  "fold_entry m t l = l\<lparr>totals := fold_totals (totals l) t, by_model := fold_model m t (by_model l)\<rparr>"

definition record_main_loop_call ::
  "ustr \<Rightarrow> token_usage \<Rightarrow> nat option \<Rightarrow> int option \<Rightarrow> usage_ledger \<Rightarrow> usage_ledger" where
  "record_main_loop_call m usage duration cost l =
     fold_entry m (from_call usage duration cost)
       (l\<lparr>main_loop_model_calls := sat_add (main_loop_model_calls l) 1\<rparr>)"

definition record_subagent :: "(ustr \<times> usage_totals) list \<Rightarrow> bool \<Rightarrow> usage_ledger \<Rightarrow> usage_ledger" where
  "record_subagent entries inc l =
     (let l' = fold (\<lambda>(m, t). fold_entry m t) entries l in if inc then l'\<lparr>incomplete := True\<rparr> else l')"

definition mark_incomplete :: "usage_ledger \<Rightarrow> usage_ledger" where
  "mark_incomplete l = l\<lparr>incomplete := True\<rparr>"

end
