(* ===== verification/Chat_State.thy ===== *)
theory Chat_State
  imports Chat_Tokens "HOL-Library.Monad_Syntax"
begin

text \<open>
  The state of a conversation (\<^verbatim>\<open>codegen/xai-chat-state/src/actor/\<close>: \<^verbatim>\<open>state.rs\<close>, \<^verbatim>\<open>mutations.rs\<close> and the
  rewinding of \<^verbatim>\<open>queries.rs\<close>), owned by one actor that handles commands one after another. Calls of the
  persistence trait are recorded in order, as its channel implementation does, and so are the
  events sent to the session. \<open>None\<close> is a panic, which aborts the process.
\<close>

section \<open>State\<close>

record sampling_config =
  model :: ustr
  max_completion_tokens :: "nat option"
  temperature :: "rat option"
  top_p :: "rat option"
  context_window :: nat
  config_reasoning_effort :: "reasoning_effort option"

datatype auth_type = SessionToken | ApiKey

record credentials =
  api_key :: "ustr option"
  auth_type :: auth_type
  alpha_test_key :: "ustr option"
  client_version :: "ustr option"

definition no_credentials :: credentials where
  "no_credentials = \<lparr>api_key = None, auth_type = SessionToken, alpha_test_key = None, client_version = None\<rparr>"

record turn_capture_state =
  turn_start_offset :: nat
  pre_replacement_messages :: "conversation_item list"
  compaction_occurred :: bool

record chat_state =
  conversation :: "conversation_item list"
  sampling_config :: sampling_config
  prompt_index :: nat
  prompt_texts :: "ustr list"
  total_tokens :: nat
  stream_start_ms :: "int option"
  turn_start_ms :: "int option"
  agent_edited_paths :: "ustr set"
  last_compaction_prompt_index :: "nat option"
  credentials :: credentials
  estimated_tokens_since_model :: nat
  estimate_at_last_response :: nat
  last_turn_usage :: "token_usage option"
  prompt_usage :: "usage_ledger option"
  session_usage :: usage_ledger
  turn_capture :: "turn_capture_state option"
  harness_trace_buffer :: "conversation_item list"
  harness_trace_turns :: "conversation_item list list"

record chat_state_snapshot =
  snap_conversation :: "conversation_item list"
  snap_sampling_config :: sampling_config
  snap_prompt_index :: nat
  snap_total_tokens :: nat
  snap_estimate_at_last_response :: nat
  snap_agent_edited_paths :: "ustr set"
  snap_prompt_texts :: "ustr list"
  snap_stream_start_ms :: "int option"
  snap_turn_start_ms :: "int option"
  snap_last_compaction_prompt_index :: "nat option"
  snap_credentials :: credentials

record pruning_config =
  enabled :: bool
  keep_last_n_turns :: nat
  soft_trim_threshold :: nat
  soft_trim_head :: nat
  soft_trim_tail :: nat
  hard_clear_age_turns :: nat

definition default_pruning_config :: pruning_config where
  "default_pruning_config = \<lparr>enabled = True, keep_last_n_turns = 3, soft_trim_threshold = 4000,
     soft_trim_head = 1500, soft_trim_tail = 1500, hard_clear_age_turns = 10\<rparr>"

datatype persistence_record =
    PersistedMessage conversation_item | ReplacedHistory "conversation_item list" | Flushed

datatype chat_state_event =
    PromptIndexChanged nat
  | TokensUpdated nat
  | ConversationReset nat
  | ImageBudget nat nat nat nat bool nat nat

record chat_state_actor =
  chat :: chat_state
  pruning_config :: pruning_config
  persistence :: "persistence_record list"
  chat_events :: "chat_state_event list"

definition set_chat :: "(chat_state \<Rightarrow> chat_state) \<Rightarrow> chat_state_actor \<Rightarrow> chat_state_actor" where
  "set_chat f A = A\<lparr>chat := f (chat A)\<rparr>"

definition persist_message :: "conversation_item \<Rightarrow> chat_state_actor \<Rightarrow> chat_state_actor" where
  "persist_message item A = A\<lparr>persistence := persistence A @ [PersistedMessage item]\<rparr>"

definition replace_history :: "conversation_item list \<Rightarrow> chat_state_actor \<Rightarrow> chat_state_actor" where
  "replace_history items A = A\<lparr>persistence := persistence A @ [ReplacedHistory items]\<rparr>"

definition flush_history :: "chat_state_actor \<Rightarrow> chat_state_actor" where
  "flush_history A = A\<lparr>persistence := persistence A @ [Flushed]\<rparr>"

definition send_event :: "chat_state_event \<Rightarrow> chat_state_actor \<Rightarrow> chat_state_actor" where
  "send_event e A = A\<lparr>chat_events := chat_events A @ [e]\<rparr>"

definition chat_state_new :: "conversation_item list \<Rightarrow> sampling_config \<Rightarrow> chat_state option" where
  "chat_state_new items config =
     (let conv = fst (repair_dangling_tool_calls UserCancelled (fst (dedup_duplicate_tool_results items)))
      in map_option (\<lambda>n.
           \<lparr>conversation = conv, sampling_config = config, prompt_index = 0, prompt_texts = [],
            total_tokens = n, stream_start_ms = None, turn_start_ms = None, agent_edited_paths = {},
            last_compaction_prompt_index = None, credentials = no_credentials,
            estimated_tokens_since_model = 0, estimate_at_last_response = n, last_turn_usage = None,
            prompt_usage = None, session_usage = no_ledger, turn_capture = None,
            harness_trace_buffer = [], harness_trace_turns = []\<rparr>)
          (estimate_conversation_tokens conv))"

definition spawn_with_pruning ::
  "conversation_item list \<Rightarrow> sampling_config \<Rightarrow> pruning_config \<Rightarrow> chat_state_actor option" where
  "spawn_with_pruning items config pruning =
     map_option (\<lambda>s. \<lparr>chat = s, pruning_config = pruning, persistence = [], chat_events = []\<rparr>)
       (chat_state_new items config)"

definition seal_harness_trace_turn :: "chat_state \<Rightarrow> chat_state" where
  "seal_harness_trace_turn s =
     (if harness_trace_buffer s = [] then s
      else s\<lparr>harness_trace_turns := harness_trace_turns s @ [harness_trace_buffer s], harness_trace_buffer := []\<rparr>)"

section \<open>Turn capture\<close>

text \<open>An offset past the end gives the empty tail (a debug build asserts instead).\<close>

definition turn_tail :: "conversation_item list \<Rightarrow> nat \<Rightarrow> conversation_item list" where
  "turn_tail conv offset = (if offset \<le> length conv then drop offset conv else [])"

definition snapshot_turn_slice :: "chat_state \<Rightarrow> chat_state" where
  "snapshot_turn_slice s =
     s\<lparr>turn_capture := map_option (\<lambda>cap. cap\<lparr>pre_replacement_messages :=
         pre_replacement_messages cap @ turn_tail (conversation s) (turn_start_offset cap)\<rparr>) (turn_capture s)\<rparr>"

definition rebase_turn_capture_offset :: "chat_state \<Rightarrow> chat_state" where
  "rebase_turn_capture_offset s =
     s\<lparr>turn_capture := map_option (\<lambda>cap. cap\<lparr>turn_start_offset := length (conversation s)\<rparr>) (turn_capture s)\<rparr>"

section \<open>Messages\<close>

definition ensure_conversation_integrity_with_reason ::
  "dangling_tool_call_reason \<Rightarrow> chat_state_actor \<Rightarrow> chat_state_actor" where
  "ensure_conversation_integrity_with_reason reason A =
     (let A1 = set_chat snapshot_turn_slice A;
          (c1, deduped) = dedup_duplicate_tool_results (conversation (chat A1));
          (c2, repaired) = repair_dangling_tool_calls reason c1;
          A2 = set_chat (\<lambda>s. s\<lparr>conversation := c2\<rparr>) A1;
          A3 = (if 0 < repaired \<or> 0 < deduped then replace_history c2 A2 else A2)
      in set_chat rebase_turn_capture_offset A3)"

definition is_assistant :: "conversation_item \<Rightarrow> bool" where
  "is_assistant x \<longleftrightarrow> (case x of Assistant _ \<Rightarrow> True | _ \<Rightarrow> False)"

definition count_item :: "conversation_item \<Rightarrow> chat_state_actor \<Rightarrow> chat_state_actor option" where
  "count_item item A =
     map_option (\<lambda>n. set_chat (\<lambda>s. s\<lparr>estimated_tokens_since_model := u64_add (estimated_tokens_since_model s) n\<rparr>) A)
       (estimate_item_tokens item)"

definition append_item :: "conversation_item \<Rightarrow> chat_state_actor \<Rightarrow> chat_state_actor" where
  "append_item item A = set_chat (\<lambda>s. s\<lparr>conversation := conversation s @ [item]\<rparr>) (persist_message item A)"

definition push_message :: "conversation_item \<Rightarrow> chat_state_actor \<Rightarrow> chat_state_actor option" where
  "push_message item A =
     map_option (append_item item) (if is_assistant item then Some A else count_item item A)"

definition HARD_CLEAR_PLACEHOLDER :: ustr where
  "HARD_CLEAR_PLACEHOLDER = u ''[Tool result omitted '' @ [8212] @ u '' too old]''"

text \<open>The scan from the end of the conversation, over the reversed list.\<close>

fun hard_clear :: "nat \<Rightarrow> nat \<Rightarrow> bool \<Rightarrow> conversation_item list \<Rightarrow> conversation_item list \<times> nat" where
  "hard_clear threshold turn seen [] = ([], 0)"
| "hard_clear threshold turn seen (x # xs) =
     (case x of
        User m \<Rightarrow>
          let (rest, n) = hard_clear threshold (if seen then turn + 1 else turn) True xs in (x # rest, n)
      | ToolResult t \<Rightarrow>
          let (rest, n) = hard_clear threshold turn seen xs
          in if turn < threshold \<or> result_content t = HARD_CLEAR_PLACEHOLDER then (x # rest, n)
             else (ToolResult (t\<lparr>result_content := HARD_CLEAR_PLACEHOLDER\<rparr>) # rest, n + 1)
      | _ \<Rightarrow> let (rest, n) = hard_clear threshold turn seen xs in (x # rest, n))"

definition part_bytes :: "content_part \<Rightarrow> nat" where
  "part_bytes p = (case p of TextPart t \<Rightarrow> byte_len t | ImagePart url \<Rightarrow> byte_len url)"

definition item_content_bytes :: "conversation_item \<Rightarrow> nat option" where
  "item_content_bytes item =
     (case item of
        System s \<Rightarrow> Some (byte_len s)
      | User m \<Rightarrow> Some (sum_list (map part_bytes (user_content m)))
      | Assistant a \<Rightarrow> Some (byte_len (assistant_content a))
      | ToolResult t \<Rightarrow> Some (byte_len (result_content t))
      | BackendToolCall b \<Rightarrow> map_option (\<lambda>s. byte_len s) (text_summary b)
      | Reasoning r \<Rightarrow>
          Some (byte_len (reasoning_item_text r) + (case encrypted_content r of None \<Rightarrow> 0 | Some e \<Rightarrow> byte_len e)))"

definition conversation_content_bytes :: "conversation_item list \<Rightarrow> nat option" where
  "conversation_content_bytes = sum_panic item_content_bytes"

text \<open>The byte counts only go to the log, but computing them can panic.\<close>

definition prune_retained_conversation :: "chat_state_actor \<Rightarrow> (chat_state_actor \<times> nat) option" where
  "prune_retained_conversation A =
     (let cfg = pruning_config A; conv = conversation (chat A) in
      if \<not> enabled cfg then Some (A, 0)
      else if prompt_index (chat A) < hard_clear_age_turns cfg then Some (A, 0)
      else
        let synthetic_count = length (filter is_user conv) - prompt_index (chat A);
            effective_threshold = min u64_max (hard_clear_age_turns cfg + synthetic_count);
            (rev_conv, cleared) = hard_clear effective_threshold 0 False (rev conv);
            conv' = rev rev_conv;
            A1 = set_chat (\<lambda>s. s\<lparr>conversation := conv'\<rparr>) A
        in do {
          before_bytes \<leftarrow> conversation_content_bytes conv;
          if 0 < cleared then do {
            after_bytes \<leftarrow> conversation_content_bytes conv';
            Some (replace_history conv' A1, cleared)
          } else Some (A1, cleared)
        })"

definition push_user_message_with_repair_reason ::
  "conversation_item \<Rightarrow> dangling_tool_call_reason \<Rightarrow> chat_state_actor \<Rightarrow> chat_state_actor option" where
  "push_user_message_with_repair_reason item reason A =
     do {
       A1 \<leftarrow> count_item item (ensure_conversation_integrity_with_reason reason A);
       (A2, _) \<leftarrow> prune_retained_conversation (append_item item A1);
       Some A2
     }"

definition push_user_message :: "conversation_item \<Rightarrow> chat_state_actor \<Rightarrow> chat_state_actor option" where
  "push_user_message item = push_user_message_with_repair_reason item UserCancelled"

definition repair_dangling_after_harness_halt :: "ustr \<Rightarrow> chat_state_actor \<Rightarrow> chat_state_actor" where
  "repair_dangling_after_harness_halt class = ensure_conversation_integrity_with_reason (HarnessHalted class)"

section \<open>Usage\<close>

definition record_token_usage :: "nat \<Rightarrow> chat_state_actor \<Rightarrow> chat_state_actor option" where
  "record_token_usage n A =
     map_option (\<lambda>e.
        send_event (TokensUpdated n)
          (set_chat (\<lambda>s. s\<lparr>estimated_tokens_since_model := 0, estimate_at_last_response := e, total_tokens := n\<rparr>) A))
       (estimate_conversation_tokens (conversation (chat A)))"

definition open_ledger :: "chat_state \<Rightarrow> usage_ledger" where
  "open_ledger s = (case prompt_usage s of None \<Rightarrow> no_ledger | Some l \<Rightarrow> l)"

definition record_model_call_usage ::
  "ustr option \<Rightarrow> token_usage \<Rightarrow> nat option \<Rightarrow> int option \<Rightarrow> chat_state \<Rightarrow> chat_state" where
  "record_model_call_usage m usage duration cost s =
     (let key = (case m of Some i \<Rightarrow> if i \<noteq> [] then i else model (sampling_config s)
                         | None \<Rightarrow> model (sampling_config s))
      in s\<lparr>prompt_usage := Some (record_main_loop_call key usage duration cost (open_ledger s)),
           session_usage := record_main_loop_call key usage duration cost (session_usage s)\<rparr>)"

definition record_subagent_usage ::
  "(ustr \<times> usage_totals) list \<Rightarrow> bool \<Rightarrow> bool \<Rightarrow> chat_state \<Rightarrow> chat_state" where
  "record_subagent_usage entries attribute_to_prompt inc s =
     (if entries = [] \<and> \<not> inc then s
      else let s1 = (if attribute_to_prompt
                     then s\<lparr>prompt_usage := Some (record_subagent entries inc (open_ledger s))\<rparr> else s)
           in s1\<lparr>session_usage := record_subagent entries inc (session_usage s1)\<rparr>)"

definition mark_usage_incomplete :: "bool \<Rightarrow> bool \<Rightarrow> chat_state \<Rightarrow> chat_state" where
  "mark_usage_incomplete in_prompt in_session s =
     (let s1 = (if in_prompt then s\<lparr>prompt_usage := Some (mark_incomplete (open_ledger s))\<rparr> else s)
      in if in_session then s1\<lparr>session_usage := mark_incomplete (session_usage s1)\<rparr> else s1)"

definition increment_prompt_index :: "chat_state_actor \<Rightarrow> chat_state_actor" where
  "increment_prompt_index A =
     (let A1 = set_chat (\<lambda>s. s\<lparr>prompt_usage := None, prompt_index := prompt_index s + 1\<rparr>) A
      in send_event (PromptIndexChanged (prompt_index (chat A1))) A1)"

section \<open>Replacing the conversation\<close>

definition reseed_tokens :: "bool \<Rightarrow> nat \<Rightarrow> nat \<Rightarrow> nat \<Rightarrow> nat" where
  "reseed_tokens is_compaction pre_total at_last base =
     (let est = (if is_compaction \<and> 0 < pre_total \<and> 0 < at_last then
                   f64_round_to_u64 (f64_rnd (f64_of_nat base * f64_rnd (f64_of_nat pre_total / f64_of_nat at_last)))
                 else base)
      in if is_compaction \<and> 0 < pre_total then min est pre_total else est)"

definition mark_compaction :: "chat_state \<Rightarrow> chat_state" where
  "mark_compaction s =
     s\<lparr>turn_capture := map_option (\<lambda>cap. cap\<lparr>compaction_occurred := True\<rparr>) (turn_capture s)\<rparr>"

definition replace_conversation ::
  "conversation_item list \<Rightarrow> bool \<Rightarrow> chat_state_actor \<Rightarrow> chat_state_actor option" where
  "replace_conversation items is_compaction A =
     do {
       let A1 = set_chat snapshot_turn_slice A;
       let A2 = (if is_compaction then set_chat mark_compaction A1 else A1);
       let A3 = replace_history items A2;
       base \<leftarrow> estimate_conversation_tokens items;
       let n = reseed_tokens is_compaction (total_tokens (chat A)) (estimate_at_last_response (chat A)) base;
       let A4 = set_chat (\<lambda>s. rebase_turn_capture_offset
                  (s\<lparr>conversation := items, estimated_tokens_since_model := 0, total_tokens := n,
                     estimate_at_last_response := base\<rparr>)) A3;
       Some (send_event (TokensUpdated n) (send_event (ConversationReset (length items)) A4))
     }"

text \<open>The conversation is taken out of the state before it is repaired and put back.\<close>

definition repair_history_command :: "bool \<Rightarrow> chat_state_actor \<Rightarrow> (chat_state_actor \<times> history_repair_report) option" where
  "repair_history_command dry_run A =
     (let (items, report) = repair_history (conversation (chat A)) in
      if dry_run then Some (A, report)
      else if report_changed report then
        map_option (\<lambda>A'. (A', report))
          (replace_conversation items False (set_chat (\<lambda>s. s\<lparr>conversation := []\<rparr>) A))
      else Some (A, report))"

definition trim_line_ends :: "ustr \<Rightarrow> ustr" where
  "trim_line_ends s = rev (dropWhile (\<lambda>c. c = 10 \<or> c = 13) (rev s))"

definition canonical_system_prompt_eq :: "ustr \<Rightarrow> ustr \<Rightarrow> bool" where
  "canonical_system_prompt_eq a b \<longleftrightarrow> trim_line_ends a = trim_line_ends b"

definition replace_or_insert_system_head :: "ustr \<Rightarrow> conversation_item list \<Rightarrow> conversation_item list \<times> bool" where
  "replace_or_insert_system_head prompt conv =
     (case conv of
        System s # rest \<Rightarrow>
          if canonical_system_prompt_eq s prompt then (conv, False) else (System prompt # rest, True)
      | _ \<Rightarrow> (System prompt # conv, True))"

definition head_matches :: "ustr \<Rightarrow> conversation_item list \<Rightarrow> bool" where
  "head_matches prompt conv \<longleftrightarrow>
     (case conv of System s # _ \<Rightarrow> canonical_system_prompt_eq s prompt | _ \<Rightarrow> False)"

definition replace_system_head :: "ustr \<Rightarrow> chat_state_actor \<Rightarrow> (chat_state_actor \<times> bool) option" where
  "replace_system_head prompt A =
     (if head_matches prompt (conversation (chat A)) then Some (A, False)
      else let (conv, changed) = replace_or_insert_system_head prompt (conversation (chat A))
           in map_option (\<lambda>A'. (A', changed)) (replace_conversation conv False A))"

definition snapshot :: "chat_state \<Rightarrow> chat_state_snapshot" where
  "snapshot s =
     \<lparr>snap_conversation = conversation s, snap_sampling_config = sampling_config s,
      snap_prompt_index = prompt_index s, snap_total_tokens = total_tokens s,
      snap_estimate_at_last_response = estimate_at_last_response s,
      snap_agent_edited_paths = agent_edited_paths s, snap_prompt_texts = prompt_texts s,
      snap_stream_start_ms = stream_start_ms s, snap_turn_start_ms = turn_start_ms s,
      snap_last_compaction_prompt_index = last_compaction_prompt_index s, snap_credentials = credentials s\<rparr>"

definition restore_snapshot :: "chat_state_snapshot \<Rightarrow> chat_state \<Rightarrow> chat_state option" where
  "restore_snapshot p s =
     (let s1 = rebase_turn_capture_offset ((snapshot_turn_slice s)\<lparr>conversation := snap_conversation p\<rparr>) in
      map_option (\<lambda>e.
         s1\<lparr>sampling_config := snap_sampling_config p, prompt_index := snap_prompt_index p,
            total_tokens := snap_total_tokens p, estimated_tokens_since_model := 0,
            estimate_at_last_response := e, agent_edited_paths := snap_agent_edited_paths p,
            prompt_texts := snap_prompt_texts p, stream_start_ms := snap_stream_start_ms p,
            turn_start_ms := snap_turn_start_ms p,
            last_compaction_prompt_index := snap_last_compaction_prompt_index p,
            credentials := snap_credentials p, prompt_usage := None\<rparr>)
        (if 0 < snap_estimate_at_last_response p then Some (snap_estimate_at_last_response p)
         else estimate_conversation_tokens (snap_conversation p)))"

fun user_position :: "nat \<Rightarrow> conversation_item list \<Rightarrow> nat" where
  "user_position n [] = 0"
| "user_position n (x # xs) =
     (if is_user x then (case n of 0 \<Rightarrow> 0 | Suc m \<Rightarrow> Suc (user_position m xs)) else Suc (user_position n xs))"

definition truncate_to_prompt_index :: "nat \<Rightarrow> chat_state_actor \<Rightarrow> chat_state_actor option" where
  "truncate_to_prompt_index target A =
     (if prompt_index (chat A) \<le> target then Some A
      else let conv = take (user_position target (conversation (chat A))) (conversation (chat A)) in
        map_option (\<lambda>n.
           send_event (ConversationReset (length conv))
             (replace_history conv
               (set_chat (\<lambda>s. s\<lparr>conversation := conv, prompt_texts := take target (prompt_texts s),
                  prompt_index := target, total_tokens := n, estimated_tokens_since_model := 0,
                  estimate_at_last_response := n\<rparr>) A)))
          (estimate_conversation_tokens conv))"

end
