(* ===== verification/Chat_Compaction.thy ===== *)
theory Chat_Compaction
  imports Chat_Tokens
begin

text \<open>
  Preparing a conversation for compaction and building the compacted history
  (\<^verbatim>\<open>codegen/xai-chat-state/src/compaction_utils.rs\<close>): stripping tool messages, reasoning and images,
  fitting a conversation to a token budget, telling real user turns from injected ones, cleaning
  the summary the model wrote, and assembling the new history.
\<close>

section \<open>Preparing the input of the summary\<close>

definition flatten_calls :: "assistant_item \<Rightarrow> assistant_item" where
  "flatten_calls a =
     (if tool_calls a = [] then a
      else a\<lparr>assistant_content := assistant_content a @ [10] @ u ''[Called tools: ''
                @ join (u '', '') (map call_name (tool_calls a)) @ u '']'',
             tool_calls := []\<rparr>)"

definition strip_tool_messages :: "conversation_item list \<Rightarrow> conversation_item list" where
  "strip_tool_messages =
     List.map_filter (\<lambda>x. case x of ToolResult _ \<Rightarrow> None | Assistant a \<Rightarrow> Some (Assistant (flatten_calls a)) | _ \<Rightarrow> Some x)"

definition is_reasoning :: "conversation_item \<Rightarrow> bool" where
  "is_reasoning x \<longleftrightarrow> (case x of Reasoning _ \<Rightarrow> True | _ \<Rightarrow> False)"

definition strip_reasoning_blocks :: "conversation_item list \<Rightarrow> conversation_item list" where
  "strip_reasoning_blocks = filter (\<lambda>x. \<not> is_reasoning x)"

definition strip_image :: "content_part \<Rightarrow> content_part" where
  "strip_image p = (case p of ImagePart _ \<Rightarrow> TextPart (u ''[image]'') | TextPart _ \<Rightarrow> p)"

definition strip_images :: "conversation_item list \<Rightarrow> conversation_item list" where
  "strip_images =
     map (\<lambda>x. case x of User m \<Rightarrow> User (m\<lparr>user_content := map strip_image (user_content m)\<rparr>) | _ \<Rightarrow> x)"

definition prepare_conversation_for_summarization :: "conversation_item list \<Rightarrow> conversation_item list" where
  "prepare_conversation_for_summarization conv = strip_images (strip_reasoning_blocks (strip_tool_messages conv))"

definition prepare_conversation_for_segment :: "conversation_item list \<Rightarrow> conversation_item list" where
  "prepare_conversation_for_segment conv = strip_images (strip_reasoning_blocks conv)"

definition has_calls :: "conversation_item \<Rightarrow> bool" where
  "has_calls x \<longleftrightarrow> (case x of Assistant a \<Rightarrow> tool_calls a \<noteq> [] | _ \<Rightarrow> False)"

definition truncate_trailing_incomplete_tool_call :: "conversation_item list \<Rightarrow> conversation_item list" where
  "truncate_trailing_incomplete_tool_call conv = rev (dropWhile has_calls (rev conv))"

definition prepare_conversation_for_verbatim_summarization ::
  "conversation_item list \<Rightarrow> bool \<Rightarrow> conversation_item list" where
  "prepare_conversation_for_verbatim_summarization conv strip_reasoning =
     truncate_trailing_incomplete_tool_call (if strip_reasoning then strip_reasoning_blocks conv else conv)"

section \<open>Fitting a budget\<close>

definition truncate_text_to_bytes :: "ustr \<Rightarrow> nat \<Rightarrow> ustr option" where
  "truncate_text_to_bytes s max_bytes =
     (if byte_len s \<le> max_bytes then None
      else let kept = take_bytes (min (max_bytes - 64) (byte_len s)) s;
               dropped = byte_len s - byte_len kept
           in Some (kept @ [10] @ u ''[... truncated '' @ show_nat dropped
                @ u '' bytes to fit the compaction window ...]''))"

definition shorten :: "nat \<Rightarrow> ustr \<Rightarrow> ustr" where
  "shorten max_bytes s = (case truncate_text_to_bytes s max_bytes of None \<Rightarrow> s | Some t \<Rightarrow> t)"

definition truncate_item_to_tokens :: "nat \<Rightarrow> conversation_item \<Rightarrow> conversation_item" where
  "truncate_item_to_tokens max_tokens item =
     (let max_bytes = sat_mul max_tokens 4 in
      case item of
        ToolResult t \<Rightarrow> ToolResult (t\<lparr>result_content := shorten max_bytes (result_content t)\<rparr>)
      | Assistant a \<Rightarrow> Assistant (a\<lparr>assistant_content := shorten max_bytes (assistant_content a)\<rparr>)
      | User m \<Rightarrow>
          User (m\<lparr>user_content := map (\<lambda>p. case p of TextPart t \<Rightarrow> TextPart (shorten max_bytes t) | ImagePart _ \<Rightarrow> p)
                                   (user_content m)\<rparr>)
      | _ \<Rightarrow> item)"

text \<open>The last item, or the last run of results with the message that owns it, cut down to the budget.\<close>

definition recover_truncated_tail_unit :: "conversation_item list \<Rightarrow> nat \<Rightarrow> conversation_item list option" where
  "recover_truncated_tail_unit body budget =
     (let results = rev (takeWhile is_result (rev body)); before = dropWhile is_result (rev body) in
      if results = [] then
        Some (case before of [] \<Rightarrow> [] | item # _ \<Rightarrow> [truncate_item_to_tokens budget item])
      else
        let owner = (case before of x # _ \<Rightarrow> if has_calls x then Some x else None | [] \<Rightarrow> None) in
        map_option (\<lambda>owner_cost.
           let per = max ((budget - owner_cost) div length results) 1
           in (case owner of None \<Rightarrow> [] | Some x \<Rightarrow> [x]) @ map (truncate_item_to_tokens per) results)
          (case owner of None \<Rightarrow> Some 0 | Some x \<Rightarrow> estimate_item_tokens x))"

text \<open>
  The longest suffix that fits, found from the end: \<open>fit_suffix remaining\<close> over the reversed body gives
  its length. The scan stops at the first item that does not fit.
\<close>

fun fit_suffix :: "nat \<Rightarrow> conversation_item list \<Rightarrow> nat option" where
  "fit_suffix remaining [] = Some 0"
| "fit_suffix remaining (x # xs) =
     (case estimate_item_tokens x of
        None \<Rightarrow> None
      | Some cost \<Rightarrow> if remaining < cost then Some 0 else map_option Suc (fit_suffix (remaining - cost) xs))"

definition split_system_head :: "conversation_item list \<Rightarrow> conversation_item list \<times> conversation_item list" where
  "split_system_head conv =
     (case conv of x # rest \<Rightarrow> if is_system x then ([x], rest) else ([], conv) | [] \<Rightarrow> ([], []))"

definition fit_conversation_to_budget :: "conversation_item list \<Rightarrow> nat \<Rightarrow> conversation_item list option" where
  "fit_conversation_to_budget conv max_tokens =
     Option.bind (estimate_conversation_tokens conv) (\<lambda>n.
       if n \<le> max_tokens then Some conv
       else
         let (head, body) = split_system_head conv in
         Option.bind (estimate_conversation_tokens head) (\<lambda>h.
         let budget = max_tokens - h in
         Option.bind (fit_suffix budget (rev body)) (\<lambda>k.
           let tail = dropWhile is_result (drop (length body - k) body)
           in if tail \<noteq> [] then Some (head @ tail)
              else map_option (\<lambda>t. head @ t) (recover_truncated_tail_unit body budget))))"

section \<open>User queries\<close>

definition tag_names :: "string list" where
  "tag_names = [''user_info'', ''project_layout'', ''git_status'', ''fork-context'', ''system-reminder'',
     ''agent-memory'', ''system_reminder'', ''background_context'', ''command-name'', ''command-message'',
     ''command-args'']"

text \<open>Removes the blocks from an opening tag to the first closing tag, as long as there are any.\<close>

function strip_tag :: "ustr \<Rightarrow> ustr \<Rightarrow> ustr \<Rightarrow> ustr" where
  "strip_tag tag_open tag_close text =
     (case split_first tag_open text of
        None \<Rightarrow> text
      | Some (before, rest) \<Rightarrow>
          (case split_first tag_close (tag_open @ rest) of
             None \<Rightarrow> text
           | Some (_, after) \<Rightarrow> if tag_close = [] then text else strip_tag tag_open tag_close (before @ after)))"
  by pat_completeness auto
termination strip_tag
proof (relation "measure (\<lambda>(tag_open, tag_close, s). length s)", goal_cases)
  case (2 tag_open tag_close s x2 before rest x2a inner after)
  then have "s = before @ tag_open @ rest" "tag_open @ rest = inner @ tag_close @ after" "tag_close \<noteq> []"
    using split_first_SomeD [of tag_open s before rest] split_first_SomeD [of tag_close "tag_open @ rest" inner after]
    by auto
  then have "length s = length before + length (inner @ tag_close @ after)" by simp
  with \<open>tag_close \<noteq> []\<close> show ?case by simp
qed simp

declare strip_tag.simps [simp del]

definition strip_system_tags :: "ustr \<Rightarrow> ustr" where
  "strip_system_tags text =
     trim (fold (\<lambda>tag. strip_tag (u (''<'' @ tag @ ''>'')) (u (''</'' @ tag @ ''>''))) tag_names text)"

definition extract_user_query :: "ustr \<Rightarrow> ustr" where
  "extract_user_query text =
     (case split_first (u ''<user_query>'') text of
        None \<Rightarrow> strip_system_tags text
      | Some (_, content) \<Rightarrow>
          (case split_first (u ''</user_query>'') content of
             None \<Rightarrow> strip_system_tags text
           | Some (inner, _) \<Rightarrow> strip_system_tags (trim inner)))"

definition user_text :: "user_item \<Rightarrow> ustr" where
  "user_text m = join [10] (List.map_filter part_text (user_content m))"

definition as_user :: "conversation_item \<Rightarrow> user_item option" where
  "as_user x = (case x of User m \<Rightarrow> Some m | _ \<Rightarrow> None)"

definition extract_last_user_query :: "conversation_item list \<Rightarrow> ustr option" where
  "extract_last_user_query conv =
     (case List.map_filter as_user (rev conv) of
        [] \<Rightarrow> None
      | m # _ \<Rightarrow> let q = extract_user_query (user_text m) in if q = [] then None else Some q)"

definition AUTO_CONTINUE_PROMPT :: ustr where
  "AUTO_CONTINUE_PROMPT =
     u ''Continue the conversation from where it left off without asking the user any further questions. Resume directly - do not acknowledge the summary, do not recap what was happening, do not preface with ''
     @ [34] @ u ''I'' @ [39] @ u ''ll continue'' @ [34] @ u '' or similar.'' @ [10]
     @ u ''Pick up the last task as if the break never happened.''"

definition is_synthetic_extracted_query :: "ustr \<Rightarrow> bool" where
  "is_synthetic_extracted_query text \<longleftrightarrow>
     text = [] \<or> text = u ''__auto_continue__'' \<or> text = AUTO_CONTINUE_PROMPT"

definition is_real_user_turn :: "conversation_item \<Rightarrow> bool" where
  "is_real_user_turn x \<longleftrightarrow>
     (case x of
        User m \<Rightarrow>
          synthetic_reason m = None \<and>
          (list_ex (\<lambda>p. part_text p = None) (user_content m) \<or>
           \<not> is_synthetic_extracted_query (extract_user_query (user_text m)))
      | _ \<Rightarrow> False)"

definition extract_real_user_queries :: "conversation_item list \<Rightarrow> ustr list" where
  "extract_real_user_queries conv =
     map (\<lambda>m. extract_user_query (user_text m)) (List.map_filter as_user (filter is_real_user_turn conv))"

definition extract_last_real_user_query :: "conversation_item list \<Rightarrow> ustr option" where
  "extract_last_real_user_query conv =
     (case List.map_filter as_user (filter is_real_user_turn (rev conv)) of
        [] \<Rightarrow> None
      | m # _ \<Rightarrow> Some (extract_user_query (user_text m)))"

definition omit_result :: "conversation_item \<Rightarrow> conversation_item option" where
  "omit_result x =
     (case x of
        Assistant _ \<Rightarrow> Some x
      | ToolResult t \<Rightarrow> Some (tool_result (tool_call_id t) (u ''Tool call omitted...''))
      | _ \<Rightarrow> None)"

definition extract_messages_since_last_user :: "conversation_item list \<Rightarrow> conversation_item list" where
  "extract_messages_since_last_user conv =
     rev (List.map_filter omit_result (takeWhile (\<lambda>x. \<not> is_user x) (rev conv)))"

definition extract_messages_since_last_real_user :: "conversation_item list \<Rightarrow> conversation_item list" where
  "extract_messages_since_last_real_user conv =
     List.map_filter omit_result (rev (takeWhile (\<lambda>x. \<not> is_real_user_turn x) (rev conv)))"

section \<open>The summary\<close>

text \<open>
  Leading \<^verbatim>\<open><analysis>\<close> blocks are cut out; one that is never closed is cut up to the summary.
\<close>

definition analysis_open :: ustr where "analysis_open = u ''<analysis>''"
definition analysis_close :: ustr where "analysis_close = u ''</analysis>''"
definition summary_open :: ustr where "summary_open = u ''<summary>''"
definition summary_close :: ustr where "summary_close = u ''</summary>''"

definition analysis_is_leading :: "ustr \<Rightarrow> ustr \<Rightarrow> bool" where
  "analysis_is_leading text before =
     (case split_first summary_open text of
        Some (sp, after) \<Rightarrow>
          length before < length sp \<or>
          trim (drop (length sp + length summary_open) before) = []
      | None \<Rightarrow> trim before = [])"

lemma analysis_cut_shorter:
  assumes "split_first analysis_open text = Some (before, rest)"
    and "split_first analysis_close (analysis_open @ rest) = Some (inner, after)"
  shows "length before + length after < length text"
proof -
  have "text = before @ analysis_open @ rest" "analysis_open @ rest = inner @ analysis_close @ after"
    using assms by (simp_all add: split_first_SomeD)
  then have "length text = length before + length (inner @ analysis_close @ after)" by simp
  then show ?thesis by (simp add: analysis_close_def)
qed

function strip_analysis :: "ustr \<Rightarrow> ustr" where
  "strip_analysis text =
     (case split_first analysis_open text of
        None \<Rightarrow> text
      | Some (before, rest) \<Rightarrow>
          if \<not> analysis_is_leading text before then text
          else (case split_first analysis_close (analysis_open @ rest) of
                  Some (_, after) \<Rightarrow> strip_analysis (before @ after)
                | None \<Rightarrow>
                    (case split_first summary_open (analysis_open @ rest) of
                       Some (_, after) \<Rightarrow> before @ summary_open @ after
                     | None \<Rightarrow> before)))"
  by pat_completeness auto
termination strip_analysis
  by (relation "measure length") (auto dest: analysis_cut_shorter)

declare strip_analysis.simps [simp del]

definition scratch_chars :: "uchar list" where "scratch_chars = u ''#*->'' @ [32, 9]"

definition strip_leading_scratchpad :: "ustr \<Rightarrow> ustr" where
  "strip_leading_scratchpad inner =
     (let s = trim inner;
          lead = dropWhile (\<lambda>c. c \<in> set scratch_chars) s;
          s1 = (if \<not> (lead \<noteq> [] \<and> is_ascii_digit (hd lead)) then
                  (case split_last analysis_close s of Some (_, after) \<Rightarrow> trim_start after | None \<Rightarrow> s)
                else s)
      in case strip_prefix summary_open s1 of Some rest \<Rightarrow> trim_start rest | None \<Rightarrow> s1)"

definition neutral :: "string \<Rightarrow> ustr" where "neutral name = u ''<'' @ [8203] @ u name @ u ''>''"

definition neutralize_compaction_control_tokens :: "ustr \<Rightarrow> ustr" where
  "neutralize_compaction_control_tokens text =
     fold (\<lambda>name. str_replace (u (''<'' @ name @ ''>'')) (neutral name))
       [''/summary'', ''summary'', ''/analysis'', ''analysis'', ''/summary_request'', ''summary_request''] text"

text \<open>The body between the first opening and the last closing tag, if it starts before it ends.\<close>

definition extract_summary :: "ustr \<Rightarrow> ustr" where
  "extract_summary text =
     (case (split_first summary_open text, split_last summary_close text) of
        (Some (before, _), Some (until, after)) \<Rightarrow>
          if length before < length until then
            before @ u ''Summary:'' @ [10]
            @ strip_leading_scratchpad (trim (drop (length before + length summary_open) until)) @ after
          else text
      | _ \<Rightarrow> text)"

lemma str_replace_length:
  assumes "p \<noteq> []" "length r \<le> length p"
  shows "length (str_replace p r s) \<le> length s"
  using assms
proof (induction p r s rule: str_replace.induct)
  case (2 p r c cs)
  show ?case
  proof (cases "strip_prefix p (c # cs)")
    case (Some rest)
    then have "length (c # cs) = length p + length rest" using strip_prefix_SomeD by (metis length_append)
    then show ?thesis using 2 Some by fastforce
  qed (use 2 in simp)
qed simp

lemma str_replace_shorter:
  assumes "p \<noteq> []" "length r < length p" "str_contains p s"
  shows "length (str_replace p r s) < length s"
  using assms
proof (induction p r s rule: str_replace.induct)
  case (2 p r c cs)
  show ?case
  proof (cases "strip_prefix p (c # cs)")
    case (Some rest)
    then have "length (c # cs) = length p + length rest" using strip_prefix_SomeD by (metis length_append)
    then show ?thesis using 2 Some str_replace_length [of p r rest] by fastforce
  next
    case None
    then show ?thesis using 2 by (simp add: starts_with_def)
  qed
qed simp

function collapse_blank_lines :: "ustr \<Rightarrow> ustr" where
  "collapse_blank_lines s =
     (if str_contains [10, 10, 10] s then collapse_blank_lines (str_replace [10, 10, 10] [10, 10] s) else s)"
  by pat_completeness auto
termination collapse_blank_lines
  by (relation "measure length") (auto intro: str_replace_shorter)

declare collapse_blank_lines.simps [simp del]

definition format_compact_summary :: "ustr \<Rightarrow> ustr" where
  "format_compact_summary summary =
     trim (collapse_blank_lines (neutralize_compaction_control_tokens (extract_summary (strip_analysis summary))))"

definition format_compact_summary_content :: "ustr \<Rightarrow> ustr" where
  "format_compact_summary_content raw_summary =
     u ''This session is being continued from a previous conversation that ran out of context. The summary below covers the earlier portion of the conversation.''
     @ [10, 10] @ format_compact_summary raw_summary"

definition MIN_SUMMARY_SEED_CHARS :: nat where "MIN_SUMMARY_SEED_CHARS = 500"

definition is_degenerate_summary :: "ustr \<Rightarrow> bool" where
  "is_degenerate_summary raw_summary \<longleftrightarrow> length (format_compact_summary raw_summary) < MIN_SUMMARY_SEED_CHARS"

definition bound_captured_output :: "ustr \<Rightarrow> nat \<Rightarrow> ustr" where
  "bound_captured_output s max_chars =
     (if length s \<le> max_chars then s
      else let head = max_chars div 2; tail = max_chars - head; elided = length s - head - tail
           in take head s @ [10, 10, 8230] @ u ''['' @ show_nat elided @ u '' chars elided]'' @ [8230, 10, 10]
              @ drop (length s - tail) s)"

section \<open>The compacted history\<close>

definition wrap_user_query :: "ustr \<Rightarrow> ustr" where
  "wrap_user_query s = u ''<user_query>'' @ [10] @ s @ [10] @ u ''</user_query>''"

record compacted_history_input =
  system_message :: conversation_item
  user_message_prefix :: ustr
  agents_md_reminder :: "ustr option"
  recent_messages :: "conversation_item list"
  last_user_query :: "ustr option"
  compaction_summary :: ustr
  history_system_reminder :: "ustr option"
  transcript_hint :: "ustr option"

text \<open>The alternate carrier of the summary is not compiled in, so the recent messages come first.\<close>

definition build_compacted_history :: "compacted_history_input \<Rightarrow> conversation_item list" where
  "build_compacted_history i =
     [system_message i, user_meta (user_message_prefix i)]
     @ (case agents_md_reminder i of None \<Rightarrow> [] | Some r \<Rightarrow> [project_instructions r])
     @ (case last_user_query i of None \<Rightarrow> [] | Some q \<Rightarrow> [user (wrap_user_query q)])
     @ recent_messages i
     @ [user_meta (format_compact_summary_content (compaction_summary i)
          @ (case transcript_hint i of None \<Rightarrow> [] | Some h \<Rightarrow> h))]
     @ (case history_system_reminder i of None \<Rightarrow> [] | Some r \<Rightarrow> [system_reminder r])"

end
