(* ===== verification/Chat_Request.thy ===== *)
theory Chat_Request
  imports Chat_State Chat_Compaction
begin

text \<open>
  Building requests from the state of a conversation
  (\<^verbatim>\<open>codegen/xai-chat-state/src/actor/request_builder.rs\<close>), the queries (\<^verbatim>\<open>queries.rs\<close>) and the dispatch of
  commands (\<^verbatim>\<open>mod.rs\<close>, \<^verbatim>\<open>commands.rs\<close>). The length of the JSON text of a value (crate \<^verbatim>\<open>serde_json\<close>) is
  the argument \<open>J\<close>.
\<close>

section \<open>Pruning\<close>

definition should_prune :: "nat \<Rightarrow> nat \<Rightarrow> bool" where
  "should_prune tokens window \<longleftrightarrow> window div 2 < tokens"

definition SOFT_TRIM_SEPARATOR :: ustr where
  "SOFT_TRIM_SEPARATOR = [10, 10] @ u ''['' @ [8230] @ u ''trimmed'' @ [8230] @ u '']'' @ [10, 10]"

definition safe_char_slice_tail :: "ustr \<Rightarrow> nat \<Rightarrow> ustr" where
  "safe_char_slice_tail s count = (if length s \<le> count then s else drop (length s - count) s)"

definition prune_result :: "pruning_config \<Rightarrow> nat \<Rightarrow> tool_result_item \<Rightarrow> tool_result_item" where
  "prune_result cfg turn t =
     (if turn < keep_last_n_turns cfg then t
      else if hard_clear_age_turns cfg \<le> turn then t\<lparr>result_content := HARD_CLEAR_PLACEHOLDER\<rparr>
      else if soft_trim_threshold cfg < length (result_content t) then
        t\<lparr>result_content := take (soft_trim_head cfg) (result_content t) @ SOFT_TRIM_SEPARATOR
            @ safe_char_slice_tail (result_content t) (soft_trim_tail cfg)\<rparr>
      else t)"

text \<open>The scan from the end, over the reversed conversation.\<close>

fun prune_rev :: "pruning_config \<Rightarrow> nat \<Rightarrow> bool \<Rightarrow> conversation_item list \<Rightarrow> conversation_item list" where
  "prune_rev cfg turn seen [] = []"
| "prune_rev cfg turn seen (x # xs) =
     (case x of
        User m \<Rightarrow> x # prune_rev cfg (if seen then turn + 1 else turn) True xs
      | ToolResult t \<Rightarrow> ToolResult (prune_result cfg turn t) # prune_rev cfg turn seen xs
      | _ \<Rightarrow> x # prune_rev cfg turn seen xs)"

definition prune_conversation :: "pruning_config \<Rightarrow> conversation_item list \<Rightarrow> conversation_item list" where
  "prune_conversation cfg conv = (if enabled cfg then rev (prune_rev cfg 0 False (rev conv)) else conv)"

section \<open>Images\<close>

record json_size =
  items_json :: "conversation_item list \<Rightarrow> nat"
  part_json :: "content_part \<Rightarrow> nat"

definition IMAGE_COMPACT_PLACEHOLDER :: ustr where
  "IMAGE_COMPACT_PLACEHOLDER = u ''[An earlier image was removed to keep the request within its size limit and is no longer visible. Do not describe or reason about its contents from memory; ask the user to re-share it if you need to see it again.]''"

definition MAX_REQUEST_BYTES :: nat where "MAX_REQUEST_BYTES = 50 * 1024 * 1024"
definition IMAGE_COMPACT_TRIGGER_BYTES :: nat where
  "IMAGE_COMPACT_TRIGGER_BYTES = MAX_REQUEST_BYTES - 3 * 1024 * 1024"
definition IMAGE_COMPACT_RECLAIM_TARGET_BYTES :: nat where
  "IMAGE_COMPACT_RECLAIM_TARGET_BYTES = MAX_REQUEST_BYTES div 2"
definition IMAGE_PART_FRAME_BYTES :: nat where "IMAGE_PART_FRAME_BYTES = 25"

definition image_part_bytes :: "ustr \<Rightarrow> nat" where
  "image_part_bytes url = IMAGE_PART_FRAME_BYTES + byte_len url"

definition is_image :: "content_part \<Rightarrow> bool" where
  "is_image p \<longleftrightarrow> (case p of ImagePart _ \<Rightarrow> True | TextPart _ \<Rightarrow> False)"

definition user_parts :: "conversation_item \<Rightarrow> content_part list" where
  "user_parts x = (case x of User m \<Rightarrow> user_content m | _ \<Rightarrow> [])"

definition map_parts :: "(content_part \<Rightarrow> content_part) \<Rightarrow> conversation_item \<Rightarrow> conversation_item" where
  "map_parts f x = (case x of User m \<Rightarrow> User (m\<lparr>user_content := map f (user_content m)\<rparr>) | _ \<Rightarrow> x)"

definition inline_image_count :: "conversation_item list \<Rightarrow> nat" where
  "inline_image_count conv = length (filter is_image (concat (map user_parts conv)))"

definition blank_image :: "content_part \<Rightarrow> content_part" where
  "blank_image p = (case p of ImagePart _ \<Rightarrow> ImagePart [] | TextPart _ \<Rightarrow> p)"

definition image_url_bytes :: "content_part \<Rightarrow> nat" where
  "image_url_bytes p = (case p of ImagePart url \<Rightarrow> byte_len url | TextPart _ \<Rightarrow> 0)"

definition conversation_body_bytes :: "json_size \<Rightarrow> conversation_item list \<Rightarrow> nat" where
  "conversation_body_bytes J conv =
     items_json J (map (map_parts blank_image) conv) + sum_list (map image_url_bytes (concat (map user_parts conv)))"

text \<open>
  Images are replaced from the oldest on while the body is above the target; \<open>running\<close> is the size of
  the body, \<open>n\<close> the number of images replaced.
\<close>

fun evict_parts :: "nat \<Rightarrow> nat \<Rightarrow> nat \<Rightarrow> content_part list \<Rightarrow> content_part list \<times> nat \<times> nat" where
  "evict_parts target ph running [] = ([], running, 0)"
| "evict_parts target ph running (p # ps) =
     (case p of
        ImagePart url \<Rightarrow>
          if running \<le> target then (p # ps, running, 0)
          else let (ps', running', n) = evict_parts target ph (running - (image_part_bytes url - ph)) ps
               in (TextPart IMAGE_COMPACT_PLACEHOLDER # ps', running', n + 1)
      | TextPart _ \<Rightarrow> let (ps', running', n) = evict_parts target ph running ps in (p # ps', running', n))"

fun evict_items :: "nat \<Rightarrow> nat \<Rightarrow> nat \<Rightarrow> conversation_item list \<Rightarrow> conversation_item list \<times> nat \<times> nat" where
  "evict_items target ph running [] = ([], running, 0)"
| "evict_items target ph running (x # xs) =
     (case x of
        User m \<Rightarrow>
          let (ps, running1, n1) = evict_parts target ph running (user_content m);
              (xs', running2, n2) = evict_items target ph running1 xs
          in (User (m\<lparr>user_content := ps\<rparr>) # xs', running2, n1 + n2)
      | _ \<Rightarrow> let (xs', running', n) = evict_items target ph running xs in (x # xs', running', n))"

record image_eviction_outcome =
  evicted :: nat
  body_bytes_after :: nat

definition compact_images_to_byte_budget ::
  "json_size \<Rightarrow> nat \<Rightarrow> nat \<Rightarrow> conversation_item list \<Rightarrow> conversation_item list \<times> image_eviction_outcome" where
  "compact_images_to_byte_budget J current_bytes target_bytes conv =
     (if current_bytes \<le> target_bytes then (conv, \<lparr>evicted = 0, body_bytes_after = current_bytes\<rparr>)
      else let (conv', running, n) =
             evict_items target_bytes (part_json J (TextPart IMAGE_COMPACT_PLACEHOLDER)) current_bytes conv
           in (conv', \<lparr>evicted = n, body_bytes_after = running\<rparr>))"

section \<open>Memory reminder\<close>

definition MEMORY_CONTEXT_OPEN_TAG :: ustr where "MEMORY_CONTEXT_OPEN_TAG = u ''<memory-context>''"

definition upsert_memory_reminder_text :: "ustr \<Rightarrow> ustr \<Rightarrow> ustr \<times> bool" where
  "upsert_memory_reminder_text system_prompt reminder =
     (let updated =
        (case split_first MEMORY_CONTEXT_OPEN_TAG system_prompt of
           Some (before, _) \<Rightarrow>
             let prefix = trim_end_matches 10 before
             in if prefix = [] then reminder else prefix @ [10, 10] @ reminder
         | None \<Rightarrow>
             if trim_end system_prompt = reminder then system_prompt
             else if system_prompt = [] then reminder
             else trim_end_matches 10 system_prompt @ [10, 10] @ reminder)
      in if system_prompt = updated then (system_prompt, False) else (updated, True))"

definition inject_memory_reminder :: "ustr \<Rightarrow> conversation_item list \<Rightarrow> conversation_item list \<times> bool" where
  "inject_memory_reminder reminder0 items =
     (let reminder = trim reminder0 in
      if reminder = [] then (items, False)
      else (case items of
              System s # rest \<Rightarrow>
                let (s', changed) = upsert_memory_reminder_text s reminder in (System s' # rest, changed)
            | _ \<Rightarrow> (System reminder # items, True)))"

section \<open>The request\<close>

record tool_spec =
  spec_name :: ustr
  spec_description :: "ustr option"
  spec_parameters :: ustr

record conversation_request =
  request_items :: "conversation_item list"
  request_tools :: "tool_spec list"
  request_model :: "ustr option"
  request_temperature :: "rat option"
  request_max_output_tokens :: "nat option"
  request_top_p :: "rat option"
  x_grok_conv_id :: "ustr option"
  x_grok_req_id :: "ustr option"
  request_reasoning_effort :: "reasoning_effort option"

text \<open>A persisted reminder goes into the state; an unchanged state keeps it for the copy.\<close>

definition persist_reminder ::
  "ustr option \<Rightarrow> bool \<Rightarrow> chat_state_actor \<Rightarrow> chat_state_actor \<times> ustr option" where
  "persist_reminder memory_reminder persist A =
     (case memory_reminder of
        Some reminder \<Rightarrow>
          if persist then
            let A1 = set_chat snapshot_turn_slice A;
                (conv, injected) = inject_memory_reminder reminder (conversation (chat A1));
                A2 = set_chat (\<lambda>s. s\<lparr>conversation := conv\<rparr>) A1;
                A3 = (if injected then replace_history conv A2 else A2)
            in (set_chat rebase_turn_capture_offset A3, if injected then None else memory_reminder)
          else (A, memory_reminder)
      | None \<Rightarrow> (A, None))"

definition request_copy ::
  "json_size \<Rightarrow> pruning_config \<Rightarrow> bool \<Rightarrow> nat \<Rightarrow> ustr option \<Rightarrow> conversation_item list
   \<Rightarrow> conversation_item list \<times> image_eviction_outcome option" where
  "request_copy J cfg needs_prune body_bytes memory_reminder conv =
     (let needs_image_compaction = (IMAGE_COMPACT_TRIGGER_BYTES \<le> body_bytes);
          (items1, eviction) =
            (if needs_image_compaction then
               let (c, ev) = compact_images_to_byte_budget J body_bytes IMAGE_COMPACT_RECLAIM_TARGET_BYTES conv
               in (c, Some ev)
             else (conv, None));
          items2 = (if needs_prune then prune_conversation cfg items1 else items1);
          items3 = (case memory_reminder of Some r \<Rightarrow> fst (inject_memory_reminder r items2) | None \<Rightarrow> items2)
      in (items3, eviction))"

definition build_conversation_request ::
  "json_size \<Rightarrow> tool_spec list \<Rightarrow> ustr option \<Rightarrow> bool \<Rightarrow> ustr \<Rightarrow> ustr \<Rightarrow> chat_state_actor
   \<Rightarrow> chat_state_actor \<times> conversation_request" where
  "build_conversation_request J tools memory_reminder persist conv_id req_id A =
     (let needs_prune = should_prune (total_tokens (chat A)) (context_window (sampling_config (chat A)));
          (A1, reminder) = persist_reminder memory_reminder persist A;
          conv = conversation (chat A1);
          cfg = sampling_config (chat A1);
          body_bytes = conversation_body_bytes J conv;
          inline_images = inline_image_count conv;
          (items, eviction) = request_copy J (pruning_config A1) needs_prune body_bytes reminder conv;
          A2 = (if 0 < inline_images then
                  send_event (ImageBudget body_bytes IMAGE_COMPACT_TRIGGER_BYTES IMAGE_COMPACT_RECLAIM_TARGET_BYTES
                     inline_images (IMAGE_COMPACT_TRIGGER_BYTES \<le> body_bytes)
                     (case eviction of None \<Rightarrow> 0 | Some ev \<Rightarrow> evicted ev)
                     (case eviction of None \<Rightarrow> body_bytes | Some ev \<Rightarrow> body_bytes_after ev)) A1
                else A1)
      in (A2, \<lparr>request_items = items, request_tools = tools, request_model = Some (model cfg),
               request_temperature = temperature cfg, request_max_output_tokens = max_completion_tokens cfg,
               request_top_p = top_p cfg, x_grok_conv_id = Some conv_id, x_grok_req_id = Some req_id,
               request_reasoning_effort = config_reasoning_effort cfg\<rparr>))"

end
