(* ===== verification/Chat_Actor.thy ===== *)
theory Chat_Actor
  imports Chat_Request
begin

text \<open>
  The commands of the conversation actor (\<^verbatim>\<open>codegen/xai-chat-state/src/commands.rs\<close>), its queries
  (\<^verbatim>\<open>actor/queries.rs\<close>) and their dispatch (\<^verbatim>\<open>actor/mod.rs\<close>). The flag a repair command checks is read at the
  time the command is handled; its value there is an argument of the command.
\<close>

section \<open>Queries\<close>

record auto_compact_trigger =
  trigger_total_tokens :: nat
  trigger_context_window :: nat
  utilization_percent :: nat

definition check_auto_compact_needed :: "nat \<Rightarrow> chat_state \<Rightarrow> auto_compact_trigger option" where
  "check_auto_compact_needed threshold_percent s =
     (let cw = context_window (sampling_config s) in
      if exceeds_threshold (total_tokens s) cw threshold_percent then
        Some \<lparr>trigger_total_tokens = total_tokens s, trigger_context_window = cw,
              utilization_percent = usage_percentage_truncated_u8 (total_tokens s) cw\<rparr>
      else None)"

definition as_assistant :: "conversation_item \<Rightarrow> assistant_item option" where
  "as_assistant x = (case x of Assistant a \<Rightarrow> Some a | _ \<Rightarrow> None)"

definition get_last_model_metadata :: "chat_state \<Rightarrow> ustr option \<times> ustr option" where
  "get_last_model_metadata s =
     (case List.map_filter as_assistant (rev (conversation s)) of
        a # _ \<Rightarrow> (model_id a, model_fingerprint a)
      | [] \<Rightarrow> (None, None))"

definition get_last_assistant_text :: "chat_state \<Rightarrow> ustr option" where
  "get_last_assistant_text s =
     (case filter (\<lambda>a. trim (assistant_content a) \<noteq> []) (List.map_filter as_assistant (rev (conversation s))) of
        a # _ \<Rightarrow> Some (assistant_content a)
      | [] \<Rightarrow> None)"

text \<open>The search goes on past a user message that does not start with text.\<close>

definition leading_text :: "conversation_item \<Rightarrow> ustr option" where
  "leading_text x = (case x of User m \<Rightarrow> (case user_content m of p # _ \<Rightarrow> part_text p | [] \<Rightarrow> None) | _ \<Rightarrow> None)"

definition get_first_user_text :: "chat_state \<Rightarrow> ustr option" where
  "get_first_user_text s =
     (case List.map_filter leading_text (conversation s) of t # _ \<Rightarrow> Some t | [] \<Rightarrow> None)"

definition get_conversation_item_at :: "nat \<Rightarrow> chat_state \<Rightarrow> conversation_item option" where
  "get_conversation_item_at i s = (if i < length (conversation s) then Some (conversation s ! i) else None)"

record conversation_counts =
  count_all :: nat
  count_user :: nat
  count_assistant :: nat
  count_tool_result :: nat

definition get_conversation_counts :: "chat_state \<Rightarrow> conversation_counts" where
  "get_conversation_counts s =
     \<lparr>count_all = length (conversation s), count_user = length (filter is_user (conversation s)),
      count_assistant = length (filter is_assistant (conversation s)),
      count_tool_result = length (filter is_result (conversation s))\<rparr>"

definition get_system_message :: "chat_state \<Rightarrow> conversation_item option" where
  "get_system_message s = List.find is_system (conversation s)"

record turn_capture_result =
  captured_messages :: "conversation_item list"
  captured_compaction :: bool

definition take_turn_messages :: "chat_state \<Rightarrow> chat_state \<times> turn_capture_result option" where
  "take_turn_messages s =
     (s\<lparr>turn_capture := None\<rparr>,
      map_option (\<lambda>cap.
         \<lparr>captured_messages = pre_replacement_messages cap @ turn_tail (conversation s) (turn_start_offset cap),
          captured_compaction = compaction_occurred cap\<rparr>) (turn_capture s))"

definition begin_turn_capture :: "chat_state \<Rightarrow> chat_state" where
  "begin_turn_capture s =
     s\<lparr>turn_capture := Some \<lparr>turn_start_offset = length (conversation s), pre_replacement_messages = [],
                             compaction_occurred = False\<rparr>\<rparr>"

section \<open>Commands\<close>

text \<open>The commands that only read, and those that change the state.\<close>

datatype (plugins only: code size) chat_query =
    GetConversation
  | GetPromptIndex
  | GetLastCompactionPromptIndex
  | GetTotalTokens
  | GetLastTurnUsage
  | GetPromptUsage
  | GetSessionUsage
  | GetEstimatedTotalTokens
  | GetEstimatedMessagesTokens
  | GetSamplingConfig
  | GetAgentEditedPaths
  | GetNotificationMeta
  | TakeSnapshot
  | CheckAutoCompactNeeded nat
  | GetCredentials
  | GetLastModelMetadata
  | GetConversationLen
  | HasDanglingToolCalls
  | GetLastAssistantText
  | GetFirstUserText
  | GetConversationItemAt nat
  | GetLastUserQueryText
  | GetConversationCounts
  | GetSystemMessage

datatype (plugins only: code size) chat_state_command =
    Query chat_query
  | PushUserMessage conversation_item
  | PushUserMessageAndAck conversation_item
  | PushUserMessageWithRepairReason conversation_item dangling_tool_call_reason
  | PushAssistantResponse conversation_item
  | PushToolResult conversation_item
  | RecordTokenUsage nat
  | RecordLastTurnUsage token_usage
  | RecordModelCallUsage "ustr option" token_usage "nat option" "int option"
  | RecordSubagentUsage "(ustr \<times> usage_totals) list" bool bool
  | MarkUsageIncomplete bool bool
  | IncrementPromptIndex
  | UpdateSamplingConfig sampling_config
  | RecordAgentEditedPath ustr
  | RecordStreamStart int
  | RecordTurnStart int
  | ReplaceConversation "conversation_item list" bool
  | RepairHistory bool bool
  | ReplaceSystemHead ustr
  | CachePromptText ustr
  | RecordCompactionAt nat
  | Flush
  | UpdateCredentials credentials
  | RestoreSnapshot chat_state_snapshot
  | BeginTurnCapture
  | AppendHarnessTraceItems "conversation_item list"
  | FlushHarnessTraceTurn
  | RepairDanglingAfterHarnessHalt ustr
  | BuildConversationRequest "tool_spec list" "ustr option" bool ustr ustr
  | TruncateToPromptIndex nat
  | TakeTurnMessages
  | TakeHarnessTraceTurns

datatype (plugins only: code size) chat_reply =
    NoReply
  | RepairReply "history_repair_report option"
  | BoolReply bool
  | RequestReply conversation_request
  | ItemsReply "conversation_item list"
  | NatReply nat
  | NatOptReply "nat option"
  | TurnUsageReply "token_usage option"
  | LedgerReply "usage_ledger option"
  | ConfigReply sampling_config
  | PathsReply "ustr set"
  | MetaReply "int option" "int option"
  | SnapshotReply chat_state_snapshot
  | TriggerReply "auto_compact_trigger option"
  | CredentialsReply credentials
  | MetadataReply "ustr option" "ustr option"
  | CaptureReply "turn_capture_result option"
  | TurnsReply "conversation_item list list"
  | TextReply "ustr option"
  | ItemReply "conversation_item option"
  | CountsReply conversation_counts

definition done_with :: "chat_state_actor option \<Rightarrow> (chat_state_actor \<times> chat_reply) option" where
  "done_with r = map_option (\<lambda>A. (A, NoReply)) r"

definition changed_chat :: "(chat_state \<Rightarrow> chat_state) \<Rightarrow> chat_state_actor \<Rightarrow> (chat_state_actor \<times> chat_reply) option" where
  "changed_chat f A = Some (set_chat f A, NoReply)"

definition handle_query :: "chat_query \<Rightarrow> chat_state \<Rightarrow> chat_reply option" where
  "handle_query q s =
     (case q of
        GetConversation \<Rightarrow> Some (ItemsReply (conversation s))
      | GetPromptIndex \<Rightarrow> Some (NatReply (prompt_index s))
      | GetLastCompactionPromptIndex \<Rightarrow> Some (NatOptReply (last_compaction_prompt_index s))
      | GetTotalTokens \<Rightarrow> Some (NatReply (total_tokens s))
      | GetLastTurnUsage \<Rightarrow> Some (TurnUsageReply (last_turn_usage s))
      | GetPromptUsage \<Rightarrow> Some (LedgerReply (prompt_usage s))
      | GetSessionUsage \<Rightarrow> Some (LedgerReply (Some (session_usage s)))
      | GetEstimatedTotalTokens \<Rightarrow> Some (NatReply (u64_add (total_tokens s) (estimated_tokens_since_model s)))
      | GetEstimatedMessagesTokens \<Rightarrow> map_option NatReply (estimate_messages_tokens (conversation s))
      | GetSamplingConfig \<Rightarrow> Some (ConfigReply (sampling_config s))
      | GetAgentEditedPaths \<Rightarrow> Some (PathsReply (agent_edited_paths s))
      | GetNotificationMeta \<Rightarrow> Some (MetaReply (stream_start_ms s) (turn_start_ms s))
      | TakeSnapshot \<Rightarrow> Some (SnapshotReply (snapshot s))
      | CheckAutoCompactNeeded p \<Rightarrow> Some (TriggerReply (check_auto_compact_needed p s))
      | GetCredentials \<Rightarrow> Some (CredentialsReply (credentials s))
      | GetLastModelMetadata \<Rightarrow>
          Some (MetadataReply (fst (get_last_model_metadata s)) (snd (get_last_model_metadata s)))
      | GetConversationLen \<Rightarrow> Some (NatReply (length (conversation s)))
      | HasDanglingToolCalls \<Rightarrow> Some (BoolReply (has_dangling_tool_calls (conversation s)))
      | GetLastAssistantText \<Rightarrow> Some (TextReply (get_last_assistant_text s))
      | GetFirstUserText \<Rightarrow> Some (TextReply (get_first_user_text s))
      | GetConversationItemAt i \<Rightarrow> Some (ItemReply (get_conversation_item_at i s))
      | GetLastUserQueryText \<Rightarrow> Some (TextReply (extract_last_user_query (conversation s)))
      | GetConversationCounts \<Rightarrow> Some (CountsReply (get_conversation_counts s))
      | GetSystemMessage \<Rightarrow> Some (ItemReply (get_system_message s)))"

definition handle_command ::
  "json_size \<Rightarrow> chat_state_command \<Rightarrow> chat_state_actor \<Rightarrow> (chat_state_actor \<times> chat_reply) option" where
  "handle_command J cmd A =
     (case cmd of
        Query q \<Rightarrow> map_option (\<lambda>r. (A, r)) (handle_query q (chat A))
      | PushUserMessage item \<Rightarrow> done_with (push_user_message item A)
      | PushUserMessageAndAck item \<Rightarrow> done_with (push_user_message item A)
      | PushUserMessageWithRepairReason item reason \<Rightarrow>
          done_with (push_user_message_with_repair_reason item reason A)
      | PushAssistantResponse item \<Rightarrow> done_with (push_message item A)
      | PushToolResult item \<Rightarrow> done_with (push_message item A)
      | RecordTokenUsage n \<Rightarrow> done_with (record_token_usage n A)
      | RecordLastTurnUsage usage \<Rightarrow> changed_chat (\<lambda>s. s\<lparr>last_turn_usage := Some usage\<rparr>) A
      | RecordModelCallUsage m usage duration cost \<Rightarrow>
          changed_chat (record_model_call_usage m usage duration cost) A
      | RecordSubagentUsage entries attribute inc \<Rightarrow> changed_chat (record_subagent_usage entries attribute inc) A
      | MarkUsageIncomplete in_prompt in_session \<Rightarrow> changed_chat (mark_usage_incomplete in_prompt in_session) A
      | IncrementPromptIndex \<Rightarrow> Some (increment_prompt_index A, NoReply)
      | UpdateSamplingConfig cfg \<Rightarrow> changed_chat (\<lambda>s. s\<lparr>sampling_config := cfg\<rparr>) A
      | RecordAgentEditedPath path \<Rightarrow>
          changed_chat (\<lambda>s. s\<lparr>agent_edited_paths := insert path (agent_edited_paths s)\<rparr>) A
      | RecordStreamStart t \<Rightarrow> changed_chat (\<lambda>s. s\<lparr>stream_start_ms := Some t\<rparr>) A
      | RecordTurnStart t \<Rightarrow> changed_chat (\<lambda>s. s\<lparr>turn_start_ms := Some t\<rparr>) A
      | ReplaceConversation items is_compaction \<Rightarrow> done_with (replace_conversation items is_compaction A)
      | RepairHistory dry_run blocked \<Rightarrow>
          if blocked then Some (A, RepairReply None)
          else map_option (\<lambda>(A', r). (A', RepairReply (Some r))) (repair_history_command dry_run A)
      | ReplaceSystemHead prompt \<Rightarrow> map_option (\<lambda>(A', b). (A', BoolReply b)) (replace_system_head prompt A)
      | CachePromptText t \<Rightarrow> changed_chat (\<lambda>s. s\<lparr>prompt_texts := prompt_texts s @ [t]\<rparr>) A
      | RecordCompactionAt i \<Rightarrow> changed_chat (\<lambda>s. s\<lparr>last_compaction_prompt_index := Some i\<rparr>) A
      | Flush \<Rightarrow> Some (flush_history A, NoReply)
      | UpdateCredentials c \<Rightarrow> changed_chat (\<lambda>s. s\<lparr>credentials := c\<rparr>) A
      | RestoreSnapshot p \<Rightarrow> map_option (\<lambda>s. (A\<lparr>chat := s\<rparr>, NoReply)) (restore_snapshot p (chat A))
      | BeginTurnCapture \<Rightarrow> changed_chat begin_turn_capture A
      | AppendHarnessTraceItems items \<Rightarrow>
          changed_chat (\<lambda>s. s\<lparr>harness_trace_buffer := harness_trace_buffer s @ items\<rparr>) A
      | FlushHarnessTraceTurn \<Rightarrow> changed_chat seal_harness_trace_turn A
      | RepairDanglingAfterHarnessHalt class \<Rightarrow> Some (repair_dangling_after_harness_halt class A, NoReply)
      | BuildConversationRequest tools reminder persist conv_id req_id \<Rightarrow>
          let (A', req) = build_conversation_request J tools reminder persist conv_id req_id
                            (ensure_conversation_integrity_with_reason UserCancelled A)
          in Some (A', RequestReply req)
      | TruncateToPromptIndex target \<Rightarrow>
          done_with (map_option (set_chat (\<lambda>s. s\<lparr>turn_capture := None, prompt_usage := None\<rparr>))
            (truncate_to_prompt_index target A))
      | TakeTurnMessages \<Rightarrow>
          let (s, r) = take_turn_messages (chat A) in Some (A\<lparr>chat := s\<rparr>, CaptureReply r)
      | TakeHarnessTraceTurns \<Rightarrow>
          let s = seal_harness_trace_turn (chat A)
          in Some (A\<lparr>chat := s\<lparr>harness_trace_turns := []\<rparr>\<rparr>, TurnsReply (harness_trace_turns s)))"

end
