(* ===== verification/Conversation_Repair.thy ===== *)
theory Conversation_Repair
  imports Conversation
begin

text \<open>
  What the repair passes make of a conversation. A conversation is read as blocks: an item that is not
  a tool result, with the run of results after it. The reference definition \<open>repaired\<close> treats each
  block on its own, in one pass; the three passes of \<^verbatim>\<open>repair_history\<close> compute it.
\<close>

section \<open>Blocks\<close>

definition starts_plain :: "conversation_item list \<Rightarrow> bool" where
  "starts_plain xs \<longleftrightarrow> (case xs of [] \<Rightarrow> True | x # _ \<Rightarrow> \<not> is_result x)"

lemma starts_plain_simps [simp]: "starts_plain []" "starts_plain (x # xs) \<longleftrightarrow> \<not> is_result x"
  by (simp_all add: starts_plain_def)

lemma starts_plain_dropWhile [simp]: "starts_plain (dropWhile is_result xs)"
  by (induction xs) auto

lemma run_split [simp]:
  assumes "list_all is_result run" "starts_plain rest"
  shows "takeWhile is_result (run @ rest) = run" "dropWhile is_result (run @ rest) = rest"
  using assms by (induction run) (cases rest; auto)+

lemma block_induct [consumes 1, case_names Nil Block]:
  assumes "starts_plain xs" and "P []"
    and "\<And>x run rest. \<not> is_result x \<Longrightarrow> list_all is_result run \<Longrightarrow> starts_plain rest \<Longrightarrow> P rest
          \<Longrightarrow> P (x # run @ rest)"
  shows "P xs"
  using assms(1)
proof (induction xs rule: length_induct)
  case (1 xs)
  show ?case
  proof (cases xs)
    case (Cons x ys)
    let ?run = "takeWhile is_result ys" and ?rest = "dropWhile is_result ys"
    have "P ?rest" using 1 Cons length_dropWhile_less [of is_result ys] by auto
    then have "P (x # ?run @ ?rest)"
      using assms(3) [of x ?run ?rest] 1(2) Cons by (auto simp: list_all_iff dest: set_takeWhileD)
    then show ?thesis using Cons by simp
  qed (simp add: assms(2))
qed

definition answers :: "dangling_tool_call_reason \<Rightarrow> conversation_item \<Rightarrow> conversation_item list \<Rightarrow> conversation_item list" where
  "answers reason x run =
     (let kept = filter (\<lambda>r. result_id r \<in> Some ` set (call_ids x)) (keep_last run)
      in kept @ (case x of Assistant a \<Rightarrow> synthetic_results reason (tool_calls a) kept | _ \<Rightarrow> []))"

function repaired :: "dangling_tool_call_reason \<Rightarrow> conversation_item list \<Rightarrow> conversation_item list" where
  "repaired reason [] = []"
| "repaired reason (x # xs) =
     (if is_result x then repaired reason xs
      else x # answers reason x (takeWhile is_result xs) @ repaired reason (dropWhile is_result xs))"
  by pat_completeness auto
termination repaired
  by (relation "measure (\<lambda>(reason, xs). length xs)") (auto simp: length_dropWhile_less)

declare repaired.simps [simp del]

lemma pass_Nil [simp]:
  "repair_dangling_tool_calls reason [] = ([], 0)" "has_dangling_tool_calls [] = False"
  "dedup_duplicate_tool_results [] = ([], 0)" "repaired reason [] = []"
  by (simp_all add: repair_dangling_tool_calls.simps has_dangling_tool_calls.simps
      dedup_duplicate_tool_results.simps repaired.simps)

section \<open>Each pass on a block\<close>

lemma is_result_cases:
  obtains (result) t where "x = ToolResult t" "is_result x" | (plain) "\<not> is_result x"
  by (cases x) (auto simp: is_result_def)

lemma dedup_plain_step:
  "call_ids x = [] \<Longrightarrow> dedup_duplicate_tool_results (x # xs) =
     (let (rest, n) = dedup_duplicate_tool_results xs in (x # rest, n))"
  by (subst dedup_duplicate_tool_results.simps) (auto simp: call_ids_def split: conversation_item.splits)

lemma dedup_run:
  "list_all is_result run \<Longrightarrow>
     dedup_duplicate_tool_results (run @ rest) =
       (run @ fst (dedup_duplicate_tool_results rest), snd (dedup_duplicate_tool_results rest))"
proof (induction run)
  case (Cons r run)
  then have "call_ids r = []" by (auto simp: is_result_def call_ids_def split: conversation_item.splits)
  with Cons show ?case by (simp add: dedup_plain_step split: prod.splits)
qed simp

lemma keep_last_subset: "set (keep_last xs) \<subseteq> set xs"
  by (induction xs) auto

lemma keep_last_ids: "set (map result_id (keep_last xs)) = set (map result_id xs)"
  by (induction xs) auto

lemma distinct_keep_last: "distinct (map result_id (keep_last xs))"
proof (induction xs)
  case (Cons x xs)
  then show ?case using keep_last_ids [of xs] by auto
qed simp

lemma keep_last_distinct: "distinct (map result_id xs) \<Longrightarrow> keep_last xs = xs"
  by (induction xs) auto

lemma keep_last_idem [simp]: "keep_last (keep_last xs) = keep_last xs"
  by (rule keep_last_distinct) (rule distinct_keep_last)

lemma keep_last_results: "list_all is_result run \<Longrightarrow> list_all is_result (keep_last run)"
  using keep_last_subset [of run] by (auto simp: list_all_iff)

lemma dedup_calls_step:
  assumes "call_ids x \<noteq> []" "list_all is_result run" "starts_plain rest" "keep_last run = run"
  shows "dedup_duplicate_tool_results (x # run @ rest) =
     (x # run @ fst (dedup_duplicate_tool_results rest), snd (dedup_duplicate_tool_results rest))"
  using assms
  by (subst dedup_duplicate_tool_results.simps)
     (auto simp: call_ids_def Let_def split: conversation_item.splits prod.splits)

lemma dedup_rescan:
  assumes "call_ids x \<noteq> []" "list_all is_result run" "starts_plain rest" "keep_last run \<noteq> run"
  shows "dedup_duplicate_tool_results (x # run @ rest) =
     (let (ys, n) = dedup_duplicate_tool_results (x # keep_last run @ rest)
      in (ys, length run - length (keep_last run) + n))"
  using assms
  by (subst dedup_duplicate_tool_results.simps)
     (auto simp: call_ids_def Let_def split: conversation_item.splits prod.splits)

lemma dedup_block:
  assumes "\<not> is_result x" "list_all is_result run" "starts_plain rest"
  shows "dedup_duplicate_tool_results (x # run @ rest) =
     (let run' = (if call_ids x = [] then run else keep_last run)
      in (x # run' @ fst (dedup_duplicate_tool_results rest),
          length run - length run' + snd (dedup_duplicate_tool_results rest)))"
proof (cases "call_ids x = []")
  case True
  with assms show ?thesis by (simp add: dedup_plain_step dedup_run)
next
  case False
  show ?thesis
  proof (cases "keep_last run = run")
    case True
    with assms False show ?thesis by (simp add: dedup_calls_step)
  next
    case changed: False
    have "dedup_duplicate_tool_results (x # keep_last run @ rest) =
       (x # keep_last run @ fst (dedup_duplicate_tool_results rest), snd (dedup_duplicate_tool_results rest))"
      using assms False by (intro dedup_calls_step) (auto intro: keep_last_results)
    with assms False changed show ?thesis by (simp add: dedup_rescan Let_def)
  qed
qed

lemma strip_run:
  "list_all is_result run \<Longrightarrow>
     fst (strip_displaced ids (run @ rest)) =
       filter (\<lambda>r. result_id r \<in> Some ` set ids) run @ fst (strip_displaced (if rest = [] then [] else ids) rest)"
  by (induction run) (auto simp: is_result_def result_id_def Let_def split: conversation_item.splits prod.splits)

lemma strip_ids_irrelevant: "starts_plain xs \<Longrightarrow> strip_displaced ids xs = strip_displaced [] xs"
  by (cases xs) (auto simp: is_result_def split: conversation_item.splits)

lemma strip_block:
  assumes "\<not> is_result x" "list_all is_result run" "starts_plain rest"
  shows "fst (strip_displaced ids (x # run @ rest)) =
     x # filter (\<lambda>r. result_id r \<in> Some ` set (call_ids x)) run @ fst (strip_displaced [] rest)"
proof -
  have "fst (strip_displaced ids (x # run @ rest)) = x # fst (strip_displaced (call_ids x) (run @ rest))"
    using assms(1) by (auto simp: is_result_def call_ids_def Let_def split: conversation_item.splits prod.splits)
  then show ?thesis
    using assms strip_ids_irrelevant [of rest "call_ids x"] by (simp add: strip_run)
qed

lemma dangling_plain_step:
  "call_ids x = [] \<Longrightarrow> repair_dangling_tool_calls reason (x # xs) =
     (x # fst (repair_dangling_tool_calls reason xs), snd (repair_dangling_tool_calls reason xs))"
  by (subst repair_dangling_tool_calls.simps)
     (auto simp: call_ids_def split: conversation_item.splits prod.splits)

lemma dangling_run:
  "list_all is_result run \<Longrightarrow>
     repair_dangling_tool_calls reason (run @ rest) =
       (run @ fst (repair_dangling_tool_calls reason rest), snd (repair_dangling_tool_calls reason rest))"
proof (induction run)
  case (Cons r run)
  then have "call_ids r = []" by (auto simp: is_result_def call_ids_def split: conversation_item.splits)
  with Cons show ?case by (simp add: dangling_plain_step)
qed simp

definition missing_results ::
  "dangling_tool_call_reason \<Rightarrow> conversation_item \<Rightarrow> conversation_item list \<Rightarrow> conversation_item list" where
  "missing_results reason x run =
     (case x of Assistant a \<Rightarrow> synthetic_results reason (tool_calls a) run | _ \<Rightarrow> [])"

lemma missing_no_calls: "call_ids x = [] \<Longrightarrow> missing_results reason x run = []"
  by (auto simp: missing_results_def call_ids_def synthetic_results_def split: conversation_item.splits)

lemma dangling_block:
  assumes "\<not> is_result x" "list_all is_result run" "starts_plain rest"
  shows "repair_dangling_tool_calls reason (x # run @ rest) =
     (x # run @ missing_results reason x run @ fst (repair_dangling_tool_calls reason rest),
      length (missing_results reason x run) + snd (repair_dangling_tool_calls reason rest))"
proof (cases "call_ids x = []")
  case True
  with assms show ?thesis by (simp add: dangling_plain_step dangling_run missing_no_calls)
next
  case False
  with assms show ?thesis
    by (subst repair_dangling_tool_calls.simps)
       (auto simp: call_ids_def missing_results_def Let_def split: conversation_item.splits prod.splits)
qed

section \<open>The reference repair\<close>

lemma repaired_block:
  assumes "\<not> is_result x" "list_all is_result run" "starts_plain rest"
  shows "repaired reason (x # run @ rest) = x # answers reason x run @ repaired reason rest"
  using assms by (subst repaired.simps) simp

lemma repaired_run: "list_all is_result run \<Longrightarrow> repaired reason (run @ rest) = repaired reason rest"
  by (induction run) (auto simp: repaired.simps)

lemma answers_eq:
  "answers reason x run =
     (let kept = filter (\<lambda>r. result_id r \<in> Some ` set (call_ids x)) (keep_last run)
      in kept @ missing_results reason x kept)"
  by (simp add: answers_def missing_results_def)

lemma filter_results: "list_all is_result run \<Longrightarrow> list_all is_result (filter P run)"
  by (auto simp: list_all_iff)

lemma missing_results_are_results: "list_all is_result (missing_results reason x run)"
  by (cases x) (auto simp: missing_results_def synthetic_results_def list_all_iff tool_result_def is_result_def)

lemma answers_results: "list_all is_result run \<Longrightarrow> list_all is_result (answers reason x run)"
  using missing_results_are_results keep_last_results [of run]
  by (auto simp: answers_eq Let_def filter_results)

definition three_passes :: "dangling_tool_call_reason \<Rightarrow> conversation_item list \<Rightarrow> conversation_item list" where
  "three_passes reason xs =
     fst (repair_dangling_tool_calls reason (fst (strip_displaced [] (fst (dedup_duplicate_tool_results xs)))))"

lemma passes_plain:
  "starts_plain xs \<Longrightarrow>
     starts_plain (fst (dedup_duplicate_tool_results xs)) \<and>
     starts_plain (fst (strip_displaced [] (fst (dedup_duplicate_tool_results xs)))) \<and>
     three_passes reason xs = repaired reason xs"
proof (induction xs rule: block_induct)
  case (Block x run rest)
  let ?run = "if call_ids x = [] then run else keep_last run"
  let ?kept = "filter (\<lambda>r. result_id r \<in> Some ` set (call_ids x)) ?run"
  have run: "list_all is_result ?run" using Block by (simp add: keep_last_results)
  have kept: "list_all is_result ?kept" using run by (rule filter_results)
  have d: "fst (dedup_duplicate_tool_results (x # run @ rest)) = x # ?run @ fst (dedup_duplicate_tool_results rest)"
    using Block by (simp add: dedup_block Let_def)
  have s: "fst (strip_displaced [] (x # ?run @ fst (dedup_duplicate_tool_results rest))) =
      x # ?kept @ fst (strip_displaced [] (fst (dedup_duplicate_tool_results rest)))"
    using Block run by (intro strip_block) auto
  have a: "answers reason x run = ?kept @ missing_results reason x ?kept"
    by (simp add: answers_eq Let_def missing_no_calls)
  have "three_passes reason (x # run @ rest) = x # answers reason x run @ three_passes reason rest"
    unfolding three_passes_def d s a using Block kept by (subst dangling_block) auto
  then show ?case using Block d s by (simp add: repaired_block)
qed (simp add: three_passes_def)

lemma leading_run:
  obtains run rest where "xs = run @ rest" "list_all is_result run" "starts_plain rest"
  by (rule that [of "takeWhile is_result xs" "dropWhile is_result xs"])
     (auto simp: list_all_iff dest: set_takeWhileD)

lemma three_passes_repaired: "three_passes reason xs = repaired reason xs"
proof -
  obtain run rest where xs: "xs = run @ rest" "list_all is_result run" "starts_plain rest"
    by (rule leading_run)
  have "fst (strip_displaced [] (fst (dedup_duplicate_tool_results xs))) =
      fst (strip_displaced [] (fst (dedup_duplicate_tool_results rest)))"
    using xs by (simp add: dedup_run strip_run)
  then show ?thesis using xs passes_plain [of rest reason] by (simp add: three_passes_def repaired_run)
qed

lemma repair_history_repaired:
  "fst (repair_history items) = repaired (HarnessHalted (u ''history_repair'')) items"
  by (simp add: repair_history_def strip_displaced_tool_results_def three_passes_repaired [symmetric]
      three_passes_def Let_def split: prod.splits)

section \<open>Paired conversations\<close>

text \<open>
  What providers accept: a message with calls is directly followed by exactly one result for each of
  them, and there are no other results.
\<close>

inductive paired :: "conversation_item list \<Rightarrow> bool" where
  paired_Nil: "paired []"
| paired_block:
    "\<not> is_result x \<Longrightarrow> list_all is_result run \<Longrightarrow> distinct (map result_id run) \<Longrightarrow>
     set (map result_id run) = Some ` set (call_ids x) \<Longrightarrow> paired rest \<Longrightarrow> paired (x # run @ rest)"

lemma paired_starts_plain: "paired xs \<Longrightarrow> starts_plain xs"
  by (induction rule: paired.induct) auto

definition distinct_calls :: "conversation_item list \<Rightarrow> bool" where
  "distinct_calls xs \<longleftrightarrow> (\<forall>x \<in> set xs. distinct (call_ids x))"

lemma missing_ids:
  "map result_id (missing_results reason x run) =
     map Some (filter (\<lambda>i. Some i \<notin> set (map result_id run)) (call_ids x))"
proof (cases x)
  case (Assistant a)
  then show ?thesis
    by (auto simp: missing_results_def synthetic_results_def call_ids_def tool_result_def result_id_def
        filter_map comp_def)
qed (simp_all add: missing_results_def call_ids_def)

lemma missing_disjoint: "set (map result_id (missing_results reason x run)) \<inter> set (map result_id run) = {}"
proof -
  have "set (map Some (filter (\<lambda>i. Some i \<notin> K) ids)) \<inter> K = {}" for K and ids :: "ustr list"
    by auto
  then show ?thesis unfolding missing_ids .
qed

lemma answers_paired:
  assumes "distinct (call_ids x)"
  shows "distinct (map result_id (answers reason x run))"
    and "set (map result_id (answers reason x run)) = Some ` set (call_ids x)"
proof -
  let ?kept = "filter (\<lambda>r. result_id r \<in> Some ` set (call_ids x)) (keep_last run)"
  have "distinct (map result_id ?kept)" using distinct_keep_last [of run] by (rule distinct_map_filter)
  moreover have "distinct (map result_id (missing_results reason x ?kept))"
    using assms by (simp add: missing_ids distinct_map inj_on_def)
  moreover have "set (map result_id ?kept) \<inter> set (map result_id (missing_results reason x ?kept)) = {}"
    using missing_disjoint [of reason x ?kept] by blast
  ultimately show "distinct (map result_id (answers reason x run))"
    by (simp add: answers_eq Let_def)
  have "set (map result_id (missing_results reason x ?kept)) =
      Some ` {i \<in> set (call_ids x). Some i \<notin> set (map result_id ?kept)}"
    unfolding missing_ids by auto
  then show "set (map result_id (answers reason x run)) = Some ` set (call_ids x)"
    by (auto simp: answers_eq Let_def)
qed

lemma repaired_paired_plain: "starts_plain xs \<Longrightarrow> distinct_calls xs \<Longrightarrow> paired (repaired reason xs)"
proof (induction xs rule: block_induct)
  case (Block x run rest)
  then show ?case
    using answers_paired [of x reason run] answers_results [of run reason x]
    by (auto simp: repaired_block distinct_calls_def intro!: paired_block)
qed (simp add: paired_Nil)

lemma repaired_paired: "distinct_calls xs \<Longrightarrow> paired (repaired reason xs)"
  by (rule leading_run [of xs]) (auto simp: repaired_run distinct_calls_def intro: repaired_paired_plain)

lemma answers_id:
  assumes "list_all is_result run" "distinct (map result_id run)" "set (map result_id run) = Some ` set (call_ids x)"
  shows "answers reason x run = run"
proof -
  have "map result_id (missing_results reason x run) = []" using assms(3) by (auto simp: missing_ids)
  then have "missing_results reason x run = []" by simp
  moreover have "filter (\<lambda>r. result_id r \<in> Some ` set (call_ids x)) run = run"
    using assms(3) by (auto simp: filter_id_conv)
  ultimately show ?thesis using assms(2) by (simp add: answers_eq keep_last_distinct)
qed

lemma repaired_id: "paired xs \<Longrightarrow> repaired reason xs = xs"
proof (induction rule: paired.induct)
  case (paired_block x run rest)
  then show ?case using paired_starts_plain answers_id [of run x reason] by (simp add: repaired_block)
qed simp

section \<open>Counting and keeping\<close>

definition no_report :: history_repair_report where
  "no_report = \<lparr>duplicates_removed = 0, stripped_tool_result_ids = [], synthetic_results_inserted = 0\<rparr>"

lemma paired_passes:
  "paired xs \<Longrightarrow>
     dedup_duplicate_tool_results xs = (xs, 0) \<and> strip_displaced [] xs = (xs, []) \<and>
     repair_dangling_tool_calls reason xs = (xs, 0)"
proof (induction rule: paired.induct)
  case (paired_block x run rest)
  note plain = paired_starts_plain [OF \<open>paired rest\<close>]
  have "map result_id (missing_results reason x run) = []" using paired_block by (auto simp: missing_ids)
  then have none: "missing_results reason x run = []" by simp
  have "strip_displaced ids (run @ rest) = (run @ rest, [])"
    if "set (map result_id run) \<subseteq> Some ` set ids" "list_all is_result run" for ids
    using that
  proof (induction run)
    case Nil
    then show ?case using paired_block strip_ids_irrelevant [OF plain, of ids] by simp
  next
    case (Cons r run)
    then show ?case by (auto simp: is_result_def result_id_def split: conversation_item.splits)
  qed
  from this [of "call_ids x"] have "strip_displaced [] (x # run @ rest) = (x # run @ rest, [])"
    using paired_block by (cases x) (auto simp: call_ids_def is_result_def intro: strip_ids_irrelevant)
  then show ?case
    using paired_block plain none by (simp add: dedup_block dangling_block keep_last_distinct)
qed simp

lemma repair_history_paired: "paired xs \<Longrightarrow> repair_history xs = (xs, no_report)"
  using paired_passes [of xs] by (simp add: repair_history_def strip_displaced_tool_results_def no_report_def)

definition plain_items :: "conversation_item list \<Rightarrow> conversation_item list" where
  "plain_items = filter (\<lambda>x. \<not> is_result x)"

lemma plain_items_run [simp]: "list_all is_result run \<Longrightarrow> plain_items (run @ xs) = plain_items xs"
  by (induction run) (auto simp: plain_items_def)

lemma plain_items_Nil [simp]: "plain_items [] = []"
  by (simp add: plain_items_def)

lemma plain_items_Cons [simp]: "\<not> is_result x \<Longrightarrow> plain_items (x # xs) = x # plain_items xs"
  by (simp add: plain_items_def)

lemma plain_items_repaired: "plain_items (repaired reason xs) = plain_items xs"
proof -
  have "plain_items (repaired reason xs) = plain_items xs" if "starts_plain xs" for xs
    using that
    by (induction xs rule: block_induct) (auto simp: repaired_block answers_results)
  then show ?thesis by (metis leading_run plain_items_run repaired_run)
qed

lemma dedup_none: "snd (dedup_duplicate_tool_results xs) = 0 \<Longrightarrow> fst (dedup_duplicate_tool_results xs) = xs"
proof -
  have "snd (dedup_duplicate_tool_results xs) = 0 \<Longrightarrow> fst (dedup_duplicate_tool_results xs) = xs"
    if "starts_plain xs" for xs
    using that
  proof (induction xs rule: block_induct)
    case (Block x run rest)
    then show ?case
      using keep_last_shorter [of run] by (auto simp: dedup_block Let_def split: if_splits)
  qed simp
  moreover assume "snd (dedup_duplicate_tool_results xs) = 0"
  ultimately show ?thesis by (metis leading_run dedup_run fst_conv snd_conv)
qed

lemma strip_none: "snd (strip_displaced ids xs) = [] \<Longrightarrow> fst (strip_displaced ids xs) = xs"
  by (induction ids xs rule: strip_displaced.induct)
     (auto simp: Let_def split: conversation_item.splits prod.splits if_splits)

lemma dangling_none:
  "snd (repair_dangling_tool_calls reason xs) = 0 \<Longrightarrow> fst (repair_dangling_tool_calls reason xs) = xs"
proof -
  have "snd (repair_dangling_tool_calls reason xs) = 0 \<Longrightarrow> fst (repair_dangling_tool_calls reason xs) = xs"
    if "starts_plain xs" for xs
    using that by (induction xs rule: block_induct) (auto simp: dangling_block)
  moreover assume "snd (repair_dangling_tool_calls reason xs) = 0"
  ultimately show ?thesis by (metis leading_run dangling_run fst_conv snd_conv)
qed

lemma repair_unchanged: "\<not> report_changed (snd (repair_history xs)) \<Longrightarrow> fst (repair_history xs) = xs"
  using dedup_none [of xs] strip_none [of "[]"] dangling_none [of "HarnessHalted (u ''history_repair'')"]
  by (auto simp: repair_history_def report_changed_def strip_displaced_tool_results_def Let_def split: prod.splits)
     (metis fst_conv snd_conv)+

lemma no_report_unchanged: "\<not> report_changed no_report"
  by (simp add: report_changed_def no_report_def)

section \<open>The repair of a history\<close>

text \<open>
  C27. When no message declares a call identifier twice, repairing a history gives the block-wise
  reference repair: after each message exactly one result for each of its calls (the last one found in
  the run after it, or a synthetic one) and no other results; all other items stay, in order. A second
  repair changes nothing, and a repair reports a change exactly when the history was not in this form.
\<close>

theorem repair_history_correct:
  assumes "distinct_calls items"
  shows "fst (repair_history items) = repaired (HarnessHalted (u ''history_repair'')) items \<and>
     paired (fst (repair_history items)) \<and>
     plain_items (fst (repair_history items)) = plain_items items \<and>
     repair_history (fst (repair_history items)) = (fst (repair_history items), no_report) \<and>
     (report_changed (snd (repair_history items)) \<longleftrightarrow> \<not> paired items)"
proof -
  let ?h = "fst (repair_history items)"
  have ref: "?h = repaired (HarnessHalted (u ''history_repair'')) items" by (rule repair_history_repaired)
  have paired: "paired ?h" unfolding ref using assms by (rule repaired_paired)
  moreover have "report_changed (snd (repair_history items)) \<longleftrightarrow> \<not> paired items"
    using paired repair_unchanged [of items] repair_history_paired [of items] no_report_unchanged
    by (metis snd_conv)
  ultimately show ?thesis
    using ref plain_items_repaired repair_history_paired by metis
qed

definition sample_call :: "string \<Rightarrow> tool_call" where
  "sample_call i = \<lparr>call_id = u i, call_name = u ''read_file'', call_arguments = u ''{}''\<rparr>"

definition torn_history :: "conversation_item list" where
  "torn_history =
     [user (u ''hi''), tool_result (u ''x'') (u ''orphan''),
      assistant_tool_calls [sample_call ''a'', sample_call ''b''],
      tool_result (u ''a'') (u ''early''), tool_result (u ''a'') (u ''late''), user (u ''go on'')]"

lemma torn_history_eval:
  "distinct_calls torn_history \<and> report_changed (snd (repair_history torn_history)) \<and>
   fst (repair_history torn_history) =
     [user (u ''hi''), assistant_tool_calls [sample_call ''a'', sample_call ''b''],
      tool_result (u ''a'') (u ''late''),
      tool_result (u ''b'')
        (synthetic_dangling_result_text (u ''read_file'') (HarnessHalted (u ''history_repair''))),
      user (u ''go on'')]"
  by code_simp

theorem repair_history_correct_witness:
  "distinct_calls torn_history \<and> \<not> paired torn_history \<and> paired (fst (repair_history torn_history))"
  using repair_history_correct [of torn_history] torn_history_eval by blast

end
