(* ===== verification/Chat_Invariant.thy ===== *)
theory Chat_Invariant
  imports Chat_Actor Conversation_Repair
begin

text \<open>
  The invariant of the conversation actor: the offset of an active turn capture lies within the
  conversation, the persisted history is the conversation, and the ledgers add up.
\<close>

section \<open>Turn capture and persisted history\<close>

definition capture_ok :: "chat_state \<Rightarrow> bool" where
  "capture_ok s \<longleftrightarrow> (\<forall>c. turn_capture s = Some c \<longrightarrow> turn_start_offset c \<le> length (conversation s))"

text \<open>What a reader of the persisted records finds when the history was \<open>h\<close> at the start.\<close>

fun on_disk :: "conversation_item list \<Rightarrow> persistence_record list \<Rightarrow> conversation_item list" where
  "on_disk h [] = h"
| "on_disk h (PersistedMessage x # rs) = on_disk (h @ [x]) rs"
| "on_disk h (ReplacedHistory xs # rs) = on_disk xs rs"
| "on_disk h (Flushed # rs) = on_disk h rs"

lemma on_disk_append [simp]: "on_disk h (rs @ rs') = on_disk (on_disk h rs) rs'"
  by (induction h rs rule: on_disk.induct) auto

definition mirrored :: "conversation_item list \<Rightarrow> chat_state_actor \<Rightarrow> bool" where
  "mirrored h A \<longleftrightarrow> on_disk h (persistence A) = conversation (chat A)"

lemmas actor_defs = set_chat_def persist_message_def replace_history_def flush_history_def send_event_def
  done_with_def changed_chat_def

lemma capture_fields [simp]:
  "conversation (snapshot_turn_slice s) = conversation s"
  "conversation (rebase_turn_capture_offset s) = conversation s"
  "conversation (mark_compaction s) = conversation s"
  by (simp_all add: snapshot_turn_slice_def rebase_turn_capture_offset_def mark_compaction_def)

lemma capture_ok_rebase [simp]: "capture_ok (rebase_turn_capture_offset s)"
  by (auto simp: capture_ok_def rebase_turn_capture_offset_def)

lemma capture_ok_cong:
  "turn_capture s' = turn_capture s \<Longrightarrow> length (conversation s) \<le> length (conversation s') \<Longrightarrow>
   capture_ok s \<Longrightarrow> capture_ok s'"
  by (auto simp: capture_ok_def dest: order_trans)

lemma hard_clear_length: "length (fst (hard_clear k t b xs)) = length xs"
  by (induction k t b xs rule: hard_clear.induct)
     (auto simp: Let_def split: conversation_item.splits prod.splits)

lemma hard_clear_none: "snd (hard_clear k t b xs) = 0 \<Longrightarrow> fst (hard_clear k t b xs) = xs"
  by (induction k t b xs rule: hard_clear.induct)
     (auto simp: Let_def split: conversation_item.splits prod.splits if_splits)

text \<open>Items up to the text of tool results, which pruning replaces.\<close>

definition erase :: "conversation_item \<Rightarrow> conversation_item" where
  "erase x = (case x of ToolResult t \<Rightarrow> ToolResult (t\<lparr>result_content := []\<rparr>) | _ \<Rightarrow> x)"

lemma hard_clear_erase: "map erase (fst (hard_clear k t b xs)) = map erase xs"
  by (induction k t b xs rule: hard_clear.induct)
     (auto simp: erase_def Let_def split: conversation_item.splits prod.splits)

lemma ensure_integrity_chat:
  "chat (ensure_conversation_integrity_with_reason reason A) =
     rebase_turn_capture_offset ((snapshot_turn_slice (chat A))\<lparr>conversation :=
       fst (repair_dangling_tool_calls reason (fst (dedup_duplicate_tool_results (conversation (chat A)))))\<rparr>)"
  by (simp add: ensure_conversation_integrity_with_reason_def actor_defs Let_def split: prod.splits)

lemma ensure_integrity_mirrored:
  "mirrored h A \<Longrightarrow> mirrored h (ensure_conversation_integrity_with_reason reason A)"
  using dedup_none [of "conversation (chat A)"]
    dangling_none [of reason "fst (dedup_duplicate_tool_results (conversation (chat A)))"]
  by (auto simp: ensure_conversation_integrity_with_reason_def mirrored_def actor_defs Let_def split: prod.splits)

lemma ensure_integrity_capture: "capture_ok (chat (ensure_conversation_integrity_with_reason reason A))"
  by (simp add: ensure_integrity_chat)

lemma append_item_fields [simp]:
  "conversation (chat (append_item x A)) = conversation (chat A) @ [x]"
  "turn_capture (chat (append_item x A)) = turn_capture (chat A)"
  "persistence (append_item x A) = persistence A @ [PersistedMessage x]"
  by (simp_all add: append_item_def actor_defs)

lemma count_item_fields:
  "count_item x A = Some A' \<Longrightarrow>
     conversation (chat A') = conversation (chat A) \<and> turn_capture (chat A') = turn_capture (chat A) \<and>
     persistence A' = persistence A \<and> pruning_config A' = pruning_config A \<and> prompt_index (chat A') = prompt_index (chat A)"
  by (auto simp: count_item_def actor_defs)

lemma push_message_fields:
  "push_message x A = Some A' \<Longrightarrow>
     conversation (chat A') = conversation (chat A) @ [x] \<and> turn_capture (chat A') = turn_capture (chat A) \<and>
     persistence A' = persistence A @ [PersistedMessage x]"
  by (auto simp: push_message_def split: if_splits dest: count_item_fields)

lemma prune_retained_fields:
  assumes "prune_retained_conversation A = Some (A', n)"
  shows "turn_capture (chat A') = turn_capture (chat A) \<and>
     length (conversation (chat A')) = length (conversation (chat A)) \<and>
     (mirrored h A \<longrightarrow> mirrored h A') \<and>
     map erase (conversation (chat A')) = map erase (conversation (chat A))"
proof -
  let ?k = "min u64_max (hard_clear_age_turns (pruning_config A)
      + (length (filter is_user (conversation (chat A))) - prompt_index (chat A)))"
  have "length (fst (hard_clear ?k 0 False (rev (conversation (chat A))))) = length (conversation (chat A))"
    by (simp add: hard_clear_length)
  moreover have "map erase (rev (fst (hard_clear ?k 0 False (rev (conversation (chat A)))))) =
      map erase (conversation (chat A))"
    using hard_clear_erase [of ?k 0 False "rev (conversation (chat A))"] by (metis rev_map rev_rev_ident)
  moreover note hard_clear_none [of ?k 0 False "rev (conversation (chat A))"]
  ultimately show ?thesis
    using assms
    by (auto simp: prune_retained_conversation_def actor_defs mirrored_def Let_def
        split: if_splits prod.splits bind_splits)
qed

lemma push_user_message_fields:
  assumes "push_user_message_with_repair_reason x reason A = Some A'"
  shows "capture_ok (chat A') \<and> (mirrored h A \<longrightarrow> mirrored h A')"
proof -
  let ?E = "ensure_conversation_integrity_with_reason reason A"
  obtain A1 n where A1: "count_item x ?E = Some A1" and A': "prune_retained_conversation (append_item x A1) = Some (A', n)"
    using assms by (auto simp: push_user_message_with_repair_reason_def split: bind_splits)
  have "capture_ok (chat (append_item x A1))"
    by (rule capture_ok_cong [of _ "chat ?E"]) (use count_item_fields [OF A1] in \<open>simp_all add: ensure_integrity_capture\<close>)
  moreover have "mirrored h (append_item x A1)" if "mirrored h A"
    using ensure_integrity_mirrored [OF that, of reason] count_item_fields [OF A1] by (simp add: mirrored_def)
  ultimately show ?thesis
    using prune_retained_fields [OF A', of h] capture_ok_cong [of "chat A'" "chat (append_item x A1)"] by simp
qed

lemma replace_conversation_fields:
  assumes "replace_conversation items c A = Some A'"
  shows "capture_ok (chat A') \<and> mirrored h A' \<and> conversation (chat A') = items \<and>
     turn_capture (chat A') = map_option (\<lambda>cap. cap\<lparr>turn_start_offset := length items\<rparr>)
       (turn_capture (if c then mark_compaction (snapshot_turn_slice (chat A)) else snapshot_turn_slice (chat A)))"
  using assms
  by (auto simp: replace_conversation_def actor_defs mirrored_def rebase_turn_capture_offset_def
      capture_ok_def Let_def split: bind_splits if_splits)

lemma repair_history_command_fields:
  assumes "repair_history_command d A = Some (A', r)"
  shows "(capture_ok (chat A) \<longrightarrow> capture_ok (chat A')) \<and> (mirrored h A \<longrightarrow> mirrored h A')"
  using assms replace_conversation_fields [of "fst (repair_history (conversation (chat A)))" False
      "set_chat (\<lambda>s. s\<lparr>conversation := []\<rparr>) A" A' h]
  by (auto simp: repair_history_command_def split: prod.splits if_splits)

lemma replace_system_head_fields:
  assumes "replace_system_head p A = Some (A', b)"
  shows "(capture_ok (chat A) \<longrightarrow> capture_ok (chat A')) \<and> (mirrored h A \<longrightarrow> mirrored h A')"
  using assms by (auto simp: replace_system_head_def split: prod.splits if_splits dest: replace_conversation_fields)

lemma inject_unchanged: "\<not> snd (inject_memory_reminder r xs) \<Longrightarrow> fst (inject_memory_reminder r xs) = xs"
  by (cases xs; cases "hd xs")
     (auto simp: inject_memory_reminder_def upsert_memory_reminder_text_def Let_def split: if_splits prod.splits)

lemma persist_reminder_fields:
  "(capture_ok (chat A) \<longrightarrow> capture_ok (chat (fst (persist_reminder m p A)))) \<and>
   (mirrored h A \<longrightarrow> mirrored h (fst (persist_reminder m p A)))"
  using inject_unchanged [of "the m" "conversation (chat A)"]
  by (auto simp: persist_reminder_def mirrored_def actor_defs Let_def split: option.splits prod.splits if_splits)

lemma build_request_fields:
  "build_conversation_request J tools m p ci ri A = (A', req) \<Longrightarrow>
     chat A' = chat (fst (persist_reminder m p A)) \<and> persistence A' = persistence (fst (persist_reminder m p A))"
  by (auto simp: build_conversation_request_def actor_defs Let_def split: prod.splits if_splits)

lemma restore_snapshot_capture: "restore_snapshot p s = Some s' \<Longrightarrow> capture_ok s'"
  by (auto simp: restore_snapshot_def capture_ok_def rebase_turn_capture_offset_def Let_def split: if_splits)

lemma truncate_mirrored: "truncate_to_prompt_index n A = Some A' \<Longrightarrow> mirrored h A \<Longrightarrow> mirrored h A'"
  by (auto simp: truncate_to_prompt_index_def mirrored_def actor_defs Let_def split: if_splits)

end
