(* ===== verification/Chat_Runs.thy ===== *)
theory Chat_Runs
  imports Chat_Invariant
begin

text \<open>
  Runs of the conversation actor: the commands are handled one after another until one panics. What a
  command keeps is kept by a run of such commands; this is a locale, interpreted on the parts of the
  invariant.
\<close>

section \<open>Runs\<close>

fun run_commands ::
  "json_size \<Rightarrow> chat_state_command list \<Rightarrow> chat_state_actor \<Rightarrow> (chat_state_actor \<times> chat_reply list) option" where
  "run_commands J [] A = Some (A, [])"
| "run_commands J (c # cs) A =
     (case handle_command J c A of
        None \<Rightarrow> None
      | Some (A', r) \<Rightarrow> map_option (\<lambda>(B, rs). (B, r # rs)) (run_commands J cs A'))"

locale kept_by_commands =
  fixes J :: json_size
    and allowed :: "chat_state_command \<Rightarrow> bool"
    and ok :: "chat_state_actor \<Rightarrow> bool"
  assumes keeps: "allowed c \<Longrightarrow> handle_command J c A = Some (A', r) \<Longrightarrow> ok A \<Longrightarrow> ok A'"
begin

lemma kept_by_runs:
  "list_all allowed cs \<Longrightarrow> run_commands J cs A = Some (A', rs) \<Longrightarrow> ok A \<Longrightarrow> ok A'"
  by (induction cs arbitrary: A rs) (auto split: option.splits prod.splits intro: keeps)

end

section \<open>Ledgers\<close>

definition counters :: "(usage_totals \<Rightarrow> nat) set" where
  "counters = {input_tokens, output_tokens, cached_read_tokens, reasoning_tokens, model_calls,
     api_duration_ms, cost_missing_calls}"

lemma counter_laws:
  "f \<in> counters \<Longrightarrow> f (fold_totals a b) = min u64_max (f a + f b)"
  "f \<in> counters \<Longrightarrow> f no_usage = 0"
  by (auto simp: counters_def fold_totals_def sat_add_def no_usage_def)

definition ledger_ok :: "usage_ledger \<Rightarrow> bool" where
  "ledger_ok l \<longleftrightarrow>
     (\<forall>f \<in> counters. f (totals l) = min u64_max (sum_list (map (\<lambda>e. f (snd e)) (by_model l)))) \<and>
     main_loop_model_calls l \<le> model_calls (totals l)"

lemma ledger_ok_no_ledger: "ledger_ok no_ledger"
  by (auto simp: ledger_ok_def no_ledger_def counter_laws)

lemma fold_model_sum:
  assumes "f \<in> counters"
  shows "min u64_max (sum_list (map (\<lambda>e. f (snd e)) (fold_model m t es))) =
     min u64_max (sum_list (map (\<lambda>e. f (snd e)) es) + f t)"
proof (induction m t es rule: fold_model.induct)
  case (2 m t m' t' rest)
  then show ?case by (auto simp: counter_laws [OF assms] min_def split: if_splits)
qed (auto simp: counter_laws [OF assms] min_def)

lemma min_sat: "min (n :: nat) (min n a + b) = min n (a + b)"
  by (simp add: min_def)

lemma fold_entry_counter:
  assumes "f \<in> counters" "f (totals l) = min u64_max (sum_list (map (\<lambda>e. f (snd e)) (by_model l)))"
  shows "f (totals (fold_entry m t l)) =
     min u64_max (sum_list (map (\<lambda>e. f (snd e)) (by_model (fold_entry m t l))))"
  using assms by (simp add: fold_entry_def counter_laws fold_model_sum min_sat)

lemma model_calls_counter: "model_calls \<in> counters"
  by (simp add: counters_def)

lemma counter_grows: "f \<in> counters \<Longrightarrow> f (totals l) \<le> u64_max \<Longrightarrow> f (totals l) \<le> f (totals (fold_entry m t l))"
  by (simp add: fold_entry_def counter_laws)

lemma ledger_counter_bound: "ledger_ok l \<Longrightarrow> f \<in> counters \<Longrightarrow> f (totals l) \<le> u64_max"
  unfolding ledger_ok_def by (metis min.cobounded1)

lemma fold_entry_main [simp]: "main_loop_model_calls (fold_entry m t l) = main_loop_model_calls l"
  by (simp add: fold_entry_def)

lemma fold_entry_ok: "ledger_ok l \<Longrightarrow> ledger_ok (fold_entry m t l)"
  using fold_entry_counter counter_grows [OF model_calls_counter ledger_counter_bound [OF _ model_calls_counter]]
  unfolding ledger_ok_def by (metis fold_entry_main ledger_ok_def order_trans)

text \<open>Every amount in the first ledger is also in the second.\<close>

definition covered :: "usage_ledger \<Rightarrow> usage_ledger \<Rightarrow> bool" where
  "covered p l \<longleftrightarrow> (\<forall>f \<in> counters. f (totals p) \<le> f (totals l)) \<and> main_loop_model_calls p \<le> main_loop_model_calls l"

lemma fold_entry_covered: "covered p l \<Longrightarrow> covered (fold_entry m t p) (fold_entry m t l)"
  by (auto simp: covered_def fold_entry_def counter_laws)

lemma fold_entry_grows: "ledger_ok l \<Longrightarrow> covered p l \<Longrightarrow> covered p (fold_entry m t l)"
  unfolding covered_def by (metis counter_grows fold_entry_main ledger_counter_bound order_trans)

lemma covered_no_ledger: "covered no_ledger l"
  by (auto simp: covered_def no_ledger_def counter_laws)

lemma main_call_ok:
  assumes "ledger_ok l" shows "ledger_ok (record_main_loop_call m usage d c l)"
proof -
  let ?l = "record_main_loop_call m usage d c l" and ?t = "from_call usage d c"
  have same: "totals ?l = totals (fold_entry m ?t l)" "by_model ?l = by_model (fold_entry m ?t l)"
    by (simp_all add: record_main_loop_call_def fold_entry_def)
  have "model_calls (totals ?l) = min u64_max (model_calls (totals l) + 1)"
    by (simp add: same fold_entry_def counter_laws model_calls_counter from_call_def Let_def)
  moreover have "main_loop_model_calls ?l = min u64_max (main_loop_model_calls l + 1)"
    by (simp add: record_main_loop_call_def sat_add_def)
  ultimately show ?thesis
    using assms fold_entry_ok [OF assms, of m ?t] by (auto simp: ledger_ok_def same)
qed

lemma main_call_covered:
  "covered p l \<Longrightarrow> covered (record_main_loop_call m usage d c p) (record_main_loop_call m usage d c l)"
  by (auto simp: covered_def record_main_loop_call_def fold_entry_def counter_laws sat_add_def)

lemma subagent_ok:
  "ledger_ok l \<Longrightarrow> ledger_ok (record_subagent es inc l)"
proof -
  assume "ledger_ok l"
  then have "ledger_ok (fold (\<lambda>(m, t). fold_entry m t) es l)"
    by (induction es arbitrary: l) (auto intro: fold_entry_ok)
  then show ?thesis by (simp add: record_subagent_def ledger_ok_def Let_def)
qed

lemma subagent_covered: "covered p l \<Longrightarrow> covered (record_subagent es inc p) (record_subagent es inc l)"
proof -
  assume "covered p l"
  then have "covered (fold (\<lambda>(m, t). fold_entry m t) es p) (fold (\<lambda>(m, t). fold_entry m t) es l)"
    by (induction es arbitrary: p l) (auto intro: fold_entry_covered)
  then show ?thesis by (simp add: record_subagent_def covered_def Let_def)
qed

lemma subagent_grows: "ledger_ok l \<Longrightarrow> covered p l \<Longrightarrow> covered p (record_subagent es inc l)"
proof -
  assume "ledger_ok l" "covered p l"
  then have "covered p (fold (\<lambda>(m, t). fold_entry m t) es l)"
    by (induction es arbitrary: l) (auto intro: fold_entry_ok fold_entry_grows)
  then show ?thesis by (simp add: record_subagent_def covered_def Let_def)
qed

lemma mark_incomplete_ok [simp]:
  "ledger_ok (mark_incomplete l) = ledger_ok l" "covered (mark_incomplete p) l = covered p l"
  "covered p (mark_incomplete l) = covered p l"
  by (simp_all add: mark_incomplete_def ledger_ok_def covered_def)

definition usage_ok :: "chat_state \<Rightarrow> bool" where
  "usage_ok s \<longleftrightarrow>
     ledger_ok (session_usage s) \<and>
     (\<forall>l. prompt_usage s = Some l \<longrightarrow> ledger_ok l \<and> covered l (session_usage s))"

lemma usage_ok_open: "usage_ok s \<Longrightarrow> ledger_ok (open_ledger s) \<and> covered (open_ledger s) (session_usage s)"
  by (auto simp: usage_ok_def open_ledger_def ledger_ok_no_ledger covered_no_ledger split: option.splits)

lemma usage_ok_ops:
  assumes "usage_ok s"
  shows "usage_ok (record_model_call_usage m usage d c s)" "usage_ok (record_subagent_usage es a inc s)"
    "usage_ok (mark_usage_incomplete ip ins s)"
  using assms usage_ok_open [OF assms]
  by (auto simp: usage_ok_def record_model_call_usage_def record_subagent_usage_def mark_usage_incomplete_def
      Let_def main_call_ok main_call_covered subagent_ok subagent_covered subagent_grows)

definition same_usage :: "chat_state \<Rightarrow> chat_state \<Rightarrow> bool" where
  "same_usage s s' \<longleftrightarrow>
     session_usage s' = session_usage s \<and> (prompt_usage s' = prompt_usage s \<or> prompt_usage s' = None)"

lemma same_usage_ok: "same_usage s s' \<Longrightarrow> usage_ok s \<Longrightarrow> usage_ok s'"
  by (auto simp: same_usage_def usage_ok_def)

lemma same_usage_refl [simp]: "same_usage s s"
  by (simp add: same_usage_def)

lemma same_usage_trans: "same_usage s t \<Longrightarrow> same_usage t v \<Longrightarrow> same_usage s v"
  by (auto simp: same_usage_def)

lemmas usage_defs = same_usage_def actor_defs snapshot_turn_slice_def rebase_turn_capture_offset_def
  mark_compaction_def

lemma integrity_usage: "same_usage (chat A) (chat (ensure_conversation_integrity_with_reason reason A))"
  by (simp add: ensure_integrity_chat usage_defs)

lemma push_usage: "push_message x A = Some A' \<Longrightarrow> same_usage (chat A) (chat A')"
  by (auto simp: push_message_def append_item_def count_item_def usage_defs split: if_splits)

lemma prune_usage: "prune_retained_conversation A = Some (A', n) \<Longrightarrow> same_usage (chat A) (chat A')"
  by (auto simp: prune_retained_conversation_def usage_defs Let_def split: if_splits prod.splits bind_splits)

lemma push_user_usage:
  assumes "push_user_message_with_repair_reason x reason A = Some A'"
  shows "same_usage (chat A) (chat A')"
proof -
  let ?E = "ensure_conversation_integrity_with_reason reason A"
  obtain A1 n where "count_item x ?E = Some A1" "prune_retained_conversation (append_item x A1) = Some (A', n)"
    using assms by (auto simp: push_user_message_with_repair_reason_def split: bind_splits)
  then have "same_usage (chat ?E) (chat (append_item x A1))" "same_usage (chat (append_item x A1)) (chat A')"
    by (auto simp: count_item_def append_item_def usage_defs dest: prune_usage)
  with integrity_usage show ?thesis by (blast intro: same_usage_trans)
qed

lemma replace_usage: "replace_conversation items c A = Some A' \<Longrightarrow> same_usage (chat A) (chat A')"
  by (auto simp: replace_conversation_def usage_defs Let_def split: bind_splits if_splits)

lemma repair_command_usage: "repair_history_command d A = Some (A', r) \<Longrightarrow> same_usage (chat A) (chat A')"
  by (auto simp: repair_history_command_def same_usage_def set_chat_def split: prod.splits if_splits dest!: replace_usage)

lemma system_head_usage: "replace_system_head p A = Some (A', b) \<Longrightarrow> same_usage (chat A) (chat A')"
  by (auto simp: replace_system_head_def split: prod.splits if_splits dest: replace_usage)

lemma request_usage:
  "build_conversation_request J tools m p ci ri A = (A', req) \<Longrightarrow> same_usage (chat A) (chat A')"
  by (auto simp: persist_reminder_def usage_defs Let_def split: option.splits prod.splits if_splits
      dest!: build_request_fields)

section \<open>What every command keeps\<close>

lemma push_message_capture: "push_message x A = Some A' \<Longrightarrow> capture_ok (chat A) \<Longrightarrow> capture_ok (chat A')"
  using push_message_fields [of x A A'] capture_ok_cong [of "chat A'" "chat A"] by simp

lemma capture_ok_simps [simp]:
  "capture_ok (s\<lparr>turn_capture := None\<rparr>)" "capture_ok (s\<lparr>turn_capture := None, prompt_usage := None\<rparr>)"
  "capture_ok (begin_turn_capture s)"
  by (simp_all add: capture_ok_def begin_turn_capture_def)

lemma command_capture_ok:
  assumes "handle_command J c A = Some (A', r)" "capture_ok (chat A)"
  shows "capture_ok (chat A')"
proof (cases c)
  case (BuildConversationRequest tools m p ci ri)
  then show ?thesis
    using assms persist_reminder_fields [of "ensure_conversation_integrity_with_reason UserCancelled A" m p]
    by (auto simp: handle_command_def ensure_integrity_capture split: prod.splits dest: build_request_fields)
qed (use assms in \<open>auto simp: handle_command_def done_with_def changed_chat_def push_user_message_def
      record_model_call_usage_def record_subagent_usage_def mark_usage_incomplete_def increment_prompt_index_def
      record_token_usage_def seal_harness_trace_turn_def repair_dangling_after_harness_halt_def
      take_turn_messages_def actor_defs ensure_integrity_capture Let_def
      split: if_splits prod.splits
      dest: push_user_message_fields push_message_capture replace_conversation_fields repair_history_command_fields
        replace_system_head_fields restore_snapshot_capture
      intro: capture_ok_cong [of _ "chat A"]\<close>)

lemma command_usage_ok:
  assumes "handle_command J c A = Some (A', r)" "usage_ok (chat A)"
  shows "usage_ok (chat A')"
proof -
  have "usage_ok (chat A') \<or> same_usage (chat A) (chat A')"
  proof (cases c)
    case (BuildConversationRequest tools m p ci ri)
    then show ?thesis
      using assms integrity_usage [of A UserCancelled]
      by (auto simp: handle_command_def split: prod.splits dest: request_usage same_usage_trans)
  next
    case (RepairDanglingAfterHarnessHalt x)
    then show ?thesis
      using assms integrity_usage [of A "HarnessHalted x"]
      by (simp add: handle_command_def repair_dangling_after_harness_halt_def)
  qed (use assms in \<open>auto simp: handle_command_def push_user_message_def
      usage_ok_ops usage_defs increment_prompt_index_def record_token_usage_def seal_harness_trace_turn_def
      begin_turn_capture_def take_turn_messages_def restore_snapshot_def
      truncate_to_prompt_index_def Let_def
      split: if_splits prod.splits
      dest!: push_user_usage push_usage replace_usage repair_command_usage system_head_usage\<close>)
  then show ?thesis using assms same_usage_ok by blast
qed

definition saving :: "chat_state_command \<Rightarrow> bool" where
  "saving c \<longleftrightarrow> (case c of RestoreSnapshot _ \<Rightarrow> False | _ \<Rightarrow> True)"

lemma mirrored_cong:
  "persistence A' = persistence A \<Longrightarrow> conversation (chat A') = conversation (chat A) \<Longrightarrow> mirrored h A \<Longrightarrow> mirrored h A'"
  by (simp add: mirrored_def)

lemma push_message_mirrored: "push_message x A = Some A' \<Longrightarrow> mirrored h A \<Longrightarrow> mirrored h A'"
  using push_message_fields [of x A A'] by (simp add: mirrored_def)

lemma flush_mirrored: "mirrored h (flush_history A) = mirrored h A"
  by (simp add: mirrored_def flush_history_def)

lemma command_mirrored:
  assumes "saving c" "handle_command J c A = Some (A', r)" "mirrored h A"
  shows "mirrored h A'"
proof (cases c)
  case (BuildConversationRequest tools m p ci ri)
  then show ?thesis
    using assms ensure_integrity_mirrored [OF assms(3), of UserCancelled]
      persist_reminder_fields [of "ensure_conversation_integrity_with_reason UserCancelled A" m p h]
    by (auto simp: handle_command_def mirrored_def split: prod.splits dest: build_request_fields)
next
  case (TruncateToPromptIndex n)
  then obtain B where "truncate_to_prompt_index n A = Some B"
      "A' = set_chat (\<lambda>s. s\<lparr>turn_capture := None, prompt_usage := None\<rparr>) B"
    using assms by (auto simp: handle_command_def done_with_def)
  then show ?thesis
    using truncate_mirrored [of n A B h] assms by (auto simp: set_chat_def intro: mirrored_cong)
qed (use assms in \<open>auto simp: handle_command_def saving_def done_with_def changed_chat_def push_user_message_def
      record_model_call_usage_def record_subagent_usage_def mark_usage_incomplete_def increment_prompt_index_def
      record_token_usage_def seal_harness_trace_turn_def repair_dangling_after_harness_halt_def
      begin_turn_capture_def take_turn_messages_def set_chat_def send_event_def ensure_integrity_mirrored
      flush_mirrored Let_def
      split: if_splits prod.splits intro: mirrored_cong [of _ A]
      dest: push_user_message_fields [of _ _ _ _ h] push_message_mirrored replace_conversation_fields [of _ _ _ _ h]
        repair_history_command_fields [of _ _ _ _ h] replace_system_head_fields [of _ _ _ _ h]\<close>)

interpretation kc: kept_by_commands J "\<lambda>_. True" "\<lambda>A. capture_ok (chat A) \<and> usage_ok (chat A)" for J
  by unfold_locales (use command_capture_ok command_usage_ok in blast)

interpretation km: kept_by_commands J saving "mirrored h" for J h
  by unfold_locales (use command_mirrored in blast)

end
