(* ===== verification/Chat_Progress.thy ===== *)
theory Chat_Progress
  imports Chat_Runs
begin

text \<open>
  The only panic of the conversation actor is the summary of a code-interpreter call whose text is cut
  inside a character. Without such items every command returns.
\<close>

section \<open>Items whose summary does not panic\<close>

definition summarizable :: "conversation_item \<Rightarrow> bool" where
  "summarizable x \<longleftrightarrow> (case x of BackendToolCall b \<Rightarrow> text_summary b \<noteq> None | _ \<Rightarrow> True)"

abbreviation all_summarizable :: "conversation_item list \<Rightarrow> bool" where
  "all_summarizable xs \<equiv> \<forall>x \<in> set xs. summarizable x"

lemma estimate_defined: "estimate_item_tokens x = None \<longleftrightarrow> \<not> summarizable x"
  by (cases x) (auto simp: estimate_item_tokens_def summarizable_def)

lemma bytes_defined: "item_content_bytes x = None \<longleftrightarrow> \<not> summarizable x"
  by (cases x) (auto simp: item_content_bytes_def summarizable_def)

lemma sum_panic_None: "sum_panic f xs = None \<longleftrightarrow> (\<exists>x \<in> set xs. f x = None)"
  unfolding sum_panic_def by (induction xs) (auto split: option.splits)

lemma sums_defined:
  "all_summarizable xs \<Longrightarrow> \<exists>n. estimate_conversation_tokens xs = Some n"
  "all_summarizable xs \<Longrightarrow> \<exists>n. conversation_content_bytes xs = Some n"
  "all_summarizable xs \<Longrightarrow> \<exists>n. estimate_messages_tokens xs = Some n"
  unfolding estimate_conversation_tokens_def conversation_content_bytes_def estimate_messages_tokens_def
    not_None_eq [symmetric] sum_panic_None
  by (auto simp: estimate_defined bytes_defined)

lemma summarizable_not_backend [simp]:
  "summarizable (System s)" "summarizable (User m)" "summarizable (Assistant a)" "summarizable (ToolResult t)"
  "summarizable (Reasoning g)"
  by (simp_all add: summarizable_def)

lemma results_summarizable: "list_all is_result run \<Longrightarrow> all_summarizable run"
  by (auto simp: list_all_iff is_result_def summarizable_def split: conversation_item.splits)

lemma dedup_summarizable: "all_summarizable xs \<Longrightarrow> all_summarizable (fst (dedup_duplicate_tool_results xs))"
proof -
  have plain: "all_summarizable xs \<Longrightarrow> all_summarizable (fst (dedup_duplicate_tool_results xs))"
    if "starts_plain xs" for xs
    using that
  proof (induction xs rule: block_induct)
    case (Block x run rest)
    then show ?case using keep_last_subset [of run] by (auto simp: dedup_block Let_def)
  qed simp
  assume "all_summarizable xs"
  moreover obtain run rest where "xs = run @ rest" "list_all is_result run" "starts_plain rest" by (rule leading_run)
  ultimately show ?thesis using plain [of rest] by (auto simp: dedup_run)
qed

lemma dangling_summarizable: "all_summarizable xs \<Longrightarrow> all_summarizable (fst (repair_dangling_tool_calls reason xs))"
proof -
  have plain: "all_summarizable xs \<Longrightarrow> all_summarizable (fst (repair_dangling_tool_calls reason xs))"
    if "starts_plain xs" for xs
    using that
  proof (induction xs rule: block_induct)
    case (Block x run rest)
    then show ?case
      using results_summarizable [OF missing_results_are_results, of reason x run] by (auto simp: dangling_block)
  qed simp
  assume "all_summarizable xs"
  moreover obtain run rest where "xs = run @ rest" "list_all is_result run" "starts_plain rest" by (rule leading_run)
  ultimately show ?thesis using plain [of rest] by (auto simp: dangling_run)
qed

lemma strip_summarizable: "all_summarizable xs \<Longrightarrow> all_summarizable (fst (strip_displaced ids xs))"
  by (induction ids xs rule: strip_displaced.induct)
     (auto simp: Let_def split: conversation_item.splits prod.splits if_splits)

lemma hard_clear_summarizable: "all_summarizable xs \<Longrightarrow> all_summarizable (fst (hard_clear k t b xs))"
  by (induction k t b xs rule: hard_clear.induct)
     (auto simp: Let_def split: conversation_item.splits prod.splits if_splits)

lemma inject_summarizable: "all_summarizable xs \<Longrightarrow> all_summarizable (fst (inject_memory_reminder r xs))"
  by (cases xs; cases "hd xs") (simp_all add: inject_memory_reminder_def Let_def case_prod_beta)

lemma repair_history_summarizable: "all_summarizable xs \<Longrightarrow> all_summarizable (fst (repair_history xs))"
  using dangling_summarizable [OF strip_summarizable [OF dedup_summarizable], of xs]
  by (simp add: repair_history_def strip_displaced_tool_results_def Let_def case_prod_beta)

section \<open>Every command returns\<close>

definition command_items :: "chat_state_command \<Rightarrow> conversation_item list" where
  "command_items c =
     (case c of
        PushUserMessage x \<Rightarrow> [x]
      | PushUserMessageAndAck x \<Rightarrow> [x]
      | PushUserMessageWithRepairReason x _ \<Rightarrow> [x]
      | PushAssistantResponse x \<Rightarrow> [x]
      | PushToolResult x \<Rightarrow> [x]
      | ReplaceConversation xs _ \<Rightarrow> xs
      | RestoreSnapshot p \<Rightarrow> snap_conversation p
      | _ \<Rightarrow> [])"

abbreviation good :: "chat_state_actor \<Rightarrow> bool" where
  "good A \<equiv> all_summarizable (conversation (chat A))"

lemma integrity_good: "good A \<Longrightarrow> good (ensure_conversation_integrity_with_reason reason A)"
  using dangling_summarizable [OF dedup_summarizable, of "conversation (chat A)" reason]
  by (simp add: ensure_integrity_chat)

lemma count_item_returns: "summarizable x \<Longrightarrow> \<exists>A'. count_item x A = Some A'"
  using estimate_defined [of x] by (cases "estimate_item_tokens x") (auto simp: count_item_def)

lemma push_returns: "summarizable x \<Longrightarrow> good A \<Longrightarrow> \<exists>A'. push_message x A = Some A' \<and> good A'"
proof -
  assume x: "summarizable x" and good: "good A"
  obtain A' where "push_message x A = Some A'"
    using count_item_returns [OF x, of A] by (cases "is_assistant x") (auto simp: push_message_def)
  with push_message_fields [OF this] x good show ?thesis by auto
qed

lemma prune_returns: "good A \<Longrightarrow> \<exists>A' n. prune_retained_conversation A = Some (A', n) \<and> good A'"
proof -
  assume good: "good A"
  let ?k = "min u64_max (hard_clear_age_turns (pruning_config A)
      + (length (filter is_user (conversation (chat A))) - prompt_index (chat A)))"
  obtain xs n where h: "hard_clear ?k 0 False (rev (conversation (chat A))) = (xs, n)" by fastforce
  with good have "all_summarizable (rev xs)"
    using hard_clear_summarizable [of "rev (conversation (chat A))" ?k 0 False] by auto
  moreover from this obtain m m' where "conversation_content_bytes (rev xs) = Some m"
      "conversation_content_bytes (conversation (chat A)) = Some m'"
    using sums_defined(2) [OF good] sums_defined(2) [of "rev xs"] by blast
  ultimately show ?thesis
    using good h by (simp add: prune_retained_conversation_def actor_defs Let_def)
qed

lemma push_user_returns:
  "summarizable x \<Longrightarrow> good A \<Longrightarrow> \<exists>A'. push_user_message_with_repair_reason x reason A = Some A' \<and> good A'"
proof -
  assume x: "summarizable x" and "good A"
  let ?E = "ensure_conversation_integrity_with_reason reason A"
  obtain A1 where A1: "count_item x ?E = Some A1" using count_item_returns [OF x] by blast
  have "good (append_item x A1)" using integrity_good [OF \<open>good A\<close>, of reason] count_item_fields [OF A1] x by auto
  then show ?thesis using prune_returns A1 by (fastforce simp: push_user_message_with_repair_reason_def)
qed

lemma replace_returns: "all_summarizable xs \<Longrightarrow> \<exists>A'. replace_conversation xs c A = Some A' \<and> good A'"
  using sums_defined(1) [of xs] by (auto simp: replace_conversation_def actor_defs Let_def)

lemma repair_command_returns: "good A \<Longrightarrow> \<exists>A' r. repair_history_command d A = Some (A', r) \<and> good A'"
  using repair_history_summarizable [of "conversation (chat A)"]
    replace_returns [of "fst (repair_history (conversation (chat A)))" False "set_chat (\<lambda>s. s\<lparr>conversation := []\<rparr>) A"]
  by (auto simp: repair_history_command_def split: prod.splits)

lemma system_head_returns: "good A \<Longrightarrow> \<exists>A' b. replace_system_head p A = Some (A', b) \<and> good A'"
proof -
  assume "good A"
  then have "all_summarizable (fst (replace_or_insert_system_head p (conversation (chat A))))"
    by (cases "conversation (chat A)"; cases "hd (conversation (chat A))")
       (auto simp: replace_or_insert_system_head_def)
  from replace_returns [OF this] \<open>good A\<close> show ?thesis
    by (auto simp: replace_system_head_def split: prod.splits)
qed

lemma truncate_returns: "good A \<Longrightarrow> \<exists>A'. truncate_to_prompt_index n A = Some A' \<and> good A'"
proof -
  assume "good A"
  then have "all_summarizable (take m (conversation (chat A)))" for m by (meson in_set_takeD)
  then show ?thesis
    using \<open>good A\<close> sums_defined(1) [of "take (user_position n (conversation (chat A))) (conversation (chat A))"]
    by (auto simp: truncate_to_prompt_index_def actor_defs Let_def)
qed

lemma restore_returns:
  "all_summarizable (snap_conversation p) \<Longrightarrow> \<exists>s'. restore_snapshot p s = Some s' \<and> all_summarizable (conversation s')"
  using sums_defined(1) [of "snap_conversation p"]
  by (auto simp: restore_snapshot_def rebase_turn_capture_offset_def Let_def)

lemma query_returns: "all_summarizable (conversation s) \<Longrightarrow> \<exists>r. handle_query q s = Some r"
  using sums_defined(3) [of "conversation s"] by (cases q) (auto simp: handle_query_def)

lemma request_good: "good A \<Longrightarrow> good (fst (build_conversation_request J tools m p ci ri A))"
proof -
  assume "good A"
  obtain A' req where b: "build_conversation_request J tools m p ci ri A = (A', req)" by fastforce
  have "good (fst (persist_reminder m p A))"
    using \<open>good A\<close> inject_summarizable [OF \<open>good A\<close>, of "the m"]
    by (auto simp: persist_reminder_def actor_defs Let_def split: option.splits prod.splits)
  then show ?thesis using b build_request_fields [OF b] by simp
qed

lemma command_returns:
  assumes "all_summarizable (command_items c)" "good A"
  shows "\<exists>A' r. handle_command J c A = Some (A', r) \<and> good A'"
proof (cases c)
  case (BuildConversationRequest tools m p ci ri)
  then show ?thesis
    using request_good [OF integrity_good [OF assms(2), of UserCancelled], of J tools m p ci ri]
    by (auto simp: handle_command_def split: prod.splits)
next
  case (RecordTokenUsage n)
  then show ?thesis using assms sums_defined(1) [of "conversation (chat A)"]
    by (auto simp: handle_command_def record_token_usage_def done_with_def set_chat_def send_event_def)
next
  case (PushUserMessage x)
  then show ?thesis using assms push_user_returns [of x A UserCancelled]
    by (auto simp: handle_command_def push_user_message_def command_items_def done_with_def)
next
  case (PushUserMessageAndAck x)
  then show ?thesis using assms push_user_returns [of x A UserCancelled]
    by (auto simp: handle_command_def push_user_message_def command_items_def done_with_def)
next
  case (PushUserMessageWithRepairReason x reason)
  then show ?thesis using assms push_user_returns [of x A reason]
    by (auto simp: handle_command_def command_items_def done_with_def)
next
  case (PushAssistantResponse x)
  then show ?thesis using assms push_returns [of x A] by (auto simp: handle_command_def command_items_def done_with_def)
next
  case (PushToolResult x)
  then show ?thesis using assms push_returns [of x A] by (auto simp: handle_command_def command_items_def done_with_def)
next
  case (ReplaceConversation xs b)
  then show ?thesis using assms replace_returns [of xs b A] by (auto simp: handle_command_def command_items_def done_with_def)
next
  case (RepairHistory d b)
  then show ?thesis using assms repair_command_returns [of A d] by (auto simp: handle_command_def)
next
  case (ReplaceSystemHead p)
  then show ?thesis using assms system_head_returns [of A p] by (auto simp: handle_command_def)
next
  case (TruncateToPromptIndex n)
  then show ?thesis using assms truncate_returns [of A n] by (auto simp: handle_command_def done_with_def set_chat_def)
next
  case (RestoreSnapshot p)
  then show ?thesis using assms restore_returns [of p "chat A"] by (auto simp: handle_command_def command_items_def)
next
  case (Query q)
  then show ?thesis using assms query_returns [of "chat A" q] by (auto simp: handle_command_def)
next
  case (RepairDanglingAfterHarnessHalt x)
  then show ?thesis using integrity_good [OF assms(2)]
    by (auto simp: handle_command_def repair_dangling_after_harness_halt_def)
qed (use assms in \<open>auto simp: handle_command_def actor_defs record_model_call_usage_def record_subagent_usage_def
      mark_usage_incomplete_def increment_prompt_index_def seal_harness_trace_turn_def begin_turn_capture_def
      take_turn_messages_def Let_def\<close>)

lemma run_returns:
  assumes "\<forall>c \<in> set cs. all_summarizable (command_items c)" "good A"
  shows "\<exists>A' rs. run_commands J cs A = Some (A', rs)"
  using assms
proof (induction cs arbitrary: A)
  case (Cons c cs)
  obtain B r where "handle_command J c A = Some (B, r)" "good B" using command_returns [of c A J] Cons by auto
  moreover from this Cons obtain A' rs where "run_commands J cs B = Some (A', rs)" by fastforce
  ultimately show ?case by simp
qed simp

end
