(* ===== verification/Chat_Integrity.thy ===== *)
theory Chat_Integrity
  imports Chat_Progress
begin

text \<open>
  What is sent to the model and what is captured of a turn: a request has a result for every call, in
  place, and differs from the conversation in texts only; a captured turn has every message pushed
  during it.
\<close>

section \<open>Answered calls\<close>

text \<open>Every message with calls is followed by a run of results with one result for each call.\<close>

function well_answered :: "conversation_item list \<Rightarrow> bool" where
  "well_answered [] = True"
| "well_answered (x # xs) =
     (if call_ids x = [] then well_answered xs
      else Some ` set (call_ids x) \<subseteq> set (map result_id (takeWhile is_result xs)) \<and>
           distinct (map result_id (takeWhile is_result xs)) \<and>
           well_answered (dropWhile is_result xs))"
  by pat_completeness auto
termination well_answered
  by (relation "measure length") (auto simp: length_dropWhile_less)

declare well_answered.simps [simp del]

lemma well_answered_Nil [simp]: "well_answered []"
  by (simp add: well_answered.simps)

lemma well_answered_plain: "call_ids x = [] \<Longrightarrow> well_answered (x # xs) = well_answered xs"
  by (simp add: well_answered.simps)

lemma well_answered_run: "list_all is_result run \<Longrightarrow> well_answered (run @ rest) = well_answered rest"
proof (induction run)
  case (Cons r run)
  then have "call_ids r = []" by (auto simp: is_result_def call_ids_def split: conversation_item.splits)
  with Cons show ?case by (simp add: well_answered_plain)
qed simp

lemma well_answered_block:
  assumes "\<not> is_result x" "list_all is_result run" "starts_plain rest"
    and "call_ids x \<noteq> [] \<Longrightarrow> Some ` set (call_ids x) \<subseteq> set (map result_id run) \<and> distinct (map result_id run)"
    and "well_answered rest"
  shows "well_answered (x # run @ rest)"
proof (cases "call_ids x = []")
  case True
  with assms show ?thesis by (simp add: well_answered_plain well_answered_run)
next
  case False
  with assms show ?thesis by (subst well_answered.simps) simp
qed

lemma dangling_starts_plain: "starts_plain xs \<Longrightarrow> starts_plain (fst (repair_dangling_tool_calls reason xs))"
  by (cases xs rule: block_induct) (auto simp: dangling_block)

lemma integrity_answered_plain:
  "starts_plain xs \<Longrightarrow> distinct_calls xs \<Longrightarrow>
   starts_plain (fst (dedup_duplicate_tool_results xs)) \<and>
   starts_plain (fst (repair_dangling_tool_calls reason (fst (dedup_duplicate_tool_results xs)))) \<and>
   well_answered (fst (repair_dangling_tool_calls reason (fst (dedup_duplicate_tool_results xs))))"
proof (induction xs rule: block_induct)
  case (Block x run rest)
  let ?run = "if call_ids x = [] then run else keep_last run"
  have run: "list_all is_result ?run" using Block by (simp add: keep_last_results)
  have d: "fst (dedup_duplicate_tool_results (x # run @ rest)) = x # ?run @ fst (dedup_duplicate_tool_results rest)"
    using Block by (simp add: dedup_block Let_def)
  have rest: "distinct_calls rest" and x: "distinct (call_ids x)" using Block by (auto simp: distinct_calls_def)
  have ids: "distinct (map result_id (keep_last run @ missing_results reason x (keep_last run)))"
    using x missing_disjoint [of reason x "keep_last run"] distinct_keep_last [of run]
    by (auto simp: missing_ids distinct_map inj_on_def simp del: set_map)
  have cover: "Some ` set (call_ids x) \<subseteq> set (map result_id (keep_last run @ missing_results reason x (keep_last run)))"
    unfolding map_append set_append missing_ids by auto
  let ?rest = "fst (repair_dangling_tool_calls reason (fst (dedup_duplicate_tool_results rest)))"
  have IH: "starts_plain (fst (dedup_duplicate_tool_results rest))" "starts_plain ?rest" "well_answered ?rest"
    using Block rest by auto
  have "well_answered (x # (?run @ missing_results reason x ?run) @ ?rest)"
    using Block(1) run IH ids cover
    by (intro well_answered_block) (auto simp: missing_results_are_results simp del: set_map set_append map_append)
  then show ?case unfolding d using Block(1) run IH by (simp add: dangling_block)
qed simp

lemma integrity_answered:
  assumes "distinct_calls xs"
  shows "well_answered (fst (repair_dangling_tool_calls reason (fst (dedup_duplicate_tool_results xs))))"
proof -
  obtain run rest where "xs = run @ rest" "list_all is_result run" "starts_plain rest" by (rule leading_run)
  with assms integrity_answered_plain [of rest reason] show ?thesis
    by (simp add: dedup_run dangling_run well_answered_run distinct_calls_def)
qed

lemma answered_not_dangling: "well_answered xs \<Longrightarrow> \<not> has_dangling_tool_calls xs"
proof (induction xs rule: well_answered.induct)
  case (2 x xs)
  show ?case
  proof (cases "call_ids x = []")
    case True
    with 2 show ?thesis
      by (subst has_dangling_tool_calls.simps)
         (auto simp: well_answered.simps call_ids_def split: conversation_item.splits)
  next
    case False
    with 2 show ?thesis
      by (subst has_dangling_tool_calls.simps)
         (auto simp: well_answered.simps call_ids_def list_ex_iff split: conversation_item.splits)
  qed
qed simp

section \<open>Shape\<close>

definition shape :: "conversation_item \<Rightarrow> ustr option \<times> ustr list \<times> bool" where
  "shape x = (result_id x, call_ids x, is_user x)"

lemma is_result_iff: "is_result x \<longleftrightarrow> result_id x \<noteq> None"
  by (auto simp: is_result_def result_id_def split: conversation_item.splits)

lemma shape_takeWhile:
  assumes "map shape xs = map shape ys"
  shows "map shape (takeWhile is_result xs) = map shape (takeWhile is_result ys)"
    and "map shape (dropWhile is_result xs) = map shape (dropWhile is_result ys)"
  using assms
  by (induction xs ys rule: list_induct2') (auto simp: is_result_iff shape_def)

lemma shape_ids: "map shape xs = map shape ys \<Longrightarrow> map result_id xs = map result_id ys"
  by (induction xs ys rule: list_induct2') (auto simp: shape_def)

lemma well_answered_shape: "map shape xs = map shape ys \<Longrightarrow> well_answered xs = well_answered ys"
proof (induction xs arbitrary: ys rule: well_answered.induct)
  case (2 x xs)
  then obtain y ys' where ys: "ys = y # ys'" "shape x = shape y" "map shape xs = map shape ys'" by auto
  then have "call_ids x = call_ids y" by (simp add: shape_def)
  moreover note 2 ys shape_takeWhile [OF ys(3)] shape_ids [OF shape_takeWhile(1) [OF ys(3)]]
  ultimately show ?case by (auto simp: well_answered.simps simp flip: set_map)
qed simp

text \<open>
  An item without what a request may leave out: the text of tool results, and images, which stand for
  the text that replaces them.
\<close>

definition redact_part :: "content_part \<Rightarrow> content_part" where
  "redact_part p = (if is_image p \<or> p = TextPart IMAGE_COMPACT_PLACEHOLDER then ImagePart [] else p)"

definition redact :: "conversation_item \<Rightarrow> conversation_item" where
  "redact x =
     (case x of
        ToolResult t \<Rightarrow> ToolResult (t\<lparr>result_content := []\<rparr>)
      | User m \<Rightarrow> User (m\<lparr>user_content := map redact_part (user_content m)\<rparr>)
      | _ \<Rightarrow> x)"

lemma shape_redact: "shape (redact x) = shape x"
  by (cases x) (simp_all add: redact_def shape_def result_id_def call_ids_def is_user_def)

lemma redact_shape: "map redact xs = map redact ys \<Longrightarrow> map shape xs = map shape ys"
  by (metis (no_types, lifting) list.map_comp comp_apply map_cong shape_redact)

lemma is_system_redact: "is_system (redact x) = is_system x"
  by (cases x) (simp_all add: redact_def is_system_def)

lemma prune_rev_redact: "map redact (prune_rev cfg t b xs) = map redact xs"
  by (induction cfg t b xs rule: prune_rev.induct)
     (auto simp: redact_def prune_result_def split: conversation_item.splits)

lemma prune_redact: "map redact (prune_conversation cfg xs) = map redact xs"
  using prune_rev_redact [of cfg 0 False "rev xs"]
  by (simp add: prune_conversation_def) (metis rev_map rev_rev_ident)

lemma evict_parts_redact: "map redact_part (fst (evict_parts target ph running ps)) = map redact_part ps"
proof (induction ps arbitrary: running)
  case (Cons p ps)
  then show ?case by (cases p) (simp_all add: Let_def case_prod_beta redact_part_def is_image_def)
qed simp

lemma evict_redact: "map redact (fst (evict_items target ph running xs)) = map redact xs"
proof (induction xs arbitrary: running)
  case (Cons x xs)
  then show ?case by (cases x) (simp_all add: Let_def case_prod_beta redact_def evict_parts_redact)
qed simp

lemma compact_images_redact: "map redact (fst (compact_images_to_byte_budget J n m xs)) = map redact xs"
  by (simp add: compact_images_to_byte_budget_def case_prod_beta evict_redact)

text \<open>Without a leading system message, which the memory reminder may add or change.\<close>

definition without_head :: "conversation_item list \<Rightarrow> conversation_item list" where
  "without_head xs = (case xs of x # rest \<Rightarrow> if is_system x then rest else xs | [] \<Rightarrow> [])"

lemma without_head_answered: "well_answered (without_head xs) = well_answered xs"
  by (cases xs) (auto simp: without_head_def is_system_def well_answered_plain call_ids_def split: conversation_item.splits)

lemma inject_without_head: "without_head (fst (inject_memory_reminder r xs)) = without_head xs"
  by (cases xs; cases "hd xs")
     (simp_all add: inject_memory_reminder_def without_head_def is_system_def Let_def case_prod_beta)

lemma inject_answered: "well_answered (fst (inject_memory_reminder r xs)) = well_answered xs"
  by (metis inject_without_head without_head_answered)

lemma redact_without_head: "map redact xs = map redact ys \<Longrightarrow> map redact (without_head xs) = map redact (without_head ys)"
proof (cases xs; cases ys)
  fix x xs' y ys' assume "map redact xs = map redact ys" "xs = x # xs'" "ys = y # ys'"
  moreover from this have "is_system x = is_system y" using is_system_redact by (metis list.inject list.simps(9))
  ultimately show ?thesis by (simp add: without_head_def)
qed (auto simp: without_head_def)

section \<open>Requests\<close>

lemma request_copy_redact:
  "map redact (without_head (fst (request_copy J cfg np body m conv))) = map redact (without_head conv)"
proof -
  let ?c1 = "if IMAGE_COMPACT_TRIGGER_BYTES \<le> body
    then fst (compact_images_to_byte_budget J body IMAGE_COMPACT_RECLAIM_TARGET_BYTES conv) else conv"
  let ?c2 = "if np then prune_conversation cfg ?c1 else ?c1"
  have "without_head (fst (request_copy J cfg np body m conv)) = without_head ?c2"
    by (simp add: request_copy_def case_prod_beta Let_def inject_without_head split: option.splits)
  moreover have "map redact ?c2 = map redact conv" by (simp add: prune_redact compact_images_redact)
  ultimately show ?thesis using redact_without_head by metis
qed

lemma request_items_copy:
  fixes J tools m p ci ri A
  defines "B \<equiv> fst (persist_reminder m p A)"
  shows "request_items (snd (build_conversation_request J tools m p ci ri A)) =
     fst (request_copy J (pruning_config B)
       (should_prune (total_tokens (chat A)) (context_window (sampling_config (chat A))))
       (conversation_body_bytes J (conversation (chat B))) (snd (persist_reminder m p A)) (conversation (chat B)))"
  unfolding B_def build_conversation_request_def Let_def case_prod_beta by simp

lemma persist_reminder_answered:
  "well_answered (conversation (chat A)) \<Longrightarrow> well_answered (conversation (chat (fst (persist_reminder m p A))))"
  by (auto simp: persist_reminder_def actor_defs Let_def case_prod_beta inject_answered split: option.splits)

lemma request_copy_exact:
  "\<not> np \<Longrightarrow> body < IMAGE_COMPACT_TRIGGER_BYTES \<Longrightarrow> fst (request_copy J cfg np body None conv) = conv"
  by (simp add: request_copy_def)

end
