(* ===== verification/Chat_Capture.thy ===== *)
theory Chat_Capture
  imports Chat_Integrity
begin

text \<open>A captured turn has exactly the messages pushed since its start, in order.\<close>

section \<open>What has been captured\<close>

definition captured :: "chat_state \<Rightarrow> conversation_item list" where
  "captured s =
     (case turn_capture s of
        None \<Rightarrow> []
      | Some cap \<Rightarrow> pre_replacement_messages cap @ turn_tail (conversation s) (turn_start_offset cap))"

definition pushed :: "chat_state_command \<Rightarrow> conversation_item list" where
  "pushed c =
     (case c of
        PushUserMessage x \<Rightarrow> [x]
      | PushUserMessageAndAck x \<Rightarrow> [x]
      | PushUserMessageWithRepairReason x _ \<Rightarrow> [x]
      | PushAssistantResponse x \<Rightarrow> [x]
      | PushToolResult x \<Rightarrow> [x]
      | _ \<Rightarrow> [])"

text \<open>
  The commands that start or end a capture, and the repair of a history, which loses it (see
  \<open>Chat_Gaps\<close>).
\<close>

definition within_turn :: "chat_state_command \<Rightarrow> bool" where
  "within_turn c \<longleftrightarrow>
     (case c of
        BeginTurnCapture \<Rightarrow> False
      | TakeTurnMessages \<Rightarrow> False
      | TruncateToPromptIndex _ \<Rightarrow> False
      | RepairHistory dry_run blocked \<Rightarrow> dry_run \<or> blocked
      | _ \<Rightarrow> True)"

text \<open>The capture goes on and has seen the items \<open>xs\<close>, up to the text of tool results.\<close>

definition capturing :: "conversation_item list \<Rightarrow> chat_state \<Rightarrow> bool" where
  "capturing xs s \<longleftrightarrow> turn_capture s \<noteq> None \<and> capture_ok s \<and> map erase (captured s) = map erase xs"

lemma captured_cong:
  "turn_capture s' = turn_capture s \<Longrightarrow> conversation s' = conversation s \<Longrightarrow> captured s' = captured s"
  by (simp add: captured_def split: option.splits)

lemma capturing_cong:
  "turn_capture s' = turn_capture s \<Longrightarrow> conversation s' = conversation s \<Longrightarrow> capturing xs s \<Longrightarrow> capturing xs s'"
  using captured_cong [of s' s] by (simp add: capturing_def capture_ok_def)

text \<open>Saving the tail and moving the offset to the end keeps what is captured.\<close>

lemma capturing_rebased:
  assumes "capturing xs s"
    and "turn_capture s' = map_option (\<lambda>cap. cap\<lparr>turn_start_offset := length (conversation s')\<rparr>)
      (turn_capture (snapshot_turn_slice s))"
  shows "capturing xs s'"
  using assms by (auto simp: capturing_def captured_def capture_ok_def snapshot_turn_slice_def turn_tail_def)

lemma capturing_integrity: "capturing xs (chat A) \<Longrightarrow> capturing xs (chat (ensure_conversation_integrity_with_reason reason A))"
  by (erule capturing_rebased) (simp add: ensure_integrity_chat rebase_turn_capture_offset_def)

lemma capturing_append:
  assumes "capturing xs s" "turn_capture s' = turn_capture s" "conversation s' = conversation s @ [x]"
  shows "capturing (xs @ [x]) s'"
  using assms by (auto simp: capturing_def captured_def capture_ok_def turn_tail_def)

lemma capturing_erased:
  assumes "capturing xs s" "turn_capture s' = turn_capture s" "map erase (conversation s') = map erase (conversation s)"
  shows "capturing xs s'"
proof -
  have len: "length (conversation s') = length (conversation s)" using assms(3) by (metis length_map)
  have "map erase (drop n (conversation s')) = map erase (drop n (conversation s))" for n
    using assms(3) by (simp flip: drop_map)
  then show ?thesis
    using assms(1,2) len by (auto simp: capturing_def captured_def capture_ok_def turn_tail_def)
qed

lemma capturing_push:
  assumes "push_message x A = Some A'" "capturing xs (chat A)"
  shows "capturing (xs @ [x]) (chat A')"
  using push_message_fields [OF assms(1)] capturing_append [OF assms(2)] by simp

lemma capturing_push_user:
  assumes "push_user_message_with_repair_reason x reason A = Some A'" "capturing xs (chat A)"
  shows "capturing (xs @ [x]) (chat A')"
proof -
  let ?E = "ensure_conversation_integrity_with_reason reason A"
  obtain A1 n where A1: "count_item x ?E = Some A1" and A': "prune_retained_conversation (append_item x A1) = Some (A', n)"
    using assms(1) by (auto simp: push_user_message_with_repair_reason_def split: bind_splits)
  have "capturing (xs @ [x]) (chat (append_item x A1))"
    using capturing_append [OF capturing_integrity [OF assms(2)]] count_item_fields [OF A1] by simp
  then show ?thesis
    by (rule capturing_erased) (use prune_retained_fields [OF A', of "[]"] in auto)
qed

lemma capturing_replace:
  assumes "replace_conversation items c A = Some A'" "capturing xs (chat A)"
  shows "capturing xs (chat A')"
proof -
  have "capturing xs (mark_compaction (chat A))"
    using assms(2) by (auto simp: capturing_def captured_def capture_ok_def mark_compaction_def split: option.splits)
  moreover have "snapshot_turn_slice (mark_compaction s) = mark_compaction (snapshot_turn_slice s)" for s
    by (cases "turn_capture s") (simp_all add: snapshot_turn_slice_def mark_compaction_def)
  ultimately show ?thesis
    using replace_conversation_fields [OF assms(1), of "[]"] assms(2)
      capturing_rebased [of xs "chat A" "chat A'"] capturing_rebased [of xs "mark_compaction (chat A)" "chat A'"]
    by (auto split: if_splits)
qed

lemma capturing_system_head:
  "replace_system_head p A = Some (A', b) \<Longrightarrow> capturing xs (chat A) \<Longrightarrow> capturing xs (chat A')"
  by (auto simp: replace_system_head_def split: prod.splits if_splits intro: capturing_replace)

lemma capturing_restore: "restore_snapshot p s = Some s' \<Longrightarrow> capturing xs s \<Longrightarrow> capturing xs s'"
  by (erule capturing_rebased)
     (auto simp: restore_snapshot_def rebase_turn_capture_offset_def snapshot_turn_slice_def Let_def)

lemma capturing_reminder: "capturing xs (chat A) \<Longrightarrow> capturing xs (chat (fst (persist_reminder m p A)))"
  by (cases m)
     (auto simp: persist_reminder_def set_chat_def replace_history_def rebase_turn_capture_offset_def Let_def
        case_prod_beta intro: capturing_rebased [of xs "chat A"])

lemma capturing_command:
  assumes "within_turn c" "handle_command J c A = Some (A', r)" "capturing xs (chat A)"
  shows "capturing (xs @ pushed c) (chat A')"
proof (cases c)
  case (BuildConversationRequest tools m p ci ri)
  then obtain req where "build_conversation_request J tools m p ci ri
      (ensure_conversation_integrity_with_reason UserCancelled A) = (A', req)"
    using assms by (cases "build_conversation_request J tools m p ci ri
      (ensure_conversation_integrity_with_reason UserCancelled A)") (simp add: handle_command_def)
  from build_request_fields [OF this] BuildConversationRequest show ?thesis
    using capturing_reminder [OF capturing_integrity [OF assms(3)]] by (simp add: pushed_def)
next
  case (RepairHistory d b)
  moreover from this have "d \<or> b" using assms(1) by (simp add: within_turn_def)
  moreover have "repair_history_command True A = Some (A, snd (repair_history (conversation (chat A))))"
    by (simp add: repair_history_command_def case_prod_beta)
  ultimately have "A' = A" using assms(2) by (auto simp: handle_command_def split: if_splits)
  then show ?thesis using RepairHistory assms(3) by (simp add: pushed_def)
next
  case (RepairDanglingAfterHarnessHalt x)
  then show ?thesis
    using assms capturing_integrity [OF assms(3), of "HarnessHalted x"]
    by (simp add: handle_command_def pushed_def repair_dangling_after_harness_halt_def)
qed (use assms in \<open>auto simp: handle_command_def within_turn_def pushed_def done_with_def changed_chat_def
      push_user_message_def record_model_call_usage_def record_subagent_usage_def mark_usage_incomplete_def
      increment_prompt_index_def record_token_usage_def seal_harness_trace_turn_def flush_history_def
      set_chat_def send_event_def Let_def
      split: if_splits prod.splits
      intro: capturing_push capturing_push_user capturing_replace capturing_system_head capturing_restore
        capturing_cong [of _ "chat A"]\<close>)

lemma capturing_run:
  "list_all within_turn cs \<Longrightarrow> run_commands J cs A = Some (A', rs) \<Longrightarrow> capturing xs (chat A) \<Longrightarrow>
   capturing (xs @ concat (map pushed cs)) (chat A')"
proof (induction cs arbitrary: A xs rs)
  case (Cons c cs)
  then obtain B r rs' where "handle_command J c A = Some (B, r)" "run_commands J cs B = Some (A', rs')"
    by (auto split: option.splits prod.splits)
  with Cons capturing_command [of c J A B r xs] show ?case by fastforce
qed simp

end
