(* ===== verification/Chat_Budget.thy ===== *)
theory Chat_Budget
  imports Chat_Integrity "HOL-Library.Sublist"
begin

text \<open>
  Cutting a conversation down to a token budget: what items cost, the longest suffix that fits, and the
  suffixes of a repaired conversation, which keep calls and results together.
\<close>

section \<open>Costs\<close>

definition item_cost :: "conversation_item \<Rightarrow> nat" where
  "item_cost x = (case estimate_item_tokens x of None \<Rightarrow> 0 | Some n \<Rightarrow> n)"

definition cost :: "conversation_item list \<Rightarrow> nat" where
  "cost xs = sum_list (map item_cost xs)"

lemma cost_simps [simp]:
  "cost [] = 0" "cost (x # xs) = item_cost x + cost xs" "cost (xs @ ys) = cost xs + cost ys" "cost (rev xs) = cost xs"
  by (simp_all add: cost_def sum_list_rev flip: rev_map)

lemma item_cost: "summarizable x \<Longrightarrow> estimate_item_tokens x = Some (item_cost x)"
  using estimate_defined [of x] by (auto simp: item_cost_def)

lemma conversation_cost: "all_summarizable xs \<Longrightarrow> estimate_conversation_tokens xs = Some (cost xs)"
  unfolding estimate_conversation_tokens_def sum_panic_def
  by (induction xs) (auto simp: item_cost)

lemma fit_suffix_longest:
  "all_summarizable xs \<Longrightarrow>
   \<exists>k. fit_suffix r xs = Some k \<and> k \<le> length xs \<and> cost (take k xs) \<le> r \<and>
       (\<forall>j \<le> length xs. cost (take j xs) \<le> r \<longrightarrow> j \<le> k)"
proof (induction xs arbitrary: r)
  case (Cons x xs)
  show ?case
  proof (cases "r < item_cost x")
    case True
    then have "j = 0" if "cost (take j (x # xs)) \<le> r" for j using that by (cases j) auto
    then show ?thesis using True Cons by (auto simp: item_cost)
  next
    case False
    obtain k where k: "fit_suffix (r - item_cost x) xs = Some k" "k \<le> length xs" "cost (take k xs) \<le> r - item_cost x"
        "\<And>j. j \<le> length xs \<Longrightarrow> cost (take j xs) \<le> r - item_cost x \<Longrightarrow> j \<le> k"
      using Cons.IH [of "r - item_cost x"] Cons.prems by auto
    have "j \<le> Suc k" if "j \<le> length (x # xs)" "cost (take j (x # xs)) \<le> r" for j
      using that k(4) [of "j - 1"] by (cases j) auto
    then show ?thesis using k False Cons.prems by (auto simp: item_cost)
  qed
qed simp

section \<open>Blocks of a paired conversation\<close>

inductive_cases paired_ConsE: "paired (x # xs)"

lemma paired_suffix: "paired xs \<Longrightarrow> xs = p @ s \<Longrightarrow> starts_plain s \<Longrightarrow> paired s"
proof (induction arbitrary: p rule: paired.induct)
  case (paired_block x run rest)
  show ?case
  proof (cases p)
    case Nil
    with paired_block show ?thesis using paired.paired_block by auto
  next
    case (Cons y p')
    with paired_block.prems(1) have "run @ rest = p' @ s" by simp
    then consider us where "run = p' @ us" "s = us @ rest" | us where "rest = us @ s"
      by (auto simp: append_eq_append_conv2)
    then show ?thesis
    proof cases
      case 1
      with paired_block have "us = []" by (cases us) auto
      with 1 paired_block show ?thesis by simp
    next
      case 2
      with paired_block show ?thesis by blast
    qed
  qed
qed (simp add: paired.paired_Nil)

lemma paired_one_block:
  assumes "paired (x # run)" "list_all is_result run"
  shows "set (map result_id run) = Some ` set (call_ids x)"
proof -
  from assms(1) obtain run' rest where b: "run = run' @ rest" "paired rest"
      "result_id ` set run' = Some ` set (call_ids x)"
    by (auto elim: paired_ConsE)
  with assms(2) paired_starts_plain [of rest] have "rest = []" by (cases rest) auto
  with b show ?thesis by simp
qed

lemma paired_shape: "paired xs \<Longrightarrow> map shape xs = map shape ys \<Longrightarrow> paired ys"
proof (induction arbitrary: ys rule: paired.induct)
  case (paired_block x run rest)
  then obtain y run' rest' where ys: "ys = y # run' @ rest'" "shape x = shape y"
      "map shape run = map shape run'" "map shape rest = map shape rest'"
    by (auto simp: map_eq_append_conv Cons_eq_map_conv append_eq_map_conv)
  moreover have "list_all is_result run'"
    using paired_block.hyps(2) ys(3) by (induction run run' rule: list_induct2') (auto simp: is_result_iff shape_def)
  moreover have "\<not> is_result y" "call_ids y = call_ids x"
    using ys(2) paired_block.hyps(1) by (auto simp: is_result_iff shape_def)
  ultimately show ?case
    using paired_block shape_ids [OF ys(3)] by (metis paired.paired_block)
qed (simp add: paired.paired_Nil)

lemma paired_system_head:
  assumes "paired conv" "split_system_head conv = (head, body)"
  shows "conv = head @ body \<and> paired body \<and> (\<forall>x \<in> set head. is_system x) \<and> (\<forall>xs. paired xs \<longrightarrow> paired (head @ xs))"
proof (cases "head = []")
  case True
  with assms show ?thesis by (auto simp: split_system_head_def split: list.splits if_splits)
next
  case False
  then obtain x where x: "conv = x # body" "head = [x]" "is_system x"
    using assms(2) by (auto simp: split_system_head_def split: list.splits if_splits)
  then have plain: "call_ids x = []" "\<not> is_result x"
    by (auto simp: is_system_def call_ids_def is_result_def split: conversation_item.splits)
  have "paired body"
    using assms(1) plain unfolding x(1) by (auto elim!: paired_ConsE)
  moreover have "paired (x # xs)" if "paired xs" for xs
    using paired.paired_block [of x "[]" xs] plain that by simp
  ultimately show ?thesis using x by simp
qed

end
