(* ===== verification/Chat_Summary.thy ===== *)
theory Chat_Summary
  imports Chat_Budget
begin

text \<open>
  The parts of a compacted history: the recent messages keep calls and results together, and the summary has
  none of the tags that control how it is read.
\<close>

section \<open>Replacements that leave no tag\<close>

lemma str_contains_appendI [intro]: "str_contains p s \<Longrightarrow> str_contains p (a @ s)"
  by (metis append.assoc str_contains_iff)

lemma replace_keeps_prefix:
  "starts_with w (str_replace p (x # r) s) \<Longrightarrow> x \<notin> set w \<Longrightarrow> starts_with w s"
proof (induction p "x # r" s arbitrary: w rule: str_replace.induct)
  case (2 p c cs)
  show ?case
  proof (cases "strip_prefix p (c # cs)")
    case None
    then show ?thesis using 2 by (cases w) (auto simp: starts_with_def split: if_splits)
  next
    case (Some rest)
    then show ?thesis using 2 by (cases w; cases "p = []") (auto simp: starts_with_def split: if_splits)
  qed
qed simp

text \<open>A replacement that starts outside the tag and completes none leaves the tag where it was or nowhere.\<close>

definition inert :: "ustr \<Rightarrow> ustr \<Rightarrow> bool" where
  "inert q r \<longleftrightarrow> r \<noteq> [] \<and> hd r \<notin> set (tl q) \<and> (\<forall>z. str_contains q (r @ z) \<longrightarrow> str_contains q z)"

lemma replace_no_tag:
  assumes "inert q r" "q \<noteq> []" "p \<noteq> []" "str_contains q (str_replace p r s)"
  shows "str_contains q s \<and> q \<noteq> p"
  using assms
proof (induction p r s rule: str_replace.induct)
  case (2 p r c cs)
  show ?case
  proof (cases "strip_prefix p (c # cs)")
    case None
    with "2.prems" consider "starts_with q (c # str_replace p r cs)" | "str_contains q (str_replace p r cs)"
      by auto
    then show ?thesis
    proof cases
      case 1
      then have "starts_with q (c # cs)"
        using "2.prems" replace_keeps_prefix [of "tl q" p "hd r" "tl r" cs]
        by (cases q) (auto simp: starts_with_def inert_def split: if_splits)
      then show ?thesis using None by (auto simp: starts_with_def)
    next
      case 2
      then show ?thesis using None "2.IH" "2.prems" by simp
    qed
  next
    case (Some rest)
    then have "str_contains q rest \<and> q \<noteq> p" using 2 by (auto simp: inert_def)
    then show ?thesis using strip_prefix_SomeD [OF Some] str_contains_appendI by auto
  qed
qed simp

lemma collapse_no_tag:
  assumes "q \<noteq> []" "10 \<notin> set q" "str_contains q (collapse_blank_lines s)"
  shows "str_contains q s"
proof -
  have drop_line: "str_contains q z" if "str_contains q (10 # z)" for z
    using that assms(1,2) by (cases q) (auto simp: starts_with_def)
  have "inert q [10, 10]"
    using assms(1,2) drop_line by (cases q) (auto simp: inert_def simp del: str_contains.simps)
  then show ?thesis
    using assms
  proof (induction s rule: collapse_blank_lines.induct)
    case (1 s)
    show ?case
    proof (cases "str_contains [10, 10, 10] s")
      case True
      then have "str_contains q (str_replace [10, 10, 10] [10, 10] s)"
        using 1 by (subst (asm) (2) collapse_blank_lines.simps) simp
      then show ?thesis using replace_no_tag 1 by blast
    next
      case False
      then show ?thesis using 1 by (subst (asm) (2) collapse_blank_lines.simps) simp
    qed
  qed
qed

lemma trim_no_tag: "str_contains q (trim s) \<Longrightarrow> str_contains q s"
proof -
  assume "str_contains q (trim s)"
  moreover have "trim_start s = trim s @ rev (takeWhile is_whitespace (rev (trim_start s)))"
    unfolding trim_def trim_end_def by (metis rev_append rev_rev_ident takeWhile_dropWhile_id)
  moreover have "s = takeWhile is_whitespace s @ trim_start s" by (simp add: trim_start_def)
  ultimately show ?thesis unfolding str_contains_iff by (metis append.assoc)
qed

section \<open>The tags\<close>

definition control_names :: "string list" where
  "control_names = [''/summary'', ''summary'', ''/analysis'', ''analysis'', ''/summary_request'', ''summary_request'']"

definition tag_of :: "string \<Rightarrow> ustr" where "tag_of name = u (''<'' @ name @ ''>'')"

lemma neutralize_fold:
  "neutralize_compaction_control_tokens = fold (\<lambda>name. str_replace (tag_of name) (neutral name)) control_names"
  by (rule ext) (simp add: neutralize_compaction_control_tokens_def control_names_def tag_of_def)

lemma skip_to_tag: "q \<noteq> [] \<Longrightarrow> hd q \<notin> set y \<Longrightarrow> str_contains q (y @ z) \<Longrightarrow> str_contains q z"
  by (induction y) (cases q; auto simp: starts_with_def split: if_splits)+

lemma control_name_chars:
  "n \<in> set control_names \<Longrightarrow> 60 \<notin> set (u n) \<and> 8203 \<notin> set (u n) \<and> 10 \<notin> set (u n)"
  by (auto simp: control_names_def u_def)

lemma control_inert: "m \<in> set control_names \<Longrightarrow> n \<in> set control_names \<Longrightarrow> inert (tag_of m) (neutral n)"
proof -
  assume m: "m \<in> set control_names" and n: "n \<in> set control_names"
  have q: "tag_of m = 60 # u m @ [62]" by (simp add: tag_of_def u_def)
  have r: "neutral n = 60 # (8203 # u n @ [62])" by (simp add: neutral_def u_def)
  have tail: "60 \<notin> set (8203 # u n @ [62])" using control_name_chars [OF n] by simp
  have "\<not> starts_with (tag_of m) (60 # 8203 # u n @ [62] @ z)" for z
    using control_name_chars [OF m] by (cases "u m") (auto simp: q starts_with_def)
  then show ?thesis
    unfolding inert_def r using skip_to_tag [of "tag_of m" "8203 # u n @ [62]"] tail control_name_chars [OF m]
    by (auto simp: q)
qed

lemma fold_no_tag:
  assumes "set ns \<subseteq> set control_names" "m \<in> set control_names"
    and "str_contains (tag_of m) (fold (\<lambda>name. str_replace (tag_of name) (neutral name)) ns s)"
  shows "str_contains (tag_of m) s \<and> m \<notin> set ns"
  using assms
proof (induction ns arbitrary: s)
  case (Cons n ns)
  then have "str_contains (tag_of m) (str_replace (tag_of n) (neutral n) s) \<and> m \<notin> set ns" by simp
  moreover have "tag_of k \<noteq> []" for k by (simp add: tag_of_def u_def)
  ultimately show ?case using replace_no_tag [OF control_inert [of m n]] Cons.prems by auto
qed simp

lemma formatted_no_tag: "m \<in> set control_names \<Longrightarrow> \<not> str_contains (tag_of m) (format_compact_summary raw)"
proof
  assume m: "m \<in> set control_names" and "str_contains (tag_of m) (format_compact_summary raw)"
  moreover have "tag_of m \<noteq> []" "10 \<notin> set (tag_of m)"
    using control_name_chars [OF m] by (auto simp: tag_of_def u_def)
  ultimately have "str_contains (tag_of m)
      (fold (\<lambda>name. str_replace (tag_of name) (neutral name)) control_names (extract_summary (strip_analysis raw)))"
    unfolding format_compact_summary_def neutralize_fold by (blast dest: trim_no_tag collapse_no_tag)
  from fold_no_tag [OF subset_refl m this] m show False by blast
qed

section \<open>Recent messages\<close>

lemma paired_plain: "\<not> is_result x \<Longrightarrow> call_ids x = [] \<Longrightarrow> paired xs \<Longrightarrow> paired (x # xs)"
  using paired.paired_block [of x "[]" xs] by simp

lemma paired_append: "paired xs \<Longrightarrow> paired ys \<Longrightarrow> paired (xs @ ys)"
  by (induction rule: paired.induct) (auto intro: paired.paired_block)

lemma paired_answered: "paired xs \<Longrightarrow> well_answered xs"
  by (induction rule: paired.induct) (auto intro: well_answered_block paired_starts_plain)

lemma paired_user [simp]: "paired xs \<Longrightarrow> paired (user_with_reason r t # xs)"
  by (rule paired_plain) (simp_all add: user_with_reason_def is_result_def call_ids_def)

lemma omit_result_run:
  "list_all is_result run \<Longrightarrow>
     list_all is_result (List.map_filter omit_result run) \<and>
     map result_id (List.map_filter omit_result run) = map result_id run"
  by (induction run)
     (auto simp: List.map_filter_simps omit_result_def is_result_def result_id_def tool_result_def
        split: conversation_item.splits)

lemma map_filter_append [simp]: "List.map_filter f (xs @ ys) = List.map_filter f xs @ List.map_filter f ys"
  by (induction xs) (auto simp: List.map_filter_simps split: option.splits)

lemma omit_results_paired: "paired xs \<Longrightarrow> paired (List.map_filter omit_result xs)"
proof (induction rule: paired.induct)
  case (paired_block x run rest)
  show ?case
  proof (cases "call_ids x = []")
    case True
    with paired_block have "run = []" by simp
    with True paired_block show ?thesis
      by (cases x) (auto simp: List.map_filter_simps omit_result_def is_result_def intro: paired_plain)
  next
    case False
    then have "omit_result x = Some x" by (cases x) (auto simp: omit_result_def call_ids_def)
    with paired_block omit_result_run [of run] show ?thesis
      by (simp add: List.map_filter_simps) (metis paired.paired_block set_map)
  qed
qed (simp add: List.map_filter_simps paired.paired_Nil)

lemma recent_messages_paired:
  assumes "paired conv" shows "paired (extract_messages_since_last_real_user conv)"
proof -
  let ?s = "rev (takeWhile (\<lambda>x. \<not> is_real_user_turn x) (rev conv))"
  let ?d = "dropWhile (\<lambda>x. \<not> is_real_user_turn x) (rev conv)"
  have conv: "conv = rev ?d @ ?s" by (metis rev_append rev_rev_ident takeWhile_dropWhile_id)
  have "paired ?s"
  proof (cases ?d)
    case Nil
    with conv assms show ?thesis by simp
  next
    case (Cons m before)
    then have "is_real_user_turn m" by (metis hd_dropWhile list.distinct(1) list.sel(1))
    then have m: "\<not> is_result m" "call_ids m = []"
      by (auto simp: is_real_user_turn_def is_result_def call_ids_def split: conversation_item.splits)
    then have "paired (m # ?s)" using paired_suffix [OF assms, of "rev before" "m # ?s"] conv Cons by simp
    with m show ?thesis by (auto elim: paired_ConsE)
  qed
  then show ?thesis unfolding extract_messages_since_last_real_user_def by (rule omit_results_paired)
qed

lemma compacted_history_paired:
  assumes "is_system (system_message i)" "paired (recent_messages i)"
  shows "paired (build_compacted_history i)"
proof -
  have "\<not> is_result (system_message i)" "call_ids (system_message i) = []"
    using assms(1) by (auto simp: is_system_def is_result_def call_ids_def split: conversation_item.splits)
  then show ?thesis
    using assms(2)
    by (simp add: build_compacted_history_def user_meta_def system_reminder_def project_instructions_def user_def
        paired.paired_Nil paired_plain paired_append split: option.splits)
qed

end
