(* ===== verification/Chat_Properties.thy ===== *)
theory Chat_Properties
  imports Chat_Capture Chat_Summary
begin

text \<open>
  The properties of the conversation actor that the other theories prepare: every command returns and keeps
  the invariant, requests are well formed, a captured turn is complete, and conversations stay well formed
  when they are cut down or compacted.
\<close>

section \<open>Fitting a budget\<close>

lemma truncate_item_shape: "shape (truncate_item_to_tokens n x) = shape x"
  by (cases x) (simp_all add: truncate_item_to_tokens_def shape_def result_id_def call_ids_def is_user_def Let_def)

lemma map_truncate_shape: "map shape (map (truncate_item_to_tokens n) xs) = map shape xs"
  by (simp add: truncate_item_shape)

lemma has_calls_iff: "has_calls x \<longleftrightarrow> call_ids x \<noteq> []"
  by (auto simp: has_calls_def call_ids_def split: conversation_item.splits)

text \<open>The last unit of a conversation: its last message and the results after it.\<close>

definition last_unit :: "conversation_item list \<Rightarrow> conversation_item list" where
  "last_unit body =
     (case dropWhile is_result (rev body) of [] \<Rightarrow> [] | x # _ \<Rightarrow> x # rev (takeWhile is_result (rev body)))"

lemma last_unit_suffix: "paired body \<Longrightarrow> suffix (last_unit body) body \<and> paired (last_unit body) \<and> (body \<noteq> [] \<longrightarrow> last_unit body \<noteq> [])"
proof -
  assume body: "paired body"
  have split: "body = rev (dropWhile is_result (rev body)) @ rev (takeWhile is_result (rev body))"
    by (metis rev_append rev_rev_ident takeWhile_dropWhile_id)
  show ?thesis
  proof (cases "dropWhile is_result (rev body)")
    case Nil
    then have "list_all is_result body" by (simp add: dropWhile_eq_Nil_conv list_all_iff)
    with paired_starts_plain [OF body] have "body = []" by (cases body) auto
    with Nil show ?thesis by (simp add: last_unit_def paired.paired_Nil)
  next
    case (Cons x before)
    then have "\<not> is_result x" by (metis hd_dropWhile list.distinct(1) list.sel(1))
    moreover have "body = rev before @ last_unit body" using split Cons by (simp add: last_unit_def)
    ultimately show ?thesis using paired_suffix [OF body, of "rev before" "last_unit body"] Cons
      by (auto simp: last_unit_def suffix_def)
  qed
qed

lemma recover_unit:
  assumes "paired body" "all_summarizable body"
  shows "\<exists>t. recover_truncated_tail_unit body budget = Some t \<and> map shape t = map shape (last_unit body)"
proof (cases "dropWhile is_result (rev body)")
  case Nil
  then have "list_all is_result body" by (simp add: dropWhile_eq_Nil_conv list_all_iff)
  with paired_starts_plain [OF assms(1)] have "body = []" by (cases body) auto
  then show ?thesis by (simp add: recover_truncated_tail_unit_def last_unit_def)
next
  case (Cons x before)
  let ?run = "rev (takeWhile is_result (rev body))"
  have unit: "last_unit body = x # ?run" using Cons by (simp add: last_unit_def)
  have run: "list_all is_result ?run" by (auto simp: list_all_iff dest: set_takeWhileD)
  have x: "x \<in> set body" using Cons by (metis list.set_intros(1) set_dropWhileD set_rev)
  show ?thesis
  proof (cases "?run = []")
    case True
    then show ?thesis using Cons unit by (simp add: recover_truncated_tail_unit_def truncate_item_shape)
  next
    case False
    then have "call_ids x \<noteq> []"
      using paired_one_block [of x ?run] last_unit_suffix [OF assms(1)] run unit by auto
    with False show ?thesis
      using Cons unit x assms(2) map_truncate_shape
      by (simp add: recover_truncated_tail_unit_def has_calls_iff item_cost Let_def rev_map)
  qed
qed

text \<open>
  What shortening leaves of a text, an item and the last unit. A text longer than \<open>m\<close> bytes keeps its
  longest prefix of whole characters within \<open>m - 64\<close> bytes and gets a marker with the number of bytes
  left out; an item keeps everything but its texts; of a message with results the results are
  shortened, each to an equal share of what the message leaves, and the message stays.
\<close>

definition truncation_marker :: "nat \<Rightarrow> ustr" where
  "truncation_marker n = [10] @ u ''[... truncated '' @ show_nat n @ u '' bytes to fit the compaction window ...]''"

definition cut_text :: "nat \<Rightarrow> ustr \<Rightarrow> ustr \<Rightarrow> bool" where
  "cut_text m s t \<longleftrightarrow>
     (if byte_len s \<le> m then t = s
      else \<exists>kept c rest. s = kept @ c # rest \<and> byte_len kept \<le> m - 64 \<and> m - 64 < byte_len (kept @ [c]) \<and>
             t = kept @ truncation_marker (byte_len (c # rest)))"

inductive cut_part :: "nat \<Rightarrow> content_part \<Rightarrow> content_part \<Rightarrow> bool" for m where
  cut_text_part: "cut_text m s t \<Longrightarrow> cut_part m (TextPart s) (TextPart t)"
| cut_image_part: "cut_part m (ImagePart i) (ImagePart i)"

inductive cut_item :: "nat \<Rightarrow> conversation_item \<Rightarrow> conversation_item \<Rightarrow> bool" for m where
  cut_result: "cut_text m (result_content t) c \<Longrightarrow> cut_item m (ToolResult t) (ToolResult (t\<lparr>result_content := c\<rparr>))"
| cut_assistant: "cut_text m (assistant_content a) c \<Longrightarrow> cut_item m (Assistant a) (Assistant (a\<lparr>assistant_content := c\<rparr>))"
| cut_user: "list_all2 (cut_part m) (user_content x) ps \<Longrightarrow> cut_item m (User x) (User (x\<lparr>user_content := ps\<rparr>))"
| cut_system: "cut_item m (System s) (System s)"
| cut_backend: "cut_item m (BackendToolCall k) (BackendToolCall k)"
| cut_reasoning: "cut_item m (Reasoning r) (Reasoning r)"

definition cut_unit :: "nat \<Rightarrow> conversation_item list \<Rightarrow> conversation_item list \<Rightarrow> bool" where
  "cut_unit budget unit tail \<longleftrightarrow>
     (case unit of
        [] \<Rightarrow> tail = []
      | [x] \<Rightarrow> list_all2 (cut_item (sat_mul budget 4)) [x] tail
      | x # results \<Rightarrow>
          (\<exists>ys. tail = x # ys \<and>
             list_all2 (cut_item (sat_mul (max ((budget - item_cost x) div length results) 1) 4)) results ys))"

lemma byte_len_simps [simp]: "byte_len [] = 0" "byte_len (c # s) = length (utf8_char c) + byte_len s"
    "byte_len (s @ t) = byte_len s + byte_len t"
  by (simp_all add: as_bytes_def)

lemma take_bytes_longest:
  "n < byte_len s \<Longrightarrow> \<exists>c rest. s = take_bytes n s @ c # rest \<and> byte_len (take_bytes n s) \<le> n \<and>
     n < byte_len (take_bytes n s @ [c])"
proof (induction n s rule: take_bytes.induct)
  case (2 n c cs)
  show ?case
  proof (cases "length (utf8_char c) \<le> n")
    case True
    with 2 obtain d rest where "cs = take_bytes (n - length (utf8_char c)) cs @ d # rest"
        "byte_len (take_bytes (n - length (utf8_char c)) cs) \<le> n - length (utf8_char c)"
        "n - length (utf8_char c) < byte_len (take_bytes (n - length (utf8_char c)) cs @ [d])" by force
    with True show ?thesis by (intro exI [of _ d] exI [of _ rest]) auto
  qed simp
qed simp

lemma shorten_cut: "cut_text m s (shorten m s)"
proof (cases "byte_len s \<le> m")
  case False
  then have "m - 64 < byte_len s" by linarith
  from take_bytes_longest [OF this] obtain c rest where s: "s = take_bytes (m - 64) s @ c # rest"
      "byte_len (take_bytes (m - 64) s) \<le> m - 64" "m - 64 < byte_len (take_bytes (m - 64) s @ [c])" by blast
  have "byte_len s = byte_len (take_bytes (m - 64) s) + byte_len (c # rest)"
    using arg_cong [OF s(1), of byte_len] by simp
  then have "byte_len s - byte_len (take_bytes (m - 64) s) = byte_len (c # rest)" by linarith
  then have "shorten m s = take_bytes (m - 64) s @ truncation_marker (byte_len (c # rest))"
    using False min_absorb1 [of "m - 64" "byte_len s"]
    by (simp add: shorten_def truncate_text_to_bytes_def truncation_marker_def Let_def)
  with False s show ?thesis unfolding cut_text_def by auto
qed (simp add: cut_text_def shorten_def truncate_text_to_bytes_def)

lemma truncate_item_cut: "cut_item (sat_mul n 4) x (truncate_item_to_tokens n x)"
proof (cases x)
  case (User m)
  have "list_all2 (cut_part (sat_mul n 4)) ps
      (map (\<lambda>p. case p of TextPart t \<Rightarrow> TextPart (shorten (sat_mul n 4) t) | ImagePart _ \<Rightarrow> p) ps)" for ps
    by (induction ps) (auto simp: shorten_cut intro: cut_part.intros split: content_part.split)
  then show ?thesis using User cut_user by (simp add: truncate_item_to_tokens_def Let_def)
qed (simp_all add: truncate_item_to_tokens_def Let_def shorten_cut cut_item.intros)

lemma recover_cut:
  assumes "paired body" "all_summarizable body" "recover_truncated_tail_unit body budget = Some t"
  shows "cut_unit budget (last_unit body) t"
proof (cases "dropWhile is_result (rev body)")
  case Nil
  then have "list_all is_result body" by (simp add: dropWhile_eq_Nil_conv list_all_iff)
  with paired_starts_plain [OF assms(1)] have "body = []" by (cases body) auto
  then show ?thesis using assms(3) by (simp add: recover_truncated_tail_unit_def last_unit_def cut_unit_def)
next
  case (Cons x before)
  define run where "run = rev (takeWhile is_result (rev body))"
  have unit: "last_unit body = x # run" using Cons by (simp add: last_unit_def run_def)
  have res: "list_all is_result run" by (auto simp: run_def list_all_iff dest: set_takeWhileD)
  have x: "x \<in> set body" using Cons by (metis list.set_intros(1) set_dropWhileD set_rev)
  show ?thesis
  proof (cases "run = []")
    case True
    then have "t = [truncate_item_to_tokens budget x]"
      using assms(3) Cons by (simp add: recover_truncated_tail_unit_def run_def)
    then show ?thesis using True unit by (simp add: cut_unit_def truncate_item_cut)
  next
    case False
    then have "call_ids x \<noteq> []"
      using paired_one_block [of x run] last_unit_suffix [OF assms(1)] res unit by auto
    then have "t = x # map (truncate_item_to_tokens (max ((budget - item_cost x) div length run) 1)) run"
      using False Cons x assms(2,3)
      by (simp add: recover_truncated_tail_unit_def has_calls_iff item_cost Let_def rev_map run_def)
    moreover have "list_all2 (cut_item (sat_mul n 4)) ys (map (truncate_item_to_tokens n) ys)" for n ys
      by (simp add: list_all2_conv_all_nth truncate_item_cut)
    ultimately show ?thesis using False unit by (cases run) (simp_all only: cut_unit_def list.case, auto simp: truncate_item_cut)
  qed
qed

text \<open>
  A suffix that starts with a message and is no longer than a run of results and what follows it lies in what follows.
\<close>

lemma plain_suffix_in_rest:
  assumes "suffix s (run @ rest)" "list_all is_result run" "starts_plain s"
  shows "suffix s rest"
proof -
  consider us where "suffix us run" "s = us @ rest" | "suffix s rest"
    using assms(1) by (auto simp: suffix_append)
  then show ?thesis
  proof cases
    case 1
    with assms(2) have "list_all is_result us" by (auto simp: list_all_iff suffix_def)
    with 1 assms(3) have "us = []" by (cases us) auto
    with 1 show ?thesis by simp
  qed
qed

lemma fitting_suffix:
  assumes "all_summarizable body"
  obtains k where "fit_suffix budget (rev body) = Some k"
    and "cost (dropWhile is_result (drop (length body - k) body)) \<le> budget"
    and "\<And>s. suffix s body \<Longrightarrow> starts_plain s \<Longrightarrow> cost s \<le> budget \<Longrightarrow>
       suffix s (dropWhile is_result (drop (length body - k) body))"
proof -
  obtain k where k: "fit_suffix budget (rev body) = Some k" "k \<le> length body" "cost (take k (rev body)) \<le> budget"
      "\<And>j. j \<le> length body \<Longrightarrow> cost (take j (rev body)) \<le> budget \<Longrightarrow> j \<le> k"
    using fit_suffix_longest [of "rev body" budget] assms by auto
  let ?part = "drop (length body - k) body"
  have part: "?part = takeWhile is_result ?part @ dropWhile is_result ?part" by simp
  have "cost ?part \<le> budget" using k(3) by (simp add: take_rev)
  moreover have "cost ?part = cost (takeWhile is_result ?part) + cost (dropWhile is_result ?part)"
    using part by (metis cost_simps(3))
  moreover have "suffix s (dropWhile is_result ?part)"
    if s: "suffix s body" "starts_plain s" "cost s \<le> budget" for s
  proof -
    have "length s \<le> k" using k(4) [of "length s"] s by (auto simp: suffix_def)
    then have "suffix s ?part"
      using s(1) k(2) by (intro suffix_length_suffix [OF s(1) suffix_drop]) simp
    then show ?thesis
      using part s(2) by (metis plain_suffix_in_rest list_all_iff set_takeWhileD)
  qed
  ultimately show ?thesis using that [of k] k(1) by simp
qed

text \<open>
  C31. Cutting a repaired conversation down to a token budget returns whenever the conversation has no
  code-interpreter text whose hundredth byte lies inside a character (such a text panics), and never
  separates a call from its results. A conversation within the budget is unchanged. Otherwise the
  system message stays, followed by the longest suffix that starts with a message and fits in what the
  system message leaves; when no such suffix fits, by the last message and its results with their texts
  shortened as \<open>cut_unit\<close> says, which may exceed a budget below the size of the markers.
\<close>

theorem fit_conversation_correct:
  assumes "all_summarizable conv" "paired conv" "split_system_head conv = (head, body)"
  shows "\<exists>out. fit_conversation_to_budget conv max_tokens = Some out \<and> paired out \<and>
     (cost conv \<le> max_tokens \<longrightarrow> out = conv) \<and>
     (max_tokens < cost conv \<longrightarrow> (\<exists>tail. out = head @ tail \<and>
        (if \<exists>s. suffix s body \<and> starts_plain s \<and> s \<noteq> [] \<and> cost s \<le> max_tokens - cost head
         then suffix tail body \<and> tail \<noteq> [] \<and> cost tail \<le> max_tokens - cost head \<and>
              (\<forall>s. suffix s body \<and> starts_plain s \<and> cost s \<le> max_tokens - cost head \<longrightarrow> length s \<le> length tail)
         else cut_unit (max_tokens - cost head) (last_unit body) tail)))"
proof (cases "cost conv \<le> max_tokens")
  case True
  with assms show ?thesis by (simp add: fit_conversation_to_budget_def conversation_cost)
next
  case False
  let ?budget = "max_tokens - cost head"
  have conv: "conv = head @ body" and body: "paired body" and paired: "\<And>xs. paired xs \<Longrightarrow> paired (head @ xs)"
    using paired_system_head [OF assms(2,3)] by auto
  then have sums: "all_summarizable head" "all_summarizable body" using assms(1) by auto
  obtain k where k: "fit_suffix ?budget (rev body) = Some k"
      "cost (dropWhile is_result (drop (length body - k) body)) \<le> ?budget"
      "\<And>s. suffix s body \<Longrightarrow> starts_plain s \<Longrightarrow> cost s \<le> ?budget \<Longrightarrow>
         suffix s (dropWhile is_result (drop (length body - k) body))"
    by (rule fitting_suffix [OF sums(2), of ?budget]) (rule that)
  let ?tail = "dropWhile is_result (drop (length body - k) body)"
  have suf: "suffix ?tail body" using suffix_drop suffix_dropWhile suffix_order.trans by blast
  obtain t where t: "recover_truncated_tail_unit body ?budget = Some t" "map shape t = map shape (last_unit body)"
    using recover_unit [OF body sums(2)] by blast
  have "fit_conversation_to_budget conv max_tokens = Some (head @ (if ?tail \<noteq> [] then ?tail else t))"
    using False assms(1,3) sums k(1) t(1) by (simp add: fit_conversation_to_budget_def conversation_cost Let_def)
  moreover have "paired t" using last_unit_suffix [OF body] t(2) paired_shape [of "last_unit body" t] by simp
  moreover have "paired ?tail" using suf paired_suffix [OF body] by (metis starts_plain_dropWhile suffix_def)
  ultimately have "fit_conversation_to_budget conv max_tokens = Some (head @ (if ?tail \<noteq> [] then ?tail else t))"
      "paired (head @ (if ?tail \<noteq> [] then ?tail else t))"
    using paired by auto
  moreover have "length s \<le> length ?tail" if "suffix s body" "starts_plain s" "cost s \<le> ?budget" for s
    using k(3) [OF that] by (simp add: suffix_length_le)
  moreover have "?tail \<noteq> [] \<longleftrightarrow> (\<exists>s. suffix s body \<and> starts_plain s \<and> s \<noteq> [] \<and> cost s \<le> ?budget)"
    using suf k(2,3) by (metis starts_plain_dropWhile suffix_bot.extremum_uniqueI)
  ultimately show ?thesis using False suf k(2) recover_cut [OF body sums(2) t(1)] by auto
qed

definition long_history :: "conversation_item list" where
  "long_history =
     [System (u ''system prompt''), user (u ''a question that is too long to be kept''),
      assistant_tool_calls [sample_call ''a''], tool_result (u ''a'') (u ''eight by''), user (u ''go on'')]"

lemma long_history_split: "split_system_head long_history = ([System (u ''system prompt'')], tl long_history)"
  by code_simp

lemma long_history_paired: "paired long_history"
proof -
  have "distinct_calls long_history \<and> repaired UserCancelled long_history = long_history" by code_simp
  then show ?thesis using repaired_paired [of long_history UserCancelled] by simp
qed

lemma long_history_summarizable: "all_summarizable long_history"
  by code_simp

lemma ascii_bytes: "list_all (\<lambda>c. c < 128) s \<Longrightarrow> as_bytes s = s"
  by (induction s) (simp_all add: as_bytes_def utf8_char_def)

lemma long_history_costs: "map estimate_item_tokens long_history = [Some 3, Some 9, Some 0, Some 2, Some 1]"
  by (simp add: long_history_def estimate_item_tokens_def estimate_tokens_def BYTES_PER_TOKEN_def
      user_def user_with_reason_def assistant_tool_calls_def tool_result_def sample_call_def part_text_def
      estimate_image_tokens_def sat_mul_def List.map_filter_simps ascii_bytes u_def)

lemma long_history_fit:
  "fit_conversation_to_budget long_history 6 = Some (System (u ''system prompt'') # drop 2 long_history)"
  using long_history_costs
  by (simp add: long_history_def fit_conversation_to_budget_def estimate_conversation_tokens_def sum_panic_def
      split_system_head_def is_system_def is_result_def assistant_tool_calls_def)

theorem fit_conversation_correct_witness:
  "fit_conversation_to_budget long_history 6 = Some (System (u ''system prompt'') # drop 2 long_history) \<and>
   paired (System (u ''system prompt'') # drop 2 long_history)"
  using fit_conversation_correct [OF long_history_summarizable long_history_paired long_history_split, of 6]
    long_history_fit by auto

section \<open>Compacted histories\<close>

text \<open>
  C32. The history that replaces a repaired conversation at compaction is repaired as well: the messages
  kept since the last real user turn have exactly one result for each call, in place. Whatever the model
  wrote, the formatted summary has none of the tags that delimit summaries, analyses and summary
  requests.
\<close>

theorem compacted_history_correct:
  assumes "paired conv" "is_system (system_message i)"
    and "recent_messages i = extract_messages_since_last_real_user conv"
  shows "paired (build_compacted_history i) \<and>
     \<not> has_dangling_tool_calls (build_compacted_history i) \<and>
     (\<forall>m \<in> set control_names. \<not> str_contains (tag_of m) (format_compact_summary (compaction_summary i)))"
proof -
  have "paired (build_compacted_history i)"
    using compacted_history_paired [OF assms(2)] assms(1,3) recent_messages_paired by simp
  then show ?thesis using paired_answered answered_not_dangling formatted_no_tag by blast
qed

definition long_history_compacted :: compacted_history_input where
  "long_history_compacted =
     \<lparr>system_message = System (u ''system prompt''), user_message_prefix = [], agents_md_reminder = None,
      recent_messages = extract_messages_since_last_real_user (butlast long_history),
      last_user_query = extract_last_real_user_query (butlast long_history),
      compaction_summary = u ''<analysis>x</analysis><summary>ends </summary> early</summary>'',
      history_system_reminder = None, transcript_hint = None\<rparr>"

lemma long_history_compacted_eval:
  "is_system (system_message long_history_compacted) \<and>
   recent_messages long_history_compacted =
     [assistant_tool_calls [sample_call ''a''], tool_result (u ''a'') (u ''Tool call omitted...'')] \<and>
   str_contains (tag_of ''/summary'') (extract_summary (strip_analysis (compaction_summary long_history_compacted)))"
  by code_simp

lemma butlast_long_history_paired: "paired (butlast long_history)"
proof -
  have "distinct_calls (butlast long_history) \<and> repaired UserCancelled (butlast long_history) = butlast long_history"
    by code_simp
  then show ?thesis using repaired_paired [of "butlast long_history" UserCancelled] by simp
qed

theorem compacted_history_correct_witness:
  "paired (build_compacted_history long_history_compacted) \<and>
   \<not> str_contains (tag_of ''/summary'') (format_compact_summary (compaction_summary long_history_compacted))"
  using compacted_history_correct [OF butlast_long_history_paired, of long_history_compacted] long_history_compacted_eval
  by (simp add: long_history_compacted_def control_names_def)

section \<open>Requests\<close>

definition plain_config :: sampling_config where
  "plain_config = \<lparr>model = u ''grok'', max_completion_tokens = None, temperature = None, top_p = None,
     context_window = 256000, config_reasoning_effort = None\<rparr>"

definition idle_chat :: "conversation_item list \<Rightarrow> chat_state" where
  "idle_chat xs =
     \<lparr>conversation = xs, sampling_config = plain_config, prompt_index = 0, prompt_texts = [], total_tokens = 0,
      stream_start_ms = None, turn_start_ms = None, agent_edited_paths = {}, last_compaction_prompt_index = None,
      credentials = no_credentials, estimated_tokens_since_model = 0, estimate_at_last_response = 0,
      last_turn_usage = None, prompt_usage = None, session_usage = no_ledger, turn_capture = None,
      harness_trace_buffer = [], harness_trace_turns = []\<rparr>"

definition idle_actor :: "conversation_item list \<Rightarrow> chat_state_actor" where
  "idle_actor xs =
     \<lparr>chat = idle_chat xs, pruning_config = default_pruning_config, persistence = [], chat_events = []\<rparr>"

definition no_json :: json_size where
  "no_json = \<lparr>items_json = \<lambda>_. 0, part_json = \<lambda>_. 0\<rparr>"

definition cancelled_history :: "conversation_item list" where
  "cancelled_history = [user (u ''hi''), assistant_tool_calls [sample_call ''a'', sample_call ''b''],
     tool_result (u ''b'') (u ''done'')]"

lemma cancelled_history_eval: "distinct_calls cancelled_history \<and> has_dangling_tool_calls cancelled_history"
  by code_simp

lemma request_command_returns:
  obtains A' req where "handle_command J (BuildConversationRequest tools m p ci ri) A = Some (A', RequestReply req)"
  by (cases "build_conversation_request J tools m p ci ri (ensure_conversation_integrity_with_reason UserCancelled A)")
     (simp add: handle_command_def)

text \<open>
  C29. A request built from a conversation in which no message declares a call twice has a result for each
  call directly after its message, so no provider sees a dangling call, and so has the
  conversation in the state. The request is the conversation with at most the leading system
  message, the text of tool results and images changed. It is the conversation itself when the
  context is at most half full, no reminder is given and the body is below the image limit.
\<close>

theorem request_well_formed:
  assumes "distinct_calls (conversation (chat A))"
    and "handle_command J (BuildConversationRequest tools m p ci ri) A = Some (A', RequestReply req)"
  shows "well_answered (request_items req) \<and> \<not> has_dangling_tool_calls (request_items req) \<and>
     well_answered (conversation (chat A')) \<and>
     map redact (without_head (request_items req)) = map redact (without_head (conversation (chat A'))) \<and>
     (total_tokens (chat A) \<le> context_window (sampling_config (chat A)) div 2 \<and> m = None \<and>
        conversation_body_bytes J (conversation (chat A')) < IMAGE_COMPACT_TRIGGER_BYTES
      \<longrightarrow> request_items req = conversation (chat A'))"
proof -
  let ?E = "ensure_conversation_integrity_with_reason UserCancelled A"
  let ?B = "fst (persist_reminder m p ?E)"
  have build: "build_conversation_request J tools m p ci ri ?E = (A', req)"
    using assms(2) by (auto simp: handle_command_def case_prod_beta)
  have state: "conversation (chat A') = conversation (chat ?B)" using build_request_fields [OF build] by simp
  have "well_answered (conversation (chat ?E))"
    using integrity_answered [OF assms(1), of UserCancelled] by (simp add: ensure_integrity_chat)
  then have answered: "well_answered (conversation (chat A'))"
    unfolding state by (rule persist_reminder_answered)
  let ?np = "should_prune (total_tokens (chat ?E)) (context_window (sampling_config (chat ?E)))"
  have items: "request_items req =
     fst (request_copy J (pruning_config ?B) ?np (conversation_body_bytes J (conversation (chat A')))
       (snd (persist_reminder m p ?E)) (conversation (chat A')))"
    using request_items_copy [of J tools m p ci ri ?E] build state by simp
  have redacted: "map redact (without_head (request_items req)) = map redact (without_head (conversation (chat A')))"
    unfolding items by (rule request_copy_redact)
  then have ok: "well_answered (request_items req)"
    using answered well_answered_shape [OF redact_shape [OF redacted]] by (simp add: without_head_answered)
  have "?np \<longleftrightarrow> context_window (sampling_config (chat A)) div 2 < total_tokens (chat A)"
    by (simp add: should_prune_def ensure_integrity_chat rebase_turn_capture_offset_def snapshot_turn_slice_def)
  then show ?thesis
    using ok answered redacted answered_not_dangling [OF ok] items request_copy_exact
    by (auto simp: persist_reminder_def)
qed

theorem request_well_formed_witness:
  "has_dangling_tool_calls (conversation (chat (idle_actor cancelled_history))) \<and>
   (\<exists>A' req. handle_command no_json (BuildConversationRequest [] None False [] []) (idle_actor cancelled_history)
        = Some (A', RequestReply req) \<and> well_answered (request_items req))"
proof -
  obtain A' req where r: "handle_command no_json (BuildConversationRequest [] None False [] [])
      (idle_actor cancelled_history) = Some (A', RequestReply req)"
    by (rule request_command_returns)
  have c: "conversation (chat (idle_actor cancelled_history)) = cancelled_history"
    by (simp add: idle_actor_def idle_chat_def)
  show ?thesis using request_well_formed [OF _ r] r c cancelled_history_eval by auto
qed

section \<open>Runs\<close>

lemma spawn_returns:
  assumes "all_summarizable items"
  obtains A where "spawn_with_pruning items cfg pr = Some A" "good A" "capture_ok (chat A)" "usage_ok (chat A)"
    "persistence A = []"
proof -
  let ?conv = "fst (repair_dangling_tool_calls UserCancelled (fst (dedup_duplicate_tool_results items)))"
  have conv: "all_summarizable ?conv" by (rule dangling_summarizable [OF dedup_summarizable [OF assms]])
  then obtain n where "estimate_conversation_tokens ?conv = Some n" using sums_defined(1) by blast
  with conv that show ?thesis
    by (simp add: spawn_with_pruning_def chat_state_new_def capture_ok_def usage_ok_def ledger_ok_no_ledger)
qed

lemma run_replies: "run_commands J cs A = Some (A', rs) \<Longrightarrow> length rs = length cs"
  by (induction cs arbitrary: A rs) (auto split: option.splits prod.splits)

text \<open>
  C28. When no code-interpreter call has a text whose hundredth byte lies inside a character, the actor starts
  and answers every command of every sequence. Then the offset of an active capture lies within the
  conversation; each counter of a ledger is the saturated sum of the models' counters, the main loop's calls
  are among all calls, and the prompt's ledger never exceeds the session's. If no snapshot was restored,
  what the actor has persisted since it started turns the conversation it started with into the
  current one. An intact history is the conversation the actor starts with, so for it the
  persisted history is the conversation; a torn one is repaired in memory only.
\<close>

theorem chat_runs_keep_invariant:
  assumes "all_summarizable items" "\<forall>c \<in> set cs. all_summarizable (command_items c)"
  shows "\<exists>A0 A rs. spawn_with_pruning items cfg pr = Some A0 \<and> run_commands J cs A0 = Some (A, rs) \<and>
     length rs = length cs \<and> capture_ok (chat A) \<and> usage_ok (chat A) \<and>
     (list_all saving cs \<longrightarrow> on_disk (conversation (chat A0)) (persistence A) = conversation (chat A)) \<and>
     (paired items \<longrightarrow> conversation (chat A0) = items)"
proof -
  obtain A0 where A0: "spawn_with_pruning items cfg pr = Some A0" "good A0" "capture_ok (chat A0)" "usage_ok (chat A0)"
      "persistence A0 = []"
    using spawn_returns [OF assms(1)] .
  obtain A rs where run: "run_commands J cs A0 = Some (A, rs)" using run_returns [OF assms(2) A0(2)] by blast
  have "capture_ok (chat A) \<and> usage_ok (chat A)"
    using kc.kept_by_runs [OF _ run] A0 by (simp add: list_all_iff)
  moreover have "mirrored (conversation (chat A0)) A" if "list_all saving cs"
    using km.kept_by_runs [OF that run] A0(5) by (simp add: mirrored_def)
  moreover have "conversation (chat A0) = items" if "paired items"
    using A0(1) paired_passes [OF that] by (auto simp: spawn_with_pruning_def chat_state_new_def)
  ultimately show ?thesis using A0(1) run run_replies [OF run] by (auto simp: mirrored_def)
qed

definition sample_run :: "chat_state_command list" where
  "sample_run = [BeginTurnCapture, PushUserMessage (user (u ''hi'')),
     PushAssistantResponse (assistant_tool_calls [sample_call ''a'']), PushToolResult (tool_result (u ''a'') (u ''ok'')),
     IncrementPromptIndex, Flush]"

lemma sample_run_items: "\<forall>c \<in> set sample_run. all_summarizable (command_items c)"
  by (simp add: sample_run_def command_items_def user_def user_with_reason_def assistant_tool_calls_def tool_result_def)

lemma sample_run_saving: "list_all saving sample_run \<and> list_all within_turn (tl sample_run)"
  by (simp add: sample_run_def saving_def within_turn_def)

theorem chat_runs_keep_invariant_witness:
  "\<exists>A0 A rs. spawn_with_pruning [] plain_config default_pruning_config = Some A0 \<and>
     run_commands no_json sample_run A0 = Some (A, rs) \<and> length rs = 6 \<and>
     on_disk [] (persistence A) = conversation (chat A)"
proof -
  obtain A0 A rs where run: "spawn_with_pruning [] plain_config default_pruning_config = Some A0"
      "run_commands no_json sample_run A0 = Some (A, rs)" "length rs = length sample_run"
      "list_all saving sample_run \<longrightarrow> on_disk (conversation (chat A0)) (persistence A) = conversation (chat A)"
      "paired [] \<longrightarrow> conversation (chat A0) = []"
    using chat_runs_keep_invariant [OF _ sample_run_items, of "[]" plain_config default_pruning_config no_json] by auto
  moreover have "conversation (chat A0) = []" using run(5) paired.paired_Nil by blast
  ultimately show ?thesis using sample_run_saving by (auto simp: sample_run_def)
qed

section \<open>Captured turns\<close>

text \<open>
  C30. What is taken at the end of a turn is what was pushed since the capture began, in order, up to the
  text of tool results that were cleared meanwhile: neither the repair of dangling calls before a
  request, nor replaced or compacted conversations, nor restored snapshots lose or add a message. The
  commands in between may be any but those that begin or end a capture, rewind the conversation, or
  carry out an explicit repair of the history (which would lose the messages captured so far).
\<close>

theorem turn_capture_complete:
  assumes "list_all within_turn cs" "run_commands J (BeginTurnCapture # cs) A = Some (B, rs)"
  shows "\<exists>B' cap. handle_command J TakeTurnMessages B = Some (B', CaptureReply (Some cap)) \<and>
     map erase (captured_messages cap) = map erase (concat (map pushed cs)) \<and> turn_capture (chat B') = None"
proof -
  obtain C rs' where begun: "handle_command J BeginTurnCapture A = Some (C, NoReply)" "run_commands J cs C = Some (B, rs')"
    using assms(2) by (auto simp: handle_command_def changed_chat_def split: option.splits prod.splits)
  then have "capturing [] (chat C)"
    by (auto simp: handle_command_def changed_chat_def set_chat_def begin_turn_capture_def capturing_def captured_def
        capture_ok_def turn_tail_def)
  then have "capturing (concat (map pushed cs)) (chat B)"
    using capturing_run [OF assms(1) begun(2), of "[]"] by simp
  then show ?thesis
    by (auto simp: capturing_def captured_def handle_command_def take_turn_messages_def Let_def)
qed

theorem turn_capture_complete_witness:
  "\<exists>B rs B' cap. run_commands no_json sample_run (idle_actor []) = Some (B, rs) \<and>
     handle_command no_json TakeTurnMessages B = Some (B', CaptureReply (Some cap)) \<and>
     length (captured_messages cap) = 3"
proof -
  obtain B rs where run: "run_commands no_json sample_run (idle_actor []) = Some (B, rs)"
    using run_returns [OF sample_run_items, of "idle_actor []" no_json] by (auto simp: idle_actor_def idle_chat_def)
  then have "run_commands no_json (BeginTurnCapture # tl sample_run) (idle_actor []) = Some (B, rs)"
    by (simp add: sample_run_def)
  from turn_capture_complete [OF conjunct2 [OF sample_run_saving] this] obtain B' cap where
    "handle_command no_json TakeTurnMessages B = Some (B', CaptureReply (Some cap))"
    "map erase (captured_messages cap) = map erase (concat (map pushed (tl sample_run)))" by auto
  moreover from this(2) have "length (captured_messages cap) = length (concat (map pushed (tl sample_run)))"
    by (metis length_map)
  ultimately show ?thesis using run by (auto simp: sample_run_def pushed_def)
qed

end
