(* ===== verification/Chat_Gaps.thy ===== *)
theory Chat_Gaps
  imports Chat_Properties
begin

text \<open>Inputs on which the conversation actor does not do what its documentation says.\<close>

section \<open>Concrete inputs\<close>

definition orphan :: conversation_item where
  "orphan = tool_result (u ''x'') (u ''orphan'')"

lemma orphan_repair:
  "fst (repair_history [user (u ''hi''), orphan]) = [user (u ''hi'')] \<and>
   report_changed (snd (repair_history [user (u ''hi''), orphan]))"
  by code_simp

lemmas idle_defs = idle_actor_def idle_chat_def default_pruning_config_def

lemmas run_defs = handle_command_def done_with_def changed_chat_def set_chat_def persist_message_def
  replace_history_def send_event_def begin_turn_capture_def take_turn_messages_def snapshot_turn_slice_def
  rebase_turn_capture_offset_def turn_tail_def push_user_message_def push_user_message_with_repair_reason_def
  push_message_def count_item_def append_item_def prune_retained_conversation_def
  ensure_conversation_integrity_with_reason_def repair_history_command_def replace_conversation_def
  reseed_tokens_def is_assistant_def

lemmas cost_defs = estimate_conversation_tokens_def sum_panic_def estimate_item_tokens_def estimate_tokens_def
  estimate_image_tokens_def

lemma repair_loses_capture:
  "\<exists>B rs. run_commands no_json [BeginTurnCapture, PushUserMessage (user (u ''hi'')), PushToolResult orphan,
       RepairHistory False False, TakeTurnMessages] (idle_actor []) = Some (B, rs) \<and>
     last rs = CaptureReply (Some \<lparr>captured_messages = [], captured_compaction = False\<rparr>) \<and>
     conversation (chat B) = [user (u ''hi'')]"
  using orphan_repair
  by (cases "repair_history [user (u ''hi''), orphan]")
     (simp add: run_defs idle_defs cost_defs user_def user_with_reason_def tool_result_def orphan_def Let_def)

text \<open>
  A conversation compacted during the fourth prompt, in which a file was read and a reminder injected
  since.
\<close>

definition since_compaction :: "conversation_item list" where
  "since_compaction = [user_meta (u ''summary''), user (u ''read it''), assistant_tool_calls [sample_call ''a''],
     tool_result (u ''a'') (u ''contents''), system_reminder []]"

definition compacted_actor :: chat_state_actor where
  "compacted_actor = \<lparr>chat = (idle_chat since_compaction)\<lparr>prompt_index := 4\<rparr>,
     pruning_config = default_pruning_config\<lparr>hard_clear_age_turns := 1\<rparr>, persistence = [], chat_events = []\<rparr>"

lemma since_compaction_kept:
  "dedup_duplicate_tool_results since_compaction = (since_compaction, 0) \<and>
   repair_dangling_tool_calls UserCancelled since_compaction = (since_compaction, 0)"
  by code_simp

lemma since_compaction_cleared:
  "hard_clear 1 0 False (rev (since_compaction @ [system_reminder []])) =
     (rev (since_compaction[3 := tool_result (u ''a'') HARD_CLEAR_PLACEHOLDER] @ [system_reminder []]), 1)"
  by code_simp

lemma since_compaction_users: "length (filter is_user (since_compaction @ [system_reminder []])) = 4"
  by code_simp

lemma since_compaction_good:
  "all_summarizable (since_compaction @ [system_reminder []])"
  "all_summarizable (since_compaction[3 := tool_result (u ''a'') HARD_CLEAR_PLACEHOLDER] @ [system_reminder []])"
  by code_simp+

lemma reminder_cost: "estimate_item_tokens (system_reminder []) = Some 0"
  by (simp add: system_reminder_def user_with_reason_def cost_defs sat_mul_def part_text_def List.map_filter_simps
      BYTES_PER_TOKEN_def)

lemma fresh_result_cleared:
  "\<exists>B. handle_command no_json (PushUserMessage (system_reminder [])) compacted_actor = Some (B, NoReply) \<and>
     conversation (chat B) =
       since_compaction[3 := tool_result (u ''a'') HARD_CLEAR_PLACEHOLDER] @ [system_reminder []]"
  using sums_defined(2) [OF since_compaction_good(1)] sums_defined(2) [OF since_compaction_good(2)]
    since_compaction_kept since_compaction_cleared since_compaction_users reminder_cost
  by (auto simp add: run_defs compacted_actor_def idle_defs Let_def u64_max_def simp del: rev_append)

definition accented_code :: conversation_item where
  "accented_code = BackendToolCall (CodeInterpreter (u ''ci'') (Some (replicate 99 97 @ [233])))"

lemma accented_code_panics: "handle_command no_json (PushAssistantResponse accented_code) (idle_actor []) = None"
proof -
  have "text_summary (CodeInterpreter (u ''ci'') (Some (replicate 99 97 @ [233]))) = None" by code_simp
  then show ?thesis
    by (simp add: handle_command_def done_with_def push_message_def count_item_def is_assistant_def
        estimate_item_tokens_def accented_code_def)
qed

definition doubled_call :: "conversation_item list" where
  "doubled_call = [assistant_tool_calls [sample_call ''a'', sample_call ''a'']]"

lemma doubled_call_repair:
  "report_changed (snd (repair_history (fst (repair_history doubled_call)))) \<and>
   length (fst (repair_history doubled_call)) = 3 \<and>
   length (fst (repair_history (fst (repair_history doubled_call)))) = 2"
  by code_simp

lemma restored_not_saved:
  "\<exists>A B rs. run_commands no_json [PushUserMessage (user (u ''hi''))] (idle_actor []) = Some (A, [NoReply]) \<and>
     run_commands no_json [RestoreSnapshot ((snapshot (chat A))\<lparr>snap_conversation := []\<rparr>), Flush] A = Some (B, rs) \<and>
     conversation (chat B) = [] \<and> on_disk [] (persistence B) = [user (u ''hi'')]"
  by (simp add: run_defs idle_defs cost_defs user_def user_with_reason_def restore_snapshot_def snapshot_def
      flush_history_def Let_def)

lemma truncation_grows:
  "truncate_text_to_bytes (replicate 20 97) 10 =
     Some (10 # u ''[... truncated 20 bytes to fit the compaction window ...]'') \<and>
   20 < byte_len (shorten 10 (replicate 20 97))"
  by code_simp

definition image_first :: "conversation_item list" where
  "image_first = [User \<lparr>user_content = [ImagePart (u ''data:'')], synthetic_reason = None, prior_turn_interrupt = None,
       item_prompt_index = None\<rparr>, user (u ''later'')]"

lemma image_first_text: "get_first_user_text (idle_chat image_first) = Some (u ''later'')"
  by (simp add: get_first_user_text_def idle_chat_def image_first_def leading_text_def user_def user_with_reason_def
      part_text_def List.map_filter_simps)

section \<open>Gaps\<close>

text \<open>
  Seven inputs on which the actor departs from its documentation. Repairing the history during a
  captured turn loses the turn's messages. After a compaction, reminders clear a tool result of the
  current turn although one real turn has to pass first. A code-interpreter call whose hundredth byte lies
  inside a character panics when it is pushed. Repairing a history twice differs from repairing it
  once when a message declares a call twice. A restored snapshot is not persisted, so the dropped prompt
  is still on disk after a flush. Shortening a text to ten bytes makes a text of twenty bytes longer. The
  first user text is taken from a later message when the first one starts with an image.
\<close>

lemma chat_gaps:
  "(\<exists>B rs. run_commands no_json [BeginTurnCapture, PushUserMessage (user (u ''hi'')), PushToolResult orphan,
       RepairHistory False False, TakeTurnMessages] (idle_actor []) = Some (B, rs) \<and>
     last rs = CaptureReply (Some \<lparr>captured_messages = [], captured_compaction = False\<rparr>) \<and>
     conversation (chat B) = [user (u ''hi'')]) \<and>
   (\<exists>B. handle_command no_json (PushUserMessage (system_reminder [])) compacted_actor = Some (B, NoReply) \<and>
     conversation (chat B) =
       since_compaction[3 := tool_result (u ''a'') HARD_CLEAR_PLACEHOLDER] @ [system_reminder []]) \<and>
   handle_command no_json (PushAssistantResponse accented_code) (idle_actor []) = None \<and>
   (report_changed (snd (repair_history (fst (repair_history doubled_call)))) \<and>
     length (fst (repair_history doubled_call)) = 3 \<and>
     length (fst (repair_history (fst (repair_history doubled_call)))) = 2) \<and>
   (\<exists>A B rs. run_commands no_json [PushUserMessage (user (u ''hi''))] (idle_actor []) = Some (A, [NoReply]) \<and>
     run_commands no_json [RestoreSnapshot ((snapshot (chat A))\<lparr>snap_conversation := []\<rparr>), Flush] A = Some (B, rs) \<and>
     conversation (chat B) = [] \<and> on_disk [] (persistence B) = [user (u ''hi'')]) \<and>
   (truncate_text_to_bytes (replicate 20 97) 10 =
       Some (10 # u ''[... truncated 20 bytes to fit the compaction window ...]'') \<and>
     20 < byte_len (shorten 10 (replicate 20 97))) \<and>
   get_first_user_text (idle_chat image_first) = Some (u ''later'')"
  by (intro conjI repair_loses_capture fresh_result_cleared accented_code_panics restored_not_saved image_first_text
      conjunct1 [OF doubled_call_repair] conjunct2 [OF doubled_call_repair, THEN conjunct1]
      conjunct2 [OF doubled_call_repair, THEN conjunct2] conjunct1 [OF truncation_grows] conjunct2 [OF truncation_grows])

end
