(* ===== verification/Hashline_Scheme.thy ===== *)
theory Hashline_Scheme
  imports Prelude Utf8
begin

text \<open>
  Line anchors (\<^verbatim>\<open>codegen/xai-grok-tools/src/implementations/grok_build_hashline\<close>: \<^verbatim>\<open>scheme.rs\<close>,
  \<^verbatim>\<open>anchor.rs\<close>, \<^verbatim>\<open>config.rs\<close>; \<^verbatim>\<open>util/hash.rs\<close>). A line is named by its number and a short hash of its text,
  in two of the three schemes also by a hash of its surroundings. The trait of the schemes is a record
  of its methods, its contract the locale \<open>anchor_scheme_laws\<close>.
\<close>

unbundle bit_operations_syntax

section \<open>Hashes\<close>

definition FNV_OFFSET :: "32 word" where "FNV_OFFSET = 2166136261"
definition FNV_PRIME :: "32 word" where "FNV_PRIME = 16777619"

definition fnv_step :: "int \<Rightarrow> 32 word \<Rightarrow> 32 word" where
  "fnv_step b h = (h XOR word_of_int b) * FNV_PRIME"

definition fnv1a_32 :: "bytes \<Rightarrow> 32 word" where
  "fnv1a_32 data = fold fnv_step data FNV_OFFSET"

definition is_ascii_whitespace :: "int \<Rightarrow> bool" where
  "is_ascii_whitespace b \<longleftrightarrow> b = 9 \<or> b = 10 \<or> b = 12 \<or> b = 13 \<or> b = 32"

fun line_hash_loop :: "bytes \<Rightarrow> 32 word \<Rightarrow> bool \<Rightarrow> 32 word" where
  "line_hash_loop [] h prev_ws = h"
| "line_hash_loop (b # bs) h prev_ws =
     (if is_ascii_whitespace b then
        if \<not> prev_ws then line_hash_loop bs (fnv_step 32 h) True else line_hash_loop bs h prev_ws
      else line_hash_loop bs (fnv_step b h) False)"

definition line_hash :: "ustr \<Rightarrow> 32 word" where
  "line_hash line = line_hash_loop (as_bytes (trim line)) FNV_OFFSET False"

text \<open>\<^verbatim>\<open>encode_hash\<close> asserts a length from 1 to 4, which every constructor of a scheme has checked.\<close>

definition encode_hash :: "32 word \<Rightarrow> nat \<Rightarrow> ustr" where
  "encode_hash h len = map (\<lambda>i. uint (drop_bit (i * 8) h mod 26) + 97) [0..<len]"

definition DEFAULT_HASH_LEN :: nat where "DEFAULT_HASH_LEN = 3"

section \<open>Anchors\<close>

text \<open>\<^verbatim>\<open>Anchor\<close> and \<^verbatim>\<open>ParsedAnchor\<close> have the same fields and the same rendering.\<close>

record line_anchor =
  anchor_line :: nat
  anchor_local :: ustr
  anchor_context :: "ustr option"

definition anchor_suffix :: "line_anchor \<Rightarrow> ustr" where
  "anchor_suffix a =
     (case anchor_context a of Some ctx \<Rightarrow> anchor_local a @ [58] @ ctx | None \<Rightarrow> anchor_local a)"

definition anchor_render :: "line_anchor \<Rightarrow> ustr" where
  "anchor_render a =
     (case anchor_context a of
        Some ctx \<Rightarrow> show_nat (anchor_line a) @ [58] @ anchor_local a @ [58] @ ctx
      | None \<Rightarrow> show_nat (anchor_line a) @ [58] @ anchor_local a)"

definition is_ascii_lowercase :: "int \<Rightarrow> bool" where
  "is_ascii_lowercase b \<longleftrightarrow> 97 \<le> b \<and> b \<le> 122"

text \<open>\<^verbatim>\<open>splitn(3, ':')\<close>: at most two splits, the rest stays whole.\<close>

definition splitn3 :: "uchar \<Rightarrow> ustr \<Rightarrow> ustr list" where
  "splitn3 d s =
     (case split_char d s of a # b # c # rest \<Rightarrow> [a, b, join [d] (c # rest)] | ps \<Rightarrow> ps)"

definition anchor_parse :: "ustr \<Rightarrow> line_anchor option" where
  "anchor_parse s =
     (case splitn3 58 s of
        line_str # local # rest \<Rightarrow>
          if line_str = [] \<or> local = [] then None
          else (case parse_uint u64_max line_str of
                  None \<Rightarrow> None
                | Some line \<Rightarrow>
                    if line = 0 \<or> \<not> list_all is_ascii_lowercase (as_bytes local) then None
                    else (case rest of
                            ctx # _ \<Rightarrow>
                              if ctx = [] \<or> \<not> list_all is_ascii_lowercase (as_bytes ctx) then None
                              else Some \<lparr>anchor_line = line, anchor_local = local, anchor_context = Some ctx\<rparr>
                          | [] \<Rightarrow> Some \<lparr>anchor_line = line, anchor_local = local, anchor_context = None\<rparr>))
      | _ \<Rightarrow> None)"

datatype validation_result = Valid | Stale | OutOfRange

datatype shift_result = ShiftFound nat | ShiftAmbiguous "nat list" | ShiftNotFound

definition DEFAULT_SEARCH_RADIUS :: nat where "DEFAULT_SEARCH_RADIUS = 15"

section \<open>Schemes\<close>

record anchor_scheme =
  scheme_name :: ustr
  hash_len :: nat
  generate_anchors :: "ustr list \<Rightarrow> line_anchor list"
  validate :: "line_anchor \<Rightarrow> ustr list \<Rightarrow> validation_result"
  validation_window_lines :: "nat \<Rightarrow> nat \<Rightarrow> nat"

definition local_hash :: "nat \<Rightarrow> ustr \<Rightarrow> ustr" where
  "local_hash len line = encode_hash (line_hash line) len"

text \<open>The checks that the three validations begin with: the index, or the result.\<close>

definition validate_local :: "nat \<Rightarrow> line_anchor \<Rightarrow> ustr list \<Rightarrow> validation_result + nat" where
  "validate_local len a lines =
     (if anchor_line a = 0 \<or> length lines \<le> anchor_line a - 1 then Inl OutOfRange
      else if anchor_local a \<noteq> local_hash len (lines ! (anchor_line a - 1)) then Inl Stale
      else Inr (anchor_line a - 1))"

definition validate_context :: "(nat \<Rightarrow> ustr) \<Rightarrow> line_anchor \<Rightarrow> nat \<Rightarrow> validation_result" where
  "validate_context fingerprint a idx =
     (case anchor_context a of
        None \<Rightarrow> Stale
      | Some expected \<Rightarrow> if expected \<noteq> fingerprint idx then Stale else Valid)"

definition content_only :: "nat \<Rightarrow> anchor_scheme" where
  "content_only len =
     \<lparr>scheme_name = u ''content_only_v1'', hash_len = len,
      generate_anchors = (\<lambda>lines. map (\<lambda>(i, line).
         \<lparr>anchor_line = i + 1, anchor_local = local_hash len line, anchor_context = None\<rparr>) (enumerate 0 lines)),
      validate = (\<lambda>a lines. case validate_local len a lines of Inl r \<Rightarrow> r | Inr _ \<Rightarrow> Valid),
      validation_window_lines = (\<lambda>_ _. 1)\<rparr>"

text \<open>Mixing the hashes of lines into a fingerprint.\<close>

definition mix_lines :: "32 word \<Rightarrow> ustr list \<Rightarrow> 32 word" where
  "mix_lines start lines = fold (\<lambda>line h. (h XOR line_hash line) * 16777619) lines start"

definition line_chunk :: "nat \<Rightarrow> ustr list \<Rightarrow> nat \<Rightarrow> ustr list" where
  "line_chunk csize lines start = drop start (take (min (start + csize) (length lines)) lines)"

definition chunk_seed :: "32 word" where "chunk_seed = fnv1a_32 (u ''chunk'')"

definition chunk_fingerprint :: "nat \<Rightarrow> nat \<Rightarrow> ustr list \<Rightarrow> nat \<Rightarrow> ustr" where
  "chunk_fingerprint len csize lines line_idx =
     encode_hash (mix_lines chunk_seed (line_chunk csize lines (line_idx div csize * csize))) len"

definition div_ceil :: "nat \<Rightarrow> nat \<Rightarrow> nat" where
  "div_ceil n m = (n + m - 1) div m"

definition chunk_generate :: "nat \<Rightarrow> nat \<Rightarrow> ustr list \<Rightarrow> line_anchor list" where
  "chunk_generate len csize lines =
     (let chunk_fps = map (\<lambda>k. encode_hash (mix_lines chunk_seed (line_chunk csize lines (k * csize))) len)
                        [0..<div_ceil (length lines) csize]
      in map (\<lambda>(i, line).
           \<lparr>anchor_line = i + 1, anchor_local = local_hash len line,
            anchor_context = Some (chunk_fps ! (i div csize))\<rparr>) (enumerate 0 lines))"

definition chunk_scheme :: "nat \<Rightarrow> nat \<Rightarrow> anchor_scheme" where
  "chunk_scheme len csize =
     \<lparr>scheme_name = u ''chunk_v1'', hash_len = len, generate_anchors = chunk_generate len csize,
      validate = (\<lambda>a lines. case validate_local len a lines of
                     Inl r \<Rightarrow> r
                   | Inr idx \<Rightarrow> validate_context (chunk_fingerprint len csize lines) a idx),
      validation_window_lines = (\<lambda>_ n. min csize n)\<rparr>"

definition ckpt_seed :: "32 word" where "ckpt_seed = fnv1a_32 (u ''ckpt'')"

definition checkpoint_fingerprint :: "nat \<Rightarrow> nat \<Rightarrow> ustr list \<Rightarrow> nat \<Rightarrow> ustr" where
  "checkpoint_fingerprint len interval lines line_idx =
     encode_hash (mix_lines ckpt_seed (drop (line_idx div interval * interval) (take (line_idx + 1) lines))) len"

fun checkpoint_generate_from :: "nat \<Rightarrow> nat \<Rightarrow> nat \<Rightarrow> 32 word \<Rightarrow> ustr list \<Rightarrow> line_anchor list" where
  "checkpoint_generate_from len interval i chain [] = []"
| "checkpoint_generate_from len interval i chain (line # lines) =
     (let chain1 = (if i mod interval = 0 then ckpt_seed else chain);
          chain2 = (chain1 XOR line_hash line) * 16777619
      in \<lparr>anchor_line = i + 1, anchor_local = encode_hash (line_hash line) len,
          anchor_context = Some (encode_hash chain2 len)\<rparr>
         # checkpoint_generate_from len interval (i + 1) chain2 lines)"

definition checkpoint_chain :: "nat \<Rightarrow> nat \<Rightarrow> anchor_scheme" where
  "checkpoint_chain len interval =
     \<lparr>scheme_name = u ''checkpoint_v1'', hash_len = len,
      generate_anchors = checkpoint_generate_from len interval 0 ckpt_seed,
      validate = (\<lambda>a lines. case validate_local len a lines of
                     Inl r \<Rightarrow> r
                   | Inr idx \<Rightarrow> validate_context (checkpoint_fingerprint len interval lines) a idx),
      validation_window_lines = (\<lambda>i _. i - i div interval * interval + 1)\<rparr>"

text \<open>Which nearby lines match a stale anchor: the context counts only if the anchor has one.\<close>

definition shift_matches :: "anchor_scheme \<Rightarrow> line_anchor \<Rightarrow> ustr list \<Rightarrow> nat \<Rightarrow> bool" where
  "shift_matches S a lines idx \<longleftrightarrow>
     idx \<noteq> anchor_line a - 1 \<and> local_hash (hash_len S) (lines ! idx) = anchor_local a \<and>
     (anchor_context a \<noteq> None \<longrightarrow>
        validate S \<lparr>anchor_line = idx + 1, anchor_local = local_hash (hash_len S) (lines ! idx),
                    anchor_context = anchor_context a\<rparr> lines = Valid)"

definition find_shifted :: "anchor_scheme \<Rightarrow> line_anchor \<Rightarrow> ustr list \<Rightarrow> nat \<Rightarrow> shift_result" where
  "find_shifted S a lines search_radius =
     (let orig_idx = anchor_line a - 1;
          start = orig_idx - search_radius;
          stop = min (orig_idx + search_radius + 1) (length lines);
          candidates = map Suc (filter (shift_matches S a lines) [start..<stop])
      in case candidates of [] \<Rightarrow> ShiftNotFound | [n] \<Rightarrow> ShiftFound n | _ \<Rightarrow> ShiftAmbiguous candidates)"

section \<open>Configuration\<close>

record hashline_scheme_params =
  param_scheme :: ustr
  param_hash_len :: nat
  param_chunk_size :: nat

definition default_scheme_params :: hashline_scheme_params where
  "default_scheme_params = \<lparr>param_scheme = u ''chunk'', param_hash_len = 3, param_chunk_size = 8\<rparr>"

definition validate_params :: "hashline_scheme_params \<Rightarrow> ustr option" where
  "validate_params p =
     (if param_scheme p \<noteq> u ''chunk'' \<and> param_scheme p \<noteq> u ''content_only'' then
        Some (u ''unknown scheme '' @ [34] @ param_scheme p @ [34] @ u '': expected '' @ [34] @ u ''chunk'' @ [34]
              @ u '' or '' @ [34] @ u ''content_only'' @ [34])
      else if param_hash_len p = 0 \<or> 4 < param_hash_len p then
        Some (u ''hash_len must be 1..=4, got '' @ show_nat (param_hash_len p))
      else if param_scheme p = u ''chunk'' \<and> param_chunk_size p = 0 then Some (u ''chunk_size must be > 0'')
      else None)"

definition build_scheme :: "hashline_scheme_params \<Rightarrow> ustr + anchor_scheme" where
  "build_scheme p =
     (case validate_params p of
        Some e \<Rightarrow> Inl e
      | None \<Rightarrow>
          Inr (if param_scheme p = u ''content_only'' then content_only (param_hash_len p)
               else chunk_scheme (param_hash_len p) (param_chunk_size p)))"

text \<open>Examples in the descriptions of the tools.\<close>

record example_anchors =
  ex_anchor :: ustr
  ex_read_line1 :: ustr
  ex_read_line2 :: ustr
  ex_grep_match :: ustr
  ex_grep_context :: ustr

definition example_anchors_of :: "hashline_scheme_params \<Rightarrow> example_anchors" where
  "example_anchors_of p =
     (let len = max 1 (min 4 (param_hash_len p));
          hash = take len (u ''abcd'');
          ctx = take len (u ''rstu'');
          full = (if param_scheme p = u ''content_only'' then hash else hash @ u '':'' @ ctx)
      in \<lparr>ex_anchor = u ''22:'' @ full,
          ex_read_line1 = u ''   1:'' @ full @ [8594] @ u ''fn main() {'',
          ex_read_line2 = u ''   2:'' @ full @ [8594] @ u ''    let x = 1;'',
          ex_grep_match = u ''2:'' @ full @ u '':    let x = 1;'',
          ex_grep_context = u ''3:'' @ full @ u ''-    let y = 2;''\<rparr>)"

definition render_description :: "hashline_scheme_params \<Rightarrow> ustr \<Rightarrow> ustr" where
  "render_description p template =
     (let ex = example_anchors_of p in
      str_replace (u ''{grep_context}'') (ex_grep_context ex)
        (str_replace (u ''{grep_match}'') (ex_grep_match ex)
          (str_replace (u ''{example_line2}'') (ex_read_line2 ex)
            (str_replace (u ''{example_line1}'') (ex_read_line1 ex)
              (str_replace (u ''{example_anchor}'') (ex_anchor ex) template)))))"

section \<open>Lines of a file\<close>

definition split_lines :: "ustr \<Rightarrow> ustr list" where
  "split_lines content =
     (if content = [] then [[]]
      else str_lines content @ (if ends_with [10] content then [[]] else []))"

definition generate_for_content :: "anchor_scheme \<Rightarrow> ustr \<Rightarrow> line_anchor list" where
  "generate_for_content S content = generate_anchors S (split_lines content)"

definition validate_against_content :: "anchor_scheme \<Rightarrow> line_anchor \<Rightarrow> ustr \<Rightarrow> validation_result" where
  "validate_against_content S a content = validate S a (split_lines content)"

definition find_shifted_in_content :: "anchor_scheme \<Rightarrow> line_anchor \<Rightarrow> ustr \<Rightarrow> nat \<Rightarrow> shift_result" where
  "find_shifted_in_content S a content radius = find_shifted S a (split_lines content) radius"

end
