(* ===== verification/Hashline_Laws.thy ===== *)
theory Hashline_Laws
  imports Hashline_Scheme
begin

text \<open>
  The contract of an anchor scheme and what follows from it: the anchors of a file validate against it,
  an anchor that validates names a line with its hash, and a rendered anchor reads back.
\<close>

section \<open>The hash of a line\<close>

text \<open>The words of a line: what is left between ASCII white space.\<close>

fun words_of :: "bytes \<Rightarrow> bytes list" where
  "words_of [] = []"
| "words_of (b # bs) =
     (if is_ascii_whitespace b then words_of bs
      else (case bs of
              [] \<Rightarrow> [[b]]
            | c # _ \<Rightarrow> if is_ascii_whitespace c then [b] # words_of bs
                      else (case words_of bs of w # ws \<Rightarrow> (b # w) # ws | [] \<Rightarrow> [[b]])))"

lemma words_of_visible:
  "bs \<noteq> [] \<Longrightarrow> \<not> is_ascii_whitespace (hd bs) \<Longrightarrow> \<exists>w ws. words_of bs = (hd bs # w) # ws"
  by (induction bs) (auto split: list.splits)

lemma join_Cons_Cons: "join sep ((b # w) # ws) = b # join sep (w # ws)"
  by (cases ws) auto

lemma loop_visible:
  assumes "bs \<noteq> [] \<Longrightarrow> \<not> is_ascii_whitespace (last bs)"
  shows "line_hash_loop bs h p =
     (if bs = [] then h
      else if is_ascii_whitespace (hd bs) then
        fold fnv_step ((if p then [] else [32]) @ join [32] (words_of bs)) h
      else fold fnv_step (join [32] (words_of bs)) h)"
  using assms
proof (induction bs arbitrary: h p)
  case (Cons b bs)
  show ?case
  proof (cases bs)
    case Nil
    with Cons show ?thesis by simp
  next
    case (Cons c cs)
    then have last: "\<not> is_ascii_whitespace (last bs)" using Cons.prems by simp
    show ?thesis
    proof (cases "is_ascii_whitespace b")
      case True
      then show ?thesis using Cons.IH last Cons by simp
    next
      case b: False
      show ?thesis
      proof (cases "is_ascii_whitespace c")
        case True
        have "words_of bs \<noteq> []"
          using last Cons by (induction cs arbitrary: c bs) (auto split: list.splits if_splits)
        then show ?thesis using b True Cons.IH [of "fnv_step b h" False] last Cons
          by (cases "words_of bs") (simp_all add: join_Cons)
      next
        case False
        then obtain w ws where "words_of bs = (c # w) # ws" using words_of_visible [of bs] Cons by auto
        then show ?thesis using b False Cons.IH [of "fnv_step b h" False] last Cons
          by (simp add: join_Cons_Cons)
      qed
    qed
  qed
qed simp

lemma ascii_whitespace: "is_ascii_whitespace c \<Longrightarrow> is_whitespace c"
  unfolding is_ascii_whitespace_def by (elim disjE) (simp_all add: is_whitespace_def)

lemma ascii_ws_byte: "\<not> is_whitespace c \<Longrightarrow> utf8_char c \<noteq> [] \<and> \<not> is_ascii_whitespace (last (utf8_char c))"
proof -
  assume c: "\<not> is_whitespace c"
  have last: "last (utf8_char c) = (if c < 128 then c else 128 + c mod 64)" by (simp add: utf8_char_def)
  have "\<not> is_ascii_whitespace (128 + c mod 64)"
    unfolding is_ascii_whitespace_def using pos_mod_sign [of 64 c] by linarith
  with c ascii_whitespace [of c] show ?thesis unfolding last by (auto simp: utf8_char_def)
qed

lemma trim_last: "trim s \<noteq> [] \<Longrightarrow> \<not> is_whitespace (last (trim s))"
  unfolding trim_def trim_end_def by (metis hd_dropWhile last_rev rev_is_Nil_conv)

lemma trim_hd:
  assumes "trim s \<noteq> []" shows "\<not> is_whitespace (hd (trim s))"
proof -
  have "trim_start s = trim s @ rev (takeWhile is_whitespace (rev (trim_start s)))"
    unfolding trim_def trim_end_def by (metis rev_append rev_rev_ident takeWhile_dropWhile_id)
  then have "hd (trim s) = hd (trim_start s)" "trim_start s \<noteq> []" using assms by (metis hd_append2, auto)
  then show ?thesis unfolding trim_start_def by (metis hd_dropWhile)
qed

lemma as_bytes_snoc: "as_bytes (s @ [c]) = as_bytes s @ utf8_char c" and as_bytes_Cons: "as_bytes (c # s) = utf8_char c @ as_bytes s"
  by (simp_all add: as_bytes_def)

lemma hd_utf8: "\<not> is_whitespace c \<Longrightarrow> 0 \<le> c \<Longrightarrow> \<not> is_ascii_whitespace (hd (utf8_char c))"
proof (cases "c < 128")
  case False
  assume "0 \<le> c"
  then have "0 \<le> c div 64" "0 \<le> c div 4096" "0 \<le> c div 262144" by simp_all
  then have "128 \<le> hd (utf8_char c)" using False by (simp add: utf8_char_def)
  then show ?thesis by (auto simp: is_ascii_whitespace_def)
qed (auto simp: utf8_char_def dest: ascii_whitespace)

text \<open>The hash of a line is the FNV-1a hash of its words with one space between them.\<close>

lemma line_hash_words:
  assumes "\<forall>c \<in> set line. 0 \<le> c"
  shows "line_hash line = fnv1a_32 (join [32] (words_of (as_bytes (trim line))))"
proof (cases "trim line = []")
  case True
  then show ?thesis by (simp add: line_hash_def fnv1a_32_def)
next
  case False
  have mem: "set (trim line) \<subseteq> set line"
    by (auto simp: trim_def trim_start_def trim_end_def dest!: set_dropWhileD)
  obtain t c where t: "trim line = t @ [c]" using False by (metis rev_exhaust)
  with trim_last [OF False] mem assms have c: "\<not> is_ascii_whitespace (last (as_bytes (trim line)))" "as_bytes (trim line) \<noteq> []"
    using ascii_ws_byte [of c] by (auto simp: as_bytes_snoc)
  obtain d r where r: "trim line = d # r" using False by (cases "trim line") auto
  with trim_hd [OF False] mem assms have "\<not> is_ascii_whitespace (hd (as_bytes (trim line)))"
    using hd_utf8 [of d] ascii_ws_byte [of d] by (auto simp: as_bytes_Cons)
  with c show ?thesis by (simp add: line_hash_def fnv1a_32_def loop_visible)
qed

section \<open>Letters\<close>

lemma encode_letters: "list_all is_ascii_lowercase (encode_hash h len)"
proof -
  have "is_ascii_lowercase (uint (w mod 26) + 97)" for w :: "32 word"
    using pos_mod_bound [of 26 "uint w"] pos_mod_sign [of 26 "uint w"] by (simp add: is_ascii_lowercase_def uint_mod)
  then show ?thesis by (simp add: encode_hash_def list_all_iff)
qed

lemma encode_length [simp]: "length (encode_hash h len) = len"
  by (simp add: encode_hash_def)

lemma encode_not_Nil [simp]: "0 < len \<Longrightarrow> encode_hash h len \<noteq> []"
  by (metis encode_length length_0_conv less_numeral_extra(3))

lemma letters_bytes: "list_all is_ascii_lowercase s \<Longrightarrow> as_bytes s = s"
  by (induction s) (auto simp: as_bytes_def utf8_char_def is_ascii_lowercase_def)

lemma letters_no_colon: "list_all is_ascii_lowercase s \<Longrightarrow> c < 97 \<or> 122 < c \<Longrightarrow> c \<notin> set s"
  by (auto simp: list_all_iff is_ascii_lowercase_def)

lemma show_nat_digits: "c \<in> set (show_nat n) \<Longrightarrow> is_ascii_digit c"
proof (induction n rule: show_nat.induct)
  case (1 n)
  then show ?case
    by (subst (asm) (2) show_nat.simps) (auto simp: is_ascii_digit_def split: if_splits)
qed

text \<open>An anchor whose components are letters is read back from its text.\<close>

definition well_formed_anchor :: "line_anchor \<Rightarrow> bool" where
  "well_formed_anchor a \<longleftrightarrow>
     0 < anchor_line a \<and> anchor_line a \<le> u64_max \<and> anchor_local a \<noteq> [] \<and> list_all is_ascii_lowercase (anchor_local a) \<and>
     (\<forall>ctx. anchor_context a = Some ctx \<longrightarrow> ctx \<noteq> [] \<and> list_all is_ascii_lowercase ctx)"

lemma anchor_parse_render: "well_formed_anchor a \<Longrightarrow> anchor_parse (anchor_render a) = Some a"
proof -
  assume wf: "well_formed_anchor a"
  have digits: "58 \<notin> set (show_nat (anchor_line a))" using show_nat_digits by (fastforce simp: is_ascii_digit_def)
  have local_ok: "58 \<notin> set (anchor_local a)" using wf letters_no_colon by (auto simp: well_formed_anchor_def)
  show ?thesis
  proof (cases "anchor_context a")
    case None
    with wf digits local_ok show ?thesis
      by (simp add: anchor_render_def anchor_parse_def splitn3_def split_char_append split_char_plain
          parse_uint_show_nat letters_bytes well_formed_anchor_def)
  next
    case (Some ctx)
    then have "58 \<notin> set ctx" "as_bytes ctx = ctx" using wf letters_no_colon letters_bytes by (auto simp: well_formed_anchor_def)
    with Some wf digits local_ok show ?thesis
      by (simp add: anchor_render_def anchor_parse_def splitn3_def split_char_append split_char_plain
          parse_uint_show_nat letters_bytes well_formed_anchor_def)
  qed
qed

section \<open>The contract of a scheme\<close>

locale anchor_scheme_laws =
  fixes S :: anchor_scheme
  assumes gen_length: "length (generate_anchors S lines) = length lines"
    and gen_nth: "i < length lines \<Longrightarrow>
      anchor_line (generate_anchors S lines ! i) = i + 1 \<and>
      anchor_local (generate_anchors S lines ! i) = local_hash (hash_len S) (lines ! i)"
    and gen_context: "i < length lines \<Longrightarrow> anchor_context (generate_anchors S lines ! i) = Some ctx \<Longrightarrow>
      ctx \<noteq> [] \<and> list_all is_ascii_lowercase ctx"
    and validate_iff: "validate S a lines =
      (if anchor_line a = 0 \<or> length lines < anchor_line a then OutOfRange
       else if anchor_local a = anchor_local (generate_anchors S lines ! (anchor_line a - 1)) \<and>
               (anchor_context (generate_anchors S lines ! (anchor_line a - 1)) = None \<or>
                anchor_context a = anchor_context (generate_anchors S lines ! (anchor_line a - 1)))
       then Valid else Stale)"
    and hash_len_pos: "0 < hash_len S"
begin

lemma generated_valid: "i < length lines \<Longrightarrow> validate S (generate_anchors S lines ! i) lines = Valid"
  using gen_nth [of i lines] by (simp add: validate_iff)

lemma valid_line:
  "validate S a lines = Valid \<Longrightarrow>
   0 < anchor_line a \<and> anchor_line a \<le> length lines \<and>
   local_hash (hash_len S) (lines ! (anchor_line a - 1)) = anchor_local a"
  using gen_nth [of "anchor_line a - 1" lines] by (auto simp: validate_iff split: if_splits)

lemma generated_well_formed:
  assumes "i < length lines" "length lines \<le> u64_max"
  shows "well_formed_anchor (generate_anchors S lines ! i)"
  using assms gen_nth [of i lines] gen_context [of i lines] hash_len_pos encode_letters
  by (auto simp: well_formed_anchor_def local_hash_def)

lemma shifted_found:
  assumes "find_shifted S a lines r = ShiftFound n"
  shows "0 < n" "n \<le> length lines" "shift_matches S a lines (n - 1)"
    "anchor_line a - 1 \<le> n - 1 + r" "n - 1 \<le> anchor_line a - 1 + r"
    "\<And>j. j < length lines \<Longrightarrow> shift_matches S a lines j \<Longrightarrow> anchor_line a - 1 \<le> j + r \<Longrightarrow>
       j \<le> anchor_line a - 1 + r \<Longrightarrow> j = n - 1"
proof -
  let ?c = "filter (shift_matches S a lines)
    [anchor_line a - 1 - r..<min (anchor_line a - 1 + r + 1) (length lines)]"
  have "map Suc ?c = [n]" using assms by (simp add: find_shifted_def Let_def split: list.splits)
  then obtain m where m: "?c = [m]" "n = Suc m" by auto
  then have "set ?c = {m}" by simp
  then have in_range: "j \<in> {anchor_line a - 1 - r..<min (anchor_line a - 1 + r + 1) (length lines)} \<and> shift_matches S a lines j \<longleftrightarrow> j = m"
    for j by auto
  have m_ok: "shift_matches S a lines m" "anchor_line a - 1 \<le> m + r" "m \<le> anchor_line a - 1 + r" "m < length lines"
    using in_range [of m] by auto
  then show "0 < n" "n \<le> length lines" "shift_matches S a lines (n - 1)"
    "anchor_line a - 1 \<le> n - 1 + r" "n - 1 \<le> anchor_line a - 1 + r"
    using m(2) by simp_all
  show "j = n - 1" if "j < length lines" "shift_matches S a lines j" "anchor_line a - 1 \<le> j + r" "j \<le> anchor_line a - 1 + r"
    for j using in_range [of j] that m(2) by auto
qed

end

section \<open>The three schemes\<close>

lemma div_below_ceil: "0 < csize \<Longrightarrow> i < n \<Longrightarrow> i div csize < div_ceil n csize"
proof -
  assume c: "0 < csize" and i: "i < n"
  have "i div csize + 1 = (i + csize) div csize" using c by (simp add: div_add_self2)
  also have "\<dots> \<le> (n + csize - 1) div csize" using i by (intro div_le_mono) linarith
  finally show ?thesis by (simp add: div_ceil_def)
qed

lemma chunk_nth:
  assumes "0 < csize" "i < length lines"
  shows "chunk_generate len csize lines ! i =
    \<lparr>anchor_line = i + 1, anchor_local = local_hash len (lines ! i),
     anchor_context = Some (chunk_fingerprint len csize lines i)\<rparr>"
  using assms div_below_ceil [OF assms]
  by (simp add: chunk_generate_def Let_def nth_enumerate_eq chunk_fingerprint_def)

lemma chunk_length [simp]: "length (chunk_generate len csize lines) = length lines"
  by (simp add: chunk_generate_def Let_def)

text \<open>The running chain of the checkpoint scheme is the fingerprint that its validation recomputes.\<close>

lemma mix_lines_snoc: "mix_lines h (xs @ [x]) = (mix_lines h xs XOR line_hash x) * 16777619"
  by (simp add: mix_lines_def)

lemma checkpoint_segment:
  assumes "0 < interval"
  shows "mix_lines ckpt_seed (drop (length xs div interval * interval) (xs @ [x])) =
    ((if length xs mod interval = 0 then ckpt_seed
      else mix_lines ckpt_seed (drop ((length xs - 1) div interval * interval) xs)) XOR line_hash x) * 16777619"
proof (cases "length xs mod interval = 0")
  case True
  then have "length xs div interval * interval = length xs" by auto
  with True show ?thesis by (simp add: mix_lines_def)
next
  case False
  then have "(length xs - 1) div interval = length xs div interval"
    using assms by (metis Suc_pred' div_Suc length_greater_0_conv list.size(3) mod_0)
  moreover have "length xs div interval * interval \<le> length xs" by simp
  ultimately show ?thesis using False by (simp add: mix_lines_snoc)
qed

lemma checkpoint_from:
  assumes "0 < interval"
    and "length xs mod interval \<noteq> 0 \<Longrightarrow> chain = mix_lines ckpt_seed (drop ((length xs - 1) div interval * interval) xs)"
  shows "checkpoint_generate_from len interval (length xs) chain ys =
    map (\<lambda>k. \<lparr>anchor_line = length xs + k + 1, anchor_local = local_hash len (ys ! k),
      anchor_context = Some (checkpoint_fingerprint len interval (xs @ ys) (length xs + k))\<rparr>) [0..<length ys]"
  using assms(2)
proof (induction ys arbitrary: xs chain)
  case (Cons y ys)
  let ?chain = "((if length xs mod interval = 0 then ckpt_seed else chain) XOR line_hash y) * 16777619"
  have chain: "?chain = mix_lines ckpt_seed (drop (length xs div interval * interval) (xs @ [y]))"
    using checkpoint_segment [OF assms(1), of xs y] Cons.prems by auto
  have "checkpoint_generate_from len interval (Suc (length xs)) ?chain ys =
    map (\<lambda>k. \<lparr>anchor_line = Suc (length xs) + k + 1, anchor_local = local_hash len (ys ! k),
      anchor_context = Some (checkpoint_fingerprint len interval (xs @ y # ys) (Suc (length xs) + k))\<rparr>) [0..<length ys]"
    using Cons.IH [of "xs @ [y]" ?chain] chain by simp
  moreover have "checkpoint_fingerprint len interval (xs @ y # ys) (length xs) = encode_hash ?chain len"
    by (simp add: checkpoint_fingerprint_def chain)
  ultimately show ?case
    by (simp add: Let_def local_hash_def map_upt_Suc del: upt_Suc)
qed simp

lemma checkpoint_generated:
  "0 < interval \<Longrightarrow> checkpoint_generate_from len interval 0 ckpt_seed lines =
    map (\<lambda>k. \<lparr>anchor_line = k + 1, anchor_local = local_hash len (lines ! k),
      anchor_context = Some (checkpoint_fingerprint len interval lines k)\<rparr>) [0..<length lines]"
  using checkpoint_from [of interval "[]" ckpt_seed len lines] by simp

lemma validate_cases:
  "(case validate_local len a lines of Inl r \<Rightarrow> r | Inr idx \<Rightarrow> k idx) =
    (if anchor_line a = 0 \<or> length lines < anchor_line a then OutOfRange
     else if anchor_local a = local_hash len (lines ! (anchor_line a - 1)) then k (anchor_line a - 1)
     else Stale)"
  by (cases "anchor_line a"; simp add: validate_local_def linorder_not_less less_Suc_eq_le)

text \<open>A scheme is lawful when its anchors are the local hashes with one context per line, and it compares both.\<close>

lemma scheme_lawsI:
  assumes gen: "\<And>lines. generate_anchors S lines =
      map (\<lambda>i. \<lparr>anchor_line = i + 1, anchor_local = local_hash (hash_len S) (lines ! i), anchor_context = fp lines i\<rparr>)
        [0..<length lines]"
    and val: "\<And>a lines. validate S a lines =
      (case validate_local (hash_len S) a lines of
         Inl r \<Rightarrow> r
       | Inr idx \<Rightarrow> if fp lines idx = None \<or> anchor_context a = fp lines idx then Valid else Stale)"
    and fp: "\<And>lines i ctx. fp lines i = Some ctx \<Longrightarrow> ctx \<noteq> [] \<and> list_all is_ascii_lowercase ctx"
    and pos: "0 < hash_len S"
  shows "anchor_scheme_laws S"
proof
  show "validate S a lines =
      (if anchor_line a = 0 \<or> length lines < anchor_line a then OutOfRange
       else if anchor_local a = anchor_local (generate_anchors S lines ! (anchor_line a - 1)) \<and>
               (anchor_context (generate_anchors S lines ! (anchor_line a - 1)) = None \<or>
                anchor_context a = anchor_context (generate_anchors S lines ! (anchor_line a - 1)))
       then Valid else Stale)" for a lines
  proof (cases "anchor_line a = 0 \<or> length lines < anchor_line a")
    case False
    then have "generate_anchors S lines ! (anchor_line a - 1) =
      \<lparr>anchor_line = anchor_line a, anchor_local = local_hash (hash_len S) (lines ! (anchor_line a - 1)),
       anchor_context = fp lines (anchor_line a - 1)\<rparr>" by (cases "anchor_line a") (simp_all add: gen)
    with False show ?thesis by (simp add: val validate_cases)
  qed (simp add: val validate_cases)
qed (use fp pos in \<open>simp_all add: gen\<close>)

lemma map_enumerate_upt: "map (\<lambda>(i, x). f i x) (enumerate 0 xs) = map (\<lambda>i. f i (xs ! i)) [0..<length xs]"
  by (rule nth_equalityI) (simp_all add: nth_enumerate_eq)

lemma chunk_generated:
  "0 < csize \<Longrightarrow> chunk_generate len csize lines =
    map (\<lambda>i. \<lparr>anchor_line = i + 1, anchor_local = local_hash len (lines ! i),
      anchor_context = Some (chunk_fingerprint len csize lines i)\<rparr>) [0..<length lines]"
  by (rule nth_equalityI) (simp_all add: chunk_nth)

lemma content_only_laws: "0 < len \<Longrightarrow> anchor_scheme_laws (content_only len)"
  by (rule scheme_lawsI [where fp = "\<lambda>_ _. None"])
    (simp_all add: content_only_def map_enumerate_upt split: sum.splits)

lemma chunk_scheme_laws: "0 < len \<Longrightarrow> 0 < csize \<Longrightarrow> anchor_scheme_laws (chunk_scheme len csize)"
  by (rule scheme_lawsI [where fp = "\<lambda>lines i. Some (chunk_fingerprint len csize lines i)"])
    (auto simp: chunk_scheme_def chunk_generated chunk_fingerprint_def validate_context_def encode_letters
      split: option.splits sum.splits)

lemma checkpoint_chain_laws: "0 < len \<Longrightarrow> 0 < interval \<Longrightarrow> anchor_scheme_laws (checkpoint_chain len interval)"
  by (rule scheme_lawsI [where fp = "\<lambda>lines i. Some (checkpoint_fingerprint len interval lines i)"])
    (auto simp: checkpoint_chain_def checkpoint_generated checkpoint_fingerprint_def validate_context_def encode_letters
      split: option.splits sum.splits)

text \<open>Every configuration that is accepted, and the default that replaces one that is not, obeys the laws.\<close>

lemma build_scheme_laws: "build_scheme p = Inr S \<Longrightarrow> anchor_scheme_laws S"
  by (auto simp: build_scheme_def validate_params_def content_only_laws chunk_scheme_laws split: option.splits if_splits)

interpretation content_lines: anchor_scheme_laws "content_only DEFAULT_HASH_LEN"
  by (rule content_only_laws) (simp add: DEFAULT_HASH_LEN_def)

interpretation checkpoint_lines: anchor_scheme_laws "checkpoint_chain DEFAULT_HASH_LEN 32"
  by (rule checkpoint_chain_laws) (simp_all add: DEFAULT_HASH_LEN_def)

end
