(* ===== verification/Hashline_Edit.thy ===== *)
theory Hashline_Edit
  imports Hashline_Laws
begin

text \<open>
  Applying a batch of anchored edits (\<^verbatim>\<open>grok_build_hashline/edit/types.rs\<close>, \<^verbatim>\<open>edit/range_policy.rs\<close>,
  \<^verbatim>\<open>edit/apply.rs\<close>, and \<^verbatim>\<open>format_hashline_content\<close> of \<^verbatim>\<open>read_file.rs\<close>). Operations are resolved to ranges of
  the lines before the edit, checked for overlaps, sorted bottom-up and spliced. Slices are written
  with \<open>take\<close> and \<open>drop\<close>; \<open>Hashline_Refine\<close> shows that every range is within the file.
\<close>

section \<open>Input and output\<close>

datatype hashline_op =
    OpReplace ustr "ustr option" ustr
  | OpInsertAfter ustr ustr
  | OpWrite ustr

datatype edit_error_kind =
  AnchorStale | AmbiguousAnchor | AnchorNotFound | KindFileNotFound | OverlappingEdits | KindInvalidInput | KindIoError

record hashline_edit_error =
  err_kind :: edit_error_kind
  err_message :: ustr
  requested_anchor :: "ustr option"
  err_current :: "ustr option"
  err_context :: "ustr option"
  context_start_line :: "nat option"
  shifted_to :: "nat option"
  shifted_anchor :: "ustr option"
  ambiguous_candidates :: "nat list"

text \<open>The errors of the code that fill in only the message and the anchor.\<close>

definition plain_error :: "edit_error_kind \<Rightarrow> ustr \<Rightarrow> ustr option \<Rightarrow> hashline_edit_error" where
  "plain_error kind msg anchor =
     \<lparr>err_kind = kind, err_message = msg, requested_anchor = anchor, err_current = None, err_context = None,
      context_start_line = None, shifted_to = None, shifted_anchor = None, ambiguous_candidates = []\<rparr>"

record edits_applied =
  ea_applied :: nat
  ea_scheme :: ustr
  ea_snippet_start_line :: nat
  ea_snippet :: ustr
  ea_path :: ustr
  ea_warnings :: "ustr list"

datatype hashline_edit_output = EditsApplied edits_applied | EditError hashline_edit_error

section \<open>Size of a range\<close>

datatype range_size = SmallRange | MediumRange | LargeRange

definition SMALL_MAX :: nat where "SMALL_MAX = 5"
definition MEDIUM_MAX :: nat where "MEDIUM_MAX = 20"

definition classify_range :: "nat \<Rightarrow> range_size" where
  "classify_range line_count =
     (if line_count \<le> SMALL_MAX then SmallRange else if line_count \<le> MEDIUM_MAX then MediumRange else LargeRange)"

definition range_warning :: "nat \<Rightarrow> nat \<Rightarrow> ustr option" where
  "range_warning start stop =
     (let count = stop - start in
      case classify_range count of
        LargeRange \<Rightarrow>
          Some (u ''Caution: large range edit ('' @ show_nat count @ u '' lines, lines '' @ show_nat (start + 1) @ u ''-''
                @ show_nat stop @ u ''). Verify the target range is correct.'')
      | MediumRange \<Rightarrow>
          Some (u ''Note: medium range edit ('' @ show_nat count @ u '' lines, lines '' @ show_nat (start + 1) @ u ''-''
                @ show_nat stop @ u '').'')
      | SmallRange \<Rightarrow> None)"

section \<open>Printing anchored lines\<close>

definition ARROW :: uchar where "ARROW = 8594"

definition render_anchored_line :: "line_anchor \<Rightarrow> ustr \<Rightarrow> ustr" where
  "render_anchored_line a content = show_nat (anchor_line a) @ [58] @ anchor_suffix a @ [ARROW] @ content"

text \<open>\<^verbatim>\<open>limit = None\<close> is \<^verbatim>\<open>usize::MAX\<close>, more lines than a string has.\<close>

definition format_hashline_content :: "ustr \<Rightarrow> nat option \<Rightarrow> nat option \<Rightarrow> anchor_scheme \<Rightarrow> ustr \<times> ustr" where
  "format_hashline_content file_content offset limit S =
     (let all_lines = split_lines file_content;
          anchors = generate_anchors S all_lines;
          skip = (case offset of Some n \<Rightarrow> n | None \<Rightarrow> 1) - 1;
          n = (case limit of Some k \<Rightarrow> k | None \<Rightarrow> u64_max);
          shown = take n (drop skip (enumerate 0 all_lines))
      in (join [10] (map (\<lambda>(i, line). show_nat (i + 1) @ [58] @ anchor_suffix (anchors ! i) @ [ARROW] @ line) shown),
          join [10] (map snd shown)))"

section \<open>Anchors in content\<close>

definition anchor_format_hint :: "anchor_scheme \<Rightarrow> ustr \<times> ustr" where
  "anchor_format_hint S =
     (let len = max 1 (min 4 (hash_len S));
          hash = take len (u ''abcd'');
          has_context = (case generate_anchors S [u ''x''] of a # _ \<Rightarrow> anchor_context a \<noteq> None | [] \<Rightarrow> False)
      in if has_context then (u ''LINE:HASH1:HASH2'', u ''22:'' @ hash @ u '':'' @ take len (u ''rstu''))
         else (u ''LINE:HASH'', u ''22:'' @ hash))"

definition prefix_before :: "ustr \<Rightarrow> ustr \<Rightarrow> bool" where
  "prefix_before sep s \<longleftrightarrow>
     (case split_first sep s of
        Some (before, _) \<Rightarrow> length (as_bytes before) \<le> 25 \<and> 58 \<in> set before \<and> 32 \<notin> set before
      | None \<Rightarrow> False)"

fun detect_from :: "nat \<Rightarrow> ustr list \<Rightarrow> nat option" where
  "detect_from idx [] = None"
| "detect_from idx (line # lines) =
     (let s = trim_start line in
      if prefix_before [ARROW] s then Some (idx + 1)
      else if prefix_before (u ''->'') s then Some (idx + 1)
      else detect_from (idx + 1) lines)"

definition detect_anchor_prefix_in_content :: "ustr \<Rightarrow> nat option" where
  "detect_anchor_prefix_in_content content = detect_from 0 (str_lines content)"

definition anchor_content_error :: "ustr \<Rightarrow> ustr \<Rightarrow> nat \<Rightarrow> hashline_edit_error" where
  "anchor_content_error op_label content line_num =
     (let lines = str_lines content;
          offending_line = (if line_num - 1 < length lines then lines ! (line_num - 1) else []);
          ctx_start = line_num - 1 - 1;
          ctx_end = min (line_num + 1) (length lines);
          context_text = join [10] (map (\<lambda>i. (if i + 1 = line_num then u ''>>>'' else u ''   '') @ u '' line '' @ show_nat (i + 1)
                                          @ u '': '' @ lines ! i) [ctx_start..<ctx_end])
      in \<lparr>err_kind = KindInvalidInput,
          err_message = op_label @ u '' content contains anchor prefixes (e.g. '' @ [34] @ u ''22:abc:rst'' @ [ARROW, 34]
            @ u '') copied from hashline_read output. The first offending line is line '' @ show_nat line_num
            @ u ''. Strip the anchor prefixes and the '' @ [ARROW]
            @ u '' separator from every line, keeping only the actual file content, then retry.'',
          requested_anchor = None, err_current = Some offending_line, err_context = Some context_text,
          context_start_line = Some (ctx_start + 1), shifted_to = None, shifted_anchor = None,
          ambiguous_candidates = []\<rparr>)"

section \<open>Validating an anchor\<close>

definition suffix_matches :: "ustr \<Rightarrow> line_anchor \<Rightarrow> bool" where
  "suffix_matches suffix a \<longleftrightarrow>
     (case (anchor_context a, split_first [58] suffix) of
        (Some ctx, Some (local, sfx_ctx)) \<Rightarrow> anchor_local a = local \<and> ctx = sfx_ctx
      | (None, None) \<Rightarrow> anchor_local a = suffix
      | _ \<Rightarrow> False)"

definition recover_anchor_by_suffix :: "ustr \<Rightarrow> ustr list \<Rightarrow> anchor_scheme \<Rightarrow> line_anchor option" where
  "recover_anchor_by_suffix suffix lines S =
     (case filter (suffix_matches suffix) (generate_anchors S lines) of [a] \<Rightarrow> Some a | _ \<Rightarrow> None)"

definition strip_arrow :: "ustr \<Rightarrow> ustr" where
  "strip_arrow s =
     (case split_first [ARROW] s of
        Some (pre, _) \<Rightarrow> pre
      | None \<Rightarrow> (case split_first (u ''->'') s of Some (pre, _) \<Rightarrow> pre | None \<Rightarrow> s))"

definition malformed_anchor :: "ustr \<Rightarrow> anchor_scheme \<Rightarrow> hashline_edit_error" where
  "malformed_anchor anchor_str S =
     (let (fmt, ex) = anchor_format_hint S in
      plain_error KindInvalidInput
        (u ''Malformed anchor: '' @ [34] @ anchor_str @ [34] @ u ''. Expected format: '' @ [34] @ fmt @ [34]
         @ u '' (e.g. '' @ [34] @ ex @ [34] @ u '').'')
        (Some anchor_str))"

definition show_debug_list :: "nat list \<Rightarrow> ustr" where
  "show_debug_list ns = [91] @ join (u '', '') (map show_nat ns) @ [93]"

definition stale_anchor :: "ustr \<Rightarrow> line_anchor \<Rightarrow> ustr list \<Rightarrow> anchor_scheme \<Rightarrow> hashline_edit_error" where
  "stale_anchor anchor_str parsed lines S =
     (let shift = find_shifted S parsed lines DEFAULT_SEARCH_RADIUS;
          anchors = generate_anchors S lines;
          recovery_ctx = 5;
          ctx_start = anchor_line parsed - 1 - recovery_ctx;
          ctx_end = min (anchor_line parsed + recovery_ctx) (length lines);
          context_text = join [10] (map (\<lambda>i. render_anchored_line (anchors ! i) (lines ! i)) [ctx_start..<ctx_end]);
          idx = anchor_line parsed - 1;
          current = (if idx < length lines then Some (render_anchored_line (anchors ! idx) (lines ! idx)) else None);
          stale_at = u ''Anchor stale at line '' @ show_nat (anchor_line parsed) @ u ''. '';
          (to_line, to_anchor, candidates, kind, msg) =
            (case shift of
               ShiftFound new_line \<Rightarrow>
                 (let fresh = show_nat new_line @ [58] @ anchor_suffix (anchors ! (new_line - 1)) in
                  (Some new_line, Some fresh, [], AnchorStale,
                   stale_at @ u ''Content appears to have shifted to line '' @ show_nat new_line
                     @ u ''. Retry with anchor '' @ [34] @ fresh @ [34] @ u ''.''))
             | ShiftAmbiguous cs \<Rightarrow>
                 (None, None, cs, AmbiguousAnchor,
                  stale_at @ u ''Multiple candidates at lines '' @ show_debug_list cs
                    @ u ''. Use the fresh anchors from the context below to retry your edit.'')
             | ShiftNotFound \<Rightarrow>
                 (None, None, [], AnchorStale,
                  stale_at @ u ''Use the fresh anchors from the context below to retry your edit.''))
      in \<lparr>err_kind = kind, err_message = msg, requested_anchor = Some anchor_str, err_current = current,
          err_context = Some context_text, context_start_line = Some (ctx_start + 1), shifted_to = to_line,
          shifted_anchor = to_anchor, ambiguous_candidates = candidates\<rparr>)"

definition validate_anchor :: "ustr \<Rightarrow> ustr list \<Rightarrow> anchor_scheme \<Rightarrow> hashline_edit_error + nat" where
  "validate_anchor anchor_text lines S =
     (let anchor_str = strip_arrow anchor_text in
      case (case anchor_parse anchor_str of Some p \<Rightarrow> Some p | None \<Rightarrow> recover_anchor_by_suffix anchor_str lines S) of
        None \<Rightarrow> Inl (malformed_anchor anchor_str S)
      | Some parsed \<Rightarrow>
          (case validate S parsed lines of
             Valid \<Rightarrow> Inr (anchor_line parsed - 1)
           | OutOfRange \<Rightarrow>
               Inl (plain_error AnchorNotFound
                 (u ''Line '' @ show_nat (anchor_line parsed) @ u '' is out of range (file has '' @ show_nat (length lines)
                  @ u '' lines).'')
                 (Some anchor_str))
           | Stale \<Rightarrow> Inl (stale_anchor anchor_str parsed lines S)))"

section \<open>Resolving an operation\<close>

record resolved_op =
  original_idx :: nat
  op_start :: nat
  op_end :: nat
  op_lines :: "ustr list"

definition checked_content :: "ustr \<Rightarrow> ustr \<Rightarrow> ustr list \<Rightarrow> hashline_edit_error + ustr list" where
  "checked_content op_label content if_empty =
     (case detect_anchor_prefix_in_content content of
        Some line_num \<Rightarrow> Inl (anchor_content_error op_label content line_num)
      | None \<Rightarrow> Inr (if content = [] then if_empty else str_lines content))"

definition replace_end :: "ustr option \<Rightarrow> nat \<Rightarrow> ustr list \<Rightarrow> anchor_scheme \<Rightarrow> hashline_edit_error + nat" where
  "replace_end end_anchor start lines S =
     (case end_anchor of
        None \<Rightarrow> Inr (start + 1)
      | Some ea \<Rightarrow>
          (case validate_anchor ea lines S of
             Inl err \<Rightarrow> Inl err
           | Inr e \<Rightarrow>
               if e < start then
                 Inl (plain_error KindInvalidInput
                   (u ''end_anchor line '' @ show_nat (e + 1) @ u '' is before start anchor line '' @ show_nat (start + 1) @ u ''.'')
                   (Some ea))
               else Inr (e + 1)))"

definition insert_at :: "ustr \<Rightarrow> ustr list \<Rightarrow> anchor_scheme \<Rightarrow> hashline_edit_error + nat" where
  "insert_at anchor lines S =
     (if anchor = u ''0:'' then Inr 0
      else if anchor = u ''EOF'' then
        Inr (if 1 < length lines \<and> last lines = [] then length lines - 1 else length lines)
      else (case validate_anchor anchor lines S of Inl err \<Rightarrow> Inl err | Inr line \<Rightarrow> Inr (line + 1)))"

definition resolve_op :: "hashline_op \<Rightarrow> nat \<Rightarrow> ustr list \<Rightarrow> anchor_scheme \<Rightarrow> hashline_edit_error + resolved_op" where
  "resolve_op op idx lines S =
     (case op of
        OpReplace anchor end_anchor content \<Rightarrow>
          (case validate_anchor anchor lines S of
             Inl err \<Rightarrow> Inl err
           | Inr start \<Rightarrow>
               (case replace_end end_anchor start lines S of
                  Inl err \<Rightarrow> Inl err
                | Inr stop \<Rightarrow>
                    (case checked_content (u ''replace'') content [] of
                       Inl err \<Rightarrow> Inl err
                     | Inr new_lines \<Rightarrow>
                         Inr \<lparr>original_idx = idx, op_start = start, op_end = stop, op_lines = new_lines\<rparr>)))
      | OpInsertAfter anchor content \<Rightarrow>
          (case insert_at anchor lines S of
             Inl err \<Rightarrow> Inl err
           | Inr at \<Rightarrow>
               (case checked_content (u ''insert_after'') content [[]] of
                  Inl err \<Rightarrow> Inl err
                | Inr new_lines \<Rightarrow>
                    Inr \<lparr>original_idx = idx, op_start = at, op_end = at, op_lines = new_lines\<rparr>))
      | OpWrite content \<Rightarrow>
          Inl (plain_error KindInvalidInput
            (u ''Write op must be the only operation in a batch. Either use write alone (to replace the entire file) or use replace/insert_after ops without write.'')
            None))"

section \<open>Overlaps\<close>

definition edit_desc :: "nat \<Rightarrow> nat \<Rightarrow> nat \<Rightarrow> ustr" where
  "edit_desc start stop idx =
     (if start = stop then u ''edit #'' @ show_nat (idx + 1) @ u '' (insertion at line '' @ show_nat (start + 1) @ u '')''
      else u ''edit #'' @ show_nat (idx + 1) @ u '' (lines '' @ show_nat (start + 1) @ u ''-'' @ show_nat stop @ u '')'')"

definition overlap_error :: "nat \<times> nat \<times> nat \<Rightarrow> nat \<times> nat \<times> nat \<Rightarrow> hashline_edit_error" where
  "overlap_error a b =
     (case (a, b) of
        ((a_start, a_end, a_idx), (b_start, b_end, b_idx)) \<Rightarrow>
          plain_error OverlappingEdits
            (u ''Overlapping edits: '' @ edit_desc a_start a_end a_idx @ u '' and '' @ edit_desc b_start b_end b_idx @ u ''.'')
            None)"

fun window_overlap :: "(nat \<times> nat \<times> nat) list \<Rightarrow> hashline_edit_error option" where
  "window_overlap (a # b # rest) =
     (if fst b < fst (snd a) then Some (overlap_error a b) else window_overlap (b # rest))"
| "window_overlap _ = None"

fun insert_overlap :: "(nat \<times> nat \<times> nat) list \<Rightarrow> resolved_op list \<Rightarrow> hashline_edit_error option" where
  "insert_overlap ranges [] = None"
| "insert_overlap ranges (op # ops) =
     (if op_start op \<noteq> op_end op then insert_overlap ranges ops
      else (case find (\<lambda>(rs, re, _). rs \<le> op_start op \<and> op_start op < re) ranges of
              Some r \<Rightarrow> Some (overlap_error r (op_start op, op_start op, original_idx op))
            | None \<Rightarrow> insert_overlap ranges ops))"

definition check_overlaps :: "resolved_op list \<Rightarrow> hashline_edit_error option" where
  "check_overlaps ops =
     (let ranges = sort_key fst
            (map (\<lambda>op. (op_start op, op_end op, original_idx op)) (filter (\<lambda>op. op_start op \<noteq> op_end op) ops))
      in case window_overlap ranges of Some e \<Rightarrow> Some e | None \<Rightarrow> insert_overlap ranges ops)"

section \<open>The snippet\<close>

definition SNIPPET_CONTEXT :: nat where "SNIPPET_CONTEXT = 3"
definition MAX_CONTIGUOUS_SNIPPET :: nat where "MAX_CONTIGUOUS_SNIPPET = 80"

definition gap_marker :: "nat \<Rightarrow> ustr" where
  "gap_marker n = u ''... '' @ show_nat n @ u '' lines not shown ...''"

text \<open>Merging: the list built so far is kept with its last region first.\<close>

fun merge_regions :: "nat \<Rightarrow> (nat \<times> nat) list \<Rightarrow> (nat \<times> nat) list \<Rightarrow> (nat \<times> nat) list" where
  "merge_regions total_new [] merged = rev merged"
| "merge_regions total_new ((start, stop) # rs) merged =
     (let ctx_start = start - SNIPPET_CONTEXT;
          ctx_end = min (stop + SNIPPET_CONTEXT) total_new
      in case merged of
           (ls, le) # ms \<Rightarrow>
             if ctx_start \<le> le then merge_regions total_new rs ((ls, max le ctx_end) # ms)
             else merge_regions total_new rs ((ctx_start, ctx_end) # merged)
         | [] \<Rightarrow> merge_regions total_new rs [(ctx_start, ctx_end)])"

fun snippet_parts ::
    "ustr \<Rightarrow> nat \<Rightarrow> anchor_scheme \<Rightarrow> bool \<Rightarrow> nat \<Rightarrow> (nat \<times> nat) list \<Rightarrow> ustr list" where
  "snippet_parts new_content total_new S first prev_end [] =
     (if prev_end < total_new then [gap_marker (total_new - prev_end)] else [])"
| "snippet_parts new_content total_new S first prev_end ((start, stop) # rs) =
     (if \<not> first then [gap_marker (start - prev_end)] else if 0 < start then [gap_marker start] else [])
     @ [fst (format_hashline_content new_content (Some (start + 1)) (Some (stop - start)) S)]
     @ snippet_parts new_content total_new S False stop rs"

definition build_snippet :: "ustr \<Rightarrow> (nat \<times> nat) list \<Rightarrow> nat \<Rightarrow> anchor_scheme \<Rightarrow> ustr" where
  "build_snippet new_content edit_regions total_new S =
     (if edit_regions = [] then []
      else let global_start = fst (hd edit_regions) - SNIPPET_CONTEXT;
               global_end = min (snd (last edit_regions) + SNIPPET_CONTEXT) total_new
           in if global_end - global_start \<le> MAX_CONTIGUOUS_SNIPPET then
                fst (format_hashline_content new_content (Some (global_start + 1)) (Some (global_end - global_start)) S)
              else join [10] (snippet_parts new_content total_new S True 0 (merge_regions total_new edit_regions [])))"

definition build_write_result :: "ustr \<Rightarrow> ustr \<Rightarrow> anchor_scheme \<Rightarrow> hashline_edit_output" where
  "build_write_result new_content file_path S =
     (let snippet_end = min (SNIPPET_CONTEXT * 2) (length (split_lines new_content)) in
      EditsApplied \<lparr>ea_applied = 1, ea_scheme = scheme_name S, ea_snippet_start_line = 1,
        ea_snippet = fst (format_hashline_content new_content (Some 1) (Some snippet_end) S),
        ea_path = file_path, ea_warnings = []\<rparr>)"

section \<open>Applying a batch\<close>

record region_detail =
  rd_old_line :: nat
  rd_old_text :: ustr
  rd_new_line :: nat
  rd_new_text :: ustr

record apply_result =
  ar_output :: hashline_edit_output
  ar_new_content :: "ustr option"
  ar_details :: "region_detail list"

definition failed_apply :: "hashline_edit_error \<Rightarrow> apply_result" where
  "failed_apply err = \<lparr>ar_output = EditError err, ar_new_content = None, ar_details = []\<rparr>"

fun op_label :: "hashline_op \<Rightarrow> ustr" where
  "op_label (OpReplace _ _ _) = u ''replace''"
| "op_label (OpInsertAfter _ _) = u ''insert_after''"
| "op_label (OpWrite _) = u ''write''"

fun resolve_ops ::
    "hashline_op list \<Rightarrow> nat \<Rightarrow> nat \<Rightarrow> ustr list \<Rightarrow> anchor_scheme \<Rightarrow> hashline_edit_error + resolved_op list" where
  "resolve_ops [] idx n lines S = Inr []"
| "resolve_ops (op # ops) idx n lines S =
     (case resolve_op op idx lines S of
        Inr r \<Rightarrow> (case resolve_ops ops (idx + 1) n lines S of Inl e \<Rightarrow> Inl e | Inr rs \<Rightarrow> Inr (r # rs))
      | Inl e \<Rightarrow>
          Inl (if 1 < n then
                 e\<lparr>err_message := u ''Edit '' @ show_nat (idx + 1) @ u ''/'' @ show_nat n @ u '' ('' @ op_label op @ u ''): ''
                   @ err_message e @ [10, 10] @ u ''This batch contained '' @ show_nat n
                   @ u '' edits. Because this anchor failed validation, none of the edits were applied. Retry all ''
                   @ show_nat n @ u '' edits with fresh anchors, not just the failed one.''\<rparr>
               else e))"

text \<open>Bottom-up, and the later request first at one position: the order of the code's comparison.\<close>

definition sort_bottom_up :: "resolved_op list \<Rightarrow> resolved_op list" where
  "sort_bottom_up ops = rev (sort_key op_start (sort_key original_idx ops))"

definition splice_op :: "resolved_op \<Rightarrow> ustr list \<Rightarrow> ustr list" where
  "splice_op op lines = take (op_start op) lines @ op_lines op @ drop (op_end op) lines"

text \<open>The regions in the new file, top-down, with the running shift of the line numbers.\<close>

fun track_regions :: "ustr list \<Rightarrow> int \<Rightarrow> resolved_op list \<Rightarrow> ((nat \<times> nat) \<times> region_detail) list" where
  "track_regions lines cumulative_shift [] = []"
| "track_regions lines cumulative_shift (op # ops) =
     (let shifted_start = nat (int (op_start op) + cumulative_shift);
          replaced = op_end op - op_start op;
          inserted = length (op_lines op);
          shifted_end = shifted_start + inserted;
          old = (if op_start op < op_end op then join [10] (take (op_end op - op_start op) (drop (op_start op) lines)) else [])
      in ((shifted_start, shifted_end),
          \<lparr>rd_old_line = op_start op + 1, rd_old_text = old, rd_new_line = shifted_start + 1,
           rd_new_text = join [10] (op_lines op)\<rparr>)
         # track_regions lines (cumulative_shift + (int inserted - int replaced)) ops)"

definition range_warnings :: "resolved_op list \<Rightarrow> ustr list" where
  "range_warnings ops = concat (map (\<lambda>op. case range_warning (op_start op) (op_end op) of Some w \<Rightarrow> [w] | None \<Rightarrow> []) ops)"

definition apply_resolved ::
    "ustr list \<Rightarrow> resolved_op list \<Rightarrow> nat \<Rightarrow> ustr \<Rightarrow> anchor_scheme \<Rightarrow> apply_result" where
  "apply_resolved lines resolved n file_path S =
     (let warnings = range_warnings resolved;
          sorted_ops = sort_bottom_up resolved;
          tracked = track_regions lines 0 (rev sorted_ops);
          result_lines = fold splice_op sorted_ops lines;
          new_content = join [10] result_lines;
          total_new = length (split_lines new_content);
          edit_regions = sort_key fst (map fst tracked);
          snippet_start_line = (case edit_regions of r # _ \<Rightarrow> fst r - SNIPPET_CONTEXT + 1 | [] \<Rightarrow> 1)
      in \<lparr>ar_output = EditsApplied \<lparr>ea_applied = n, ea_scheme = scheme_name S,
            ea_snippet_start_line = snippet_start_line, ea_snippet = build_snippet new_content edit_regions total_new S,
            ea_path = file_path, ea_warnings = warnings\<rparr>,
          ar_new_content = Some new_content, ar_details = map snd tracked\<rparr>)"

definition apply_batch :: "ustr \<Rightarrow> hashline_op list \<Rightarrow> ustr \<Rightarrow> anchor_scheme \<Rightarrow> apply_result" where
  "apply_batch content ops file_path S =
     (let lines = split_lines content in
      case resolve_ops ops 0 (length ops) lines S of
        Inl e \<Rightarrow> failed_apply e
      | Inr resolved \<Rightarrow>
          (case check_overlaps resolved of
             Some err \<Rightarrow>
               failed_apply (if 1 < length ops then
                   err\<lparr>err_message := err_message err @ [10, 10] @ u ''This batch contained '' @ show_nat (length ops)
                     @ u '' edits. Because of the overlap, none were applied. Fix the overlapping ranges and retry all edits.''\<rparr>
                 else err)
           | None \<Rightarrow> apply_resolved lines resolved (length ops) file_path S))"

definition apply_edits :: "ustr \<Rightarrow> hashline_op list \<Rightarrow> ustr \<Rightarrow> anchor_scheme \<Rightarrow> apply_result" where
  "apply_edits content ops file_path S =
     (case ops of
        [OpWrite new_content] \<Rightarrow>
          (case detect_anchor_prefix_in_content new_content of
             Some line_num \<Rightarrow> failed_apply (anchor_content_error (u ''write'') new_content line_num)
           | None \<Rightarrow>
               \<lparr>ar_output = build_write_result new_content file_path S, ar_new_content = Some new_content,
                ar_details = []\<rparr>)
      | _ \<Rightarrow> apply_batch content ops file_path S)"

end
