(* ===== verification/Hashline_Refine.thy ===== *)
theory Hashline_Refine
  imports Hashline_Edit
begin

text \<open>
  What a batch of edits does to the lines: the bottom-up splices have the effect of all edits at once on
  the original lines, the overlap check rejects exactly the conflicting batches, and the regions reported
  are where the edits are in the old and in the new file.
\<close>

section \<open>Simultaneous edits\<close>

definition touched :: "resolved_op list \<Rightarrow> nat \<Rightarrow> bool" where
  "touched ops i \<longleftrightarrow> list_ex (\<lambda>op. op_start op \<le> i \<and> i < op_end op) ops"

text \<open>What stands at position \<open>i\<close> of the original lines afterwards: the lines of the edits that start there, in
  the order of the request, and the line itself unless an edit replaces it.\<close>

definition slot :: "ustr list \<Rightarrow> resolved_op list \<Rightarrow> nat \<Rightarrow> ustr list" where
  "slot lines ops i =
     concat (map op_lines (filter (\<lambda>op. op_start op = i) ops))
     @ (if i < length lines \<and> \<not> touched ops i then [lines ! i] else [])"

definition edited_lines :: "ustr list \<Rightarrow> resolved_op list \<Rightarrow> ustr list" where
  "edited_lines lines ops = concat (map (slot lines ops) [0..<Suc (length lines)])"

fun ordered_ops :: "nat \<Rightarrow> nat \<Rightarrow> resolved_op list \<Rightarrow> bool" where
  "ordered_ops pos n [] \<longleftrightarrow> pos \<le> n"
| "ordered_ops pos n (r # rs) \<longleftrightarrow>
     pos \<le> op_start r \<and> op_start r \<le> op_end r \<and> op_end r \<le> n \<and> ordered_ops (op_end r) n rs"

fun top_down :: "nat \<Rightarrow> ustr list \<Rightarrow> resolved_op list \<Rightarrow> ustr list" where
  "top_down pos lines [] = drop pos lines"
| "top_down pos lines (r # rs) =
     take (op_start r - pos) (drop pos lines) @ op_lines r @ top_down (op_end r) lines rs"

lemma ordered_ops_le: "ordered_ops pos n rs \<Longrightarrow> r \<in> set rs \<Longrightarrow> pos \<le> op_start r"
  by (induction rs arbitrary: pos) (auto intro: order_trans)

lemma take_take_drop: "p \<le> s \<Longrightarrow> take p xs @ take (s - p) (drop p xs) = take s xs"
  by (metis le_add_diff_inverse take_add)

lemma splices_top_down:
  "ordered_ops pos (length lines) rs \<Longrightarrow> foldr splice_op rs lines = take pos lines @ top_down pos lines rs"
proof (induction rs arbitrary: pos)
  case (Cons r rs)
  then have "foldr splice_op rs lines = take (op_end r) lines @ top_down (op_end r) lines rs" by simp
  then have "foldr splice_op (r # rs) lines = take (op_start r) lines @ op_lines r @ top_down (op_end r) lines rs"
    using Cons.prems by (simp add: splice_op_def [of r] min_def)
  with Cons.prems take_take_drop [of pos "op_start r" lines] show ?case by simp
qed simp

lemma slots_untouched:
  "(\<And>i. a \<le> i \<Longrightarrow> i < b \<Longrightarrow> slot lines ops i = (if i < length lines then [lines ! i] else [])) \<Longrightarrow> b \<le> Suc (length lines) \<Longrightarrow>
   concat (map (slot lines ops) [a..<b]) = take (b - a) (drop a lines)"
proof (induction b)
  case (Suc b)
  show ?case
  proof (cases "a \<le> b")
    case True
    with Suc have "concat (map (slot lines ops) [a..<Suc b]) = take (b - a) (drop a lines) @ (if b < length lines then [lines ! b] else [])"
      by simp
    also have "\<dots> = take (Suc b - a) (drop a lines)"
      using True by (simp add: Suc_diff_le take_Suc_conv_app_nth)
    finally show ?thesis .
  qed simp
qed simp

lemma slot_Nil: "slot lines [] i = (if i < length lines then [lines ! i] else [])"
  by (simp add: slot_def touched_def)

lemma slot_before:
  "ordered_ops pos n rs \<Longrightarrow> i < pos \<Longrightarrow> slot lines rs i = (if i < length lines then [lines ! i] else [])"
proof -
  assume o: "ordered_ops pos n rs" and i: "i < pos"
  then have "filter (\<lambda>op. op_start op = i) rs = []" "\<not> touched rs i"
    using ordered_ops_le [OF o] by (fastforce simp: filter_empty_conv touched_def list_ex_iff)+
  then show ?thesis by (simp add: slot_def)
qed

lemma slot_Cons:
  "slot lines (r # rs) i =
     (if op_start r = i then op_lines r else []) @
     concat (map op_lines (filter (\<lambda>op. op_start op = i) rs)) @
     (if i < length lines \<and> \<not> (op_start r \<le> i \<and> i < op_end r) \<and> \<not> touched rs i then [lines ! i] else [])"
  by (simp add: slot_def touched_def)

lemma upt_split: "a \<le> m \<Longrightarrow> m \<le> b \<Longrightarrow> [a..<b] = [a..<m] @ [m..<b]"
  by (metis le_add_diff_inverse upt_add_eq_append)

lemma slots_of_replacement:
  assumes "ordered_ops (op_end r) n rs" "op_start r < op_end r" "op_end r \<le> length lines"
  shows "concat (map (slot lines (r # rs)) [op_start r..<op_end r]) = op_lines r"
proof -
  have none: "filter (\<lambda>op. op_start op = i) rs = []" if "i < op_end r" for i
    using ordered_ops_le [OF assms(1)] that by (fastforce simp: filter_empty_conv)
  have first: "slot lines (r # rs) (op_start r) = op_lines r"
    using assms none [of "op_start r"] by (simp add: slot_Cons)
  have rest: "concat (map (slot lines (r # rs)) [Suc (op_start r)..<op_end r]) = []"
    using none by (auto simp: slot_Cons)
  from assms(2) have "[op_start r..<op_end r] = op_start r # [Suc (op_start r)..<op_end r]" by (rule upt_conv_Cons)
  with first rest show ?thesis by simp
qed

lemma top_down_slots:
  "ordered_ops pos (length lines) rs \<Longrightarrow> top_down pos lines rs = concat (map (slot lines rs) [pos..<Suc (length lines)])"
proof (induction rs arbitrary: pos)
  case Nil
  then show ?case using slots_untouched [of pos "Suc (length lines)" lines "[]"] by (simp add: slot_Nil [abs_def])
next
  case (Cons r rs)
  let ?s = "op_start r" and ?e = "op_end r" and ?n = "length lines"
  from Cons.prems have o: "ordered_ops ?e ?n rs" and le: "pos \<le> ?s" "?s \<le> ?e" "?e \<le> ?n" by simp_all
  have "ordered_ops ?s ?n (r # rs)" using o le by simp
  then have before: "concat (map (slot lines (r # rs)) [pos..<?s]) = take (?s - pos) (drop pos lines)"
    by (intro slots_untouched slot_before) (use le in simp_all)
  have after: "slot lines (r # rs) i = slot lines rs i" if "?e \<le> i" "?s \<noteq> i" for i
    using that by (simp add: slot_Cons slot_def [of _ rs])
  have "concat (map (slot lines (r # rs)) [?s..<Suc ?n]) = op_lines r @ concat (map (slot lines rs) [?e..<Suc ?n])"
  proof (cases "?s = ?e")
    case True
    have here: "slot lines (r # rs) ?s = op_lines r @ slot lines rs ?s"
      using True by (simp add: slot_Cons slot_def [of _ rs])
    have "[?s..<Suc ?n] = ?s # [Suc ?s..<Suc ?n]" using le by (intro upt_conv_Cons) linarith
    moreover have "concat (map (slot lines (r # rs)) [Suc ?s..<Suc ?n]) = concat (map (slot lines rs) [Suc ?s..<Suc ?n])"
      using True by (intro arg_cong [where f = concat] map_cong refl after) auto
    ultimately show ?thesis using True here by (simp del: upt_Suc)
  next
    case False
    with le have "?s < ?e" by simp
    moreover have "concat (map (slot lines (r # rs)) [?e..<Suc ?n]) = concat (map (slot lines rs) [?e..<Suc ?n])"
      using False \<open>?s < ?e\<close> by (intro arg_cong [where f = concat] map_cong refl after) auto
    moreover have "[?s..<Suc ?n] = [?s..<?e] @ [?e..<Suc ?n]" using le by (intro upt_split) simp_all
    ultimately show ?thesis using slots_of_replacement [OF o _ le(3)] by (simp del: upt_Suc)
  qed
  moreover have "[pos..<Suc ?n] = [pos..<?s] @ [?s..<Suc ?n]" using le by (intro upt_split) simp_all
  ultimately show ?case using before Cons.IH [OF o] by (simp del: upt_Suc)
qed

lemma slot_sorted: "slot lines (sort_key op_start ops) = slot lines ops"
  by (rule ext) (simp add: slot_def touched_def list_ex_iff sort_key_stable)

section \<open>Order of the edits\<close>

definition conflicting :: "resolved_op \<Rightarrow> resolved_op \<Rightarrow> bool" where
  "conflicting a b \<longleftrightarrow>
     (if op_start a < op_end a \<and> op_start b < op_end b then op_start a < op_end b \<and> op_start b < op_end a
      else if op_start a < op_end a then op_start a \<le> op_start b \<and> op_start b < op_end a
      else op_start b \<le> op_start a \<and> op_start a < op_end b)"

definition conflict_free :: "resolved_op list \<Rightarrow> bool" where
  "conflict_free ops \<longleftrightarrow> (\<forall>a \<in> set ops. \<forall>b \<in> set ops. a \<noteq> b \<longrightarrow> \<not> conflicting a b)"

definition well_ranged :: "nat \<Rightarrow> resolved_op list \<Rightarrow> bool" where
  "well_ranged n ops \<longleftrightarrow> (\<forall>op \<in> set ops. op_start op \<le> op_end op \<and> op_end op \<le> n)"

abbreviation op_range :: "resolved_op \<Rightarrow> nat \<times> nat \<times> nat" where
  "op_range op \<equiv> (op_start op, op_end op, original_idx op)"

lemma sort_key_map: "sort_key f (map g xs) = map g (sort_key (f \<circ> g) xs)"
proof (induction xs)
  case (Cons x xs)
  have "insort_key f (g x) (map g ys) = map g (insort_key (f \<circ> g) x ys)" for ys by (induction ys) auto
  with Cons show ?case by (simp add: comp_def)
qed simp

lemma window_overlap_None:
  "sorted (map fst rs) \<Longrightarrow> (\<forall>r \<in> set rs. fst r \<le> fst (snd r)) \<Longrightarrow>
   window_overlap rs = None \<longleftrightarrow> sorted_wrt (\<lambda>a b. fst (snd a) \<le> fst b) rs"
proof (induction rs rule: window_overlap.induct)
  case (1 a b rest)
  show ?case
  proof (cases "fst b < fst (snd a)")
    case False
    have "fst (snd a) \<le> fst c" if "c \<in> set (b # rest)" for c
      using that False "1.prems"(1) by (auto intro: order_trans)
    with 1 False show ?thesis by simp
  qed auto
qed auto

lemma insert_overlap_None:
  "insert_overlap ranges ops = None \<longleftrightarrow>
   (\<forall>op \<in> set ops. op_start op = op_end op \<longrightarrow>
      (\<forall>r \<in> set ranges. \<not> (fst r \<le> op_start op \<and> op_start op < fst (snd r))))"
proof (induction ops)
  case (Cons op ops)
  let ?hit = "find (\<lambda>(rs, re, _). rs \<le> op_start op \<and> op_start op < re) ranges"
  have "?hit = None \<longleftrightarrow> (\<forall>r \<in> set ranges. \<not> (fst r \<le> op_start op \<and> op_start op < fst (snd r)))"
    unfolding find_None_iff case_prod_beta by blast
  with Cons show ?case by (cases "op_start op = op_end op"; cases ?hit) simp_all
qed simp

lemma sorted_wrt_filtered:
  "sorted_wrt R xs \<Longrightarrow> sorted_wrt P (filter Q xs) \<Longrightarrow>
   (\<And>a b. a \<in> set xs \<Longrightarrow> b \<in> set xs \<Longrightarrow> R a b \<Longrightarrow> \<not> (Q a \<and> Q b) \<Longrightarrow> P a b) \<Longrightarrow> sorted_wrt P xs"
  by (induction xs) (auto split: if_splits)

abbreviation top_down_order :: "resolved_op list \<Rightarrow> resolved_op list" where
  "top_down_order ops \<equiv> sort_key op_start ops"

abbreviation apart :: "resolved_op \<Rightarrow> resolved_op \<Rightarrow> bool" where
  "apart a b \<equiv> op_end a \<le> op_start b"

lemma check_overlaps_apart:
  assumes ranged: "well_ranged n ops"
  shows "check_overlaps ops = None \<longleftrightarrow> sorted_wrt apart (filter (\<lambda>op. op_start op \<noteq> op_end op) (top_down_order ops)) \<and>
     (\<forall>a \<in> set ops. \<forall>b \<in> set ops. op_start a = op_end a \<longrightarrow> op_start b \<noteq> op_end b \<longrightarrow>
        \<not> (op_start b \<le> op_start a \<and> op_start a < op_end b))"
proof -
  let ?rs = "filter (\<lambda>op. op_start op \<noteq> op_end op) ops"
  let ?ranges = "sort_key fst (map op_range ?rs)"
  have ranges: "?ranges = map op_range (filter (\<lambda>op. op_start op \<noteq> op_end op) (top_down_order ops))"
    by (simp add: sort_key_map comp_def filter_sort)
  have "\<forall>r \<in> set ?ranges. fst r \<le> fst (snd r)" using ranged by (auto simp: well_ranged_def)
  then have "window_overlap ?ranges = None \<longleftrightarrow> sorted_wrt (\<lambda>a b. fst (snd a) \<le> fst b) ?ranges"
    by (intro window_overlap_None) simp_all
  also have "\<dots> \<longleftrightarrow> sorted_wrt apart (filter (\<lambda>op. op_start op \<noteq> op_end op) (top_down_order ops))"
    unfolding ranges by (simp add: sorted_wrt_map)
  finally show ?thesis
    by (auto simp: check_overlaps_def Let_def insert_overlap_None split: option.splits)
qed

text \<open>The check passes exactly when no two edits conflict, and then each edit ends before the next starts.\<close>

lemma no_overlap_ordered:
  assumes ranged: "well_ranged n ops" and none: "check_overlaps ops = None"
  shows "sorted_wrt apart (top_down_order ops)"
proof (rule sorted_wrt_filtered [where Q = "\<lambda>op. op_start op \<noteq> op_end op"])
  show "sorted_wrt (\<lambda>a b. op_start a \<le> op_start b) (top_down_order ops)"
    using sorted_sort_key [of op_start ops] by (simp add: sorted_wrt_map)
  show "sorted_wrt apart (filter (\<lambda>op. op_start op \<noteq> op_end op) (top_down_order ops))"
    using none check_overlaps_apart [OF ranged] by simp
  fix a b
  assume ab: "a \<in> set (top_down_order ops)" "b \<in> set (top_down_order ops)" "op_start a \<le> op_start b"
    "\<not> (op_start a \<noteq> op_end a \<and> op_start b \<noteq> op_end b)"
  show "apart a b"
  proof (cases "op_start a = op_end a")
    case False
    with ab none check_overlaps_apart [OF ranged] have "\<not> (op_start a \<le> op_start b \<and> op_start b < op_end a)"
      by simp
    with ab show ?thesis by simp
  qed (use ab in simp)
qed

lemma apart_ordered:
  "sorted_wrt apart rs \<Longrightarrow> well_ranged n rs \<Longrightarrow> (\<And>r. r \<in> set rs \<Longrightarrow> pos \<le> op_start r) \<Longrightarrow> pos \<le> n \<Longrightarrow>
   ordered_ops pos n rs"
  by (induction rs arbitrary: pos) (auto simp: well_ranged_def)

lemma sorted_wrt_either: "sorted_wrt P xs \<Longrightarrow> a \<in> set xs \<Longrightarrow> b \<in> set xs \<Longrightarrow> a \<noteq> b \<Longrightarrow> P a b \<or> P b a"
  by (induction xs) auto

lemma sorted_wrt_distinct:
  "sorted_wrt R xs \<Longrightarrow> distinct xs \<Longrightarrow>
   (\<And>a b. a \<in> set xs \<Longrightarrow> b \<in> set xs \<Longrightarrow> a \<noteq> b \<Longrightarrow> R a b \<Longrightarrow> P a b) \<Longrightarrow> sorted_wrt P xs"
  by (induction xs) auto

lemma conflict_cases:
  "op_start a \<le> op_end a \<Longrightarrow> op_start b \<le> op_end b \<Longrightarrow> conflicting a b \<longleftrightarrow>
     (op_start a \<noteq> op_end a \<and> op_start b \<noteq> op_end b \<and> \<not> apart a b \<and> \<not> apart b a) \<or>
     (op_start a = op_end a \<and> op_start b \<noteq> op_end b \<and> op_start b \<le> op_start a \<and> op_start a < op_end b) \<or>
     (op_start b = op_end b \<and> op_start a \<noteq> op_end a \<and> op_start a \<le> op_start b \<and> op_start b < op_end a)"
  by (cases "op_start a = op_end a"; cases "op_start b = op_end b") (auto simp: conflicting_def)

lemma no_overlap_iff:
  assumes ranged: "well_ranged n ops" and dist: "distinct ops"
  shows "check_overlaps ops = None \<longleftrightarrow> conflict_free ops"
proof
  assume none: "check_overlaps ops = None"
  then have "sorted_wrt apart (top_down_order ops)" by (rule no_overlap_ordered [OF ranged])
  then have "apart a b \<or> apart b a" if "a \<in> set ops" "b \<in> set ops" "a \<noteq> b" for a b
    using that sorted_wrt_either [of apart "top_down_order ops" a b] by simp
  moreover have "\<not> (op_start b \<le> op_start a \<and> op_start a < op_end b)"
    if "a \<in> set ops" "b \<in> set ops" "op_start a = op_end a" "op_start b \<noteq> op_end b" for a b
    using none that check_overlaps_apart [OF ranged] by simp
  ultimately have "\<not> conflicting a b" if "a \<in> set ops" "b \<in> set ops" "a \<noteq> b" for a b
    using that ranged conflict_cases [of a b] unfolding well_ranged_def by blast
  then show "conflict_free ops" by (simp add: conflict_free_def)
next
  assume free: "conflict_free ops"
  let ?rs = "filter (\<lambda>op. op_start op \<noteq> op_end op) (top_down_order ops)"
  have "sorted_wrt (\<lambda>a b. op_start a \<le> op_start b) ?rs"
    using sorted_sort_key [of op_start ops] by (simp add: sorted_wrt_map sorted_wrt_filter)
  moreover have "distinct ?rs" using dist by (simp add: distinct_filter)
  moreover have "apart a b" if "a \<in> set ?rs" "b \<in> set ?rs" "a \<noteq> b" "op_start a \<le> op_start b" for a b
  proof -
    have "op_start a < op_end a" "op_start b < op_end b" using that ranged by (auto simp: well_ranged_def less_le)
    moreover have "\<not> conflicting a b" using free that by (simp add: conflict_free_def)
    ultimately show ?thesis using that(4) by (simp add: conflicting_def split: if_splits)
  qed
  ultimately have "sorted_wrt apart ?rs"
    by (rule sorted_wrt_distinct)
  moreover have "\<not> (op_start b \<le> op_start a \<and> op_start a < op_end b)"
    if "a \<in> set ops" "b \<in> set ops" "op_start a = op_end a" "op_start b \<noteq> op_end b" for a b
    using free that unfolding conflict_free_def conflicting_def by (metis less_irrefl)
  ultimately show "check_overlaps ops = None" using check_overlaps_apart [OF ranged] by simp
qed

section \<open>The splices\<close>

lemma splices_edit:
  assumes ranged: "well_ranged (length lines) ops" and none: "check_overlaps ops = None" and idx: "sorted (map original_idx ops)"
  shows "ordered_ops 0 (length lines) (top_down_order ops)" "rev (sort_bottom_up ops) = top_down_order ops"
    "fold splice_op (sort_bottom_up ops) lines = edited_lines lines ops"
    "edited_lines lines ops = top_down 0 lines (top_down_order ops)"
proof -
  show o: "ordered_ops 0 (length lines) (top_down_order ops)"
    using ranged by (intro apart_ordered no_overlap_ordered [OF ranged none]) (simp_all add: well_ranged_def)
  show order: "rev (sort_bottom_up ops) = top_down_order ops"
    using idx by (simp add: sort_bottom_up_def sort_key_id_if_sorted)
  show top: "edited_lines lines ops = top_down 0 lines (top_down_order ops)"
    using top_down_slots [OF o] by (simp add: edited_lines_def slot_sorted del: upt_Suc)
  show "fold splice_op (sort_bottom_up ops) lines = edited_lines lines ops"
    using splices_top_down [OF o] order top by (metis append_Nil foldr_conv_fold rev_rev_ident take_0)
qed

definition located :: "ustr list \<Rightarrow> ustr list \<Rightarrow> resolved_op \<Rightarrow> region_detail \<Rightarrow> bool" where
  "located old new r d \<longleftrightarrow>
     rd_old_line d = op_start r + 1 \<and>
     rd_old_text d = join [10] (take (op_end r - op_start r) (drop (op_start r) old)) \<and>
     0 < rd_new_line d \<and> rd_new_line d - 1 + length (op_lines r) \<le> length new \<and>
     take (length (op_lines r)) (drop (rd_new_line d - 1) new) = op_lines r \<and>
     rd_new_text d = join [10] (op_lines r)"

lemma regions_located:
  assumes "ordered_ops pos (length lines) rs" "new = pre @ top_down pos lines rs" "int (length pre) = int pos + shift"
  shows "list_all2 (located lines new) rs (map snd (track_regions lines shift rs))"
  using assms
proof (induction rs arbitrary: pos pre shift)
  case (Cons r rs)
  let ?before = "pre @ take (op_start r - pos) (drop pos lines)"
  let ?shift = "shift + (int (length (op_lines r)) - int (op_end r - op_start r))"
  have len: "int (length ?before) = int (op_start r) + shift" using Cons.prems by (auto simp: min_def)
  then have start: "nat (int (op_start r) + shift) = length ?before" by simp
  have new: "new = (?before @ op_lines r) @ top_down (op_end r) lines rs" using Cons.prems by simp
  have "list_all2 (located lines new) rs (map snd (track_regions lines ?shift rs))"
    using Cons.prems len by (intro Cons.IH [OF _ new]) simp_all
  moreover have "located lines new r (snd (hd (track_regions lines shift (r # rs))))"
    unfolding located_def by (simp add: Let_def start new)
  ultimately show ?case by (simp add: Let_def)
qed simp

section \<open>Resolving\<close>

lemma resolve_ops_Inr:
  "resolve_ops ops idx n lines S = Inr rs \<longleftrightarrow>
   length rs = length ops \<and> (\<forall>i < length ops. resolve_op (ops ! i) (idx + i) lines S = Inr (rs ! i))"
proof (induction ops arbitrary: idx rs)
  case (Cons op ops)
  show ?case
  proof (cases rs)
    case (Cons r rs')
    show ?thesis
    proof (cases "resolve_op op idx lines S")
      case (Inr x)
      with Cons Cons.IH [of "Suc idx" rs'] show ?thesis
        by (cases "resolve_ops ops (Suc idx) n lines S") (auto simp: All_less_Suc2)
    qed (use Cons in \<open>auto simp: All_less_Suc2\<close>)
  qed (simp split: sum.splits)
qed auto

lemma resolve_op_idx: "resolve_op op idx lines S = Inr r \<Longrightarrow> original_idx r = idx"
  by (auto simp: resolve_op_def split: hashline_op.splits sum.splits)

lemma resolve_ops_idx: "resolve_ops ops 0 n lines S = Inr rs \<Longrightarrow> map original_idx rs = [0..<length ops]"
  by (rule nth_equalityI) (auto simp: resolve_ops_Inr dest: resolve_op_idx)

lemma split_lines_not_Nil [simp]: "split_lines content \<noteq> []"
  by (auto simp: split_lines_def str_lines_def Let_def split: if_splits)
    (metis append_Nil append_butlast_last_id join.simps(2) join_split_char split_char_not_Nil)

context anchor_scheme_laws
begin

lemma resolved_line: "validate_anchor s lines S = Inr i \<Longrightarrow> i < length lines"
  by (auto simp: validate_anchor_def Let_def split: option.splits validation_result.splits dest: valid_line)

lemma resolved_range:
  assumes "resolve_op op idx lines S = Inr r"
  shows "op_start r \<le> op_end r \<and> op_end r \<le> length lines"
  using assms
  by (auto simp: resolve_op_def replace_end_def insert_at_def split: hashline_op.splits sum.splits option.splits if_splits
      dest!: resolved_line)

lemma resolved_well_ranged: "resolve_ops ops 0 n lines S = Inr rs \<Longrightarrow> well_ranged (length lines) rs"
  by (fastforce simp: resolve_ops_Inr well_ranged_def in_set_conv_nth dest: resolved_range)

text \<open>What a batch that is not a single \<^verbatim>\<open>write\<close> does.\<close>

lemma batch_effect:
  assumes batch: "\<And>c. ops \<noteq> [OpWrite c]" and lines: "lines = split_lines content"
  shows "case ar_new_content (apply_edits content ops path S) of
      Some new \<Rightarrow> \<exists>rs app.
        length rs = length ops \<and> (\<forall>i < length ops. resolve_op (ops ! i) i lines S = Inr (rs ! i)) \<and> conflict_free rs \<and>
        new = join [10] (edited_lines lines rs) \<and>
        list_all2 (located lines (edited_lines lines rs)) (top_down_order rs) (ar_details (apply_edits content ops path S)) \<and>
        ar_output (apply_edits content ops path S) = EditsApplied app \<and> ea_applied app = length ops
    | None \<Rightarrow> \<exists>err. apply_edits content ops path S = failed_apply err \<and>
        \<not> (\<exists>rs. length rs = length ops \<and> (\<forall>i < length ops. resolve_op (ops ! i) i lines S = Inr (rs ! i)) \<and> conflict_free rs)"
proof -
  have step: "apply_edits content ops path S = apply_batch content ops path S"
    using batch by (auto simp: apply_edits_def split: list.splits hashline_op.splits)
  show ?thesis
  proof (cases "resolve_ops ops 0 (length ops) lines S")
    case (Inl e)
    then have "\<not> (\<exists>rs. length rs = length ops \<and> (\<forall>i < length ops. resolve_op (ops ! i) i lines S = Inr (rs ! i)))"
      using resolve_ops_Inr [of ops 0 "length ops" lines S] by auto
    with Inl step lines show ?thesis by (auto simp: apply_batch_def failed_apply_def Let_def)
  next
    case (Inr rs)
    have idx: "map original_idx rs = [0..<length ops]" by (rule resolve_ops_idx [OF Inr])
    then have dist: "distinct rs" by (metis distinct_map distinct_upt)
    have ranged: "well_ranged (length lines) rs" by (rule resolved_well_ranged [OF Inr])
    have res: "length rs = length ops \<and> (\<forall>i < length ops. resolve_op (ops ! i) i lines S = Inr (rs ! i))"
      using Inr resolve_ops_Inr [of ops 0 "length ops" lines S rs] by simp
    have only: "rs' = rs" if "length rs' = length ops" "\<forall>i < length ops. resolve_op (ops ! i) i lines S = Inr (rs' ! i)" for rs'
      using that res by (intro nth_equalityI) auto
    show ?thesis
    proof (cases "check_overlaps rs")
      case None
      note sp = splices_edit [OF ranged None] idx
      have "list_all2 (located lines (edited_lines lines rs)) (top_down_order rs)
          (map snd (track_regions lines 0 (top_down_order rs)))"
        using sp by (intro regions_located [where pos = 0 and pre = "[]"]) simp_all
      then show ?thesis using None Inr res sp lines step no_overlap_iff [OF ranged dist]
        by (auto simp: apply_batch_def apply_resolved_def Let_def)
    next
      case (Some e)
      then have "\<not> conflict_free rs" using no_overlap_iff [OF ranged dist] by simp
      with Some Inr lines step only show ?thesis by (auto simp: apply_batch_def failed_apply_def Let_def)
    qed
  qed
qed

end

section \<open>Bounds of the snippet\<close>

text \<open>The subtractions of the snippet never go below zero, and its regions lie in the new file.\<close>

lemma split_char_snoc: "split_char d (s @ [d]) = split_char d s @ [[]]"
  by (induction s) (auto split: list.splits)

lemma join_snoc: "xs \<noteq> [] \<Longrightarrow> join sep (xs @ [y]) = join sep xs @ sep @ y"
proof (induction xs)
  case (Cons x xs)
  then show ?case by (cases "xs = []") (auto simp: join_Cons)
qed simp

lemma last_piece_empty: "s \<noteq> [] \<Longrightarrow> last (split_char 10 s) = [] \<longleftrightarrow> ends_with [10] s"
proof
  assume s: "s \<noteq> []" and last: "last (split_char 10 s) = []"
  let ?q = "butlast (split_char 10 s)"
  have pieces: "split_char 10 s = ?q @ [[]]" using last by (metis append_butlast_last_id split_char_not_Nil)
  then have "?q \<noteq> []" using s join_split_char [of 10 s] by force
  then have "s = join [10] ?q @ [10]" using join_split_char [of 10 s] pieces join_snoc [of ?q "[10]" "[]"] by simp
  then show "ends_with [10] s" by (metis ends_with_def option.distinct(1) strip_suffix_iff)
next
  assume "ends_with [10] s"
  then obtain t where "s = t @ [10]" by (auto simp: ends_with_def strip_suffix_iff)
  then show "last (split_char 10 s) = []" by (simp add: split_char_snoc)
qed

lemma length_split_lines: "length (split_lines s) = length (split_char 10 s)"
proof (cases "s = []")
  case False
  have "0 < length (split_char 10 s)" by simp
  with last_piece_empty [OF False] False show ?thesis by (auto simp: split_lines_def str_lines_def Let_def)
qed (simp add: split_lines_def)

lemma str_lines_plain: "l \<in> set (str_lines s) \<Longrightarrow> 10 \<notin> set l"
proof -
  have "set (strip_cr x) \<subseteq> set x" for x by (auto simp: strip_cr_def strip_suffix_iff split: option.splits)
  moreover assume "l \<in> set (str_lines s)"
  then have "\<exists>x \<in> set (split_char 10 s). l = strip_cr x \<or> l = x"
    by (auto simp: str_lines_def Let_def dest!: in_set_butlastD split: if_splits)
  ultimately show ?thesis using split_char_no_sep [of _ 10 s] by blast
qed

lemma split_lines_plain: "l \<in> set (split_lines s) \<Longrightarrow> 10 \<notin> set l"
  using str_lines_plain by (auto simp: split_lines_def split: if_splits)

lemma resolved_plain: "resolve_op op idx lines S = Inr r \<Longrightarrow> l \<in> set (op_lines r) \<Longrightarrow> 10 \<notin> set l"
  using str_lines_plain
  by (auto simp: resolve_op_def checked_content_def split: hashline_op.splits sum.splits option.splits if_splits)

lemma edited_plain:
  assumes "\<And>l. l \<in> set lines \<Longrightarrow> 10 \<notin> set l" "\<And>r l. r \<in> set rs \<Longrightarrow> l \<in> set (op_lines r) \<Longrightarrow> 10 \<notin> set l"
  shows "l \<in> set (edited_lines lines rs) \<Longrightarrow> 10 \<notin> set l"
  using assms by (auto simp: edited_lines_def slot_def split: if_splits simp del: upt_Suc)

lemma region_bounds:
  fixes pre :: "ustr list"
  assumes "ordered_ops pos n rs" "int (length pre) = int pos + shift" "n = length lines"
  shows "((a, b), d) \<in> set (track_regions lines shift rs) \<Longrightarrow>
    a \<le> b \<and> b \<le> length pre + length (top_down pos lines rs)"
  using assms
proof (induction rs arbitrary: pos pre shift)
  case (Cons r rs)
  let ?before = "pre @ take (op_start r - pos) (drop pos lines)"
  let ?shift = "shift + (int (length (op_lines r)) - int (op_end r - op_start r))"
  have len: "int (length ?before) = int (op_start r) + shift" using Cons.prems by (auto simp: min_def)
  then have start: "nat (int (op_start r) + shift) = length ?before" by simp
  have "ordered_ops (op_end r) n rs" using Cons.prems by simp
  moreover have "int (length (?before @ op_lines r)) = int (op_end r) + ?shift" using Cons.prems len by auto
  ultimately have rest: "((a, b), d) \<in> set (track_regions lines ?shift rs) \<Longrightarrow>
      a \<le> b \<and> b \<le> length (?before @ op_lines r) + length (top_down (op_end r) lines rs)"
    using Cons.IH Cons.prems(4) by blast
  from Cons.prems(1) consider "a = length ?before" "b = length ?before + length (op_lines r)"
    | "((a, b), d) \<in> set (track_regions lines ?shift rs)"
    unfolding track_regions.simps Let_def start by auto
  then show ?case by cases (use rest in auto)
qed simp

abbreviation region_in :: "nat \<Rightarrow> nat \<times> nat \<Rightarrow> bool" where
  "region_in n r \<equiv> fst r \<le> snd r \<and> snd r \<le> n"

lemma merged_bounds:
  "\<forall>r \<in> set rs. region_in n r \<Longrightarrow> \<forall>r \<in> set acc. region_in n r \<Longrightarrow> \<forall>r \<in> set (merge_regions n rs acc). region_in n r"
proof (induction rs arbitrary: acc)
  case (Cons r rs)
  obtain start stop where r: "r = (start, stop)" by (cases r)
  define c where "c = (start - SNIPPET_CONTEXT, min (stop + SNIPPET_CONTEXT) n)"
  have ok: "region_in n c" using Cons.prems(1) r by (auto simp: c_def)
  have step: "merge_regions n (r # rs) acc =
      (case acc of
         m # ms \<Rightarrow> if fst c \<le> snd m then merge_regions n rs ((fst m, max (snd m) (snd c)) # ms) else merge_regions n rs (c # acc)
       | [] \<Rightarrow> merge_regions n rs [c])"
    by (simp add: r c_def Let_def split: list.splits prod.splits)
  show ?case
  proof (cases acc)
    case Nil
    with Cons.IH [of "[c]"] Cons.prems(1) ok show ?thesis unfolding step by simp
  next
    case acc: (Cons m ms)
    have rest: "\<forall>r \<in> set rs. region_in n r" "\<forall>r \<in> set (c # acc). region_in n r" using Cons.prems ok by simp_all
    have "region_in n (fst m, max (snd m) (snd c))" using Cons.prems(2) ok acc by auto
    then have "\<forall>r \<in> set ((fst m, max (snd m) (snd c)) # ms). region_in n r" using Cons.prems(2) acc by simp
    from Cons.IH [OF rest(1) this] Cons.IH [OF rest] show ?thesis
      using step unfolding acc list.case by (cases "fst c \<le> snd m") (simp_all only: if_True if_False simp_thms)
  qed
qed simp

lemma snippet_span:
  assumes "rs \<noteq> []" "sorted (map fst rs)" "\<forall>r \<in> set rs. region_in n r"
  shows "fst (hd rs) - SNIPPET_CONTEXT \<le> min (snd (last rs) + SNIPPET_CONTEXT) n"
proof -
  have "fst (hd rs) \<le> fst (last rs)" using assms(1,2) by (cases rs) auto
  moreover have "fst (last rs) \<le> snd (last rs) \<and> snd (last rs) \<le> n" using assms(1,3) last_in_set [of rs] by blast
  ultimately show ?thesis by linarith
qed

context anchor_scheme_laws
begin

lemma snippet_in_file:
  assumes "resolve_ops ops 0 m (split_lines content) S = Inr rs" "check_overlaps rs = None"
  defines "new \<equiv> join [10] (fold splice_op (sort_bottom_up rs) (split_lines content))"
    and "regions \<equiv> sort_key fst (map fst (track_regions (split_lines content) 0 (rev (sort_bottom_up rs))))"
  shows "\<forall>r \<in> set regions. region_in (length (split_lines new)) r"
    "\<forall>r \<in> set (merge_regions (length (split_lines new)) regions []). region_in (length (split_lines new)) r"
    "regions \<noteq> [] \<Longrightarrow> fst (hd regions) - SNIPPET_CONTEXT \<le> min (snd (last regions) + SNIPPET_CONTEXT) (length (split_lines new))"
proof -
  let ?lines = "split_lines content"
  have "sorted (map original_idx rs)" using resolve_ops_idx [OF assms(1)] by simp
  note sp = splices_edit [OF resolved_well_ranged [OF assms(1)] assms(2) this]
  have plain: "\<forall>l \<in> set (edited_lines ?lines rs). 10 \<notin> set l"
  proof (rule ballI, erule edited_plain [rotated 2])
    show "10 \<notin> set l" if "r \<in> set rs" "l \<in> set (op_lines r)" for r l
      using that assms(1) resolved_plain [of _ _ ?lines S r l] unfolding resolve_ops_Inr in_set_conv_nth by metis
  qed (rule split_lines_plain)
  have "length (edited_lines ?lines rs) \<le> length (split_lines new)"
    using split_char_join [OF _ plain] unfolding new_def sp(3) length_split_lines by (cases "edited_lines ?lines rs = []") simp_all
  then show all: "\<forall>r \<in> set regions. region_in (length (split_lines new)) r"
    using region_bounds [OF sp(1), of "[]" 0 ?lines] unfolding regions_def sp(2) sp(4) by (fastforce simp del: track_regions.simps)
  then show "\<forall>r \<in> set (merge_regions (length (split_lines new)) regions []). region_in (length (split_lines new)) r"
    by (rule merged_bounds) simp
  show "fst (hd regions) - SNIPPET_CONTEXT \<le> min (snd (last regions) + SNIPPET_CONTEXT) (length (split_lines new))"
    if "regions \<noteq> []" using that all by (intro snippet_span) (simp_all add: regions_def)
qed

end

end
