(* ===== verification/Hashline_Anchors.thy ===== *)
theory Hashline_Anchors
  imports Hashline_Edit
begin

text \<open>
  Anchors on their way to the model and back: the text of an anchored line resolves to its line, an anchor
  that resolves has the hashes of its line, and the anchor suggested for a line that moved resolves there.
\<close>

section \<open>Text of anchors\<close>

lemma split_first_char: "c \<notin> set s \<Longrightarrow> split_first [c] (s @ c # t) = Some (s, t)"
  by (induction s) auto

lemma split_first_absent: "c \<notin> set s \<Longrightarrow> split_first (c # p) s = None"
  by (induction s) auto

lemma render_is_anchor: "render_anchored_line a content = anchor_render a @ ARROW # content"
  by (simp add: render_anchored_line_def anchor_render_def anchor_suffix_def split: option.splits)

lemma suggestion_is_anchor: "show_nat (anchor_line a) @ [58] @ anchor_suffix a = anchor_render a"
  by (simp add: anchor_render_def anchor_suffix_def split: option.splits)

lemma render_chars:
  assumes "well_formed_anchor a" "c < 48 \<or> 122 < c"
  shows "c \<notin> set (anchor_render a)"
proof -
  have "c \<notin> set (show_nat (anchor_line a))" using show_nat_digits [of c "anchor_line a"] assms(2)
    by (auto simp: is_ascii_digit_def)
  moreover have "c \<notin> set s" if "list_all is_ascii_lowercase s" for s
    using that assms(2) letters_no_colon [of s c] by linarith
  ultimately show ?thesis using assms by (auto simp: anchor_render_def well_formed_anchor_def split: option.splits)
qed

lemma strip_arrow_render:
  assumes "well_formed_anchor a"
  shows "strip_arrow (anchor_render a) = anchor_render a" "strip_arrow (render_anchored_line a content) = anchor_render a"
proof -
  have no: "ARROW \<notin> set (anchor_render a)" "45 \<notin> set (anchor_render a)"
    using render_chars [OF assms] by (simp_all add: ARROW_def)
  then show "strip_arrow (render_anchored_line a content) = anchor_render a"
    by (simp add: strip_arrow_def render_is_anchor split_first_char)
  have "u ''->'' = 45 # u ''>''" by (simp add: u_def)
  then show "strip_arrow (anchor_render a) = anchor_render a"
    using no by (simp add: strip_arrow_def split_first_absent)
qed

lemma format_shown:
  fixes content S
  defines "lines \<equiv> split_lines content"
  shows "fst (format_hashline_content content offset limit S) =
     join [10] (map (\<lambda>i. show_nat (i + 1) @ [58] @ anchor_suffix (generate_anchors S lines ! i) @ [ARROW] @ lines ! i)
       (take (case limit of Some k \<Rightarrow> k | None \<Rightarrow> u64_max) [(case offset of Some n \<Rightarrow> n | None \<Rightarrow> 1) - 1..<length lines]))"
proof -
  have enum: "enumerate 0 xs = map (\<lambda>i. (i, xs ! i)) [0..<length xs]" for xs :: "ustr list"
    by (rule nth_equalityI) (simp_all add: nth_enumerate_eq)
  show ?thesis
    by (simp add: format_hashline_content_def Let_def lines_def enum drop_map take_map comp_def drop_upt)
qed

section \<open>Resolving\<close>

text \<open>The line and the hashes an anchor text names: as written, or found by its hashes alone.\<close>

definition named_anchor :: "ustr \<Rightarrow> ustr list \<Rightarrow> anchor_scheme \<Rightarrow> line_anchor option" where
  "named_anchor s lines S =
     (case anchor_parse (strip_arrow s) of Some a \<Rightarrow> Some a | None \<Rightarrow> recover_anchor_by_suffix (strip_arrow s) lines S)"

lemma validate_anchor_named:
  "validate_anchor s lines S =
     (case named_anchor s lines S of
        None \<Rightarrow> Inl (malformed_anchor (strip_arrow s) S)
      | Some a \<Rightarrow>
          (case validate S a lines of
             Valid \<Rightarrow> Inr (anchor_line a - 1)
           | OutOfRange \<Rightarrow>
               Inl (plain_error AnchorNotFound
                 (u ''Line '' @ show_nat (anchor_line a) @ u '' is out of range (file has '' @ show_nat (length lines) @ u '' lines).'')
                 (Some (strip_arrow s)))
           | Stale \<Rightarrow> Inl (stale_anchor (strip_arrow s) a lines S)))"
  by (simp add: validate_anchor_def named_anchor_def Let_def)

lemma recovered_unique:
  assumes "recover_anchor_by_suffix s lines S = Some a"
  shows "a \<in> set (generate_anchors S lines)" "suffix_matches s a"
    "\<And>b. b \<in> set (generate_anchors S lines) \<Longrightarrow> suffix_matches s b \<Longrightarrow> b = a"
proof -
  have "filter (suffix_matches s) (generate_anchors S lines) = [a]"
    using assms by (auto simp: recover_anchor_by_suffix_def split: list.splits)
  then have f: "set (filter (suffix_matches s) (generate_anchors S lines)) = {a}" by simp
  then have *: "a \<in> set (filter (suffix_matches s) (generate_anchors S lines))" by simp
  then show "a \<in> set (generate_anchors S lines)" "suffix_matches s a" by simp_all
  show "b = a" if "b \<in> set (generate_anchors S lines)" "suffix_matches s b" for b
  proof -
    from that have "b \<in> set (filter (suffix_matches s) (generate_anchors S lines))" by simp
    with f show ?thesis by blast
  qed
qed

lemma stale_suggestion:
  "shifted_anchor (stale_anchor t a lines S) =
     (case find_shifted S a lines DEFAULT_SEARCH_RADIUS of
        ShiftFound n \<Rightarrow> Some (show_nat n @ [58] @ anchor_suffix (generate_anchors S lines ! (n - 1))) | _ \<Rightarrow> None)"
  "shifted_to (stale_anchor t a lines S) =
     (case find_shifted S a lines DEFAULT_SEARCH_RADIUS of ShiftFound n \<Rightarrow> Some n | _ \<Rightarrow> None)"
  by (simp_all add: stale_anchor_def Let_def split: shift_result.splits)

lemma no_suggestion [simp]:
  "shifted_anchor (plain_error kind msg anchor) = None" "shifted_anchor (malformed_anchor s S) = None"
  by (simp_all add: plain_error_def malformed_anchor_def split: prod.splits)

context anchor_scheme_laws
begin

lemma printed_resolves:
  assumes "i < length lines" "length lines \<le> u64_max"
  shows "validate_anchor (anchor_render (generate_anchors S lines ! i)) lines S = Inr i"
    "validate_anchor (render_anchored_line (generate_anchors S lines ! i) content) lines S = Inr i"
  using assms generated_well_formed [OF assms] generated_valid [OF assms(1)] gen_nth [OF assms(1)]
  by (simp_all add: validate_anchor_named named_anchor_def strip_arrow_render anchor_parse_render)

lemma named_line: "validate_anchor s lines S = Inr i \<Longrightarrow>
  i < length lines \<and> (\<exists>a. named_anchor s lines S = Some a \<and> anchor_line a = i + 1 \<and>
     anchor_local a = local_hash (hash_len S) (lines ! i) \<and>
     (anchor_context (generate_anchors S lines ! i) = None \<or> anchor_context a = anchor_context (generate_anchors S lines ! i)))"
  using valid_line unfolding validate_anchor_named
  by (fastforce simp: validate_iff gen_nth split: option.splits validation_result.splits if_splits)

lemma suggestion_resolves:
  assumes "validate_anchor s lines S = Inl e" "shifted_anchor e = Some t" "length lines \<le> u64_max"
  shows "\<exists>a n. named_anchor s lines S = Some a \<and> shifted_to e = Some n \<and> 0 < n \<and> validate_anchor t lines S = Inr (n - 1) \<and>
     anchor_local a = local_hash (hash_len S) (lines ! (n - 1))"
proof -
  from assms(1,2) obtain a where a: "named_anchor s lines S = Some a" and e: "e = stale_anchor (strip_arrow s) a lines S"
    unfolding validate_anchor_named by (auto split: option.splits validation_result.splits)
  from assms(2) obtain n where n: "find_shifted S a lines DEFAULT_SEARCH_RADIUS = ShiftFound n"
      "t = show_nat n @ [58] @ anchor_suffix (generate_anchors S lines ! (n - 1))"
    by (auto simp: e stale_suggestion split: shift_result.splits)
  note found = shifted_found(1,2,3) [OF n(1)]
  have "t = anchor_render (generate_anchors S lines ! (n - 1))"
    using found gen_nth [of "n - 1" lines] suggestion_is_anchor [of "generate_anchors S lines ! (n - 1)"] by (simp add: n(2))
  moreover have "validate_anchor (anchor_render (generate_anchors S lines ! (n - 1))) lines S = Inr (n - 1)"
    using found assms(3) by (intro printed_resolves) simp_all
  moreover have "anchor_local a = local_hash (hash_len S) (lines ! (n - 1))"
    using found by (simp add: shift_matches_def)
  ultimately show ?thesis using a n found by (auto simp: e stale_suggestion)
qed

lemma printed_lines:
  "fst (format_hashline_content content offset limit S) =
     join [10] (map (\<lambda>i. render_anchored_line (generate_anchors S (split_lines content) ! i) (split_lines content ! i))
       (take (case limit of Some k \<Rightarrow> k | None \<Rightarrow> u64_max) [(case offset of Some n \<Rightarrow> n | None \<Rightarrow> 1) - 1..<length (split_lines content)]))"
  unfolding format_shown
  by (rule arg_cong [where f = "join [10]"], rule map_cong [OF refl])
    (auto simp: render_anchored_line_def gen_nth dest!: in_set_takeD)

end

end
