(* ===== verification/Hashline_Tool.thy ===== *)
theory Hashline_Tool
  imports Hashline_Refine Hashline_Anchors Rust_Path
begin

text \<open>
  The \<^verbatim>\<open>hashline_edit\<close> tool (\<^verbatim>\<open>grok_build_hashline/edit/mod.rs\<close>), with the resolution of the path it is given
  (\<^verbatim>\<open>types/resources.rs\<close>, \<^verbatim>\<open>util/fs.rs\<close>). The file system trait is the record \<open>edit_fs\<close>, whose errors carry the
  kind the tool asks for. What the tool asks of the operating system beside the trait is the record \<open>os_view\<close>:
  \<^verbatim>\<open>tokio::fs::canonicalize\<close> (\<open>None\<close> for an error or a timeout), \<^verbatim>\<open>tokio::fs::read_dir\<close>, \<^verbatim>\<open>shellexpand::tilde\<close>, and the hint
  text of \<^verbatim>\<open>path_not_found_hint\<close>, which scans directories.
\<close>

section \<open>File system\<close>

datatype io_error_kind = IoNotFound | IoOther

datatype computer_error = IOError ustr "io_error_kind option" | CommandNotQuoted

fun io_kind :: "computer_error \<Rightarrow> io_error_kind option" where
  "io_kind (IOError _ kind) = kind"
| "io_kind CommandNotQuoted = None"

fun computer_error_text :: "computer_error \<Rightarrow> ustr" where
  "computer_error_text (IOError msg _) = u ''IO Error: '' @ msg"
| "computer_error_text CommandNotQuoted = u ''UnQuoted command''"

record 's edit_fs =
  fs_read :: "'s \<Rightarrow> ustr \<Rightarrow> computer_error + bytes"
  fs_write :: "'s \<Rightarrow> ustr \<Rightarrow> bytes \<Rightarrow> 's \<times> computer_error option"

record 's os_view =
  canonicalize :: "'s \<Rightarrow> ustr \<Rightarrow> ustr option"
  read_dir :: "'s \<Rightarrow> path_key \<Rightarrow> ustr list option"
  tilde :: "ustr \<Rightarrow> ustr"
  path_hint :: "'s \<Rightarrow> ustr \<Rightarrow> ustr \<Rightarrow> ustr \<Rightarrow> ustr"

text \<open>The in-memory file system of the tests (\<^verbatim>\<open>computer/local/mock_fs.rs\<close>).\<close>

type_synonym memory_files = "path_key \<rightharpoonup> bytes"

definition memory_fs :: "memory_files edit_fs" where
  "memory_fs =
     \<lparr>fs_read = (\<lambda>files path. case files (path_components path) of
                   Some data \<Rightarrow> Inr data
                 | None \<Rightarrow> Inl (IOError (u ''File not found: '' @ path) (Some IoNotFound))),
      fs_write = (\<lambda>files path data. (files(path_components path \<mapsto> data), None))\<rparr>"

section \<open>Paths\<close>

definition is_quote :: "uchar \<Rightarrow> bool" where
  "is_quote c \<longleftrightarrow> c = 34 \<or> c = 39"

definition strip_escape :: "ustr \<Rightarrow> ustr option" where
  "strip_escape s =
     (case strip_suffix [92, 110] s of
        Some t \<Rightarrow> Some t
      | None \<Rightarrow> (case strip_suffix [92, 114] s of Some t \<Rightarrow> Some t | None \<Rightarrow> strip_suffix [92, 116] s))"

lemma strip_escape_shorter: "strip_escape s = Some t \<Longrightarrow> length t < length s"
  by (auto simp: strip_escape_def strip_suffix_iff split: option.splits)

function strip_escapes :: "ustr \<Rightarrow> ustr" where
  "strip_escapes s = (case strip_escape s of Some t \<Rightarrow> strip_escapes (trim_end t) | None \<Rightarrow> s)"
  by pat_completeness auto

lemma trim_end_length: "length (trim_end s) \<le> length s"
  by (metis length_dropWhile_le length_rev trim_end_def)

termination strip_escapes
  by (relation "measure length") (auto dest!: strip_escape_shorter intro: le_less_trans [OF trim_end_length])

declare strip_escapes.simps [simp del]

definition sanitize_model_path_arg :: "ustr \<Rightarrow> ustr" where
  "sanitize_model_path_arg input =
     (let trimmed = trim input;
          quote_wrapped = (2 \<le> length trimmed \<and> is_quote (hd trimmed) \<and> is_quote (last trimmed));
          unquoted = trim (trim_matches [34, 39] trimmed)
      in if \<not> quote_wrapped then unquoted else strip_escapes unquoted)"

text \<open>\<^verbatim>\<open>Path::strip_prefix\<close>, by components.\<close>

definition path_strip_prefix :: "ustr \<Rightarrow> ustr \<Rightarrow> ustr option" where
  "path_strip_prefix base p =
     (let (b_abs, bs) = path_components base; (p_abs, ps) = path_components p
      in if b_abs = p_abs \<and> take (length bs) ps = bs then Some (key_text (False, drop (length bs) ps)) else None)"

definition resolve_model_path :: "(ustr \<Rightarrow> ustr) \<Rightarrow> ustr \<Rightarrow> ustr option \<Rightarrow> ustr \<Rightarrow> ustr" where
  "resolve_model_path expand cwd display_cwd input =
     (let expanded = expand (sanitize_model_path_arg input);
          absolute = starts_with (u ''/'') expanded
      in case (if absolute then display_cwd else None) of
           Some display \<Rightarrow>
             (case path_strip_prefix display expanded of Some suffix \<Rightarrow> path_join cwd suffix | None \<Rightarrow> expanded)
         | None \<Rightarrow>
             (case (if \<not> absolute \<and> expanded \<noteq> [] then
                      path_strip_prefix (case display_cwd of Some d \<Rightarrow> d | None \<Rightarrow> cwd) ([47] @ expanded)
                    else None) of
                Some suffix \<Rightarrow> path_join cwd suffix
              | None \<Rightarrow> path_join cwd expanded))"

definition display_cwd_or_cwd :: "ustr \<Rightarrow> ustr option \<Rightarrow> ustr" where
  "display_cwd_or_cwd cwd display_cwd = (case display_cwd of Some d \<Rightarrow> d | None \<Rightarrow> cwd)"

definition normalize_filename :: "ustr \<Rightarrow> ustr" where
  "normalize_filename s = map (\<lambda>c. if c = 8239 \<or> c = 160 then 32 else c) s"

text \<open>The path found; the note that accompanies it is not used by this tool.\<close>

definition try_resolve_unicode_filename :: "'s os_view \<Rightarrow> 's \<Rightarrow> ustr \<Rightarrow> ustr option" where
  "try_resolve_unicode_filename os s path =
     (case key_file_name (path_components path) of
        None \<Rightarrow> None
      | Some file_name \<Rightarrow>
          (case path_parent path of
             None \<Rightarrow> None
           | Some parent \<Rightarrow>
               (case read_dir os s parent of
                  None \<Rightarrow> None
                | Some entries \<Rightarrow>
                    if file_name \<in> set entries then None
                    else (case filter (\<lambda>e. normalize_filename e = normalize_filename file_name) entries of
                            [e] \<Rightarrow> Some (path_join (key_text parent) e)
                          | _ \<Rightarrow> None))))"

definition canonicalize_with_timeout :: "'s os_view \<Rightarrow> 's \<Rightarrow> ustr \<Rightarrow> ustr" where
  "canonicalize_with_timeout os s path = (case canonicalize os s path of Some p \<Rightarrow> p | None \<Rightarrow> path)"

definition format_not_found_error :: "'s os_view \<Rightarrow> 's \<Rightarrow> ustr \<Rightarrow> ustr \<Rightarrow> ustr \<Rightarrow> ustr \<Rightarrow> bool \<Rightarrow> ustr" where
  "format_not_found_error os s display_path resolved_path cwd display_dcwd hints_enabled =
     u ''Error: '' @ display_path @ u '' does not exist.''
     @ (if hints_enabled then path_hint os s resolved_path cwd display_dcwd else [])"

section \<open>Output\<close>

record sr_detail =
  sd_old_string :: ustr
  sd_old_line :: nat
  sd_new_string :: ustr
  sd_new_line :: nat
  sd_context_before :: ustr
  sd_context_after :: ustr
  sd_line_prefix :: ustr

record sr_applied =
  sr_old_string :: ustr
  sr_new_string :: ustr
  sr_prompt :: ustr
  sr_path :: ustr
  sr_details :: "sr_detail list"

text \<open>\<^verbatim>\<open>SearchReplaceOutput\<close>; the fields that this tool always leaves at \<^verbatim>\<open>None\<close> or \<^verbatim>\<open>false\<close> are left out.\<close>

datatype search_replace_output =
    SrEditsApplied sr_applied
  | SrNoMatchesFound ustr ustr
  | SrInvalidInput ustr
  | SrFileNotFound ustr

definition sr_detail_of :: "ustr list \<Rightarrow> region_detail \<Rightarrow> sr_detail" where
  "sr_detail_of old_lines d =
     (let ctx_count = 3;
          old_idx = rd_old_line d - 1;
          before_start = old_idx - ctx_count;
          context_before = (if before_start < old_idx then join [10] (take (old_idx - before_start) (drop before_start old_lines)) @ [10]
                            else []);
          old_text_line_count = (if rd_old_text d = [] then 0 else length (split_char 10 (rd_old_text d)));
          after_start = old_idx + old_text_line_count;
          after_end = min (after_start + ctx_count) (length old_lines);
          context_after = (if after_start < after_end then join [10] (take (after_end - after_start) (drop after_start old_lines)) @ [10]
                           else [])
      in \<lparr>sd_old_string = rd_old_text d, sd_old_line = rd_old_line d, sd_new_string = rd_new_text d, sd_new_line = rd_new_line d,
          sd_context_before = context_before, sd_context_after = context_after, sd_line_prefix = []\<rparr>)"

definition error_text :: "hashline_edit_error \<Rightarrow> ustr" where
  "error_text err =
     err_message err
     @ (case err_context err of
          None \<Rightarrow> []
        | Some ctx \<Rightarrow>
            [10, 10]
            @ (case context_start_line err of
                 Some start \<Rightarrow> u ''Fresh anchors around line '' @ show_nat start @ u '' '' @ [8212] @ u '' use these to retry your edit:''
               | None \<Rightarrow> u ''Fresh anchors '' @ [8212] @ u '' use these to retry your edit:'')
            @ [10] @ ctx)
     @ (case shifted_anchor err of None \<Rightarrow> [] | Some anchor \<Rightarrow> [10, 10] @ u ''Suggested anchor: '' @ anchor)"

definition to_search_replace ::
    "hashline_edit_output \<Rightarrow> ustr \<Rightarrow> ustr \<Rightarrow> ustr option \<Rightarrow> region_detail list \<Rightarrow> search_replace_output" where
  "to_search_replace result file_path old_content new_content edit_details =
     (case result of
        EditsApplied app \<Rightarrow>
          (let new_text = (case new_content of Some c \<Rightarrow> c | None \<Rightarrow> []);
               details = (if edit_details = [] then
                   [\<lparr>sd_old_string = old_content, sd_old_line = 1, sd_new_string = new_text, sd_new_line = 1,
                     sd_context_before = [], sd_context_after = [], sd_line_prefix = []\<rparr>]
                 else map (sr_detail_of (split_char 10 old_content)) edit_details);
               prompt = (if ea_warnings app = [] then ea_snippet app else join [10] (ea_warnings app) @ [10, 10] @ ea_snippet app)
           in SrEditsApplied \<lparr>sr_old_string = old_content, sr_new_string = new_text, sr_prompt = prompt, sr_path = ea_path app,
                sr_details = details\<rparr>)
      | EditError err \<Rightarrow>
          (case err_kind err of
             KindFileNotFound \<Rightarrow> SrFileNotFound (error_text err)
           | KindInvalidInput \<Rightarrow> SrInvalidInput (error_text err)
           | _ \<Rightarrow> SrNoMatchesFound (error_text err) file_path))"

section \<open>A call\<close>

record edit_context =
  ec_cwd :: ustr
  ec_display_cwd :: "ustr option"
  ec_params :: "hashline_scheme_params option"
  ec_hints :: bool

text \<open>An error of the file system: a missing file is reported as such.\<close>

definition fs_failure ::
    "'s os_view \<Rightarrow> 's \<Rightarrow> edit_context \<Rightarrow> ustr \<Rightarrow> ustr \<Rightarrow> ustr \<Rightarrow> computer_error \<Rightarrow> search_replace_output" where
  "fs_failure os s ctx file_path path what e =
     (let display_dcwd = display_cwd_or_cwd (ec_cwd ctx) (ec_display_cwd ctx) in
      if io_kind e = Some IoNotFound then
        SrFileNotFound (format_not_found_error os s (path_join display_dcwd file_path) path (ec_cwd ctx) display_dcwd (ec_hints ctx))
      else SrInvalidInput (what @ computer_error_text e))"

definition edit_new_file ::
    "'s edit_fs \<Rightarrow> 's os_view \<Rightarrow> edit_context \<Rightarrow> anchor_scheme \<Rightarrow> 's \<Rightarrow> ustr \<Rightarrow> ustr \<Rightarrow> hashline_op list
       \<Rightarrow> 's \<times> search_replace_output" where
  "edit_new_file fs os ctx S s file_path joined_path edits =
     (case edits of
        [OpWrite content] \<Rightarrow>
          (case fs_write fs s joined_path (as_bytes content) of
             (s', Some e) \<Rightarrow> (s', fs_failure os s' ctx file_path joined_path (u ''Failed to write file: '') e)
           | (s', None) \<Rightarrow>
               (let abs_path = canonicalize_with_timeout os s' joined_path;
                    r = apply_edits content edits abs_path S
                in (s', to_search_replace (ar_output r) abs_path [] (ar_new_content r) (ar_details r))))
      | _ \<Rightarrow>
          (let display_dcwd = display_cwd_or_cwd (ec_cwd ctx) (ec_display_cwd ctx) in
           (s, SrFileNotFound (format_not_found_error os s (path_join display_dcwd file_path) joined_path (ec_cwd ctx)
                 display_dcwd (ec_hints ctx)))))"

definition edit_file ::
    "'s edit_fs \<Rightarrow> 's os_view \<Rightarrow> edit_context \<Rightarrow> anchor_scheme \<Rightarrow> 's \<Rightarrow> ustr \<Rightarrow> ustr \<Rightarrow> hashline_op list
       \<Rightarrow> 's \<times> search_replace_output" where
  "edit_file fs os ctx S s file_path path edits =
     (case fs_read fs s path of
        Inl e \<Rightarrow> (s, fs_failure os s ctx file_path path (u ''Failed to read file: '') e)
      | Inr file_bytes \<Rightarrow>
          (let old_content = from_utf8_lossy file_bytes;
               r = apply_edits old_content edits path S
           in case ar_new_content r of
                None \<Rightarrow> (s, to_search_replace (ar_output r) path old_content None (ar_details r))
              | Some new_content \<Rightarrow>
                  (case fs_write fs s path (as_bytes new_content) of
                     (s', Some e) \<Rightarrow>
                       (s', to_search_replace (EditError (plain_error KindIoError
                              (u ''Edits validated but failed to write file: '' @ computer_error_text e @ u ''.'') None))
                              path old_content None [])
                   | (s', None) \<Rightarrow> (s', to_search_replace (ar_output r) path old_content (Some new_content) (ar_details r)))))"

text \<open>\<open>Inl\<close> is a tool error, raised before anything is touched.\<close>

definition hashline_edit_run ::
    "'s edit_fs \<Rightarrow> 's os_view \<Rightarrow> edit_context \<Rightarrow> 's \<Rightarrow> ustr \<Rightarrow> hashline_op list \<Rightarrow> 's \<times> (ustr + search_replace_output)" where
  "hashline_edit_run fs os ctx s file_path edits =
     (if edits = [] then (s, Inr (SrInvalidInput (u ''No edit operations provided.'')))
      else case build_scheme (case ec_params ctx of Some p \<Rightarrow> p | None \<Rightarrow> default_scheme_params) of
        Inl e \<Rightarrow> (s, Inl e)
      | Inr S \<Rightarrow>
          (let joined_path = resolve_model_path (tilde os) (ec_cwd ctx) (ec_display_cwd ctx) file_path;
               (s', out) =
                 (case canonicalize os s joined_path of
                    Some p \<Rightarrow> edit_file fs os ctx S s file_path p edits
                  | None \<Rightarrow>
                      (case try_resolve_unicode_filename os s joined_path of
                         Some p \<Rightarrow> edit_file fs os ctx S s file_path p edits
                       | None \<Rightarrow> edit_new_file fs os ctx S s file_path joined_path edits))
           in (s', Inr out)))"

end
