(* ===== verification/Hashline_Search.thy ===== *)
theory Hashline_Search
  imports Hashline_Tool
begin

text \<open>
  The two tools that hand out anchors: \<^verbatim>\<open>hashline_grep\<close> (\<^verbatim>\<open>grok_build_hashline/grep.rs\<close>), which puts anchors into the
  output of ripgrep, and \<^verbatim>\<open>hashline_read\<close> (\<^verbatim>\<open>grok_build_hashline/read_file.rs\<close>). The results of the tools they delegate
  to, \<^verbatim>\<open>GrepTool\<close> and \<^verbatim>\<open>run_read_file\<close>, are arguments. \<open>None\<close> is a panic.
\<close>

section \<open>Numbered lines\<close>

definition parse_rg_line :: "ustr \<Rightarrow> (nat \<times> uchar \<times> ustr) option" where
  "parse_rg_line line =
     (let digits = takeWhile is_ascii_digit line; rest = dropWhile is_ascii_digit line
      in if digits = [] \<or> rest = [] then None
         else if hd rest \<noteq> 58 \<and> hd rest \<noteq> 45 then None
         else (case parse_uint u64_max digits of None \<Rightarrow> None | Some num \<Rightarrow> Some (num, hd rest, tl rest)))"

type_synonym anchor_cache = "path_key \<rightharpoonup> line_anchor list"

definition get_or_generate ::
    "'s edit_fs \<Rightarrow> 's \<Rightarrow> anchor_scheme \<Rightarrow> anchor_cache \<Rightarrow> ustr \<Rightarrow> anchor_cache \<times> line_anchor list option" where
  "get_or_generate fs s S cache path =
     (case cache (path_components path) of
        Some anchors \<Rightarrow> (cache, Some anchors)
      | None \<Rightarrow>
          (case fs_read fs s path of
             Inl _ \<Rightarrow> (cache, None)
           | Inr file_bytes \<Rightarrow>
               (let anchors = generate_anchors S (split_lines (from_utf8_lossy file_bytes))
                in (cache(path_components path \<mapsto> anchors), Some anchors))))"

section \<open>Injecting anchors\<close>

record inject_state =
  file_anchors :: anchor_cache
  inj_result :: ustr
  current_file :: "ustr option"

text \<open>A line that did not get an anchor: it may name the file of the lines that follow.\<close>

definition pass_line :: "ustr \<Rightarrow> ustr \<Rightarrow> inject_state \<Rightarrow> inject_state" where
  "pass_line cwd line st =
     (let current = (if parse_rg_line line = None \<and> \<not> starts_with (u ''Found '') line \<and> \<not> starts_with (u ''... ['') line
                        \<and> line \<noteq> [] then Some (path_join cwd line) else current_file st)
      in st\<lparr>current_file := current, inj_result := inj_result st @ line\<rparr>)"

definition inject_line ::
    "'s edit_fs \<Rightarrow> 's \<Rightarrow> ustr \<Rightarrow> anchor_scheme \<Rightarrow> ustr \<Rightarrow> inject_state \<Rightarrow> inject_state option" where
  "inject_line fs s cwd S line st0 =
     (let st = (if \<not> ends_with [10] (inj_result st0) \<and> \<not> ends_with [62] (inj_result st0)
                then st0\<lparr>inj_result := inj_result st0 @ [10]\<rparr> else st0)
      in if line = u ''--'' then Some (st\<lparr>inj_result := inj_result st @ line\<rparr>)
         else (case (parse_rg_line line, current_file st) of
                 (Some (line_num, separator, content), Some file_path) \<Rightarrow>
                   (case get_or_generate fs s S (file_anchors st) file_path of
                      (cache, None) \<Rightarrow> Some (pass_line cwd line (st\<lparr>file_anchors := cache\<rparr>))
                    | (cache, Some anchors) \<Rightarrow>
                        if line_num - 1 < length anchors then
                          if line_num = 0 then None
                          else Some (st\<lparr>file_anchors := cache,
                                 inj_result := inj_result st @ show_nat line_num @ [58]
                                   @ anchor_suffix (anchors ! (line_num - 1)) @ [separator] @ content\<rparr>)
                        else Some (pass_line cwd line (st\<lparr>file_anchors := cache\<rparr>)))
               | _ \<Rightarrow> Some (pass_line cwd line st)))"

fun inject_lines ::
    "'s edit_fs \<Rightarrow> 's \<Rightarrow> ustr \<Rightarrow> anchor_scheme \<Rightarrow> ustr list \<Rightarrow> inject_state \<Rightarrow> inject_state option" where
  "inject_lines fs s cwd S [] st = Some st"
| "inject_lines fs s cwd S (line # lines) st =
     (case inject_line fs s cwd S line st of None \<Rightarrow> None | Some st' \<Rightarrow> inject_lines fs s cwd S lines st')"

definition closing_tag :: ustr where "closing_tag = [10] @ u ''</workspace_result>''"

definition inject_anchors :: "'s edit_fs \<Rightarrow> 's \<Rightarrow> ustr \<Rightarrow> anchor_scheme \<Rightarrow> bytes \<Rightarrow> bytes option" where
  "inject_anchors fs s cwd S stdout_bytes =
     (let stdout = from_utf8_lossy stdout_bytes in
      case (split_first [62, 10] stdout, split_last closing_tag stdout) of
        (Some (before, _), Some (upto_end, after)) \<Rightarrow>
          (let body_start = length before + 2 in
           if length upto_end < body_start then None
           else (case inject_lines fs s cwd S (str_lines (drop body_start upto_end))
                        \<lparr>file_anchors = Map.empty, inj_result = before @ [62, 10], current_file = None\<rparr> of
                   None \<Rightarrow> None
                 | Some st \<Rightarrow> Some (as_bytes (inj_result st @ closing_tag @ after))))
      | _ \<Rightarrow> Some stdout_bytes)"

section \<open>The tools\<close>

record grep_output =
  exit_code :: int
  stdout :: bytes

definition anchor_timeout_warning :: ustr where
  "anchor_timeout_warning =
     [10] @ u ''Hashline anchoring for tool output failed after 60 seconds. Since results lack anchoring, please read the file before editing.'' @ [10]"

text \<open>\<open>elapsed\<close>: whether the injection exceeds its time limit. The outer \<open>None\<close> is a panic, \<open>Inl\<close> a tool error.\<close>

definition hashline_grep_run ::
    "'s edit_fs \<Rightarrow> 's \<Rightarrow> ustr \<Rightarrow> hashline_scheme_params option \<Rightarrow> bool \<Rightarrow> bool \<Rightarrow> ustr + grep_output
       \<Rightarrow> (ustr + grep_output) option" where
  "hashline_grep_run fs s cwd params content_mode elapsed grep_result =
     (case grep_result of
        Inl e \<Rightarrow> Some (Inl e)
      | Inr result \<Rightarrow>
          if content_mode \<and> exit_code result = 0 then
            (case build_scheme (case params of Some p \<Rightarrow> p | None \<Rightarrow> default_scheme_params) of
               Inl e \<Rightarrow> Some (Inl e)
             | Inr S \<Rightarrow>
                 if elapsed then Some (Inr (result\<lparr>stdout := stdout result @ as_bytes anchor_timeout_warning\<rparr>))
                 else (case inject_anchors fs s cwd S (stdout result) of
                         None \<Rightarrow> None
                       | Some anchored \<Rightarrow> Some (Inr (result\<lparr>stdout := anchored\<rparr>))))
          else Some (Inr result))"

record read_content =
  rc_content :: ustr
  rc_content_concise :: "ustr option"
  rc_path :: ustr
  rc_offset :: "nat option"
  rc_limit :: "nat option"
  rc_raw_output :: ustr
  rc_total_lines :: nat
  rc_images :: "ustr list"

datatype 'o read_output = FileContent read_content | OtherOutput 'o

definition hashline_read_run ::
    "'s edit_fs \<Rightarrow> 's \<Rightarrow> hashline_scheme_params option \<Rightarrow> nat \<Rightarrow> ustr + 'o read_output \<Rightarrow> ustr + 'o read_output" where
  "hashline_read_run fs s params max_lines read_result =
     (case read_result of
        Inl e \<Rightarrow> Inl e
      | Inr (OtherOutput out) \<Rightarrow> Inr (OtherOutput out)
      | Inr (FileContent fc) \<Rightarrow>
          if rc_raw_output fc = [] \<and> rc_total_lines fc = 0 then Inr (FileContent (fc\<lparr>rc_content_concise := None\<rparr>))
          else (case build_scheme (case params of Some p \<Rightarrow> p | None \<Rightarrow> default_scheme_params) of
                  Inl e \<Rightarrow> Inl e
                | Inr S \<Rightarrow>
                    (let full_content = (case fs_read fs s (rc_path fc) of
                                           Inr file_bytes \<Rightarrow> from_utf8_lossy file_bytes | Inl _ \<Rightarrow> rc_raw_output fc);
                         effective_limit = Some (min (case rc_limit fc of Some l \<Rightarrow> l | None \<Rightarrow> u64_max) max_lines);
                         (hashline_content, _) = format_hashline_content full_content (rc_offset fc) effective_limit S
                     in Inr (FileContent (fc\<lparr>rc_content := hashline_content, rc_content_concise := None, rc_images := []\<rparr>)))))"

end
