(* ===== verification/Hashline_Grep.thy ===== *)
theory Hashline_Grep
  imports Hashline_Search
begin

text \<open>
  What \<open>inject_anchors\<close> does with the output of ripgrep in its heading form: each numbered line gets the anchor of its
  line of the file named in the heading, and the rest stays.
\<close>

section \<open>Output of ripgrep\<close>

type_synonym rg_line = "nat \<times> uchar \<times> ustr"
type_synonym rg_group = "ustr \<times> rg_line list"

fun rg_line_text :: "rg_line \<Rightarrow> ustr" where
  "rg_line_text (n, sep, content) = show_nat n @ [sep] @ content"

fun group_text :: "rg_group \<Rightarrow> ustr list" where
  "group_text (heading, ls) = heading # map rg_line_text ls"

text \<open>Text that a line may end with: no line feed, and no closing bracket, after which the code adds no line feed.\<close>

definition clean_end :: "ustr \<Rightarrow> bool" where
  "clean_end s \<longleftrightarrow> 10 \<notin> set s \<and> \<not> ends_with [13] s \<and> \<not> ends_with [62] s"

definition is_heading :: "ustr \<Rightarrow> bool" where
  "is_heading h \<longleftrightarrow> h \<noteq> [] \<and> h \<noteq> u ''--'' \<and> clean_end h \<and> parse_rg_line h = None \<and>
     \<not> starts_with (u ''Found '') h \<and> \<not> starts_with (u ''... ['') h"

definition file_lines_of :: "'s edit_fs \<Rightarrow> 's \<Rightarrow> ustr \<Rightarrow> ustr list option" where
  "file_lines_of fs s path =
     (case fs_read fs s path of Inr file_bytes \<Rightarrow> Some (split_lines (from_utf8_lossy file_bytes)) | Inl _ \<Rightarrow> None)"

fun group_ok :: "'s edit_fs \<Rightarrow> 's \<Rightarrow> ustr \<Rightarrow> rg_group \<Rightarrow> bool" where
  "group_ok fs s cwd (heading, ls) \<longleftrightarrow>
     is_heading heading \<and>
     (case file_lines_of fs s (path_join cwd heading) of
        None \<Rightarrow> False
      | Some lines \<Rightarrow> length lines \<le> u64_max \<and>
          list_all (\<lambda>(n, sep, content). 0 < n \<and> n \<le> length lines \<and> (sep = 58 \<or> sep = 45) \<and> clean_end content) ls)"

fun anchored_group :: "'s edit_fs \<Rightarrow> 's \<Rightarrow> ustr \<Rightarrow> anchor_scheme \<Rightarrow> rg_group \<Rightarrow> ustr list" where
  "anchored_group fs s cwd S (heading, ls) =
     heading # map (\<lambda>(n, sep, content).
       anchor_render (generate_anchors S (the (file_lines_of fs s (path_join cwd heading))) ! (n - 1)) @ [sep] @ content) ls"

text \<open>Files are what their path's components name.\<close>

definition reads_by_path :: "'s edit_fs \<Rightarrow> 's \<Rightarrow> bool" where
  "reads_by_path fs s \<longleftrightarrow>
     (\<forall>p q data. path_components p = path_components q \<longrightarrow> fs_read fs s p = Inr data \<longrightarrow> fs_read fs s q = Inr data)"

section \<open>One line\<close>

lemma ends_with_snoc: "ends_with [c] s \<longleftrightarrow> s \<noteq> [] \<and> last s = c"
  by (auto simp: ends_with_def strip_suffix_iff) (metis append_butlast_last_id)

lemma rg_line_parsed:
  assumes "n \<le> u64_max" "sep = 58 \<or> sep = 45"
  shows "parse_rg_line (rg_line_text (n, sep, content)) = Some (n, sep, content)"
proof -
  have digits: "\<forall>c \<in> set (show_nat n). is_ascii_digit c" using show_nat_digits by blast
  have sep: "\<not> is_ascii_digit sep" using assms(2) by (auto simp: is_ascii_digit_def)
  have "takeWhile is_ascii_digit (rg_line_text (n, sep, content)) = show_nat n"
    using digits sep by (simp add: takeWhile_append2)
  moreover have "dropWhile is_ascii_digit (rg_line_text (n, sep, content)) = sep # content"
    using digits sep by (simp add: dropWhile_append2)
  ultimately show ?thesis using assms by (simp add: parse_rg_line_def parse_uint_show_nat Let_def)
qed

lemma rg_line_no_dashes: "rg_line_text (n, sep, content) \<noteq> u ''--''"
proof -
  have "hd (show_nat n) \<noteq> 45" using show_nat_digits [of "hd (show_nat n)" n] by (auto simp: is_ascii_digit_def)
  then show ?thesis by (cases "show_nat n") (auto simp: u_def)
qed

text \<open>The cache holds what it would compute.\<close>

definition cache_ok :: "'s edit_fs \<Rightarrow> 's \<Rightarrow> anchor_scheme \<Rightarrow> anchor_cache \<Rightarrow> bool" where
  "cache_ok fs s S cache \<longleftrightarrow>
     (\<forall>path anchors. cache (path_components path) = Some anchors \<longrightarrow>
        map_option (generate_anchors S) (file_lines_of fs s path) = Some anchors)"

lemma get_or_generate_ok:
  assumes "reads_by_path fs s" "cache_ok fs s S cache"
  shows "snd (get_or_generate fs s S cache path) = map_option (generate_anchors S) (file_lines_of fs s path)"
    "cache_ok fs s S (fst (get_or_generate fs s S cache path))"
proof -
  have "snd (get_or_generate fs s S cache path) = map_option (generate_anchors S) (file_lines_of fs s path) \<and>
    cache_ok fs s S (fst (get_or_generate fs s S cache path))"
  proof (cases "cache (path_components path)")
    case None
    show ?thesis
    proof (cases "fs_read fs s path")
      case (Inr data)
      let ?anchors = "generate_anchors S (split_lines (from_utf8_lossy data))"
      have "map_option (generate_anchors S) (file_lines_of fs s q) = Some ?anchors"
        if "path_components q = path_components path" for q
      proof -
        have "fs_read fs s q = Inr data" using assms(1) that Inr unfolding reads_by_path_def by metis
        then show ?thesis by (simp add: file_lines_of_def)
      qed
      then have "cache_ok fs s S (cache(path_components path \<mapsto> ?anchors))"
        using assms(2) unfolding cache_ok_def by auto
      with None Inr show ?thesis by (simp add: get_or_generate_def file_lines_of_def Let_def)
    qed (use None assms(2) in \<open>simp add: get_or_generate_def file_lines_of_def\<close>)
  next
    case (Some a)
    then have "map_option (generate_anchors S) (file_lines_of fs s path) = Some a" using assms(2) unfolding cache_ok_def by blast
    with Some assms(2) show ?thesis by (simp only: get_or_generate_def option.case fst_conv snd_conv)
  qed
  then show "snd (get_or_generate fs s S cache path) = map_option (generate_anchors S) (file_lines_of fs s path)"
    "cache_ok fs s S (fst (get_or_generate fs s S cache path))" by simp_all
qed

definition line_gap :: "ustr \<Rightarrow> ustr" where
  "line_gap r = (if \<not> ends_with [10] r \<and> \<not> ends_with [62] r then [10] else [])"

lemma heading_injected:
  assumes "is_heading h"
  shows "inject_line fs s cwd S h st =
    Some (st\<lparr>current_file := Some (path_join cwd h), inj_result := inj_result st @ line_gap (inj_result st) @ h\<rparr>)"
  using assms by (simp add: inject_line_def is_heading_def pass_line_def line_gap_def Let_def)

lemma summary_injected:
  "inject_line fs s cwd S (u ''Found '' @ msg) (st\<lparr>current_file := None\<rparr>) =
     Some (st\<lparr>current_file := None, inj_result := inj_result st @ line_gap (inj_result st) @ u ''Found '' @ msg\<rparr>)"
proof -
  have "starts_with (u ''Found '') (u ''Found '' @ msg)" by (simp add: starts_with_def)
  moreover have "u ''Found '' @ msg \<noteq> u ''--''" by (simp add: u_def)
  moreover have "parse_rg_line (u ''Found '' @ msg) = None" by (simp add: parse_rg_line_def u_def is_ascii_digit_def)
  ultimately show ?thesis by (simp add: inject_line_def pass_line_def line_gap_def Let_def)
qed

lemma number_injected:
  assumes fs: "reads_by_path fs s" and cache: "cache_ok fs s S (file_anchors st)"
    and named: "current_file st = Some f" "file_lines_of fs s f = Some lines" "length (generate_anchors S lines) = length lines"
    and line: "0 < n" "n \<le> length lines" "length lines \<le> u64_max" "sep = 58 \<or> sep = 45"
  shows "\<exists>cache'. cache_ok fs s S cache' \<and> inject_line fs s cwd S (rg_line_text (n, sep, content)) st =
    Some (st\<lparr>file_anchors := cache', inj_result := inj_result st @ line_gap (inj_result st)
      @ show_nat n @ [58] @ anchor_suffix (generate_anchors S lines ! (n - 1)) @ [sep] @ content\<rparr>)"
proof -
  obtain cache' where g: "get_or_generate fs s S (file_anchors st) f = (cache', Some (generate_anchors S lines))"
      and ok: "cache_ok fs s S cache'"
    using get_or_generate_ok [OF fs cache, of f] named by (metis eq_snd_iff fst_conv option.simps(9))
  have parsed: "parse_rg_line (rg_line_text (n, sep, content)) = Some (n, sep, content)"
    using line by (intro rg_line_parsed) simp_all
  have "n - 1 < length (generate_anchors S lines)" using line named(3) by linarith
  then show ?thesis
    using ok g line(1) named parsed rg_line_no_dashes [of n sep content]
    by (intro exI [of _ cache']) (simp add: inject_line_def line_gap_def Let_def)
qed

section \<open>Many lines\<close>

definition ready :: "'s edit_fs \<Rightarrow> 's \<Rightarrow> anchor_scheme \<Rightarrow> inject_state \<Rightarrow> bool" where
  "ready fs s S st \<longleftrightarrow> cache_ok fs s S (file_anchors st)"

lemma clean_gap: "clean_end t \<Longrightarrow> t \<noteq> [] \<Longrightarrow> line_gap (r @ t) = [10]"
proof -
  assume "clean_end t" "t \<noteq> []"
  moreover from this have "last t \<noteq> 10" unfolding clean_end_def by (metis last_in_set)
  ultimately show ?thesis by (simp add: clean_end_def line_gap_def ends_with_snoc)
qed

lemma clean_append: "clean_end b \<Longrightarrow> b \<noteq> [] \<Longrightarrow> 10 \<notin> set a \<Longrightarrow> clean_end (a @ b)"
  by (auto simp: clean_end_def ends_with_snoc)

lemma clean_separator: "clean_end content \<Longrightarrow> sep = 58 \<or> sep = 45 \<Longrightarrow> clean_end (sep # content)"
  by (cases content) (auto simp: clean_end_def ends_with_snoc)

lemma join_append: "xs \<noteq> [] \<Longrightarrow> ys \<noteq> [] \<Longrightarrow> join sep (xs @ ys) = join sep xs @ sep @ join sep ys"
proof (induction xs)
  case (Cons x xs)
  then show ?case by (cases "xs = []") (auto simp: join_Cons)
qed simp

lemma inject_lines_append:
  "inject_lines fs s cwd S (xs @ ys) st =
     (case inject_lines fs s cwd S xs st of None \<Rightarrow> None | Some st' \<Rightarrow> inject_lines fs s cwd S ys st')"
  by (induction xs arbitrary: st) (auto split: option.splits)

context anchor_scheme_laws
begin

lemma numbers_injected:
  assumes fs: "reads_by_path fs s" and named: "file_lines_of fs s f = Some lines" "length lines \<le> u64_max"
  shows "list_all (\<lambda>(n, sep, content). 0 < n \<and> n \<le> length lines \<and> (sep = 58 \<or> sep = 45) \<and> clean_end content) ls \<Longrightarrow>
    ready fs s S st \<Longrightarrow> current_file st = Some f \<Longrightarrow> line_gap (inj_result st) = [10] \<Longrightarrow>
    \<exists>st'. inject_lines fs s cwd S (map rg_line_text ls) st = Some st' \<and> ready fs s S st' \<and> line_gap (inj_result st') = [10] \<and>
      inj_result st' = inj_result st @ concat (map (\<lambda>(n, sep, content).
        [10] @ anchor_render (generate_anchors S lines ! (n - 1)) @ [sep] @ content) ls)"
proof (induction ls arbitrary: st)
  case (Cons l ls)
  obtain n sep content where l: "l = (n, sep, content)" by (cases l)
  have ok: "0 < n" "n \<le> length lines" "sep = 58 \<or> sep = 45" "clean_end content" using Cons.prems(1) l by simp_all
  let ?st = "\<lambda>cache. st\<lparr>file_anchors := cache, inj_result := inj_result st @ [10]
    @ show_nat n @ [58] @ anchor_suffix (generate_anchors S lines ! (n - 1)) @ [sep] @ content\<rparr>"
  have "cache_ok fs s S (file_anchors st)" using Cons.prems(2) by (simp add: ready_def)
  from number_injected [OF fs this Cons.prems(3) named(1) gen_length ok(1,2) named(2) ok(3), of cwd content]
  obtain cache' where c: "cache_ok fs s S cache'"
      and step: "inject_line fs s cwd S (rg_line_text l) st = Some (?st cache')"
    unfolding l Cons.prems(4) by blast
  have render: "show_nat n @ [58] @ anchor_suffix (generate_anchors S lines ! (n - 1)) = anchor_render (generate_anchors S lines ! (n - 1))"
    using gen_nth [of "n - 1" lines] ok suggestion_is_anchor [of "generate_anchors S lines ! (n - 1)"] by simp
  have "line_gap (inj_result (?st cache')) = [10]"
    using clean_gap [OF clean_separator [OF ok(4,3)], of "inj_result st @ [10] @ show_nat n @ [58] @ anchor_suffix (generate_anchors S lines ! (n - 1))"]
    by simp
  moreover have "ready fs s S (?st cache')" "current_file (?st cache') = Some f" using c Cons.prems(3) by (simp_all add: ready_def)
  ultimately obtain st' where "inject_lines fs s cwd S (map rg_line_text ls) (?st cache') = Some st'" "ready fs s S st'"
      "line_gap (inj_result st') = [10]" "inj_result st' = inj_result (?st cache') @ concat (map (\<lambda>(n, sep, content).
        [10] @ anchor_render (generate_anchors S lines ! (n - 1)) @ [sep] @ content) ls)"
    using Cons.IH [of "?st cache'"] Cons.prems(1) by auto
  with step render show ?case by (simp add: l)
qed simp

lemma group_injected:
  assumes fs: "reads_by_path fs s" and ok: "group_ok fs s cwd g" and st: "ready fs s S st" "line_gap (inj_result st) = [10]"
  shows "\<exists>st'. inject_lines fs s cwd S (group_text g) st = Some st' \<and> ready fs s S st' \<and> line_gap (inj_result st') = [10] \<and>
    inj_result st' = inj_result st @ concat (map (\<lambda>l. [10] @ l) (anchored_group fs s cwd S g))"
proof -
  obtain h ls where g: "g = (h, ls)" by (cases g)
  obtain lines where lines: "file_lines_of fs s (path_join cwd h) = Some lines" "length lines \<le> u64_max"
      "list_all (\<lambda>(n, sep, content). 0 < n \<and> n \<le> length lines \<and> (sep = 58 \<or> sep = 45) \<and> clean_end content) ls"
      and h: "is_heading h"
    using ok by (auto simp: g split: option.splits)
  let ?st = "st\<lparr>current_file := Some (path_join cwd h), inj_result := inj_result st @ [10] @ h\<rparr>"
  have "inject_line fs s cwd S h st = Some ?st" using heading_injected [OF h, of fs s cwd S st] st(2) by simp
  moreover have "line_gap (inj_result ?st) = [10]" using clean_gap [of h "inj_result st @ [10]"] h by (simp add: is_heading_def)
  moreover have "ready fs s S ?st" using st(1) by (simp add: ready_def)
  ultimately obtain st' where "inject_lines fs s cwd S (group_text g) st = Some st'" "ready fs s S st'" "line_gap (inj_result st') = [10]"
      "inj_result st' = inj_result ?st @ concat (map (\<lambda>(n, sep, content).
        [10] @ anchor_render (generate_anchors S lines ! (n - 1)) @ [sep] @ content) ls)"
    using numbers_injected [OF fs lines, of ?st cwd] by (auto simp: g)
  moreover have "map (\<lambda>l. [10] @ l) (anchored_group fs s cwd S g) = ([10] @ h) # map (\<lambda>(n, sep, content).
        [10] @ anchor_render (generate_anchors S lines ! (n - 1)) @ [sep] @ content) ls"
    by (auto simp: g lines(1))
  ultimately show ?thesis by (intro exI [of _ st']) simp
qed

lemma groups_injected:
  assumes fs: "reads_by_path fs s"
  shows "list_all (group_ok fs s cwd) gs \<Longrightarrow> ready fs s S st \<Longrightarrow> line_gap (inj_result st) = [10] \<Longrightarrow>
    \<exists>st'. inject_lines fs s cwd S (concat (map group_text gs)) st = Some st' \<and>
      inj_result st' = inj_result st @ concat (map (\<lambda>l. [10] @ l) (concat (map (anchored_group fs s cwd S) gs)))"
proof (induction gs arbitrary: st)
  case (Cons g gs)
  then obtain st1 where one: "inject_lines fs s cwd S (group_text g) st = Some st1" "ready fs s S st1" "line_gap (inj_result st1) = [10]"
      "inj_result st1 = inj_result st @ concat (map (\<lambda>l. [10] @ l) (anchored_group fs s cwd S g))"
    using group_injected [OF fs, of cwd g st] by auto
  with Cons.IH [of st1] Cons.prems(1) show ?case by (auto simp: inject_lines_append)
qed simp

end

section \<open>The whole output\<close>

lemma join_prefixed: "join sep (x # xs) = x @ concat (map (\<lambda>l. sep @ l) xs)"
  by (induction xs arbitrary: x) (auto simp: join_Cons)

lemma lines_of_join:
  assumes "ls \<noteq> []" "\<forall>l \<in> set ls. 10 \<notin> set l \<and> \<not> ends_with [13] l" "last ls \<noteq> []"
  shows "str_lines (join [10] ls) = ls"
proof -
  have "split_char 10 (join [10] ls) = ls" using assms by (intro split_char_join) simp_all
  moreover have "map strip_cr (butlast ls) = butlast ls"
    using assms(2) by (intro map_idI) (auto simp: strip_cr_def ends_with_def split: option.splits dest: in_set_butlastD)
  ultimately show ?thesis using assms(1,3) by (simp add: str_lines_def)
qed

lemma split_last_end: "p \<noteq> [] \<Longrightarrow> split_last p (s @ p) = Some (s, [])"
proof -
  assume "p \<noteq> []"
  then obtain c cs where "rev p = c # cs" by (metis neq_Nil_conv rev_is_Nil_conv)
  moreover from this have "split_first (rev p) (rev p @ rev s) = Some ([], rev s)"
    using strip_prefix_append [of "rev p" "rev s"] by simp
  ultimately show ?thesis by (simp add: split_last_def)
qed

lemma split_first_pair: "c \<notin> set s \<Longrightarrow> split_first [c, d] (s @ [c, d] @ t) = Some (s, t)"
  by (induction s) auto

text \<open>What the tool gets: the opening tag, a summary and the groups, and the closing tag.\<close>

definition rg_output :: "ustr \<Rightarrow> ustr \<Rightarrow> ustr list \<Rightarrow> ustr" where
  "rg_output tag summary lines = tag @ [62, 10] @ join [10] ((u ''Found '' @ summary) # lines) @ closing_tag"

lemma group_text_clean:
  assumes "group_ok fs s cwd g" "l \<in> set (group_text g)"
  shows "10 \<notin> set l \<and> \<not> ends_with [13] l \<and> l \<noteq> []"
proof -
  obtain h ls where g: "g = (h, ls)" by (cases g)
  have "clean_end (rg_line_text (n, sep, content))" if "(n, sep, content) \<in> set ls" for n sep content
  proof -
    have "clean_end content" "sep = 58 \<or> sep = 45" using assms(1) that by (auto simp: g list_all_iff split: option.splits)
    moreover have "10 \<notin> set (show_nat n)" using show_nat_digits [of 10 n] by (auto simp: is_ascii_digit_def)
    ultimately show ?thesis using clean_append [OF clean_separator] by simp
  qed
  then have "clean_end l \<and> l \<noteq> []" using assms by (auto simp: g is_heading_def)
  then show ?thesis by (simp add: clean_end_def)
qed

lemma rg_output_lines:
  assumes "list_all (group_ok fs s cwd) gs" "clean_end (u ''Found '' @ summary)"
  shows "str_lines (join [10] ((u ''Found '' @ summary) # concat (map group_text gs))) = (u ''Found '' @ summary) # concat (map group_text gs)"
proof (rule lines_of_join)
  have clean: "10 \<notin> set l \<and> \<not> ends_with [13] l \<and> l \<noteq> []" if "l \<in> set ((u ''Found '' @ summary) # concat (map group_text gs))" for l
    using that assms group_text_clean [of fs s cwd _ l] by (auto simp: list_all_iff clean_end_def u_def)
  then show "\<forall>l \<in> set ((u ''Found '' @ summary) # concat (map group_text gs)). 10 \<notin> set l \<and> \<not> ends_with [13] l" by blast
  show "last ((u ''Found '' @ summary) # concat (map group_text gs)) \<noteq> []" using clean last_in_set by blast
qed simp

context anchor_scheme_laws
begin

lemma output_injected:
  assumes fs: "reads_by_path fs s" and groups: "list_all (group_ok fs s cwd) gs" and tag: "62 \<notin> set tag"
    and summary: "clean_end (u ''Found '' @ summary)"
    and text_ok: "list_all is_scalar (rg_output tag summary (concat (map group_text gs)))"
  shows "inject_anchors fs s cwd S (as_bytes (rg_output tag summary (concat (map group_text gs)))) =
    Some (as_bytes (rg_output tag summary (concat (map (anchored_group fs s cwd S) gs))))"
proof -
  let ?body = "join [10] ((u ''Found '' @ summary) # concat (map group_text gs))"
  let ?st = "\<lparr>file_anchors = Map.empty, inj_result = tag @ [62, 10], current_file = None\<rparr>"
  let ?st1 = "?st\<lparr>inj_result := tag @ [62, 10] @ u ''Found '' @ summary\<rparr>"
  have first: "split_first [62, 10] (tag @ [62, 10] @ ?body @ closing_tag) = Some (tag, ?body @ closing_tag)"
    using split_first_pair [OF tag, of 10 "?body @ closing_tag"] by simp
  have last: "split_last closing_tag (tag @ [62, 10] @ ?body @ closing_tag) = Some (tag @ [62, 10] @ ?body, [])"
    using split_last_end [of closing_tag "tag @ [62, 10] @ ?body"] by (simp add: closing_tag_def)
  have "line_gap (tag @ [62, 10]) = []" by (simp add: line_gap_def ends_with_snoc)
  then have head: "inject_line fs s cwd S (u ''Found '' @ summary) ?st = Some ?st1"
    using summary_injected [of fs s cwd S summary ?st] by simp
  have "line_gap (inj_result ?st1) = [10]" "ready fs s S ?st1"
    using clean_gap [OF summary, of "tag @ [62, 10]"] by (simp_all add: u_def ready_def cache_ok_def)
  from groups_injected [OF fs groups this(2,1)]
  obtain st' where rest: "inject_lines fs s cwd S (concat (map group_text gs)) ?st1 = Some st'"
      "inj_result st' = inj_result ?st1 @ concat (map (\<lambda>l. [10] @ l) (concat (map (anchored_group fs s cwd S) gs)))" by blast
  have "inject_lines fs s cwd S ((u ''Found '' @ summary) # concat (map group_text gs)) ?st = Some st'"
    using head rest(1) by (simp only: inject_lines.simps option.case)
  moreover have "inj_result st' = tag @ [62, 10] @ join [10] ((u ''Found '' @ summary) # concat (map (anchored_group fs s cwd S) gs))"
    unfolding join_prefixed rest(2) by simp
  ultimately show ?thesis
    using lossy_as_bytes [OF text_ok] first last rg_output_lines [OF groups summary]
    unfolding inject_anchors_def rg_output_def by (simp add: Let_def)
qed

end

end
