(* ===== verification/Hashline_Properties.thy ===== *)
theory Hashline_Properties
  imports Hashline_Grep
begin

text \<open>
  The properties of the \<^verbatim>\<open>hashline_edit\<close> tool. \<open>intended_content\<close> is its abstract specification: a batch is
  either rejected as a whole or has the effect of all its edits at once on the original lines.
\<close>

section \<open>Specification\<close>

definition resolutions :: "hashline_op list \<Rightarrow> ustr list \<Rightarrow> anchor_scheme \<Rightarrow> resolved_op list option" where
  "resolutions ops lines S =
     those (map (\<lambda>(i, op). case resolve_op op i lines S of Inr r \<Rightarrow> Some r | Inl _ \<Rightarrow> None) (enumerate 0 ops))"

definition intended_content :: "ustr \<Rightarrow> hashline_op list \<Rightarrow> anchor_scheme \<Rightarrow> ustr option" where
  "intended_content content ops S =
     (case ops of
        [OpWrite new_content] \<Rightarrow> if detect_anchor_prefix_in_content new_content = None then Some new_content else None
      | _ \<Rightarrow>
          (case resolutions ops (split_lines content) S of
             None \<Rightarrow> None
           | Some rs \<Rightarrow> if conflict_free rs then Some (join [10] (edited_lines (split_lines content) rs)) else None))"

lemma those_Some: "those xs = Some ys \<longleftrightarrow> length ys = length xs \<and> (\<forall>i < length xs. xs ! i = Some (ys ! i))"
proof (induction xs arbitrary: ys)
  case (Cons x xs)
  then show ?case by (cases x; cases ys) (auto simp: All_less_Suc2)
qed auto

lemma resolutions_Some:
  "resolutions ops lines S = Some rs \<longleftrightarrow>
   length rs = length ops \<and> (\<forall>i < length ops. resolve_op (ops ! i) i lines S = Inr (rs ! i))"
proof -
  have "(case x of Inr r \<Rightarrow> Some r | Inl _ \<Rightarrow> None) = Some y \<longleftrightarrow> x = Inr y" for x :: "hashline_edit_error + resolved_op" and y
    by (cases x) auto
  then show ?thesis by (simp add: resolutions_def those_Some nth_enumerate_eq)
qed

lemma not_write_cases: "\<not> (\<exists>c. ops = [OpWrite c]) \<Longrightarrow>
  (case ops of [OpWrite c] \<Rightarrow> f c | _ \<Rightarrow> g) = g"
  by (auto split: list.splits hashline_op.splits)

context anchor_scheme_laws
begin

lemma apply_edits_intended:
  "ar_new_content (apply_edits content ops path S) = intended_content content ops S"
proof (cases "\<exists>c. ops = [OpWrite c]")
  case True
  then show ?thesis by (auto simp: apply_edits_def intended_content_def failed_apply_def split: option.splits)
next
  case False
  note batch = batch_effect [of ops, OF _ refl, of content path]
  show ?thesis
  proof (cases "ar_new_content (apply_edits content ops path S)")
    case None
    then have "\<not> (\<exists>rs. resolutions ops (split_lines content) S = Some rs \<and> conflict_free rs)"
      using batch False by (auto simp: resolutions_Some)
    with None False show ?thesis by (auto simp: intended_content_def not_write_cases split: option.splits)
  next
    case (Some new)
    then obtain rs where "resolutions ops (split_lines content) S = Some rs" "conflict_free rs"
        "new = join [10] (edited_lines (split_lines content) rs)"
      using batch False by (auto simp: resolutions_Some)
    with Some False show ?thesis by (simp add: intended_content_def not_write_cases)
  qed
qed

text \<open>The result carries content exactly when it reports success.\<close>

lemma apply_edits_output:
  "case intended_content content ops S of
     None \<Rightarrow> \<exists>err. apply_edits content ops path S = failed_apply err
   | Some new \<Rightarrow> \<exists>app. ar_output (apply_edits content ops path S) = EditsApplied app \<and> ea_applied app = length ops"
proof (cases "\<exists>c. ops = [OpWrite c]")
  case True
  then show ?thesis by (auto simp: apply_edits_def intended_content_def build_write_result_def Let_def split: option.splits)
next
  case False
  note batch = batch_effect [of ops, OF _ refl, of content path]
  show ?thesis using False batch unfolding apply_edits_intended by (auto split: option.splits)
qed

end

section \<open>Effect of a batch\<close>

text \<open>
  C33. A batch of edits is applied as a whole or not at all, and then as if all edits were made at once: the new
  content is what the specification gives, namely the original lines with, at every position, the new lines
  of the edits that start there in the order of the request, and without the lines that an edit replaces; nothing
  is produced exactly when an operation does not resolve or two edits conflict. A success reports one detail per
  edit, which holds the text it replaced with its line in the old file and the text it put there with its line in
  the new file.
\<close>

theorem batch_is_simultaneous:
  assumes "build_scheme p = Inr S"
  shows "ar_new_content (apply_edits content ops path S) = intended_content content ops S \<and>
    (case intended_content content ops S of
       None \<Rightarrow> \<exists>err. apply_edits content ops path S = failed_apply err
     | Some new \<Rightarrow>
         (\<exists>app. ar_output (apply_edits content ops path S) = EditsApplied app \<and> ea_applied app = length ops) \<and>
         ((\<exists>c. ops = [OpWrite c]) \<or>
          (\<exists>rs. resolutions ops (split_lines content) S = Some rs \<and>
             list_all2 (located (split_lines content) (edited_lines (split_lines content) rs)) (sort_key op_start rs)
               (ar_details (apply_edits content ops path S)))))"
proof -
  note laws = build_scheme_laws [OF assms]
  note intended = anchor_scheme_laws.apply_edits_intended [OF laws, of content ops path]
  note batch = anchor_scheme_laws.batch_effect [OF laws _ refl, of ops content path]
  show ?thesis
    using intended anchor_scheme_laws.apply_edits_output [OF laws, of content ops path] batch
    by (auto simp: resolutions_Some split: option.splits)
qed

definition two_lines :: ustr where "two_lines = u ''a'' @ [10] @ u ''b'' @ [10]"

definition first_and_last :: "hashline_op list" where
  "first_and_last = [OpInsertAfter (u ''EOF'') (u ''z''), OpInsertAfter (u ''0:'') (u ''x''), OpInsertAfter (u ''0:'') (u ''y'')]"

lemma default_scheme: "build_scheme default_scheme_params = Inr (chunk_scheme 3 8)"
  by (simp add: build_scheme_def default_scheme_params_def validate_params_def)

lemma first_and_last_content:
  "intended_content two_lines first_and_last (chunk_scheme 3 8) =
   Some (u ''x'' @ [10] @ u ''y'' @ [10] @ u ''a'' @ [10] @ u ''b'' @ [10] @ u ''z'' @ [10])"
  by code_simp

lemma batch_is_simultaneous_witness:
  "ar_new_content (apply_edits two_lines first_and_last [] (chunk_scheme 3 8)) =
   Some (u ''x'' @ [10] @ u ''y'' @ [10] @ u ''a'' @ [10] @ u ''b'' @ [10] @ u ''z'' @ [10])"
  using batch_is_simultaneous [OF default_scheme, of two_lines first_and_last "[]"] first_and_last_content by simp

section \<open>Anchors\<close>

text \<open>
  C34. Whatever part of a file is printed with anchors, each line printed, whole or cut after the anchor, resolves
  to exactly that line as long as the file has its content. Conversely an anchor resolves only to a line of the file
  whose hashes it has, named by its number or, if it has none, by being the only line with these hashes. A
  rejected anchor for which another line is suggested names a line that has its hash, and the suggested anchor
  resolves to the line that is reported.
\<close>

theorem anchors_resolve_exactly:
  assumes "build_scheme p = Inr S" "length (split_lines content) \<le> u64_max"
  shows "fst (format_hashline_content content offset limit S) =
      join [10] (map (\<lambda>i. render_anchored_line (generate_anchors S (split_lines content) ! i) (split_lines content ! i))
        (take (case limit of Some k \<Rightarrow> k | None \<Rightarrow> u64_max)
          [(case offset of Some n \<Rightarrow> n | None \<Rightarrow> 1) - 1..<length (split_lines content)])) \<and>
    (\<forall>i < length (split_lines content). \<forall>t.
       validate_anchor (render_anchored_line (generate_anchors S (split_lines content) ! i) t) (split_lines content) S = Inr i \<and>
       validate_anchor (anchor_render (generate_anchors S (split_lines content) ! i)) (split_lines content) S = Inr i) \<and>
    (\<forall>s i. validate_anchor s (split_lines content) S = Inr i \<longrightarrow>
       i < length (split_lines content) \<and>
       (\<exists>a. named_anchor s (split_lines content) S = Some a \<and> anchor_line a = i + 1 \<and>
          anchor_local a = local_hash (hash_len S) (split_lines content ! i) \<and>
          (anchor_context (generate_anchors S (split_lines content) ! i) = None \<or>
           anchor_context a = anchor_context (generate_anchors S (split_lines content) ! i)))) \<and>
    (\<forall>s e t. validate_anchor s (split_lines content) S = Inl e \<longrightarrow> shifted_anchor e = Some t \<longrightarrow>
       (\<exists>a n. named_anchor s (split_lines content) S = Some a \<and> shifted_to e = Some n \<and> 0 < n \<and>
          validate_anchor t (split_lines content) S = Inr (n - 1) \<and>
          anchor_local a = local_hash (hash_len S) (split_lines content ! (n - 1))))"
proof -
  note laws = build_scheme_laws [OF assms(1)]
  show ?thesis
    using anchor_scheme_laws.printed_lines [OF laws] anchor_scheme_laws.printed_resolves [OF laws _ assms(2)]
      anchor_scheme_laws.named_line [OF laws] anchor_scheme_laws.suggestion_resolves [OF laws _ _ assms(2)]
    by blast
qed

lemma anchors_resolve_exactly_witness:
  "validate_anchor (render_anchored_line (generate_anchors (chunk_scheme 3 8) (split_lines two_lines) ! 1) (u ''b''))
     (split_lines two_lines) (chunk_scheme 3 8) = Inr 1"
proof -
  have len: "length (split_lines two_lines) = 3" by code_simp
  then have "length (split_lines two_lines) \<le> u64_max" by (simp add: u64_max_def)
  from anchors_resolve_exactly [OF default_scheme this] len show ?thesis by simp
qed

section \<open>Search\<close>

text \<open>
  C35. In the output of a search, with a heading per file and its numbered lines below, every numbered line gets the
  anchor of that line of that file, everything else stays, and each of these anchors, given to the edit tool
  while the file is unchanged, resolves to the line. Headings that read like numbered lines and lines that end in a
  closing bracket are excluded.
\<close>

theorem grep_anchors_resolve:
  assumes "build_scheme p = Inr S" "reads_by_path fs s" "list_all (group_ok fs s cwd) gs" "62 \<notin> set tag"
    "clean_end (u ''Found '' @ summary)" "list_all is_scalar (rg_output tag summary (concat (map group_text gs)))"
  shows "inject_anchors fs s cwd S (as_bytes (rg_output tag summary (concat (map group_text gs)))) =
      Some (as_bytes (rg_output tag summary (concat (map (anchored_group fs s cwd S) gs)))) \<and>
    (\<forall>(h, ls) \<in> set gs. \<forall>(n, sep, content) \<in> set ls. \<exists>lines. file_lines_of fs s (path_join cwd h) = Some lines \<and>
       validate_anchor (anchor_render (generate_anchors S lines ! (n - 1))) lines S = Inr (n - 1))"
proof -
  note laws = build_scheme_laws [OF assms(1)]
  have "\<exists>lines. file_lines_of fs s (path_join cwd h) = Some lines \<and>
       validate_anchor (anchor_render (generate_anchors S lines ! (n - 1))) lines S = Inr (n - 1)"
    if g: "(h, ls) \<in> set gs" and l: "(n, sep, content) \<in> set ls" for h ls n sep content
  proof -
    have "group_ok fs s cwd (h, ls)" using assms(3) g unfolding list_all_iff by blast
    then obtain lines where "file_lines_of fs s (path_join cwd h) = Some lines" "length lines \<le> u64_max" "0 < n" "n \<le> length lines"
      using l by (auto simp: list_all_iff split: option.splits)
    then show ?thesis using anchor_scheme_laws.printed_resolves(1) [OF laws, of "n - 1" lines] by simp
  qed
  with anchor_scheme_laws.output_injected [OF laws assms(2-6)] show ?thesis by blast
qed

text \<open>A disk on which every file is canonical as it is named.\<close>

definition plain_os :: "memory_files os_view" where
  "plain_os =
     \<lparr>canonicalize = (\<lambda>files p. if files (path_components p) = None then None else Some p), read_dir = (\<lambda>_ _. None), tilde = id,
      path_hint = (\<lambda>_ _ _ _. [])\<rparr>"

definition plain_context :: edit_context where
  "plain_context = \<lparr>ec_cwd = u ''/w'', ec_display_cwd = None, ec_params = None, ec_hints = False\<rparr>"

definition one_file_disk :: "bytes \<Rightarrow> memory_files" where
  "one_file_disk data = [path_components (u ''/w/f'') \<mapsto> data]"

definition one_hit :: "rg_group list" where
  "one_hit = [(u ''f'', [(2, 58, u ''b'')])]"

lemma memory_reads: "reads_by_path memory_fs s"
  by (auto simp: reads_by_path_def memory_fs_def split: option.splits)

lemma one_hit_ok: "list_all (group_ok memory_fs (one_file_disk (as_bytes two_lines)) (u ''/w'')) one_hit"
proof -
  have "from_utf8_lossy (as_bytes two_lines) = two_lines" "split_lines two_lines = [u ''a'', u ''b'', []]"
    "path_join (u ''/w'') (u ''f'') = u ''/w/f''" "is_heading (u ''f'')" "clean_end (u ''b'')" by code_simp+
  then show ?thesis by (simp add: one_hit_def file_lines_of_def memory_fs_def one_file_disk_def u64_max_def)
qed

lemma grep_anchors_resolve_witness:
  "inject_anchors memory_fs (one_file_disk (as_bytes two_lines)) (u ''/w'') (chunk_scheme 3 8)
      (as_bytes (rg_output (u ''<r'') (u ''1'') (concat (map group_text one_hit)))) =
    Some (as_bytes (rg_output (u ''<r'') (u ''1'')
      (concat (map (anchored_group memory_fs (one_file_disk (as_bytes two_lines)) (u ''/w'') (chunk_scheme 3 8)) one_hit))))"
proof -
  have tag: "62 \<notin> set (u ''<r'')" and summary: "clean_end (u ''Found '' @ u ''1'')"
    and scalar: "list_all is_scalar (rg_output (u ''<r'') (u ''1'') (concat (map group_text one_hit)))" by code_simp+
  from grep_anchors_resolve [OF default_scheme memory_reads one_hit_ok tag summary scalar] show ?thesis by simp
qed

section \<open>Effect of a call\<close>

text \<open>
  C36. A call on a file that exists writes that file, with exactly the content the specification gives for what was
  read, when the specification gives one, and otherwise touches nothing. It reports success exactly when
  the write succeeds, and then reports the old and the new content; it never ends in a tool error.
\<close>

theorem hashline_edit_effect:
  fixes fs :: "'s edit_fs"
  assumes "build_scheme (case ec_params ctx of Some p \<Rightarrow> p | None \<Rightarrow> default_scheme_params) = Inr S" "edits \<noteq> []"
    and "canonicalize os s (resolve_model_path (tilde os) (ec_cwd ctx) (ec_display_cwd ctx) file_path) = Some path"
    and "fs_read fs s path = Inr file_bytes"
  shows "case intended_content (from_utf8_lossy file_bytes) edits S of
      None \<Rightarrow> \<exists>out. hashline_edit_run fs os ctx s file_path edits = (s, Inr out) \<and> (\<forall>app. out \<noteq> SrEditsApplied app)
    | Some new \<Rightarrow>
        (case fs_write fs s path (as_bytes new) of
           (s', None) \<Rightarrow> \<exists>app. hashline_edit_run fs os ctx s file_path edits = (s', Inr (SrEditsApplied app)) \<and>
             sr_old_string app = from_utf8_lossy file_bytes \<and> sr_new_string app = new
         | (s', Some e) \<Rightarrow> hashline_edit_run fs os ctx s file_path edits = (s', Inr (SrNoMatchesFound
             (u ''Edits validated but failed to write file: '' @ computer_error_text e @ u ''.'') path)))"
proof -
  note laws = build_scheme_laws [OF assms(1)]
  let ?r = "apply_edits (from_utf8_lossy file_bytes) edits path S"
  have run: "hashline_edit_run fs os ctx s file_path edits = map_prod id Inr (edit_file fs os ctx S s file_path path edits)"
    using assms by (simp add: hashline_edit_run_def Let_def map_prod_def case_prod_beta)
  note intended = anchor_scheme_laws.apply_edits_intended [OF laws, of "from_utf8_lossy file_bytes" edits path]
  note outcome = anchor_scheme_laws.apply_edits_output [OF laws, of "from_utf8_lossy file_bytes" edits path]
  show ?thesis
  proof (cases "intended_content (from_utf8_lossy file_bytes) edits S")
    case None
    with outcome obtain err where "?r = failed_apply err" by auto
    with None show ?thesis using assms(4)
      by (auto simp: run edit_file_def Let_def failed_apply_def to_search_replace_def split: edit_error_kind.splits)
  next
    case (Some new)
    with outcome obtain app where "ar_output ?r = EditsApplied app" by auto
    moreover obtain s' e where "fs_write fs s path (as_bytes new) = (s', e)" by (metis surj_pair)
    ultimately show ?thesis using Some intended assms(4)
      by (cases e) (auto simp: run edit_file_def Let_def to_search_replace_def plain_error_def error_text_def)
  qed
qed

lemma plain_path: "resolve_model_path id (u ''/w'') None (u ''f'') = u ''/w/f''"
  by code_simp

lemma hashline_edit_effect_witness:
  "fst (hashline_edit_run memory_fs plain_os plain_context (one_file_disk (as_bytes two_lines)) (u ''f'') first_and_last)
     (path_components (u ''/w/f'')) =
   Some (as_bytes (u ''x'' @ [10] @ u ''y'' @ [10] @ u ''a'' @ [10] @ u ''b'' @ [10] @ u ''z'' @ [10]))"
proof -
  let ?s = "one_file_disk (as_bytes two_lines)"
  have content: "from_utf8_lossy (as_bytes two_lines) = two_lines" by code_simp
  have read: "fs_read memory_fs ?s (u ''/w/f'') = Inr (as_bytes two_lines)" by (simp add: memory_fs_def one_file_disk_def)
  have canon: "canonicalize plain_os ?s
      (resolve_model_path (tilde plain_os) (ec_cwd plain_context) (ec_display_cwd plain_context) (u ''f'')) = Some (u ''/w/f'')"
    by (simp add: plain_os_def plain_context_def plain_path one_file_disk_def)
  have scheme: "build_scheme (case ec_params plain_context of Some p \<Rightarrow> p | None \<Rightarrow> default_scheme_params) = Inr (chunk_scheme 3 8)"
    by (simp add: plain_context_def default_scheme)
  have "first_and_last \<noteq> []" by (simp add: first_and_last_def)
  from hashline_edit_effect [OF scheme this canon read] show ?thesis
    unfolding content first_and_last_content by (auto simp: memory_fs_def)
qed

end
