(* ===== verification/Hashline_Gaps.thy ===== *)
theory Hashline_Gaps
  imports Hashline_Properties
begin

text \<open>
  Inputs on which the tool departs from its description: line endings and bytes that an edit elsewhere changes,
  text that is taken for an anchor, edits that are called overlapping, and a suggestion of the wrong line.
\<close>

definition scope_call :: ustr where "scope_call = u ''self::$db->run();''"

definition crlf_file :: ustr where "crlf_file = u ''a'' @ [13, 10] @ u ''b'' @ [13, 10]"

definition insert_top :: "hashline_op list" where "insert_top = [OpInsertAfter (u ''0:'') (u ''x'')]"

text \<open>Two equal lines, and the first one's anchor without its second hash.\<close>

definition brace_lines :: "ustr list" where "brace_lines = [u ''}'', u ''}'']"

definition short_anchor :: ustr where "short_anchor = u ''1:'' @ local_hash 3 (u ''}'')"

lemma short_anchor_parse:
  "anchor_parse short_anchor = Some \<lparr>anchor_line = 1, anchor_local = local_hash 3 (u ''}''), anchor_context = None\<rparr>"
proof -
  let ?a = "\<lparr>anchor_line = 1, anchor_local = local_hash 3 (u ''}''), anchor_context = None\<rparr>"
  have "well_formed_anchor ?a" by (simp add: well_formed_anchor_def local_hash_def encode_letters u64_max_def)
  moreover have "anchor_render ?a = short_anchor"
    by (simp add: anchor_render_def short_anchor_def show_nat.simps u_def)
  ultimately show ?thesis using anchor_parse_render [of ?a] by simp
qed

lemma short_anchor_moved:
  "\<exists>e. validate_anchor short_anchor brace_lines (chunk_scheme 3 8) = Inl e \<and> shifted_to e = Some 2"
proof -
  let ?a = "\<lparr>anchor_line = 1, anchor_local = local_hash 3 (u ''}''), anchor_context = None\<rparr>"
  have "strip_arrow short_anchor = short_anchor"
    using strip_arrow_render(1) [of ?a]
    by (simp add: anchor_render_def short_anchor_def show_nat.simps u_def well_formed_anchor_def local_hash_def encode_letters u64_max_def)
  then have named: "named_anchor short_anchor brace_lines (chunk_scheme 3 8) = Some ?a"
    by (simp add: named_anchor_def short_anchor_parse)
  have stale: "validate (chunk_scheme 3 8) ?a brace_lines = Stale"
    by (simp add: chunk_scheme_def validate_local_def validate_context_def brace_lines_def)
  have "find_shifted (chunk_scheme 3 8) ?a brace_lines DEFAULT_SEARCH_RADIUS = ShiftFound 2"
  proof -
    have "[0..<2] = [0, 1 :: nat]" by code_simp
    moreover have "shift_matches (chunk_scheme 3 8) ?a brace_lines 1" "\<not> shift_matches (chunk_scheme 3 8) ?a brace_lines 0"
      by (simp_all add: shift_matches_def brace_lines_def chunk_scheme_def)
    moreover have "length brace_lines = 2" by (simp add: brace_lines_def)
    ultimately show ?thesis by (simp add: find_shifted_def DEFAULT_SEARCH_RADIUS_def)
  qed
  then show ?thesis using named stale by (simp add: validate_anchor_named stale_suggestion)
qed

text \<open>The calls, through their specification.\<close>

lemma gap_contents:
  "intended_content crlf_file insert_top (chunk_scheme 3 8) = Some (u ''x'' @ [10] @ u ''a'' @ [10] @ u ''b'' @ [10])"
  "intended_content [] [OpInsertAfter (u ''EOF'') (u ''x'')] (chunk_scheme 3 8) = Some ([10] @ u ''x'')"
  "intended_content [65533, 10] insert_top (chunk_scheme 3 8) = Some [120, 10, 65533, 10]"
  by code_simp+

interpretation default_lines: anchor_scheme_laws "chunk_scheme 3 8"
  by (rule build_scheme_laws [OF default_scheme])

lemma default_file:
  "edits \<noteq> [] \<Longrightarrow>
   hashline_edit_run memory_fs plain_os plain_context (one_file_disk data) (u ''f'') edits =
     map_prod id Inr (edit_file memory_fs plain_os plain_context (chunk_scheme 3 8) (one_file_disk data) (u ''f'') (u ''/w/f'') edits)"
  by (simp add: hashline_edit_run_def plain_context_def plain_os_def default_scheme plain_path one_file_disk_def
      map_prod_def case_prod_beta Let_def)

lemma lossy_insert:
  "fst (hashline_edit_run memory_fs plain_os plain_context (one_file_disk [255, 10]) (u ''f'') insert_top)
     (path_components (u ''/w/f'')) = Some [120, 10, 239, 191, 189, 10]"
proof -
  have "as_bytes [120, 10, 65533, 10] = [120, 10, 239, 191, 189, 10]" by code_simp
  moreover have "insert_top \<noteq> []" by (simp add: insert_top_def)
  ultimately show ?thesis unfolding default_file [OF \<open>insert_top \<noteq> []\<close>]
    by (simp add: edit_file_def Let_def default_lines.apply_edits_intended gap_contents memory_fs_def one_file_disk_def)
qed

lemma new_file_reported:
  "case hashline_edit_run memory_fs plain_os plain_context Map.empty (u ''f'') [OpWrite scope_call] of
     (s, out) \<Rightarrow> s (path_components (u ''/w/f'')) = Some (as_bytes scope_call) \<and> (\<exists>msg. out = Inr (SrInvalidInput msg))"
proof -
  have found: "detect_anchor_prefix_in_content scope_call = Some 1" by code_simp
  have "key_file_name (path_components (u ''/w/f'')) = Some (u ''f'')" "path_parent (u ''/w/f'') = Some (True, [u ''w''])"
    by code_simp+
  then have "try_resolve_unicode_filename plain_os Map.empty (u ''/w/f'') = None"
    by (simp add: try_resolve_unicode_filename_def plain_os_def)
  then show ?thesis
    by (simp add: hashline_edit_run_def plain_context_def plain_os_def default_scheme plain_path edit_new_file_def memory_fs_def
        apply_edits_def found failed_apply_def anchor_content_error_def Let_def to_search_replace_def)
qed

text \<open>Search results.\<close>

definition begun :: inject_state where
  "begun = \<lparr>file_anchors = Map.empty, inj_result = u ''<r>'' @ [10], current_file = None\<rparr>"

abbreviation search_disk :: memory_files where
  "search_disk \<equiv> one_file_disk (as_bytes two_lines)"

lemma search_lines: "file_lines_of memory_fs search_disk (u ''/w/f'') = Some [u ''a'', u ''b'', []]"
proof -
  have "from_utf8_lossy (as_bytes two_lines) = two_lines" "split_lines two_lines = [u ''a'', u ''b'', []]" by code_simp+
  then show ?thesis by (simp add: file_lines_of_def memory_fs_def one_file_disk_def)
qed

definition at_file :: inject_state where
  "at_file = begun\<lparr>current_file := Some (u ''/w/f''), inj_result := u ''<r>'' @ [10] @ u ''f''\<rparr>"

lemma heading_read: "inject_line memory_fs search_disk (u ''/w'') (chunk_scheme 3 8) (u ''f'') begun = Some at_file"
proof -
  have "is_heading (u ''f'')" "path_join (u ''/w'') (u ''f'') = u ''/w/f''" "line_gap (u ''<r>'' @ [10]) = []" by code_simp+
  with heading_injected [of "u ''f''" memory_fs search_disk "u ''/w''" "chunk_scheme 3 8" begun] show ?thesis
    by (simp add: at_file_def begun_def)
qed

lemma anchors_read:
  "get_or_generate memory_fs search_disk (chunk_scheme 3 8) Map.empty (u ''/w/f'') =
     ([path_components (u ''/w/f'') \<mapsto> generate_anchors (chunk_scheme 3 8) [u ''a'', u ''b'', []]],
      Some (generate_anchors (chunk_scheme 3 8) [u ''a'', u ''b'', []]))"
  using search_lines by (auto simp: get_or_generate_def file_lines_of_def Let_def split: sum.splits)

lemma dated_heading:
  "parse_rg_line (u ''2024-x.md'') = Some (2024, 45, u ''x.md'')" "parse_rg_line (u ''0-x.md'') = Some (0, 45, u ''x.md'')"
proof -
  have "u ''2024-x.md'' = rg_line_text (2024, 45, u ''x.md'')" "u ''0-x.md'' = rg_line_text (0, 45, u ''x.md'')"
    by (simp_all add: show_nat.simps u_def)
  then show "parse_rg_line (u ''2024-x.md'') = Some (2024, 45, u ''x.md'')" "parse_rg_line (u ''0-x.md'') = Some (0, 45, u ''x.md'')"
    using rg_line_parsed [of 2024 45 "u ''x.md''"] rg_line_parsed [of 0 45 "u ''x.md''"] by (simp_all add: u64_max_def)
qed

lemma search_anchors: "length (generate_anchors (chunk_scheme 3 8) [u ''a'', u ''b'', []]) = 3"
  "generate_anchors (chunk_scheme 3 8) [u ''a'', u ''b'', []] \<noteq> []"
  using default_lines.gen_length [of "[u ''a'', u ''b'', []]"] by auto

lemma heading_not_seen:
  "map_option current_file (inject_lines memory_fs search_disk (u ''/w'') (chunk_scheme 3 8) [u ''f'', u ''2024-x.md''] begun) =
     Some (Some (u ''/w/f''))"
  using dated_heading heading_read anchors_read search_anchors
  by (simp add: inject_line_def [of _ _ _ _ "u ''2024-x.md''"] at_file_def begun_def pass_line_def Let_def)

lemma heading_panics:
  "inject_lines memory_fs search_disk (u ''/w'') (chunk_scheme 3 8) [u ''f'', u ''0-x.md''] begun = None"
  using dated_heading heading_read anchors_read search_anchors
  by (simp add: inject_line_def [of _ _ _ _ "u ''0-x.md''"] at_file_def begun_def Let_def)

lemma lines_joined:
  "\<exists>before after. map_option inj_result (inject_lines memory_fs search_disk (u ''/w'') (chunk_scheme 3 8)
     [u ''f'', u ''1:<p>'', u ''2:b''] begun) = Some (before @ u '':<p>2:'' @ after)"
proof -
  let ?lines = "[u ''a'', u ''b'', []]" and ?S = "chunk_scheme 3 8"
  have len: "length ?lines \<le> u64_max" by (simp add: u64_max_def)
  note number = number_injected [OF memory_reads _ _ search_lines default_lines.gen_length _ _ len]
  have "cache_ok memory_fs search_disk ?S (file_anchors at_file)" "current_file at_file = Some (u ''/w/f'')"
    "line_gap (inj_result at_file) = [10]"
    by (simp_all add: at_file_def begun_def cache_ok_def line_gap_def ends_with_snoc u_def)
  from number [OF this(1,2), of 1 58 "u ''/w''" "u ''<p>''"] this(3)
  obtain c1 where c1: "cache_ok memory_fs search_disk ?S c1" and one: "inject_line memory_fs search_disk (u ''/w'') ?S (rg_line_text (1, 58, u ''<p>'')) at_file =
      Some (at_file\<lparr>file_anchors := c1, inj_result := inj_result at_file @ [10] @ show_nat 1 @ [58] @ anchor_suffix (generate_anchors ?S ?lines ! 0) @ [58] @ u ''<p>''\<rparr>)"
    (is "_ = Some ?st1") by auto
  have "current_file ?st1 = Some (u ''/w/f'')" "line_gap (inj_result ?st1) = []" "cache_ok memory_fs search_disk ?S (file_anchors ?st1)"
    using c1 by (simp_all add: at_file_def begun_def line_gap_def ends_with_snoc u_def)
  from number [OF this(3,1), of 2 58 "u ''/w''" "u ''b''"] this(2)
  obtain c2 where two: "inject_line memory_fs search_disk (u ''/w'') ?S (rg_line_text (2, 58, u ''b'')) ?st1 =
      Some (?st1\<lparr>file_anchors := c2, inj_result := inj_result ?st1 @ show_nat 2 @ [58] @ anchor_suffix (generate_anchors ?S ?lines ! 1) @ [58] @ u ''b''\<rparr>)"
    by auto
  have texts: "u ''1:<p>'' = rg_line_text (1, 58, u ''<p>'')" "u ''2:b'' = rg_line_text (2, 58, u ''b'')"
    by (simp_all add: show_nat.simps u_def)
  have digits: "show_nat 2 = [50]" by (simp add: show_nat.simps)
  have "u '':<p>2:'' = [58] @ u ''<p>'' @ [50, 58]" by (simp add: u_def)
  with one two heading_read show ?thesis unfolding texts
    by (intro exI [of _ "inj_result at_file @ [10] @ show_nat 1 @ [58] @ anchor_suffix (generate_anchors ?S ?lines ! 0)"]
        exI [of _ "anchor_suffix (generate_anchors ?S ?lines ! 1) @ [58] @ u ''b''"]) (simp add: digits del: rg_line_text.simps)
qed

text \<open>
  Eleven inputs on which the tools depart from their description. (1) Inserting a line at the top of a file with
  carriage returns removes them from every line. (2) Inserting at the end of an empty file leaves an empty first line.
  (3) A line of code such as \<^verbatim>\<open>self::$db->run();\<close> is taken for an anchored line and rejected. (4) Writing a new file with
  that content creates the file and then reports that the input was invalid. (5) A byte that is not UTF-8 is replaced by
  three others when a line is inserted elsewhere. (6) An insertion after one line and a replacement of the next are
  rejected as overlapping. (7) The anchor of the first of two equal lines, without its second hash, is
  reported as moved to the second of them. (8) The context after a replaced empty line begins with that line.
  (9) In search results a line that ends in a closing bracket is joined with the next one. (10) A heading that starts
  with a number and a dash is taken for a line of the previous file, which stays the current one for the lines that follow.
  (11) The heading \<^verbatim>\<open>0-x.md\<close> after another file panics.
\<close>

lemma hashline_gaps:
  "ar_new_content (apply_edits crlf_file insert_top [] (chunk_scheme 3 8)) = Some (u ''x'' @ [10] @ u ''a'' @ [10] @ u ''b'' @ [10]) \<and>
   ar_new_content (apply_edits [] [OpInsertAfter (u ''EOF'') (u ''x'')] [] (chunk_scheme 3 8)) = Some ([10] @ u ''x'') \<and>
   detect_anchor_prefix_in_content scope_call = Some 1 \<and>
   (case hashline_edit_run memory_fs plain_os plain_context Map.empty (u ''f'') [OpWrite scope_call] of
      (s, out) \<Rightarrow> s (path_components (u ''/w/f'')) = Some (as_bytes scope_call) \<and> (\<exists>msg. out = Inr (SrInvalidInput msg))) \<and>
   fst (hashline_edit_run memory_fs plain_os plain_context (one_file_disk [255, 10]) (u ''f'') insert_top)
     (path_components (u ''/w/f'')) = Some [120, 10, 239, 191, 189, 10] \<and>
   check_overlaps [\<lparr>original_idx = 0, op_start = 1, op_end = 1, op_lines = [u ''x'']\<rparr>,
     \<lparr>original_idx = 1, op_start = 1, op_end = 2, op_lines = [u ''y'']\<rparr>] \<noteq> None \<and>
   (\<exists>e. validate_anchor short_anchor brace_lines (chunk_scheme 3 8) = Inl e \<and> shifted_to e = Some 2) \<and>
   sd_context_after (sr_detail_of [u ''a'', [], u ''b'']
     \<lparr>rd_old_line = 2, rd_old_text = [], rd_new_line = 2, rd_new_text = u ''x''\<rparr>) = [10] @ u ''b'' @ [10] \<and>
   (\<exists>before after. map_option inj_result (inject_lines memory_fs search_disk (u ''/w'') (chunk_scheme 3 8)
      [u ''f'', u ''1:<p>'', u ''2:b''] begun) = Some (before @ u '':<p>2:'' @ after)) \<and>
   map_option current_file (inject_lines memory_fs search_disk (u ''/w'') (chunk_scheme 3 8) [u ''f'', u ''2024-x.md''] begun) =
     Some (Some (u ''/w/f'')) \<and>
   inject_lines memory_fs search_disk (u ''/w'') (chunk_scheme 3 8) [u ''f'', u ''0-x.md''] begun = None"
proof (intro conjI)
  show "detect_anchor_prefix_in_content scope_call = Some 1" by code_simp
  show "check_overlaps [\<lparr>original_idx = 0, op_start = 1, op_end = 1, op_lines = [u ''x'']\<rparr>,
     \<lparr>original_idx = 1, op_start = 1, op_end = 2, op_lines = [u ''y'']\<rparr>] \<noteq> None" by code_simp
  show "sd_context_after (sr_detail_of [u ''a'', [], u ''b'']
     \<lparr>rd_old_line = 2, rd_old_text = [], rd_new_line = 2, rd_new_text = u ''x''\<rparr>) = [10] @ u ''b'' @ [10]" by code_simp
qed (simp_all only: default_lines.apply_edits_intended gap_contents lossy_insert new_file_reported short_anchor_moved
    lines_joined heading_not_seen heading_panics)

end
