(* ===== verification/Sampler_Error.thy ===== *)
theory Sampler_Error
  imports Chat_Tokens
begin

text \<open>
  Errors of the model client (\<^verbatim>\<open>codegen/xai-grok-sampling-types/src/error.rs\<close>,
  \<^verbatim>\<open>codegen/xai-grok-sampler/src/events.rs\<close>): the variants of \<^verbatim>\<open>SamplingError\<close>, the predicates by which
  the retry logic tells them apart, the serializable summary that is put into events and the error that is
  rebuilt from it.

  Errors of the HTTP client are the final_answers to the questions the code asks of them, errors of the JSON
  parser are their text. What the code takes from these libraries is the record \<open>sampler_libs\<close>.
\<close>

section \<open>Errors\<close>

datatype empty_reason = ReasoningOnly | NoVisibleContent

definition empty_reason_str :: "empty_reason \<Rightarrow> ustr" where
  "empty_reason_str r = (case r of ReasoningOnly \<Rightarrow> u ''reasoning_only'' | NoVisibleContent \<Rightarrow> u ''no_visible_content'')"

record empty_response_context =
  ctx_reason :: empty_reason
  had_reasoning :: bool
  content_len :: nat
  tool_call_count :: nat
  finish_reason :: "ustr option"
  ctx_completion_tokens :: "nat option"
  ctx_reasoning_tokens :: "nat option"
  ctx_prompt_tokens :: "nat option"
  ctx_model :: ustr
  first_choice_seen :: bool

record response_model_metadata =
  md_context_window :: "nat option"
  md_max_completion_tokens :: "nat option"
  models_etag :: "ustr option"

record reqwest_error =
  http_is_timeout :: bool
  http_is_connect :: bool
  http_is_status :: bool
  http_status :: "nat option"
  http_is_request :: bool
  http_is_body :: bool
  http_text :: ustr

datatype sampling_error =
    Auth ustr
  | InvalidConfiguration ustr
  | Http reqwest_error
  | Serialization ustr
  | Api nat ustr "response_model_metadata option" "nat option" "bool option"
  | EventStreamError ustr
  | StreamError ustr ustr
  | IdleTimeout nat
  | EmptyResponse empty_response_context
  | MaxTokensTruncation
  | DoomLoopDetected "ustr list" "nat option"

text \<open>
  From the libraries: the text of \<^verbatim>\<open>serde::de::Error::custom\<close>, \<^verbatim>\<open>StatusCode::from_u16\<close> and the display of
  a status code.
\<close>

record sampler_libs =
  de_custom :: "ustr \<Rightarrow> ustr"
  status_from_u16 :: "nat \<Rightarrow> nat option"
  status_text :: "nat \<Rightarrow> ustr"

definition SERIALIZATION_DISPLAY_PREFIX :: ustr where
  "SERIALIZATION_DISPLAY_PREFIX = u ''serialization error: ''"

definition sampling_error_text :: "sampler_libs \<Rightarrow> sampling_error \<Rightarrow> ustr" where
  "sampling_error_text L err = (case err of
       Auth m \<Rightarrow> m
     | InvalidConfiguration m \<Rightarrow> u ''invalid client configuration: '' @ m
     | Http e \<Rightarrow> u ''request error: '' @ http_text e
     | Serialization t \<Rightarrow> SERIALIZATION_DISPLAY_PREFIX @ t
     | Api status m _ _ _ \<Rightarrow> u ''API error (status '' @ status_text L status @ u ''): '' @ m
     | EventStreamError m \<Rightarrow> u ''reqwest error stream: '' @ m
     | StreamError t m \<Rightarrow> u ''stream error ('' @ t @ u ''): '' @ m
     | IdleTimeout n \<Rightarrow> u ''inference idle timeout after '' @ show_nat n @ u ''s with no chunks''
     | EmptyResponse c \<Rightarrow> u ''empty response from model ('' @ empty_reason_str (ctx_reason c) @ u '')''
     | MaxTokensTruncation \<Rightarrow> u ''response truncated by max_tokens''
     | DoomLoopDetected ts _ \<Rightarrow> u ''doom loop detected: '' @ join (u '', '') ts)"

definition serialization_message :: "sampler_libs \<Rightarrow> ustr \<Rightarrow> sampling_error" where
  "serialization_message L m = Serialization (de_custom L m)"

definition serialization_from_rendered :: "sampler_libs \<Rightarrow> ustr \<Rightarrow> sampling_error" where
  "serialization_from_rendered L rendered =
     serialization_message L (case strip_prefix SERIALIZATION_DISPLAY_PREFIX rendered of Some t \<Rightarrow> t | None \<Rightarrow> rendered)"

definition is_auth_error :: "sampling_error \<Rightarrow> bool" where
  "is_auth_error err \<longleftrightarrow> (case err of Auth _ \<Rightarrow> True | Api status _ _ _ _ \<Rightarrow> status = 401 | _ \<Rightarrow> False)"

definition is_rate_limited :: "sampling_error \<Rightarrow> bool" where
  "is_rate_limited err \<longleftrightarrow> (case err of Api status _ _ _ _ \<Rightarrow> status = 429 | _ \<Rightarrow> False)"

definition is_payload_too_large :: "sampling_error \<Rightarrow> bool" where
  "is_payload_too_large err \<longleftrightarrow> (case err of Api status _ _ _ _ \<Rightarrow> status = 413 | _ \<Rightarrow> False)"

definition is_likely_body_rejected :: "sampling_error \<Rightarrow> bool" where
  "is_likely_body_rejected err \<longleftrightarrow> (case err of
       Http e \<Rightarrow> (http_is_request e \<or> http_is_body e) \<and> \<not> http_is_timeout e \<and> \<not> http_is_connect e
     | _ \<Rightarrow> False)"

definition is_encrypted_content_error :: "sampling_error \<Rightarrow> bool" where
  "is_encrypted_content_error err \<longleftrightarrow> (case err of
       Api status m _ _ _ \<Rightarrow> status = 400 \<and> str_contains (u ''encrypted_content'') m
     | _ \<Rightarrow> False)"

definition is_image_processing_error :: "sampling_error \<Rightarrow> bool" where
  "is_image_processing_error err \<longleftrightarrow> (case err of
       Api status m _ _ _ \<Rightarrow> (status = 400 \<or> status = 500) \<and> str_contains (u ''Could not process image'') m
     | _ \<Rightarrow> False)"

definition is_retryable_reqwest :: "reqwest_error \<Rightarrow> bool" where
  "is_retryable_reqwest e \<longleftrightarrow>
     (if http_is_timeout e \<or> http_is_connect e then True
      else if http_is_status e
           then (case http_status e of Some s \<Rightarrow> (500 \<le> s \<and> s < 600) \<or> s = 429 | None \<Rightarrow> False)
      else http_is_request e \<or> http_is_body e)"

definition is_retryable :: "sampling_error \<Rightarrow> bool" where
  "is_retryable err \<longleftrightarrow> (case err of
       Auth _ \<Rightarrow> False
     | InvalidConfiguration _ \<Rightarrow> False
     | Http e \<Rightarrow> is_retryable_reqwest e
     | Serialization _ \<Rightarrow> False
     | Api status _ _ _ _ \<Rightarrow> status \<in> {429, 500, 502, 503, 504, 520}
     | EventStreamError _ \<Rightarrow> True
     | StreamError _ _ \<Rightarrow> True
     | IdleTimeout _ \<Rightarrow> False
     | EmptyResponse _ \<Rightarrow> True
     | MaxTokensTruncation \<Rightarrow> False
     | DoomLoopDetected _ _ \<Rightarrow> True)"

definition err_model_metadata :: "sampling_error \<Rightarrow> response_model_metadata option" where
  "err_model_metadata err = (case err of Api _ _ md _ _ \<Rightarrow> md | _ \<Rightarrow> None)"

definition retry_after :: "sampling_error \<Rightarrow> nat option" where
  "retry_after err = (case err of Api _ _ _ ra _ \<Rightarrow> ra | _ \<Rightarrow> None)"

definition should_retry_header :: "sampling_error \<Rightarrow> bool option" where
  "should_retry_header err = (case err of Api _ _ _ _ sr \<Rightarrow> sr | _ \<Rightarrow> None)"

definition message_is_context_length_error :: "ustr \<Rightarrow> bool" where
  "message_is_context_length_error message =
     (let m = to_ascii_lowercase message
      in str_contains (u ''too long for this model'') m \<or> str_contains (u ''prompt is too long'') m \<or>
         str_contains (u ''maximum prompt length'') m \<or> str_contains (u ''maximum context length'') m \<or>
         str_contains (u ''context_length_exceeded'') m)"

definition is_context_length_error :: "sampling_error \<Rightarrow> bool" where
  "is_context_length_error err = (case err of
       Api _ m _ _ _ \<Rightarrow> message_is_context_length_error m
     | StreamError _ m \<Rightarrow> message_is_context_length_error m
     | _ \<Rightarrow> False)"

definition is_doom_loop :: "sampling_error \<Rightarrow> bool" where
  "is_doom_loop err \<longleftrightarrow> (case err of DoomLoopDetected _ _ \<Rightarrow> True | _ \<Rightarrow> False)"

lemmas predicate_defs =
  is_auth_error_def is_rate_limited_def is_payload_too_large_def is_likely_body_rejected_def
  is_encrypted_content_error_def is_image_processing_error_def is_retryable_def retry_after_def
  should_retry_header_def is_context_length_error_def is_doom_loop_def

section \<open>Summaries of errors\<close>

datatype sampling_error_kind =
    KAuth | KHttp | KApi | KSerialization | KIdleTimeout | KRateLimited | KEmptyResponse
  | KMaxTokensTruncation | KDoomLoopDetected

record sampling_error_info =
  info_kind :: sampling_error_kind
  status_code :: "nat option"
  info_message :: ustr
  info_is_retryable :: bool
  info_retry_after_secs :: "nat option"
  info_model_metadata :: "response_model_metadata option"
  info_empty_context :: "empty_response_context option"
  info_doom_triggers :: "ustr list option"
  info_aborted_at_chunk :: "nat option"

definition error_kind :: "sampling_error \<Rightarrow> sampling_error_kind" where
  "error_kind err = (case err of
       Auth _ \<Rightarrow> KAuth
     | InvalidConfiguration _ \<Rightarrow> KApi
     | Http _ \<Rightarrow> KHttp
     | Serialization _ \<Rightarrow> KSerialization
     | Api _ _ _ _ _ \<Rightarrow> if is_rate_limited err then KRateLimited else KApi
     | EventStreamError _ \<Rightarrow> KHttp
     | StreamError _ _ \<Rightarrow> KApi
     | IdleTimeout _ \<Rightarrow> KIdleTimeout
     | EmptyResponse _ \<Rightarrow> KEmptyResponse
     | MaxTokensTruncation \<Rightarrow> KMaxTokensTruncation
     | DoomLoopDetected _ _ \<Rightarrow> KDoomLoopDetected)"

definition info_of :: "sampler_libs \<Rightarrow> sampling_error \<Rightarrow> sampling_error_info" where
  "info_of L err =
     \<lparr>info_kind = error_kind err,
      status_code = (case err of Api status _ _ _ _ \<Rightarrow> Some status | _ \<Rightarrow> None),
      info_message = sampling_error_text L err,
      info_is_retryable = is_retryable err,
      info_retry_after_secs = retry_after err,
      info_model_metadata = err_model_metadata err,
      info_empty_context = (case err of EmptyResponse c \<Rightarrow> Some c | _ \<Rightarrow> None),
      info_doom_triggers = (case err of DoomLoopDetected ts _ \<Rightarrow> Some ts | _ \<Rightarrow> None),
      info_aborted_at_chunk = (case err of DoomLoopDetected _ c \<Rightarrow> c | _ \<Rightarrow> None)\<rparr>"

text \<open>\<^verbatim>\<open>split_whitespace\<close>, and the first token of the form \<open><number>s\<close>.\<close>

fun split_ws :: "ustr \<Rightarrow> ustr list" where
  "split_ws [] = [[]]"
| "split_ws (c # s) =
     (if is_whitespace c then [] # split_ws s
      else (case split_ws s of w # ws \<Rightarrow> (c # w) # ws | [] \<Rightarrow> [[c]]))"

definition split_whitespace :: "ustr \<Rightarrow> ustr list" where
  "split_whitespace s = filter (\<lambda>w. w \<noteq> []) (split_ws s)"

fun find_seconds :: "ustr list \<Rightarrow> nat option" where
  "find_seconds [] = None"
| "find_seconds (tok # toks) =
     (case Option.bind (strip_suffix (u ''s'') tok) (parse_uint u64_max) of
        Some n \<Rightarrow> Some n
      | None \<Rightarrow> find_seconds toks)"

definition synthesize_from_info :: "sampler_libs \<Rightarrow> sampling_error_info \<Rightarrow> sampling_error" where
  "synthesize_from_info L info = (case info_kind info of
       KIdleTimeout \<Rightarrow>
         IdleTimeout (case find_seconds (split_whitespace (info_message info)) of Some n \<Rightarrow> n | None \<Rightarrow> 0)
     | KAuth \<Rightarrow> Auth (info_message info)
     | KSerialization \<Rightarrow> serialization_from_rendered L (info_message info)
     | KHttp \<Rightarrow> EventStreamError (info_message info)
     | KApi \<Rightarrow>
         Api (case Option.bind (status_code info) (status_from_u16 L) of Some s \<Rightarrow> s | None \<Rightarrow> 500)
           (info_message info) (info_model_metadata info) (info_retry_after_secs info) None
     | KRateLimited \<Rightarrow>
         Api (case Option.bind (status_code info) (status_from_u16 L) of Some s \<Rightarrow> s | None \<Rightarrow> 500)
           (info_message info) (info_model_metadata info) (info_retry_after_secs info) None
     | KEmptyResponse \<Rightarrow>
         (case info_empty_context info of
            Some c \<Rightarrow> EmptyResponse c
          | None \<Rightarrow> EventStreamError (info_message info))
     | KMaxTokensTruncation \<Rightarrow> MaxTokensTruncation
     | KDoomLoopDetected \<Rightarrow>
         DoomLoopDetected (case info_doom_triggers info of Some ts \<Rightarrow> ts | None \<Rightarrow> [])
           (info_aborted_at_chunk info))"

section \<open>Laws\<close>

lemma split_ws_not_Nil [simp]: "split_ws s \<noteq> []"
  by (induction s) (auto split: list.splits)

lemma split_ws_word:
  "\<forall>c \<in> set w. \<not> is_whitespace c \<Longrightarrow> split_ws (w @ t) = (case split_ws t of v # vs \<Rightarrow> (w @ v) # vs | [] \<Rightarrow> [w])"
  by (induction w) (auto split: list.splits)

lemma show_nat_only_digits: "c \<in> set (show_nat n) \<Longrightarrow> 48 \<le> c \<and> c \<le> 57"
proof (induction n rule: show_nat.induct)
  case (1 n)
  then show ?case by (cases "n < 10") (auto simp: show_nat.simps [of n])
qed

lemma show_nat_visible: "\<forall>c \<in> set (show_nat n). \<not> is_whitespace c"
  using show_nat_only_digits [of _ n] by (fastforce simp: is_whitespace_def)

lemma split_idle_text:
  "split_whitespace (sampling_error_text L (IdleTimeout n)) =
     [u ''inference'', u ''idle'', u ''timeout'', u ''after'', show_nat n @ u ''s'', u ''with'', u ''no'', u ''chunks'']"
  by (simp add: split_whitespace_def sampling_error_text_def u_simps is_whitespace_def
      split_ws_word [OF show_nat_visible])

lemma find_seconds_idle:
  "n \<le> u64_max \<Longrightarrow> find_seconds (split_whitespace (sampling_error_text L (IdleTimeout n))) = Some n"
  by (simp add: split_idle_text affix_defs parse_uint_show_nat u_simps)

text \<open>An error that a stream transform reports of its own is rebuilt as it was, except for its text.\<close>

lemma synthesize_idle: "n \<le> u64_max \<Longrightarrow> synthesize_from_info L (info_of L (IdleTimeout n)) = IdleTimeout n"
  using find_seconds_idle [of n L] by (simp add: synthesize_from_info_def info_of_def error_kind_def)

lemma synthesize_doom: "synthesize_from_info L (info_of L (DoomLoopDetected ts c)) = DoomLoopDetected ts c"
  by (simp add: synthesize_from_info_def info_of_def error_kind_def)

lemma synthesize_api:
  "status_from_u16 L s = Some s \<Longrightarrow>
   synthesize_from_info L (info_of L (Api s m md ra sr)) = Api s (sampling_error_text L (Api s m md ra sr)) md ra None"
  by (cases "s = 429")
    (simp_all add: synthesize_from_info_def info_of_def error_kind_def retry_after_def err_model_metadata_def is_rate_limited_def)

lemma synthesize_doom_iff: "is_doom_loop (synthesize_from_info L i) \<longleftrightarrow> info_kind i = KDoomLoopDetected"
  by (simp add: synthesize_from_info_def is_doom_loop_def serialization_from_rendered_def serialization_message_def
      split: sampling_error_kind.splits option.splits)

lemma error_kind_doom_iff: "error_kind e = KDoomLoopDetected \<longleftrightarrow> is_doom_loop e"
  by (simp add: error_kind_def is_doom_loop_def split: sampling_error.splits)

end
