(* ===== verification/Sampler_Retry.thy ===== *)
theory Sampler_Retry
  imports Sampler_Error
begin

text \<open>
  The retry policy of the model client (\<^verbatim>\<open>codegen/xai-grok-sampler/src/retry.rs\<close>): the waiting times and
  the decision what to do after a failed attempt.

  Durations are milliseconds. The jitter comes from a hash of a process-wide counter and, for the
  exponential waiting times, of the thread; \<open>h\<close> is the value of that hash. Counters are 32 bits wide and wrap.
\<close>

section \<open>Waiting times\<close>

definition u32_max :: nat where "u32_max = 2 ^ 32 - 1"

definition u32_add :: "nat \<Rightarrow> nat \<Rightarrow> nat" where "u32_add a b = (a + b) mod 2 ^ 32"

definition RATE_LIMIT_RETRY_THRESHOLD :: nat where "RATE_LIMIT_RETRY_THRESHOLD = 2"

definition DEFAULT_MAX_RETRIES :: nat where "DEFAULT_MAX_RETRIES = 15"

definition resolve_max_retries :: "ustr option \<Rightarrow> nat option \<Rightarrow> nat" where
  "resolve_max_retries env_override model_max_retries =
     (case Option.bind env_override (parse_uint u32_max) of
        Some n \<Rightarrow> n
      | None \<Rightarrow> (case model_max_retries of Some n \<Rightarrow> n | None \<Rightarrow> DEFAULT_MAX_RETRIES))"

definition doom_loop_backoff :: "nat \<Rightarrow> nat" where "doom_loop_backoff h = h mod 251"

definition backoff_base :: "nat \<Rightarrow> nat" where
  "backoff_base retry_count =
     (let shift = retry_count - 1
      in min (if shift < 64 then (2000 * 2 ^ shift) mod 2 ^ 64 else u64_max) 30000)"

definition retry_backoff_with_jitter :: "nat \<Rightarrow> nat \<Rightarrow> nat" where
  "retry_backoff_with_jitter h retry_count =
     (let base_ms = backoff_base retry_count;
          jitter_range = base_ms div 5;
          jitter = h mod (jitter_range * 2 + 1)
      in base_ms - jitter_range + jitter)"

section \<open>Decisions\<close>

datatype retry_decision =
    Retry nat
  | RetryWithBackoff nat bool
  | RetryWithImageStrip
  | RetryWithClientRebuild nat
  | EmitToSession sampling_error
  | Fatal sampling_error

definition clone_error :: "sampler_libs \<Rightarrow> sampling_error \<Rightarrow> sampling_error" where
  "clone_error L err = (case err of
       Http e \<Rightarrow> EventStreamError (http_text e)
     | Serialization t \<Rightarrow> serialization_message L t
     | _ \<Rightarrow> err)"

definition error_backoff :: "nat \<Rightarrow> sampling_error \<Rightarrow> nat \<Rightarrow> nat" where
  "error_backoff h err next_attempt =
     (case retry_after err of Some secs \<Rightarrow> secs * 1000 | None \<Rightarrow> retry_backoff_with_jitter h next_attempt)"

definition classify_error ::
  "sampler_libs \<Rightarrow> nat \<Rightarrow> sampling_error \<Rightarrow> nat \<Rightarrow> nat \<Rightarrow> nat \<Rightarrow> retry_decision" where
  "classify_error L h err retry_count max_retries rate_limit_threshold =
     (if is_auth_error err then EmitToSession (clone_error L err)
      else if is_encrypted_content_error err then EmitToSession (clone_error L err)
      else if is_payload_too_large err then RetryWithImageStrip
      else if is_image_processing_error err then RetryWithImageStrip
      else if should_retry_header err = Some False then Fatal (clone_error L err)
      else if is_context_length_error err then Fatal (clone_error L err)
      else if is_doom_loop err then Retry (doom_loop_backoff h)
      else if is_rate_limited err
      then (let next_attempt = u32_add retry_count 1
            in if min max_retries rate_limit_threshold \<le> next_attempt then Fatal (clone_error L err)
               else RetryWithBackoff (error_backoff h err next_attempt) True)
      else if is_retryable err
      then (let next_attempt = u32_add retry_count 1
            in if max_retries \<le> next_attempt then Fatal (clone_error L err)
               else if next_attempt = 1 then RetryWithClientRebuild (error_backoff h err next_attempt)
               else Retry (error_backoff h err next_attempt))
      else Fatal (clone_error L err))"

section \<open>Laws of the waiting times\<close>

lemma backoff_base_small: "backoff_base 0 = 2000" "backoff_base 1 = 2000" "backoff_base 2 = 4000"
  "backoff_base 3 = 8000" "backoff_base 4 = 16000"
  by (simp_all add: backoff_base_def)

lemma shl_capped: "4 \<le> k \<Longrightarrow> k < 60 \<Longrightarrow> 30000 \<le> (2000 * 2 ^ k) mod (2 ^ 64 :: nat)"
proof -
  assume k: "4 \<le> k" "k < 60"
  consider "k \<le> 53" | "k \<in> {54, 55, 56, 57, 58, 59}" using k by force
  then show ?thesis
  proof cases
    case 1
    have "(2000 :: nat) * 2 ^ k \<le> 2000 * 2 ^ 53" using 1 by (intro mult_left_mono power_increasing) auto
    also have "\<dots> < 2 ^ 64" by simp
    finally have "2000 * 2 ^ k mod (2 ^ 64 :: nat) = 2000 * 2 ^ k" by simp
    moreover have "(2000 :: nat) * 2 ^ 4 \<le> 2000 * 2 ^ k" using k by (intro mult_left_mono power_increasing) auto
    ultimately show ?thesis by simp
  next
    case 2
    then show ?thesis by auto
  qed
qed

lemma shl_lost: "60 \<le> k \<Longrightarrow> k < 64 \<Longrightarrow> (2000 * 2 ^ k) mod (2 ^ 64 :: nat) = 0"
proof -
  assume "60 \<le> k" "k < 64"
  then have "k \<in> {60, 61, 62, 63}" by force
  then show ?thesis by auto
qed

lemma backoff_base_exact:
  "backoff_base n = (if 61 \<le> n \<and> n \<le> 64 then 0 else min (2000 * 2 ^ (n - 1)) 30000)"
proof -
  consider "n - 1 < 4" | "4 \<le> n - 1" "n - 1 < 60" | "60 \<le> n - 1" "n - 1 < 64" | "64 \<le> n - 1" by linarith
  then show ?thesis
  proof cases
    case 1
    then have "n - 1 \<in> {0, 1, 2, 3}" by force
    then show ?thesis using 1 by (auto simp: backoff_base_def)
  next
    case 2
    have "(2000 :: nat) * 2 ^ 4 \<le> 2000 * 2 ^ (n - 1)" using 2 by (intro mult_left_mono power_increasing) auto
    then show ?thesis using 2 shl_capped [of "n - 1"] by (auto simp: backoff_base_def Let_def)
  next
    case 3
    then show ?thesis using shl_lost [of "n - 1"] by (auto simp: backoff_base_def Let_def)
  next
    case 4
    have "(2000 :: nat) * 2 ^ 4 \<le> 2000 * 2 ^ (n - 1)" using 4 by (intro mult_left_mono power_increasing) auto
    then show ?thesis using 4 by (auto simp: backoff_base_def Let_def u64_max_def)
  qed
qed

lemma jitter_bounds:
  "backoff_base n - backoff_base n div 5 \<le> retry_backoff_with_jitter h n"
  "retry_backoff_with_jitter h n \<le> backoff_base n + backoff_base n div 5"
proof -
  have "h mod (backoff_base n div 5 * 2 + 1) < backoff_base n div 5 * 2 + 1" by (rule mod_less_divisor) simp
  moreover have "backoff_base n div 5 \<le> backoff_base n" by simp
  ultimately show "retry_backoff_with_jitter h n \<le> backoff_base n + backoff_base n div 5"
    unfolding retry_backoff_with_jitter_def Let_def by linarith
qed (simp add: retry_backoff_with_jitter_def Let_def)

lemma jitter_full: "b \<in> {backoff_base n - backoff_base n div 5..backoff_base n + backoff_base n div 5} \<Longrightarrow>
   \<exists>h. retry_backoff_with_jitter h n = b"
  by (rule exI [of _ "b - (backoff_base n - backoff_base n div 5)"])
    (auto simp: retry_backoff_with_jitter_def Let_def)

section \<open>Laws of the decisions\<close>

lemma clone_error_retryable: "is_retryable err \<Longrightarrow> is_retryable (clone_error L err)"
  by (simp add: clone_error_def is_retryable_def serialization_message_def split: sampling_error.splits)

lemma clone_error_kind: "error_kind (clone_error L err) = error_kind err"
  by (simp add: clone_error_def error_kind_def serialization_message_def is_rate_limited_def split: sampling_error.splits)

lemma clone_error_doom [simp]: "is_doom_loop (clone_error L err) = is_doom_loop err"
  by (simp add: clone_error_def is_doom_loop_def serialization_message_def split: sampling_error.splits)

lemma clone_error_idem:
  "(\<And>t. de_custom L t = t) \<Longrightarrow> clone_error L (clone_error L err) = clone_error L err"
  by (simp add: clone_error_def serialization_message_def split: sampling_error.splits)

text \<open>
  What a decision to go on rests on: images may be stripped, the budget is not used up, or the error
  is a loop that the task was to intercept.
\<close>

lemma classify_retries:
  assumes "classify_error L h err rc mx thr = d"
  shows "d = RetryWithImageStrip \<or> (\<exists>e. d = EmitToSession e) \<or> (\<exists>e. d = Fatal e) \<or> is_doom_loop err \<or>
    u32_add rc 1 < mx \<and> is_retryable err"
  using assms by (auto simp: classify_error_def Let_def is_retryable_def is_rate_limited_def
      split: if_splits sampling_error.splits)

lemma classify_ends:
  "classify_error L h err rc mx thr = EmitToSession e \<Longrightarrow> e = clone_error L err"
  "classify_error L h err rc mx thr = Fatal e \<Longrightarrow> e = clone_error L err"
  by (auto simp: classify_error_def Let_def split: if_splits)

end
