(* ===== verification/Sampler_Doom.thy ===== *)
theory Sampler_Doom
  imports Sampler_Retry
begin

text \<open>
  Reports of generation loops (\<^verbatim>\<open>codegen/xai-grok-sampling-types/src/doom_loop.rs\<close>,
  \<^verbatim>\<open>codegen/xai-grok-sampler/src/doom_loop.rs\<close>): the labels, the policy that tells which of them count,
  and the collector that gathers them during one attempt.

  The parser of JSON texts is the parameter \<open>J\<close>; the values it makes are modelled.
\<close>

section \<open>Labels and policy\<close>

record doom_loop_policy =
  max_threshold :: nat
  doom_max_retries :: nat

definition DEFAULT_MAX_THRESHOLD :: nat where "DEFAULT_MAX_THRESHOLD = 8"
definition DEFAULT_DOOM_RETRIES :: nat where "DEFAULT_DOOM_RETRIES = 2"

definition default_doom_policy :: doom_loop_policy where
  "default_doom_policy = \<lparr>max_threshold = DEFAULT_MAX_THRESHOLD, doom_max_retries = DEFAULT_DOOM_RETRIES\<rparr>"

definition clamp :: "nat \<Rightarrow> nat \<Rightarrow> nat \<Rightarrow> nat" where
  "clamp lo hi v = (if v < lo then lo else if hi < v then hi else v)"

definition clamp_max_threshold :: "nat \<Rightarrow> nat" where "clamp_max_threshold = clamp 2 64"
definition clamp_max_retries :: "nat \<Rightarrow> nat" where "clamp_max_retries = clamp 0 5"

datatype doom_signal_kind = TailRepetition nat | LowLogprob | UnknownSignal ustr

record doom_signal =
  signal_kind :: doom_signal_kind
  channel :: ustr
  raw_label :: ustr

definition parse_signal :: "ustr \<Rightarrow> doom_signal" where
  "parse_signal raw =
     (let (head, chan) = (case split_first (u ''@'') raw of Some p \<Rightarrow> p | None \<Rightarrow> (raw, []));
          kind = (case split_first (u '':'') head of
                    Some (name, threshold) \<Rightarrow>
                      if name = u ''tail_repetition''
                      then (case parse_uint u32_max threshold of
                              Some t \<Rightarrow> TailRepetition t
                            | None \<Rightarrow> UnknownSignal head)
                      else UnknownSignal head
                  | None \<Rightarrow> if head = u ''low_logprob'' then LowLogprob else UnknownSignal head)
      in \<lparr>signal_kind = kind, channel = chan, raw_label = raw\<rparr>)"

definition tightest_step ::
  "ustr option \<times> (nat \<times> ustr) option \<Rightarrow> ustr \<Rightarrow> ustr option \<times> (nat \<times> ustr) option" where
  "tightest_step acc raw =
     (let (first, best) = acc
      in (if first = None then Some raw else first,
          case signal_kind (parse_signal raw) of
            TailRepetition t \<Rightarrow>
              (case best of
                 None \<Rightarrow> Some (t, raw)
               | Some (bt, _) \<Rightarrow> if t < bt then Some (t, raw) else best)
          | _ \<Rightarrow> best))"

definition tightest :: "ustr list \<Rightarrow> ustr option" where
  "tightest raws =
     (let (first, best) = foldl tightest_step (None, None) raws
      in case best of Some (_, raw) \<Rightarrow> Some raw | None \<Rightarrow> first)"

definition is_confident :: "doom_loop_policy \<Rightarrow> doom_signal \<Rightarrow> bool" where
  "is_confident p s \<longleftrightarrow>
     channel s = u ''thinking'' \<and> (case signal_kind s of TailRepetition t \<Rightarrow> t \<le> max_threshold p | _ \<Rightarrow> False)"

definition confident_triggers :: "doom_loop_policy \<Rightarrow> doom_signal list \<Rightarrow> ustr list" where
  "confident_triggers p signals = map raw_label (filter (is_confident p) signals)"

section \<open>Payloads\<close>

datatype json_value =
    JNull
  | JBool bool
  | JNumber ustr
  | JString ustr
  | JArray "json_value list"
  | JObject "(ustr \<times> json_value) list"

definition json_get :: "ustr \<Rightarrow> json_value \<Rightarrow> json_value option" where
  "json_get k v = (case v of JObject kvs \<Rightarrow> map_of kvs k | _ \<Rightarrow> None)"

definition json_str :: "json_value \<Rightarrow> ustr option" where
  "json_str v = (case v of JString s \<Rightarrow> Some s | _ \<Rightarrow> None)"

fun json_pointer :: "ustr list \<Rightarrow> json_value \<Rightarrow> json_value option" where
  "json_pointer [] v = Some v"
| "json_pointer (k # ks) v = (case json_get k v of Some w \<Rightarrow> json_pointer ks w | None \<Rightarrow> None)"

definition parse_triggers :: "json_value option \<Rightarrow> doom_signal list" where
  "parse_triggers triggers = (case triggers of
       Some (JArray vs) \<Rightarrow> map parse_signal (List.map_filter json_str vs)
     | _ \<Rightarrow> [])"

definition DOOM_LOOP_CHECK_EVENT_TYPE :: ustr where
  "DOOM_LOOP_CHECK_EVENT_TYPE = u ''response.doom_loop_check''"

datatype doom_loop_peek = CheckEvent "doom_signal list" | ResponseField "doom_signal list" | NoPeek

definition peek_doom_loop :: "(ustr \<Rightarrow> json_value option) \<Rightarrow> ustr \<Rightarrow> doom_loop_peek" where
  "peek_doom_loop J data =
     (if \<not> str_contains (u ''doom_loop_check'') data then NoPeek
      else (case J data of
              None \<Rightarrow> NoPeek
            | Some v \<Rightarrow>
                if Option.bind (json_get (u ''type'') v) json_str = Some DOOM_LOOP_CHECK_EVENT_TYPE
                then CheckEvent (parse_triggers (json_pointer [u ''doom_loop_check'', u ''triggers''] v))
                else (case json_pointer [u ''response'', u ''doom_loop_check'', u ''triggers''] v of
                        Some ts \<Rightarrow> ResponseField (parse_triggers (Some ts))
                      | None \<Rightarrow> NoPeek)))"

definition is_check_event :: "(ustr \<Rightarrow> json_value option) \<Rightarrow> ustr \<Rightarrow> ustr \<Rightarrow> bool" where
  "is_check_event J event_name data \<longleftrightarrow>
     event_name = DOOM_LOOP_CHECK_EVENT_TYPE \<or>
     str_contains DOOM_LOOP_CHECK_EVENT_TYPE data \<and>
     (case J data of
        Some v \<Rightarrow> Option.bind (json_get (u ''type'') v) json_str = Some DOOM_LOOP_CHECK_EVENT_TYPE
      | None \<Rightarrow> False)"

section \<open>The collector\<close>

record collector_state =
  signals :: "doom_signal list"
  malformed_logged :: bool
  collector_policy :: doom_loop_policy
  abort_disarmed :: bool

definition new_collector :: "doom_loop_policy \<Rightarrow> collector_state" where
  "new_collector p = \<lparr>signals = [], malformed_logged = False, collector_policy = p, abort_disarmed = False\<rparr>"

definition disarm_abort :: "collector_state \<Rightarrow> collector_state" where
  "disarm_abort c = c\<lparr>abort_disarmed := True\<rparr>"

definition abort_triggers :: "collector_state \<Rightarrow> ustr list option" where
  "abort_triggers c =
     (if abort_disarmed c then None
      else let confident = confident_triggers (collector_policy c) (signals c)
           in if confident = [] then None else Some confident)"

definition add_signal :: "doom_signal \<Rightarrow> doom_signal list \<Rightarrow> doom_signal list" where
  "add_signal s ss = (if \<exists>t \<in> set ss. raw_label t = raw_label s then ss else ss @ [s])"

definition record_signals :: "doom_signal list \<Rightarrow> collector_state \<Rightarrow> collector_state" where
  "record_signals news c = c\<lparr>signals := fold add_signal news (signals c)\<rparr>"

definition log_malformed_once :: "collector_state \<Rightarrow> collector_state" where
  "log_malformed_once c = c\<lparr>malformed_logged := True\<rparr>"

definition absorb ::
  "(ustr \<Rightarrow> json_value option) \<Rightarrow> ustr \<Rightarrow> ustr \<Rightarrow> collector_state \<Rightarrow> bool \<times> collector_state" where
  "absorb J event_name data c =
     (let named = event_name = DOOM_LOOP_CHECK_EVENT_TYPE;
          note_signals = (\<lambda>ss. if ss = [] then log_malformed_once c else record_signals ss c)
      in case peek_doom_loop J data of
           CheckEvent ss \<Rightarrow> (True, note_signals ss)
         | ResponseField ss \<Rightarrow> (named, note_signals ss)
         | NoPeek \<Rightarrow> (named, if named then log_malformed_once c else c))"

definition take_signals :: "collector_state \<Rightarrow> doom_signal list \<times> collector_state" where
  "take_signals c = (signals c, c\<lparr>signals := []\<rparr>)"

lemmas collector_defs = new_collector_def disarm_abort_def record_signals_def log_malformed_once_def

section \<open>Laws\<close>

lemma parse_signal_raw [simp]: "raw_label (parse_signal raw) = raw"
  by (simp add: parse_signal_def Let_def split: prod.splits)

text \<open>A label written in the documented grammar is read back.\<close>

lemma split_first_single: "c \<notin> set a \<Longrightarrow> split_first [c] (a @ c # b) = Some (a, b)"
  by (induction a) auto

lemma split_first_none: "c \<notin> set a \<Longrightarrow> split_first [c] a = None"
  by (induction a) auto

lemma show_nat_no_sign: "c < 48 \<or> 57 < c \<Longrightarrow> c \<notin> set (show_nat n)"
  using show_nat_only_digits [of c n] by auto

lemma parse_tail_repetition:
  assumes "t \<le> u32_max"
  shows "parse_signal (u ''tail_repetition:'' @ show_nat t @ u ''@'' @ ch) =
    \<lparr>signal_kind = TailRepetition t, channel = ch,
     raw_label = u ''tail_repetition:'' @ show_nat t @ u ''@'' @ ch\<rparr>"
proof -
  have at: "split_first [64] ((u ''tail_repetition:'' @ show_nat t) @ 64 # ch) =
      Some (u ''tail_repetition:'' @ show_nat t, ch)"
    by (rule split_first_single) (simp add: show_nat_no_sign u_simps)
  have colon: "split_first [58] (u ''tail_repetition'' @ 58 # show_nat t) = Some (u ''tail_repetition'', show_nat t)"
    by (rule split_first_single) (simp add: u_simps)
  have "u ''tail_repetition:'' @ x = u ''tail_repetition'' @ 58 # x" for x by (simp add: u_simps)
  then show ?thesis using at colon parse_uint_show_nat [OF assms]
    by (simp add: parse_signal_def u_simps)
qed

lemma low_logprob_not_confident: "\<not> is_confident p (parse_signal (u ''low_logprob@'' @ ch))"
proof -
  have at: "split_first [64] (u ''low_logprob'' @ 64 # ch) = Some (u ''low_logprob'', ch)"
    by (rule split_first_single) (simp add: u_simps)
  have "split_first [58] (u ''low_logprob'') = None" by (rule split_first_none) (simp add: u_simps)
  then show ?thesis using at by (simp add: parse_signal_def is_confident_def u_simps)
qed

text \<open>
  The collector of an attempt never holds two signals with one label, keeps its policy, and stays disarmed
  once disarmed.
\<close>

lemma add_signal_distinct: "distinct (map raw_label ss) \<Longrightarrow> distinct (map raw_label (add_signal s ss))"
  by (auto simp: add_signal_def)

lemma fold_add_distinct: "distinct (map raw_label ss) \<Longrightarrow> distinct (map raw_label (fold add_signal ns ss))"
  by (induction ns arbitrary: ss) (auto simp: add_signal_distinct)

lemma fold_add_prefix: "\<exists>zs. fold add_signal ns ss = ss @ zs"
proof (induction ns arbitrary: ss)
  case (Cons n ns)
  have "\<exists>ws. add_signal n ss = ss @ ws" by (simp add: add_signal_def)
  then obtain ws where "add_signal n ss = ss @ ws" by blast
  then show ?case using Cons.IH [of "ss @ ws"] by auto
qed simp

lemma fold_add_labels: "raw_label ` set (fold add_signal ns ss) = raw_label ` set ss \<union> raw_label ` set ns"
proof (induction ns arbitrary: ss)
  case (Cons n ns)
  have "raw_label ` set (add_signal n ss) = insert (raw_label n) (raw_label ` set ss)"
    by (auto simp: add_signal_def intro: rev_image_eqI)
  then show ?case using Cons.IH [of "add_signal n ss"] by auto
qed simp

lemma absorb_keeps:
  "abort_disarmed (snd (absorb J n d c)) = abort_disarmed c"
  "collector_policy (snd (absorb J n d c)) = collector_policy c"
  "distinct (map raw_label (signals c)) \<Longrightarrow> distinct (map raw_label (signals (snd (absorb J n d c))))"
  by (simp_all add: absorb_def Let_def collector_defs fold_add_distinct split: doom_loop_peek.splits)

text \<open>A frame that is a check event is never passed on, with or without a collector.\<close>

lemma check_event_type_contains:
  "str_contains DOOM_LOOP_CHECK_EVENT_TYPE d \<Longrightarrow> str_contains (u ''doom_loop_check'') d"
proof -
  have "DOOM_LOOP_CHECK_EVENT_TYPE = u ''response.'' @ u ''doom_loop_check''"
    by (simp add: DOOM_LOOP_CHECK_EVENT_TYPE_def u_def)
  then show "str_contains DOOM_LOOP_CHECK_EVENT_TYPE d \<Longrightarrow> str_contains (u ''doom_loop_check'') d"
    by (auto simp: str_contains_iff) (metis append.assoc)
qed

lemma absorb_swallows: "is_check_event J n d \<Longrightarrow> fst (absorb J n d c)"
  using check_event_type_contains [of d]
  by (auto simp: is_check_event_def absorb_def Let_def peek_doom_loop_def split: option.splits doom_loop_peek.splits)

end
