(* ===== verification/Sampler_Stream.thy ===== *)
theory Sampler_Stream
  imports Sampler_Doom
begin

text \<open>
  One streamed response (\<^verbatim>\<open>codegen/xai-grok-sampler/src/client.rs\<close>, decoding of the Responses API, and
  \<^verbatim>\<open>codegen/xai-grok-sampler/src/stream/responses.rs\<close>): frames are decoded, reports of loops taken out, and
  the events turned into the events of the sampler.

  What arrives on the connection is a list of inputs with their times in milliseconds: a frame, an error of the
  transport, the end of the stream, or the expiry of the timer around the wait for the next event. All
  events of a request carry its identifier, which is left out. The deserializers that are derived for the wire
  types are parameters; of an event of the wire, what the transform reads is kept, and the variants it does not
  treat are grouped by whether they count as content. \<open>resp_items\<close> stands for the items that
  \<^verbatim>\<open>response_to_conversation_items\<close> makes of a response.
\<close>

section \<open>Events of the sampler\<close>

datatype stop_reason = StopNatural | StopLength | StopToolCalls | StopContentFilter

definition stop_reason_str :: "stop_reason \<Rightarrow> ustr" where
  "stop_reason_str r = (case r of
       StopNatural \<Rightarrow> u ''stop'' | StopLength \<Rightarrow> u ''length''
     | StopToolCalls \<Rightarrow> u ''tool_calls'' | StopContentFilter \<Rightarrow> u ''content_filter'')"

record conversation_response =
  response_items :: "conversation_item list"
  stop_reason_of :: "stop_reason option"
  response_usage :: "token_usage option"
  response_cost :: "int option"
  message_chunks_emitted :: nat
  doom_loop_signals :: "doom_signal list"
  stop_message :: "ustr option"

record latency_stats =
  time_to_first_token_ms :: "nat option"
  time_to_last_byte_ms :: nat
  chunk_count :: nat
  itl_intervals_ms :: "nat list"
  attempts :: nat

datatype sampling_channel = TextChannel | ReasoningChannel

datatype sampling_event =
    StreamStarted nat
  | FirstToken
  | ChannelToken sampling_channel ustr nat
  | ToolCallDelta nat "ustr option" "ustr option" "ustr option"
  | CompletedEvent conversation_response latency_stats
  | Retrying nat nat sampling_error_kind ustr "ustr list option" "nat option"
  | FailedEvent sampling_error_info
  | ModelMetadata response_model_metadata
  | BackendToolCallStarted ustr ustr
  | BackendToolCallCompleted ustr ustr "json_value option"

definition is_terminal :: "sampling_event \<Rightarrow> bool" where
  "is_terminal e \<longleftrightarrow> (case e of CompletedEvent _ _ \<Rightarrow> True | FailedEvent _ \<Rightarrow> True | _ \<Rightarrow> False)"

text \<open>Latency statistics; the percentiles of the intervals are left out.\<close>

fun windows2 :: "nat list \<Rightarrow> nat list" where
  "windows2 (a # b # ts) = (b - a) # windows2 (b # ts)"
| "windows2 _ = []"

definition from_timestamps :: "nat \<Rightarrow> nat list \<Rightarrow> nat \<Rightarrow> latency_stats" where
  "from_timestamps stream_start stamps stream_end =
     \<lparr>time_to_first_token_ms = (case stamps of [] \<Rightarrow> None | t # _ \<Rightarrow> Some (t - stream_start)),
      time_to_last_byte_ms = stream_end - stream_start,
      chunk_count = min u32_max (length stamps),
      itl_intervals_ms = windows2 stamps,
      attempts = 0\<rparr>"

section \<open>Events of the wire\<close>

datatype response_status = StatusCompleted | StatusIncomplete | StatusOther

record rs_response =
  resp_status :: response_status
  resp_items :: "conversation_item list"
  resp_usage :: "token_usage option"
  resp_cost_metadata :: "ustr option"

datatype output_item =
    FunctionCallItem ustr ustr
  | WebSearchItem ustr "json_value option"
  | CustomToolItem ustr "json_value option"
  | OtherItem

datatype rs_event =
    StatusEvent
  | OutputTextDelta ustr
  | ReasoningSummaryTextDelta ustr
  | ReasoningTextDelta ustr
  | OutputItemAdded nat output_item
  | FunctionCallArgumentsDelta nat ustr
  | FunctionCallArgumentsDone ustr "ustr option"
  | ResponseCompleted rs_response
  | ResponseIncomplete rs_response
  | ResponseFailed "(ustr \<times> ustr) option"
  | ResponseError "ustr option" ustr
  | WebSearchCallInProgress ustr
  | OutputItemDone output_item
  | CustomToolCallInputDone ustr ustr
  | OtherText ustr
  | OtherProgress

definition responses_event_has_meaningful_content :: "rs_event \<Rightarrow> bool" where
  "responses_event_has_meaningful_content e \<longleftrightarrow> (case e of
       StatusEvent \<Rightarrow> False
     | OutputTextDelta d \<Rightarrow> d \<noteq> []
     | ReasoningSummaryTextDelta d \<Rightarrow> d \<noteq> []
     | ReasoningTextDelta d \<Rightarrow> d \<noteq> []
     | FunctionCallArgumentsDelta _ d \<Rightarrow> d \<noteq> []
     | FunctionCallArgumentsDone args name \<Rightarrow> args \<noteq> [] \<or> (case name of Some n \<Rightarrow> n \<noteq> [] | None \<Rightarrow> False)
     | CustomToolCallInputDone _ input \<Rightarrow> input \<noteq> []
     | OtherText t \<Rightarrow> t \<noteq> []
     | _ \<Rightarrow> True)"

section \<open>Decoding\<close>

record stream_libs = sampler_libs +
  parse_json :: "ustr \<Rightarrow> json_value option"
  de_error_response :: "ustr \<Rightarrow> (ustr option \<times> ustr option) option"
  de_flat_error :: "ustr \<Rightarrow> (ustr option \<times> ustr) option"
  deserialize_response_event :: "ustr \<Rightarrow> ustr + rs_event"

abbreviation base_libs :: "stream_libs \<Rightarrow> sampler_libs" where "base_libs \<equiv> sampler_libs.truncate"

definition try_parse_error :: "stream_libs \<Rightarrow> ustr \<Rightarrow> (ustr \<times> ustr) option" where
  "try_parse_error L data = (case de_error_response L data of
       Some (kind, message) \<Rightarrow>
         Some (case kind of Some k \<Rightarrow> k | None \<Rightarrow> u ''unknown'',
               case message of Some m \<Rightarrow> m | None \<Rightarrow> u ''unknown error'')
     | None \<Rightarrow>
         map_option (\<lambda>(code, err). (case code of Some c \<Rightarrow> c | None \<Rightarrow> u ''server_error'', err)) (de_flat_error L data))"

definition try_parse_stream_error :: "stream_libs \<Rightarrow> ustr \<Rightarrow> sampling_error option" where
  "try_parse_stream_error L data = map_option (\<lambda>(t, m). StreamError t m) (try_parse_error L data)"

datatype raw_input =
    Frame nat ustr ustr
  | TransportError nat ustr
  | Elapsed nat
  | Closed nat

datatype raw_item = Item nat "sampling_error + rs_event" | TimedOut nat | EndOfStream nat

definition swallow_frame ::
  "stream_libs \<Rightarrow> ustr \<Rightarrow> ustr \<Rightarrow> collector_state option \<Rightarrow> bool \<times> collector_state option" where
  "swallow_frame L name data doom = (case doom of
       Some c \<Rightarrow> (let (b, c') = absorb (parse_json L) name data c in (b, Some c'))
     | None \<Rightarrow> (is_check_event (parse_json L) name data, None))"

definition decode_frame :: "stream_libs \<Rightarrow> ustr \<Rightarrow> sampling_error + rs_event" where
  "decode_frame L data = (case try_parse_stream_error L data of
       Some e \<Rightarrow> Inl e
     | None \<Rightarrow> (case deserialize_response_event L data of Inl t \<Rightarrow> Inl (Serialization t) | Inr ev \<Rightarrow> Inr ev))"

fun next_item ::
  "stream_libs \<Rightarrow> nat \<Rightarrow> collector_state option \<Rightarrow> raw_input list \<Rightarrow> raw_item \<times> collector_state option \<times> raw_input list" where
  "next_item L now doom [] = (EndOfStream now, doom, [])"
| "next_item L now doom (Frame t name data # rest) =
     (if data = u ''[DONE]'' then (EndOfStream t, doom, [])
      else let (swallow, doom') = swallow_frame L name data doom
           in if swallow then next_item L t doom' rest else (Item t (decode_frame L data), doom', rest))"
| "next_item L now doom (TransportError t m # rest) = (Item t (Inl (EventStreamError m)), doom, [])"
| "next_item L now doom (Elapsed t # rest) = (TimedOut t, doom, [])"
| "next_item L now doom (Closed t # rest) = (EndOfStream t, doom, [])"

section \<open>The transform\<close>

record stream_state =
  chunk_timestamps :: "nat list"
  final_response :: "rs_response option"
  chunk_index :: nat
  message_chunk_count :: nat
  first_token_emitted :: bool
  reasoning_acc :: ustr
  last_content_chunk_at :: nat
  output_to_tool_index :: "nat \<rightharpoonup> nat"
  next_tool_index :: nat

definition stream_start_state :: "nat \<Rightarrow> stream_state" where
  "stream_start_state now =
     \<lparr>chunk_timestamps = [], final_response = None, chunk_index = 0, message_chunk_count = 0,
      first_token_emitted = False, reasoning_acc = [], last_content_chunk_at = now,
      output_to_tool_index = Map.empty, next_tool_index = 0\<rparr>"

definition api_500 :: "ustr \<Rightarrow> sampling_error" where
  "api_500 m = Api 500 m None None None"

definition emit_token :: "sampling_channel \<Rightarrow> ustr \<Rightarrow> stream_state \<Rightarrow> sampling_event list \<times> stream_state" where
  "emit_token ch delta s =
     ((if first_token_emitted s then [] else [FirstToken]) @ [ChannelToken ch delta (chunk_index s + 1)],
      s\<lparr>first_token_emitted := True, chunk_index := chunk_index s + 1\<rparr>)"

datatype flow = Next | Break | Return

definition stream_event ::
  "stream_libs \<Rightarrow> nat \<Rightarrow> rs_event \<Rightarrow> stream_state \<Rightarrow> sampling_event list \<times> stream_state \<times> flow" where
  "stream_event L now ev s = (case ev of
       OutputTextDelta delta \<Rightarrow>
         if delta = [] then ([], s, Next)
         else let (es, s') = emit_token TextChannel delta s
              in (es, s'\<lparr>chunk_timestamps := chunk_timestamps s @ [now],
                         message_chunk_count := message_chunk_count s + 1\<rparr>, Next)
     | ReasoningSummaryTextDelta delta \<Rightarrow>
         if delta = [] then ([], s, Next)
         else let (es, s') = emit_token ReasoningChannel delta s in (es, s', Next)
     | ReasoningTextDelta delta \<Rightarrow>
         if delta = [] then ([], s, Next)
         else let (es, s') = emit_token ReasoningChannel delta s
              in (es, s'\<lparr>reasoning_acc := reasoning_acc s @ delta\<rparr>, Next)
     | OutputItemAdded out_idx (FunctionCallItem cid name) \<Rightarrow>
         ([ToolCallDelta (next_tool_index s) (Some cid) (Some name) None],
          s\<lparr>next_tool_index := next_tool_index s + 1,
            output_to_tool_index := (output_to_tool_index s)(out_idx \<mapsto> next_tool_index s)\<rparr>, Next)
     | FunctionCallArgumentsDelta out_idx delta \<Rightarrow>
         (case output_to_tool_index s out_idx of
            Some ti \<Rightarrow> if delta = [] then ([], s, Next) else ([ToolCallDelta ti None None (Some delta)], s, Next)
          | None \<Rightarrow> ([], s, Next))
     | ResponseCompleted r \<Rightarrow> ([], s\<lparr>final_response := Some r\<rparr>, Next)
     | ResponseIncomplete r \<Rightarrow> ([], s\<lparr>final_response := Some r\<rparr>, Break)
     | ResponseFailed err \<Rightarrow>
         ([FailedEvent (info_of (base_libs L) (api_500 (case err of
              Some (code, m) \<Rightarrow> code @ u '': '' @ m
            | None \<Rightarrow> u ''Response failed with unknown error'')))], s, Return)
     | ResponseError code m \<Rightarrow>
         ([FailedEvent (info_of (base_libs L) (api_500
            ((case code of Some c \<Rightarrow> c | None \<Rightarrow> u ''error'') @ u '': '' @ m)))], s, Return)
     | WebSearchCallInProgress iid \<Rightarrow> ([BackendToolCallStarted iid (u ''web_search'')], s, Next)
     | OutputItemDone (WebSearchItem iid res) \<Rightarrow> ([BackendToolCallCompleted iid (u ''web_search'') res], s, Next)
     | OutputItemDone (CustomToolItem iid res) \<Rightarrow> ([BackendToolCallCompleted iid (u ''x_search'') res], s, Next)
     | CustomToolCallInputDone iid _ \<Rightarrow> ([BackendToolCallStarted iid (u ''x_search'')], s, Next)
     | _ \<Rightarrow> ([], s, Next))"

definition synthesized_reasoning_item :: "ustr \<Rightarrow> reasoning_item" where
  "synthesized_reasoning_item text =
     \<lparr>reasoning_id = [], summary_parts = [text], reasoning_content = None, encrypted_content = None\<rparr>"

fun add_summary :: "ustr \<Rightarrow> conversation_item list \<Rightarrow> conversation_item list" where
  "add_summary text [] = []"
| "add_summary text (Reasoning r # xs) = Reasoning (r\<lparr>summary_parts := summary_parts r @ [text]\<rparr>) # xs"
| "add_summary text (x # xs) = x # add_summary text xs"

definition is_assistant_item :: "conversation_item \<Rightarrow> bool" where
  "is_assistant_item x \<longleftrightarrow> (case x of Assistant _ \<Rightarrow> True | _ \<Rightarrow> False)"

definition before_last_assistant :: "conversation_item list \<Rightarrow> nat" where
  "before_last_assistant xs =
     (if \<exists>x \<in> set xs. is_assistant_item x then length xs - 1 - length (takeWhile (\<lambda>x. \<not> is_assistant_item x) (rev xs))
      else length xs)"

definition inject_streaming_reasoning_fallback :: "conversation_item list \<Rightarrow> ustr \<Rightarrow> conversation_item list" where
  "inject_streaming_reasoning_fallback xs text =
     (if text = [] then xs
      else if \<exists>x \<in> set xs. (case x of Reasoning r \<Rightarrow> \<exists>t \<in> set (summary_parts r). t \<noteq> [] | _ \<Rightarrow> False) then xs
      else if \<exists>x \<in> set xs. (case x of Reasoning r \<Rightarrow> True | _ \<Rightarrow> False) then add_summary text xs
      else let pos = before_last_assistant xs
           in take pos xs @ Reasoning (synthesized_reasoning_item text) # drop pos xs)"

definition parse_i64 :: "ustr \<Rightarrow> int option" where
  "parse_i64 s = (case s of
       [] \<Rightarrow> None
     | c # cs \<Rightarrow>
         if c = 45 then (if cs = [] then None else case digits_value 0 cs of
                           Some n \<Rightarrow> if n \<le> 2 ^ 63 then Some (- int n) else None
                         | None \<Rightarrow> None)
         else map_option int (parse_uint (2 ^ 63 - 1) s))"

definition any_tool_calls :: "conversation_item list \<Rightarrow> bool" where
  "any_tool_calls xs \<longleftrightarrow> (\<exists>x \<in> set xs. case x of Assistant a \<Rightarrow> tool_calls a \<noteq> [] | _ \<Rightarrow> False)"

definition final_event ::
  "stream_libs \<Rightarrow> nat \<Rightarrow> nat \<Rightarrow> collector_state option \<Rightarrow> stream_state \<Rightarrow> sampling_event" where
  "final_event L stream_start stream_end doom s = (case final_response s of
       None \<Rightarrow> FailedEvent (info_of (base_libs L)
         (api_500 (u ''No ResponseCompleted or ResponseIncomplete event received from Responses API'')))
     | Some r \<Rightarrow>
         let out = inject_streaming_reasoning_fallback (resp_items r) (reasoning_acc s)
         in CompletedEvent
              \<lparr>response_items = out,
               stop_reason_of = (if any_tool_calls out then Some StopToolCalls
                                 else case resp_status r of
                                        StatusCompleted \<Rightarrow> Some StopNatural
                                      | StatusIncomplete \<Rightarrow> Some StopLength
                                      | StatusOther \<Rightarrow> None),
               response_usage = resp_usage r,
               response_cost = Option.bind (resp_cost_metadata r) parse_i64,
               message_chunks_emitted = message_chunk_count s,
               doom_loop_signals = (case doom of Some c \<Rightarrow> fst (take_signals c) | None \<Rightarrow> []),
               stop_message = None\<rparr>
              (from_timestamps stream_start (chunk_timestamps s) stream_end))"

text \<open>The loop over the stream. The second result is the first error of the raw stream, as \<^verbatim>\<open>tee_errors\<close> keeps it.\<close>

lemma next_item_shorter: "next_item L now doom ins = (Item t r, doom', rest) \<Longrightarrow> length rest < length ins"
  by (induction L now doom ins rule: next_item.induct) (fastforce simp: Let_def split: if_splits prod.splits)+

function responses_loop ::
  "stream_libs \<Rightarrow> nat \<Rightarrow> nat \<Rightarrow> nat \<Rightarrow> collector_state option \<Rightarrow> stream_state \<Rightarrow> raw_input list \<Rightarrow>
   sampling_event list \<times> sampling_error option" where
  "responses_loop L idle start now doom s ins = (case next_item L now doom ins of
       (EndOfStream t, doom', _) \<Rightarrow> ([final_event L start t doom' s], None)
     | (TimedOut t, doom', _) \<Rightarrow> ([FailedEvent (info_of (base_libs L) (IdleTimeout (idle div 1000)))], None)
     | (Item t (Inl e), doom', _) \<Rightarrow> ([FailedEvent (info_of (base_libs L) e)], Some (clone_error (base_libs L) e))
     | (Item t (Inr ev), doom', rest) \<Rightarrow>
         (case Option.bind doom' abort_triggers of
            Some triggers \<Rightarrow>
              ([FailedEvent (info_of (base_libs L) (DoomLoopDetected triggers (Some (chunk_index s))))], None)
          | None \<Rightarrow>
              (case stream_event L t ev s of
                 (es, s', Return) \<Rightarrow> (es, None)
               | (es, s', fl) \<Rightarrow>
                   if responses_event_has_meaningful_content ev
                   then (if fl = Break then (es @ [final_event L start t doom' s'], None)
                         else let (es', c) = responses_loop L idle start t doom' (s'\<lparr>last_content_chunk_at := t\<rparr>) rest
                              in (es @ es', c))
                   else if idle < t - last_content_chunk_at s'
                   then (es @ [FailedEvent (info_of (base_libs L) (IdleTimeout (idle div 1000)))], None)
                   else if fl = Break then (es @ [final_event L start t doom' s'], None)
                   else let (es', c) = responses_loop L idle start t doom' s' rest in (es @ es', c))))"
  by pat_completeness auto
termination
  by (relation "measure (\<lambda>(L, idle, start, now, doom, s, ins). length ins)") (auto dest: next_item_shorter [OF sym])

declare responses_loop.simps [simp del]

definition stream_responses ::
  "stream_libs \<Rightarrow> nat \<Rightarrow> nat \<Rightarrow> response_model_metadata option \<Rightarrow> collector_state option \<Rightarrow> raw_input list \<Rightarrow>
   sampling_event list \<times> sampling_error option" where
  "stream_responses L idle now md doom ins =
     (let (es, captured) = responses_loop L idle now now doom (stream_start_state now) ins
      in (StreamStarted now # (case md of Some m \<Rightarrow> [ModelMetadata m] | None \<Rightarrow> []) @ es, captured))"

end
