(* ===== verification/Sampler_Stream_Laws.thy ===== *)
theory Sampler_Stream_Laws
  imports Sampler_Stream
begin

text \<open>
  What a stream yields: the loop as a relation, the single terminal event at its end, the numbering and the
  text of the tokens, the events that report the tool calls, and where failures come from.
\<close>

section \<open>The loop as a relation\<close>

inductive streams ::
  "stream_libs \<Rightarrow> nat \<Rightarrow> nat \<Rightarrow> nat \<Rightarrow> collector_state option \<Rightarrow> stream_state \<Rightarrow> raw_input list \<Rightarrow>
   sampling_event list \<Rightarrow> sampling_error option \<Rightarrow> bool"
  for L idle start where
  ended: "next_item L now doom ins = (EndOfStream t, doom', rest) \<Longrightarrow>
    streams L idle start now doom s ins [final_event L start t doom' s] None"
| timed_out: "next_item L now doom ins = (TimedOut t, doom', rest) \<Longrightarrow>
    streams L idle start now doom s ins [FailedEvent (info_of (base_libs L) (IdleTimeout (idle div 1000)))] None"
| raw_failure: "next_item L now doom ins = (Item t (Inl e), doom', rest) \<Longrightarrow>
    streams L idle start now doom s ins [FailedEvent (info_of (base_libs L) e)] (Some (clone_error (base_libs L) e))"
| aborted: "next_item L now doom ins = (Item t (Inr ev), doom', rest) \<Longrightarrow>
    Option.bind doom' abort_triggers = Some triggers \<Longrightarrow>
    streams L idle start now doom s ins
      [FailedEvent (info_of (base_libs L) (DoomLoopDetected triggers (Some (chunk_index s))))] None"
| returned: "next_item L now doom ins = (Item t (Inr ev), doom', rest) \<Longrightarrow>
    Option.bind doom' abort_triggers = None \<Longrightarrow> stream_event L t ev s = (es, s', Return) \<Longrightarrow>
    streams L idle start now doom s ins es None"
| stale: "next_item L now doom ins = (Item t (Inr ev), doom', rest) \<Longrightarrow>
    Option.bind doom' abort_triggers = None \<Longrightarrow> stream_event L t ev s = (es, s', fl) \<Longrightarrow> fl \<noteq> Return \<Longrightarrow>
    \<not> responses_event_has_meaningful_content ev \<Longrightarrow>
    streams L idle start now doom s ins (es @ [FailedEvent (info_of (base_libs L) (IdleTimeout (idle div 1000)))]) None"
| broke: "next_item L now doom ins = (Item t (Inr ev), doom', rest) \<Longrightarrow>
    Option.bind doom' abort_triggers = None \<Longrightarrow> stream_event L t ev s = (es, s', Break) \<Longrightarrow>
    streams L idle start now doom s ins (es @ [final_event L start t doom' s']) None"
| goes_on: "next_item L now doom ins = (Item t (Inr ev), doom', rest) \<Longrightarrow>
    Option.bind doom' abort_triggers = None \<Longrightarrow> stream_event L t ev s = (es, s', Next) \<Longrightarrow>
    streams L idle start t doom' (s'\<lparr>last_content_chunk_at := x\<rparr>) rest es' c \<Longrightarrow>
    streams L idle start now doom s ins (es @ es') c"

lemma streams_loop:
  "streams L idle start now doom s ins (fst (responses_loop L idle start now doom s ins))
     (snd (responses_loop L idle start now doom s ins))"
proof (induction L idle start now doom s ins rule: responses_loop.induct)
  case (1 L idle start now doom s ins)
  obtain it doom' rest where n: "next_item L now doom ins = (it, doom', rest)" by (metis prod_cases3)
  note unfold = responses_loop.simps [of L idle start now doom s ins]
  show ?case
  proof (cases it)
    case (EndOfStream t)
    then show ?thesis using n by (simp add: unfold streams.ended)
  next
    case (TimedOut t)
    then show ?thesis using n by (simp add: unfold streams.timed_out)
  next
    case (Item t r)
    show ?thesis
    proof (cases r)
      case (Inl e)
      then show ?thesis using n Item by (simp add: unfold streams.raw_failure)
    next
      case (Inr ev)
      note n' = n [unfolded Item Inr]
      show ?thesis
      proof (cases "Option.bind doom' abort_triggers")
        case (Some ts)
        then show ?thesis using n' by (simp add: unfold streams.aborted)
      next
        case None
        obtain es s' fl where e: "stream_event L t ev s = (es, s', fl)" by (metis prod_cases3)
        have same: "s' = s'\<lparr>last_content_chunk_at := last_content_chunk_at s'\<rparr>" by simp
        show ?thesis
        proof (cases fl)
          case Return
          then show ?thesis using n' None e by (simp add: unfold streams.returned)
        next
          case Break
          then show ?thesis using n' None e by (simp add: unfold streams.broke streams.stale)
        next
          case Next
          note ih = 1(1-2) [OF n' [symmetric] refl refl refl None e [unfolded Next, symmetric] refl refl]
          show ?thesis
          proof (cases "responses_event_has_meaningful_content ev")
            case True
            show ?thesis using streams.goes_on [OF n' None e [unfolded Next] ih(1) [OF True flow.distinct(1)]] n' None e Next True
              by (simp add: unfold case_prod_beta)
          next
            case False
            show ?thesis
            proof (cases "idle < t - last_content_chunk_at s'")
              case True
              then show ?thesis using n' None e Next False by (simp add: unfold streams.stale)
            next
              case fresh: False
              have "streams L idle start t doom' (s'\<lparr>last_content_chunk_at := last_content_chunk_at s'\<rparr>) rest
                  (fst (responses_loop L idle start t doom' s' rest)) (snd (responses_loop L idle start t doom' s' rest))"
                using ih(2) [OF False fresh flow.distinct(1)] by simp
              from streams.goes_on [OF n' None e [unfolded Next] this] show ?thesis
                using n' None e Next False fresh by (simp add: unfold case_prod_beta)
            qed
          qed
        qed
      qed
    qed
  qed
qed

section \<open>What is received and what is yielded\<close>

text \<open>The events a stream carries up to its first error, expiry or end.\<close>

function wire_events :: "stream_libs \<Rightarrow> nat \<Rightarrow> collector_state option \<Rightarrow> raw_input list \<Rightarrow> rs_event list" where
  "wire_events L now doom ins = (case next_item L now doom ins of
       (Item t (Inr ev), doom', rest) \<Rightarrow> ev # wire_events L t doom' rest
     | _ \<Rightarrow> [])"
  by pat_completeness auto
termination
  by (relation "measure (\<lambda>(L, now, doom, ins). length ins)") (auto dest: next_item_shorter [OF sym])

declare wire_events.simps [simp del]

definition delta_of :: "rs_event \<Rightarrow> (sampling_channel \<times> ustr) option" where
  "delta_of ev = (case ev of
       OutputTextDelta d \<Rightarrow> if d = [] then None else Some (TextChannel, d)
     | ReasoningSummaryTextDelta d \<Rightarrow> if d = [] then None else Some (ReasoningChannel, d)
     | ReasoningTextDelta d \<Rightarrow> if d = [] then None else Some (ReasoningChannel, d)
     | _ \<Rightarrow> None)"

definition deltas :: "rs_event list \<Rightarrow> (sampling_channel \<times> ustr) list" where
  "deltas evs = List.map_filter delta_of evs"

definition thought :: "rs_event \<Rightarrow> ustr" where
  "thought ev = (case ev of ReasoningTextDelta d \<Rightarrow> d | _ \<Rightarrow> [])"

definition answer_of :: "rs_event \<Rightarrow> rs_response option" where
  "answer_of ev = (case ev of ResponseCompleted r \<Rightarrow> Some r | ResponseIncomplete r \<Rightarrow> Some r | _ \<Rightarrow> None)"

definition final_answers :: "rs_event list \<Rightarrow> rs_response list" where
  "final_answers evs = List.map_filter answer_of evs"

definition token_of :: "sampling_event \<Rightarrow> ((sampling_channel \<times> ustr) \<times> nat) option" where
  "token_of e = (case e of ChannelToken ch d i \<Rightarrow> Some ((ch, d), i) | _ \<Rightarrow> None)"

definition tokens :: "sampling_event list \<Rightarrow> ((sampling_channel \<times> ustr) \<times> nat) list" where
  "tokens es = List.map_filter token_of es"

definition numbered :: "nat \<Rightarrow> 'a list \<Rightarrow> ('a \<times> nat) list" where
  "numbered n xs = zip xs [Suc n..<Suc n + length xs]"

text \<open>The first token is announced directly before it and only once.\<close>

fun announced :: "bool \<Rightarrow> sampling_event list \<Rightarrow> bool" where
  "announced b [] = True"
| "announced b (FirstToken # es) = (\<not> b \<and> (case es of ChannelToken _ _ _ # _ \<Rightarrow> announced True es | _ \<Rightarrow> False))"
| "announced b (ChannelToken _ _ _ # es) = (b \<and> announced b es)"
| "announced b (_ # es) = announced b es"

text \<open>
  What a list of events is reported as, the announcement of the first token apart. \<open>started\<close> lists the output
  positions of the calls begun so far: a new call gets the next number, and a piece of arguments belongs to the latest
  call begun at its position; without one, and when it is empty, it is left out. \<open>n\<close> counts the tokens.
\<close>

definition last_index :: "nat \<Rightarrow> nat list \<Rightarrow> nat" where
  "last_index k xs = length xs - 1 - length (takeWhile (\<lambda>x. x \<noteq> k) (rev xs))"

fun reported :: "nat list \<Rightarrow> nat \<Rightarrow> rs_event list \<Rightarrow> sampling_event list" where
  "reported started n [] = []"
| "reported started n (ev # evs) = (case ev of
       OutputItemAdded k (FunctionCallItem cid name) \<Rightarrow>
         ToolCallDelta (length started) (Some cid) (Some name) None # reported (started @ [k]) n evs
     | FunctionCallArgumentsDelta k d \<Rightarrow>
         (if d = [] \<or> k \<notin> set started then [] else [ToolCallDelta (last_index k started) None None (Some d)])
         @ reported started n evs
     | WebSearchCallInProgress i \<Rightarrow> BackendToolCallStarted i (u ''web_search'') # reported started n evs
     | CustomToolCallInputDone i _ \<Rightarrow> BackendToolCallStarted i (u ''x_search'') # reported started n evs
     | OutputItemDone (WebSearchItem i res) \<Rightarrow> BackendToolCallCompleted i (u ''web_search'') res # reported started n evs
     | OutputItemDone (CustomToolItem i res) \<Rightarrow> BackendToolCallCompleted i (u ''x_search'') res # reported started n evs
     | _ \<Rightarrow> (case delta_of ev of
               Some (ch, d) \<Rightarrow> ChannelToken ch d (Suc n) # reported started (Suc n) evs
             | None \<Rightarrow> reported started n evs))"

definition begins :: "rs_event \<Rightarrow> nat list" where
  "begins ev = (case ev of OutputItemAdded k (FunctionCallItem _ _) \<Rightarrow> [k] | _ \<Rightarrow> [])"

abbreviation unannounced :: "sampling_event list \<Rightarrow> sampling_event list" where
  "unannounced \<equiv> filter (\<lambda>e. e \<noteq> FirstToken)"

text \<open>The state after a list of events.\<close>

definition follows :: "stream_state \<Rightarrow> rs_event list \<Rightarrow> stream_state \<Rightarrow> bool" where
  "follows s evs st \<longleftrightarrow>
     chunk_index st = chunk_index s + length (deltas evs) \<and>
     message_chunk_count st = message_chunk_count s + length (filter (\<lambda>d. fst d = TextChannel) (deltas evs)) \<and>
     length (chunk_timestamps st) = length (chunk_timestamps s) + length (filter (\<lambda>d. fst d = TextChannel) (deltas evs)) \<and>
     reasoning_acc st = reasoning_acc s @ concat (map thought evs) \<and>
     final_response st = (if final_answers evs = [] then final_response s else Some (last (final_answers evs)))"

text \<open>The indices kept in the state are those of the calls begun.\<close>

definition tool_inv :: "stream_state \<Rightarrow> nat list \<Rightarrow> bool" where
  "tool_inv s started \<longleftrightarrow>
     next_tool_index s = length started \<and>
     (\<forall>k. output_to_tool_index s k = (if k \<in> set started then Some (last_index k started) else None))"

lemma last_index_snoc: "last_index k (xs @ [x]) = (if k = x then length xs else last_index k xs)"
  by (auto simp: last_index_def)

lemma map_filter_Nil [simp]: "List.map_filter f [] = []"
  by (simp add: List.map_filter_def)

lemma map_filter_Cons: "List.map_filter f (x # xs) = (case f x of Some y \<Rightarrow> [y] | None \<Rightarrow> []) @ List.map_filter f xs"
  by (simp add: List.map_filter_def split: option.splits)

lemma map_filter_app [simp]: "List.map_filter f (xs @ ys) = List.map_filter f xs @ List.map_filter f ys"
  by (simp add: List.map_filter_def)

lemma numbered_Nil [simp]: "numbered n [] = []"
  by (simp add: numbered_def)

lemma numbered_Cons: "numbered n (x # xs) = (x, Suc n) # numbered (Suc n) xs"
  by (simp add: numbered_def upt_conv_Cons del: upt_Suc)

lemma announced_append:
  "announced b es \<Longrightarrow> announced (b \<or> FirstToken \<in> set es) fs \<Longrightarrow> announced b (es @ fs)"
  by (induction b es rule: announced.induct) (auto split: list.splits sampling_event.splits)

lemma tokens_append [simp]: "tokens (es @ fs) = tokens es @ tokens fs"
  by (simp add: tokens_def)

section \<open>One event\<close>

lemmas projections = tokens_def token_of_def deltas_def delta_of_def map_filter_Cons

lemma stream_event_return:
  "stream_event L t ev s = (es, s', Return) \<Longrightarrow>
   \<exists>m. es = [FailedEvent (info_of (base_libs L) (api_500 m))]"
  by (auto simp: stream_event_def Let_def emit_token_def split: rs_event.splits output_item.splits if_splits option.splits)

lemma stream_event_step:
  assumes "stream_event L t ev s = (es, s', fl)" and "fl \<noteq> Return"
  shows stream_event_quiet: "\<forall>e \<in> set es. \<not> is_terminal e"
    and stream_event_tokens: "tokens es = numbered (chunk_index s) (deltas [ev])"
    and stream_event_follows: "follows s [ev] s'"
    and stream_event_announced: "announced (first_token_emitted s) es \<and>
      first_token_emitted s' = (first_token_emitted s \<or> FirstToken \<in> set es)"
    and stream_event_break: "fl = Break \<longleftrightarrow> (\<exists>r. ev = ResponseIncomplete r)"
  using assms
  by (auto simp: stream_event_def Let_def emit_token_def is_terminal_def projections numbered_Cons follows_def thought_def
      final_answers_def answer_of_def
      split: rs_event.splits output_item.splits if_splits option.splits)

lemma stream_event_tools:
  assumes "stream_event L t ev s = (es, s', fl)" and "fl \<noteq> Return" and "tool_inv s started"
  shows "tool_inv s' (started @ begins ev)"
  using assms
  by (auto simp: stream_event_def Let_def emit_token_def begins_def tool_inv_def last_index_snoc
      split: rs_event.splits output_item.splits if_splits option.splits)

lemma stream_event_reported:
  assumes "stream_event L t ev s = (es, s', fl)" and "fl \<noteq> Return" and "tool_inv s started"
  shows "reported started (chunk_index s) (ev # evs) =
    unannounced es @ reported (started @ begins ev) (chunk_index s') evs"
  using assms
  by (auto simp: stream_event_def Let_def emit_token_def begins_def tool_inv_def delta_of_def
      split: rs_event.splits output_item.splits if_splits option.splits)

section \<open>Whole streams\<close>

lemma final_event_terminal: "is_terminal (final_event L start t d s)"
  by (simp add: final_event_def is_terminal_def Let_def split: option.splits)

lemma follows_refl: "follows s [] s"
  by (simp add: follows_def deltas_def final_answers_def)

lemma deltas_append [simp]: "deltas (xs @ ys) = deltas xs @ deltas ys"
  by (simp add: deltas_def)

lemma final_answers_append [simp]: "final_answers (xs @ ys) = final_answers xs @ final_answers ys"
  by (simp add: final_answers_def)

lemma follows_trans: "follows s xs s' \<Longrightarrow> follows (s'\<lparr>last_content_chunk_at := x\<rparr>) ys st \<Longrightarrow> follows s (xs @ ys) st"
  by (auto simp: follows_def)

lemma numbered_append: "numbered n (xs @ ys) = numbered n xs @ numbered (n + length xs) ys"
  by (induction xs arbitrary: n) (auto simp: numbered_Cons)

definition shape_of ::
  "(nat \<Rightarrow> collector_state option \<Rightarrow> stream_state \<Rightarrow> sampling_event) \<Rightarrow> stream_state \<Rightarrow> nat list \<Rightarrow> rs_event list \<Rightarrow>
   rs_event list \<Rightarrow> sampling_event list \<Rightarrow> sampling_event \<Rightarrow> bool" where
  "shape_of final s started received evs body e \<longleftrightarrow>
     is_terminal e \<and> (\<forall>x \<in> set body. \<not> is_terminal x) \<and>
     tokens body = numbered (chunk_index s) (deltas evs) \<and> announced (first_token_emitted s) body \<and>
     unannounced body = reported started (chunk_index s) evs \<and> (\<exists>rest. received = evs @ rest) \<and>
     ((\<exists>i. e = FailedEvent i) \<or>
      (\<exists>t d st. e = final t d st \<and> follows s evs st \<and>
         (received = evs \<or> (\<exists>r evs0. evs = evs0 @ [ResponseIncomplete r]))))"

definition stream_shape ::
  "(nat \<Rightarrow> collector_state option \<Rightarrow> stream_state \<Rightarrow> sampling_event) \<Rightarrow> stream_state \<Rightarrow> nat list \<Rightarrow> rs_event list \<Rightarrow>
   sampling_event list \<Rightarrow> bool" where
  "stream_shape final s started received es \<longleftrightarrow>
     (\<exists>evs body e. es = body @ [e] \<and> shape_of final s started received evs body e)"

lemma stream_shapeI: "shape_of final s started received evs body e \<Longrightarrow> stream_shape final s started received (body @ [e])"
  by (auto simp: stream_shape_def)

lemma stream_shape_fail: "stream_shape final s started received [FailedEvent i]"
  using stream_shapeI [of final s started received "[]" "[]" "FailedEvent i"]
  by (simp add: shape_of_def is_terminal_def tokens_def deltas_def)

lemma stream_shape_end: "is_terminal (final t d s) \<Longrightarrow> stream_shape final s started [] [final t d s]"
  using stream_shapeI [of final s started "[]" "[]" "[]" "final t d s"] follows_refl [of s]
  by (simp add: shape_of_def tokens_def deltas_def) blast

lemma stream_shape_step:
  assumes "stream_event L t ev s = (es, s', fl)" "fl \<noteq> Return" "tool_inv s started"
    and shape: "stream_shape final (s'\<lparr>last_content_chunk_at := x\<rparr>) (started @ begins ev) received fs"
  shows "stream_shape final s started (ev # received) (es @ fs)"
proof -
  note step = stream_event_step [OF assms(1-2)]
  have fol: "follows s [ev] s'" by (rule step(3))
  from shape obtain evs body e where fs: "fs = body @ [e]"
    and sh: "shape_of final (s'\<lparr>last_content_chunk_at := x\<rparr>) (started @ begins ev) received evs body e" by (auto simp: stream_shape_def)
  have toks: "tokens (es @ body) = numbered (chunk_index s) (deltas (ev # evs))"
    using step(2) sh fol deltas_append [of "[ev]" evs] by (simp add: numbered_append follows_def shape_of_def)
  have ann: "announced (first_token_emitted s) (es @ body)"
    using step(4) sh by (auto intro: announced_append simp: shape_of_def)
  have tools: "unannounced (es @ body) = reported started (chunk_index s) (ev # evs)"
    using stream_event_reported [OF assms(1-3), of evs] sh by (simp add: shape_of_def)
  have fin: "follows (s'\<lparr>last_content_chunk_at := x\<rparr>) evs st \<Longrightarrow> follows s (ev # evs) st" for st
    using follows_trans [OF fol, of x evs st] by simp
  have "(\<exists>i. e = FailedEvent i) \<or> (\<exists>t d st. e = final t d st \<and> follows s (ev # evs) st \<and>
      (ev # received = ev # evs \<or> (\<exists>r evs0. ev # evs = evs0 @ [ResponseIncomplete r])))"
    using sh fin unfolding shape_of_def by (metis append_Cons)
  then have "shape_of final s started (ev # received) (ev # evs) (es @ body) e"
    using sh step(1) toks ann tools unfolding shape_of_def by (auto simp del: reported.simps)
  from stream_shapeI [OF this] show ?thesis by (simp add: fs)
qed

lemma streams_shape:
  "streams L idle start now doom s ins es c \<Longrightarrow> tool_inv s started \<Longrightarrow>
   stream_shape (final_event L start) s started (wire_events L now doom ins) es"
proof (induction arbitrary: started rule: streams.induct)
  case (ended now doom ins t doom' rest s)
  then show ?case by (simp add: stream_shape_end final_event_terminal wire_events.simps [of L now])
next
  case (returned now doom ins t ev doom' rest s es s')
  then show ?case using stream_event_return by (metis stream_shape_fail)
next
  case (stale now doom ins t ev doom' rest s es s' fl)
  then show ?case
    using stream_shape_step [OF stale(3,4,6), of "final_event L start" "last_content_chunk_at s'" _ "[FailedEvent _]"]
    by (simp add: stream_shape_fail wire_events.simps [of L now])
next
  case (broke now doom ins t ev doom' rest s es s')
  note step = stream_event_step [OF broke(3)]
  then obtain r where "ev = ResponseIncomplete r" by auto
  then have "[ev] = [] @ [ResponseIncomplete r]" by simp
  moreover have "unannounced es = reported started (chunk_index s) [ev]"
    using stream_event_reported [OF broke(3) _ broke(4), of "[]"] by simp
  ultimately have "shape_of (final_event L start) s started (ev # wire_events L t doom' rest) [ev] es (final_event L start t doom' s')"
    using step(1-4) final_event_terminal unfolding shape_of_def
    by (metis append_Cons append_Nil flow.distinct(5))
  from stream_shapeI [OF this] show ?case using broke(1) by (simp add: wire_events.simps [of L now])
next
  case (goes_on now doom ins t ev doom' rest s es s' x es' c)
  then have "tool_inv (s'\<lparr>last_content_chunk_at := x\<rparr>) (started @ begins ev)"
    using stream_event_tools [OF goes_on(3) _ goes_on(6)] by (simp add: tool_inv_def)
  then show ?case using stream_shape_step [OF goes_on(3) _ goes_on(6) goes_on(5)] goes_on(1)
    by (simp add: wire_events.simps [of L now])
qed (auto simp: stream_shape_fail)

text \<open>A stream without collector, or with one that is disarmed, reports no loop.\<close>

definition unarmed :: "collector_state option \<Rightarrow> bool" where
  "unarmed doom \<longleftrightarrow> (case doom of Some c \<Rightarrow> abort_disarmed c | None \<Rightarrow> True)"

lemma next_item_unarmed:
  "next_item L now doom ins = (it, doom', rest) \<Longrightarrow> unarmed doom \<Longrightarrow> unarmed doom'"
proof (induction L now doom ins rule: next_item.induct)
  case (2 L now doom t name data rest)
  have "unarmed (snd (swallow_frame L name data doom))"
    using 2(3) by (auto simp: swallow_frame_def unarmed_def absorb_keeps case_prod_beta split: option.splits)
  then show ?case using 2 by (auto simp: Let_def split: if_splits prod.splits)
qed auto

lemma next_item_error:
  "next_item L now doom ins = (Item t (Inl e), doom', rest) \<Longrightarrow> \<not> is_doom_loop e"
  by (induction L now doom ins rule: next_item.induct)
    (auto simp: Let_def decode_frame_def try_parse_stream_error_def is_doom_loop_def
      split: if_splits prod.splits option.splits sum.splits)

lemma unarmed_no_triggers: "unarmed doom \<Longrightarrow> Option.bind doom abort_triggers = None"
  by (auto simp: unarmed_def abort_triggers_def split: option.splits)

definition reports_loop :: "sampling_event \<Rightarrow> bool" where
  "reports_loop e \<longleftrightarrow> (case e of FailedEvent i \<Rightarrow> info_kind i = KDoomLoopDetected | _ \<Rightarrow> False)"

lemma reports_loop_info: "reports_loop (FailedEvent (info_of L e)) \<longleftrightarrow> is_doom_loop e"
  by (simp add: reports_loop_def info_of_def error_kind_doom_iff)

lemma reports_loop_final [simp]: "\<not> reports_loop (final_event L start t d s)"
  by (simp add: final_event_def reports_loop_def info_of_def error_kind_def api_500_def is_rate_limited_def Let_def
      split: option.splits)

lemma quiet_no_report: "\<forall>e \<in> set es. \<not> is_terminal e \<Longrightarrow> \<forall>e \<in> set es. \<not> reports_loop e"
  by (auto simp: is_terminal_def reports_loop_def split: sampling_event.splits)

lemma streams_unarmed:
  "streams L idle start now doom s ins es c \<Longrightarrow> unarmed doom \<Longrightarrow>
   (\<forall>e \<in> set es. \<not> reports_loop e) \<and> (\<forall>e. c = Some e \<longrightarrow> \<not> is_doom_loop e)"
proof (induction rule: streams.induct)
  case (aborted now doom ins t ev doom' rest triggers s)
  then show ?case using next_item_unarmed unarmed_no_triggers by fastforce
next
  case (returned now doom ins t ev doom' rest s es s')
  then show ?case using stream_event_return [OF returned(3)] by (auto simp: reports_loop_info api_500_def is_doom_loop_def)
next
  case (goes_on now doom ins t ev doom' rest s es s' x es' c)
  then show ?case using quiet_no_report [OF stream_event_quiet [OF goes_on(3)]] next_item_unarmed by fastforce
next
  case (raw_failure now doom ins t e doom' rest s)
  then show ?case using next_item_error by (simp add: reports_loop_info)
qed (auto simp: reports_loop_info is_doom_loop_def dest!: stream_event_quiet quiet_no_report)

text \<open>No failure of a stream carries a hint how long to wait.\<close>

definition no_hint :: "sampling_event \<Rightarrow> bool" where
  "no_hint e \<longleftrightarrow> (case e of FailedEvent i \<Rightarrow> info_retry_after_secs i = None | _ \<Rightarrow> True)"

lemma no_hint_info: "no_hint (FailedEvent (info_of L e)) \<longleftrightarrow> retry_after e = None"
  by (simp add: no_hint_def info_of_def)

lemma no_hint_final [simp]: "no_hint (final_event L start t d s)"
  by (simp add: final_event_def no_hint_def info_of_def api_500_def retry_after_def Let_def split: option.splits)

lemma quiet_no_hint: "\<forall>e \<in> set es. \<not> is_terminal e \<Longrightarrow> \<forall>e \<in> set es. no_hint e"
  by (auto simp: is_terminal_def no_hint_def split: sampling_event.splits)

lemma next_item_no_hint:
  "next_item L now doom ins = (Item t (Inl e), doom', rest) \<Longrightarrow> retry_after e = None"
  by (induction L now doom ins rule: next_item.induct)
    (auto simp: Let_def decode_frame_def try_parse_stream_error_def retry_after_def
      split: if_splits prod.splits option.splits sum.splits)

lemma clone_error_hint [simp]: "retry_after (clone_error L e) = retry_after e"
  by (simp add: clone_error_def retry_after_def serialization_message_def split: sampling_error.splits)

lemma streams_no_hint:
  "streams L idle start now doom s ins es c \<Longrightarrow>
   (\<forall>e \<in> set es. no_hint e) \<and> (\<forall>e. c = Some e \<longrightarrow> retry_after e = None)"
proof (induction rule: streams.induct)
  case (returned now doom ins t ev doom' rest s es s')
  then show ?case using stream_event_return [OF returned(3)] by (auto simp: no_hint_info api_500_def retry_after_def)
next
  case (goes_on now doom ins t ev doom' rest s es s' x es' c)
  then show ?case using quiet_no_hint [OF stream_event_quiet [OF goes_on(3)]] by fastforce
next
  case (raw_failure now doom ins t e doom' rest s)
  then show ?case using next_item_no_hint by (simp add: no_hint_info)
qed (auto simp: no_hint_info retry_after_def dest!: stream_event_quiet quiet_no_hint)

text \<open>Nor does a stream announce a retry.\<close>

definition is_retrying :: "sampling_event \<Rightarrow> bool" where
  "is_retrying e \<longleftrightarrow> (case e of Retrying _ _ _ _ _ _ \<Rightarrow> True | _ \<Rightarrow> False)"

lemma stream_event_no_retrying: "stream_event L t ev s = (es, s', fl) \<Longrightarrow> \<forall>e \<in> set es. \<not> is_retrying e"
  by (auto simp: stream_event_def Let_def emit_token_def is_retrying_def
      split: rs_event.splits output_item.splits if_splits option.splits)

lemma final_event_no_retrying [simp]: "\<not> is_retrying (final_event L start t d s)"
  by (simp add: final_event_def is_retrying_def Let_def split: option.splits)

lemma streams_no_retrying: "streams L idle start now doom s ins es c \<Longrightarrow> \<forall>e \<in> set es. \<not> is_retrying e"
  by (induction rule: streams.induct) (auto simp: is_retrying_def [of "FailedEvent _"] dest: stream_event_no_retrying)

end
