(* ===== verification/Sampler_Task.thy ===== *)
theory Sampler_Task
  imports Sampler_Stream_Laws
begin

text \<open>
  One sampling request (\<^verbatim>\<open>codegen/xai-grok-sampler/src/actor/request_task.rs\<close>): an attempt is opened and
  driven to its outcome, and the loop decides whether to try again.

  The state is that of the loop, with the events emitted, the completion sent and the times waited.
  The network is a parameter: what the \<open>n\<close>-th attempt meets when the request is sent, when the token is
  cancelled, and the hash behind the jitter. A client is the configuration it was built from. The
  transforms of the two other backends are parameters like the network; that of the Responses API is
  the one above. The parameter \<open>fuel\<close> bounds the attempts.
\<close>

section \<open>Requests and responses\<close>

definition image_removed :: ustr where
  "image_removed = u ''[image removed '' @ [8212] @ u '' conversation too large]''"

definition is_image_part :: "content_part \<Rightarrow> bool" where
  "is_image_part p \<longleftrightarrow> (case p of ImagePart _ \<Rightarrow> True | _ \<Rightarrow> False)"

definition strip_item_images :: "conversation_item \<Rightarrow> conversation_item \<times> nat" where
  "strip_item_images x = (case x of
       User m \<Rightarrow> (User (m\<lparr>user_content := map (\<lambda>p. if is_image_part p then TextPart image_removed else p) (user_content m)\<rparr>),
                  length (filter is_image_part (user_content m)))
     | ToolResult r \<Rightarrow> (ToolResult (r\<lparr>result_images := []\<rparr>), length (result_images r))
     | _ \<Rightarrow> (x, 0))"

definition strip_request_images :: "conversation_item list \<Rightarrow> conversation_item list \<times> nat" where
  "strip_request_images xs = (map (fst \<circ> strip_item_images) xs, sum_list (map (snd \<circ> strip_item_images) xs))"

definition response_assistant :: "conversation_response \<Rightarrow> assistant_item option" where
  "response_assistant r =
     (case List.find is_assistant_item (rev (response_items r)) of Some (Assistant a) \<Rightarrow> Some a | _ \<Rightarrow> None)"

definition shows_reasoning :: "conversation_response \<Rightarrow> bool" where
  "shows_reasoning r \<longleftrightarrow>
     (\<exists>x \<in> set (response_items r). case x of
        Reasoning i \<Rightarrow> summary_parts i \<noteq> [] \<or> reasoning_content i \<noteq> None \<or> encrypted_content i \<noteq> None
      | _ \<Rightarrow> False)"

definition response_empty_reason :: "conversation_response \<Rightarrow> empty_reason option" where
  "response_empty_reason r = (case response_assistant r of
       None \<Rightarrow> Some NoVisibleContent
     | Some a \<Rightarrow> if assistant_content a \<noteq> [] \<or> tool_calls a \<noteq> [] then None
                 else if shows_reasoning r then Some ReasoningOnly else Some NoVisibleContent)"

definition build_empty_context :: "empty_reason \<Rightarrow> conversation_response \<Rightarrow> empty_response_context" where
  "build_empty_context reason r =
     \<lparr>ctx_reason = reason,
      had_reasoning = shows_reasoning r,
      content_len = (case response_assistant r of Some a \<Rightarrow> byte_len (assistant_content a) | None \<Rightarrow> 0),
      tool_call_count = (case response_assistant r of Some a \<Rightarrow> length (tool_calls a) | None \<Rightarrow> 0),
      finish_reason = map_option stop_reason_str (stop_reason_of r),
      ctx_completion_tokens = map_option completion_tokens (response_usage r),
      ctx_reasoning_tokens = map_option usage_reasoning_tokens (response_usage r),
      ctx_prompt_tokens = map_option prompt_tokens (response_usage r),
      ctx_model = (case response_assistant r of
                     Some a \<Rightarrow> (case model_id a of Some m \<Rightarrow> m | None \<Rightarrow> []) | None \<Rightarrow> []),
      first_choice_seen = (case response_assistant r of Some a \<Rightarrow> model_id a \<noteq> None | None \<Rightarrow> False)\<rparr>"

section \<open>Attempts\<close>

datatype api_backend = ChatCompletions | Responses | Messages

record sampler_config =
  cfg_max_retries :: "nat option"
  idle_timeout_secs :: "nat option"
  doom_loop_recovery :: "doom_loop_policy option"
  force_http1 :: bool
  api_backend :: api_backend

record sampler_retry_policy =
  policy_max_retries :: nat
  rate_limit_retry_threshold :: nat

definition default_retry_policy :: sampler_retry_policy where
  "default_retry_policy =
     \<lparr>policy_max_retries = DEFAULT_MAX_RETRIES, rate_limit_retry_threshold = RATE_LIMIT_RETRY_THRESHOLD\<rparr>"

definition DEFAULT_IDLE_TIMEOUT_SECS :: nat where "DEFAULT_IDLE_TIMEOUT_SECS = 300"

text \<open>
  How sending a request ends: it cannot be encoded, the connection fails, the server final_answers with a status
  that is no success (with the headers \<^verbatim>\<open>Retry-After\<close> and \<^verbatim>\<open>x-should-retry\<close> and a text), or it streams.
\<close>

datatype 'a open_result =
    NotEncoded ustr
  | ConnectFailed reqwest_error
  | Refused nat "ustr option" "ustr option" "response_model_metadata option" ustr
  | Opened "response_model_metadata option" 'a

definition extract_retry_after :: "ustr option \<Rightarrow> nat option" where
  "extract_retry_after header = map_option (\<lambda>s. min s 120) (Option.bind header (parse_uint u64_max))"

definition extract_should_retry :: "ustr option \<Rightarrow> bool option" where
  "extract_should_retry header = Option.bind header (\<lambda>s.
     if to_ascii_lowercase s = u ''true'' then Some True
     else if to_ascii_lowercase s = u ''false'' then Some False
     else None)"

definition open_error :: "'a open_result \<Rightarrow> sampling_error option" where
  "open_error r = (case r of
       NotEncoded t \<Rightarrow> Some (Serialization t)
     | ConnectFailed e \<Rightarrow> Some (Http e)
     | Refused status ra sr md m \<Rightarrow>
         Some (if status = 401 then Auth m
               else Api status m md (extract_retry_after ra) (extract_should_retry sr))
     | Opened _ _ \<Rightarrow> None)"

record network =
  client_error :: "sampler_config \<Rightarrow> sampling_error option"
  conversation_stream :: "nat \<Rightarrow> sampler_config \<Rightarrow> conversation_item list \<Rightarrow> (sampling_event list \<times> sampling_error option) open_result"
  conversation_stream_responses :: "nat \<Rightarrow> sampler_config \<Rightarrow> conversation_item list \<Rightarrow> raw_input list open_result"
  conversation_stream_messages :: "nat \<Rightarrow> sampler_config \<Rightarrow> conversation_item list \<Rightarrow> (sampling_event list \<times> sampling_error option) open_result"
  cancelled_before :: "nat \<Rightarrow> bool"
  cancelled_during :: "nat \<Rightarrow> nat option"
  jitter_hash :: "nat \<Rightarrow> nat"
  clock :: "nat \<Rightarrow> nat"

datatype attempt_outcome =
    AttemptCompleted conversation_response latency_stats
  | AttemptEmpty empty_response_context
  | AttemptFailed sampling_error
  | AttemptCancelled
  | InitFailed sampling_error

definition judge_completed ::
  "doom_loop_policy option \<Rightarrow> conversation_response \<Rightarrow> latency_stats \<Rightarrow> attempt_outcome" where
  "judge_completed doom_check r m =
     (let triggers = (case doom_check of Some p \<Rightarrow> confident_triggers p (doom_loop_signals r) | None \<Rightarrow> [])
      in if triggers \<noteq> [] then AttemptFailed (DoomLoopDetected triggers None)
         else if stop_reason_of r = Some StopLength then AttemptFailed MaxTokensTruncation
         else (case response_empty_reason r of
                 Some reason \<Rightarrow>
                   if stop_reason_of r = Some StopContentFilter then AttemptCompleted r m
                   else AttemptEmpty (build_empty_context reason r)
               | None \<Rightarrow> AttemptCompleted r m))"

fun drive_l2 ::
  "stream_libs \<Rightarrow> nat option \<Rightarrow> sampling_error option \<Rightarrow> doom_loop_policy option \<Rightarrow> sampling_event list \<Rightarrow>
   sampling_event list \<times> attempt_outcome" where
  "drive_l2 L cancel captured doom_check [] =
     ([], if cancel = Some 0 then AttemptCancelled
          else AttemptFailed (EventStreamError (u ''stream dropped without terminal event'')))"
| "drive_l2 L cancel captured doom_check (e # es) =
     (if cancel = Some 0 then ([], AttemptCancelled)
      else case e of
             CompletedEvent r m \<Rightarrow> ([], judge_completed doom_check r m)
           | FailedEvent info \<Rightarrow>
               ([], AttemptFailed (case captured of Some err \<Rightarrow> err | None \<Rightarrow> synthesize_from_info (base_libs L) info))
           | _ \<Rightarrow> (let (fs, out) = drive_l2 L (map_option (\<lambda>n. n - 1) cancel) captured doom_check es in (e # fs, out)))"

definition run_one_attempt ::
  "network \<Rightarrow> stream_libs \<Rightarrow> nat \<Rightarrow> nat \<Rightarrow> sampler_config \<Rightarrow> conversation_item list \<Rightarrow> doom_loop_policy option \<Rightarrow>
   sampling_event list \<times> attempt_outcome" where
  "run_one_attempt N L n idle client xs doom_check =
     (let other = (\<lambda>r. case r of
              Opened md (es, captured) \<Rightarrow> drive_l2 L (cancelled_during N n) captured None es
            | _ \<Rightarrow> ([], InitFailed (the (open_error r))))
      in case api_backend client of
           ChatCompletions \<Rightarrow> other (conversation_stream N n client xs)
         | Messages \<Rightarrow> other (conversation_stream_messages N n client xs)
         | Responses \<Rightarrow>
             (case conversation_stream_responses N n client xs of
                Opened md ins \<Rightarrow>
                  let doom = map_option new_collector (doom_loop_recovery client);
                      doom' = (if doom_check = None then map_option disarm_abort doom else doom);
                      (es, captured) = stream_responses L idle (clock N n) md doom' ins
                  in drive_l2 L (cancelled_during N n) captured doom_check es
              | r \<Rightarrow> ([], InitFailed (the (open_error r)))))"

section \<open>The loop\<close>

type_synonym completion_result = "sampling_error + (conversation_response \<times> latency_stats)"

record task_state =
  task_request :: "conversation_item list"
  task_client :: sampler_config
  retry_count :: nat
  doom_retry_count :: nat
  attempt_no :: nat
  task_events :: "sampling_event list"
  waits :: "nat list"
  completion :: "completion_result list"
  completion_open :: bool

definition emit :: "sampling_event list \<Rightarrow> task_state \<Rightarrow> task_state" where
  "emit es t = t\<lparr>task_events := task_events t @ es\<rparr>"

definition wait_for :: "nat \<Rightarrow> task_state \<Rightarrow> task_state" where
  "wait_for ms t = t\<lparr>waits := waits t @ [ms]\<rparr>"

definition emit_failed :: "stream_libs \<Rightarrow> sampling_error \<Rightarrow> task_state \<Rightarrow> task_state" where
  "emit_failed L err = emit [FailedEvent (info_of (base_libs L) err)]"

definition emit_retrying :: "stream_libs \<Rightarrow> nat \<Rightarrow> nat \<Rightarrow> sampling_error \<Rightarrow> task_state \<Rightarrow> task_state" where
  "emit_retrying L attempt mx err =
     (let info = info_of (base_libs L) err
      in emit [Retrying attempt mx (info_kind info) (sampling_error_text (base_libs L) err)
                 (info_doom_triggers info) (info_aborted_at_chunk info)])"

definition send_completion :: "completion_result \<Rightarrow> task_state \<Rightarrow> task_state" where
  "send_completion r t =
     (if completion_open t then t\<lparr>completion := completion t @ [r], completion_open := False\<rparr> else t)"

definition cancel_info :: sampling_error_info where
  "cancel_info =
     \<lparr>info_kind = KApi, status_code = None, info_message = u ''request cancelled'', info_is_retryable = False,
      info_retry_after_secs = None, info_model_metadata = None, info_empty_context = None,
      info_doom_triggers = None, info_aborted_at_chunk = None\<rparr>"

definition handle_cancellation :: "task_state \<Rightarrow> task_state" where
  "handle_cancellation t =
     send_completion (Inl (Auth (u ''request cancelled''))) (emit [FailedEvent cancel_info] t)"

definition strip_task_images :: "task_state \<Rightarrow> task_state \<times> nat" where
  "strip_task_images t =
     (let (xs, n) = strip_request_images (task_request t) in (t\<lparr>task_request := xs\<rparr>, n))"

definition count_retry :: "stream_libs \<Rightarrow> nat \<Rightarrow> sampling_error \<Rightarrow> task_state \<Rightarrow> task_state" where
  "count_retry L mx err t =
     (let n = u32_add (retry_count t) 1 in emit_retrying L n mx err (t\<lparr>retry_count := n\<rparr>))"

definition finish_failed :: "stream_libs \<Rightarrow> sampling_error \<Rightarrow> sampling_error \<Rightarrow> task_state \<Rightarrow> task_state \<times> bool" where
  "finish_failed L err result t = (send_completion (Inl result) (emit_failed L err t), False)"

definition apply_retry_decision ::
  "network \<Rightarrow> stream_libs \<Rightarrow> sampler_config \<Rightarrow> sampler_retry_policy \<Rightarrow> nat \<Rightarrow> nat \<Rightarrow> sampling_error \<Rightarrow> task_state \<Rightarrow> task_state \<times> bool" where
  "apply_retry_decision N L cfg policy mx h err t0 =
     (let threshold = (if rate_limit_retry_threshold policy = 0 then RATE_LIMIT_RETRY_THRESHOLD
                       else rate_limit_retry_threshold policy);
          decision = classify_error (base_libs L) h err (retry_count t0) mx threshold;
          t = (if is_likely_body_rejected err then fst (strip_task_images t0) else t0)
      in case decision of
           Retry backoff \<Rightarrow> (wait_for backoff (count_retry L mx err t), True)
         | RetryWithBackoff backoff _ \<Rightarrow> (wait_for backoff (count_retry L mx err t), True)
         | RetryWithImageStrip \<Rightarrow>
             (let (t', stripped) = strip_task_images t
              in if stripped = 0 then finish_failed L err (clone_error (base_libs L) err) t'
                 else (count_retry L mx err t', True))
         | RetryWithClientRebuild backoff \<Rightarrow>
             (let t' = wait_for backoff (count_retry L mx err t);
                  http1_config = cfg\<lparr>force_http1 := True\<rparr>
              in (if client_error N http1_config = None then t'\<lparr>task_client := http1_config\<rparr> else t', True))
         | EmitToSession emitted \<Rightarrow> finish_failed L emitted emitted t
         | Fatal fatal \<Rightarrow> finish_failed L fatal fatal t)"

definition doom_budget :: "sampler_config \<Rightarrow> nat" where
  "doom_budget cfg = (case doom_loop_recovery cfg of Some p \<Rightarrow> doom_max_retries p | None \<Rightarrow> 0)"

definition task_iteration ::
  "network \<Rightarrow> stream_libs \<Rightarrow> sampler_config \<Rightarrow> sampler_retry_policy \<Rightarrow> nat \<Rightarrow> task_state \<Rightarrow> task_state \<times> bool" where
  "task_iteration N L cfg policy mx t0 =
     (if cancelled_before N (attempt_no t0) then (handle_cancellation t0, False)
      else
        let n = attempt_no t0;
            h = jitter_hash N n;
            idle = (case idle_timeout_secs cfg of Some s \<Rightarrow> s | None \<Rightarrow> DEFAULT_IDLE_TIMEOUT_SECS) * 1000;
            doom_check = (if doom_retry_count t0 < doom_budget cfg then doom_loop_recovery cfg else None);
            (es, outcome) = run_one_attempt N L n idle (task_client t0) (task_request t0) doom_check;
            t = (emit es t0)\<lparr>attempt_no := n + 1\<rparr>
        in case outcome of
             AttemptCompleted r m \<Rightarrow>
               let m' = m\<lparr>attempts := u32_add (u32_add (retry_count t) (doom_retry_count t)) 1\<rparr>
               in (send_completion (Inr (r, m')) (emit [CompletedEvent r m'] t), False)
           | AttemptEmpty c \<Rightarrow> apply_retry_decision N L cfg policy mx h (EmptyResponse c) t
           | AttemptFailed err \<Rightarrow>
               if is_doom_loop err
               then let k = u32_add (doom_retry_count t) 1
                    in (wait_for (doom_loop_backoff h)
                          (emit_retrying L k (doom_budget cfg) err (t\<lparr>doom_retry_count := k\<rparr>)), True)
               else apply_retry_decision N L cfg policy mx h err t
           | AttemptCancelled \<Rightarrow> (handle_cancellation t, False)
           | InitFailed err \<Rightarrow> apply_retry_decision N L cfg policy mx h err t)"

fun task_loop ::
  "network \<Rightarrow> stream_libs \<Rightarrow> sampler_config \<Rightarrow> sampler_retry_policy \<Rightarrow> nat \<Rightarrow> nat \<Rightarrow> task_state \<Rightarrow> task_state option" where
  "task_loop N L cfg policy mx 0 t = None"
| "task_loop N L cfg policy mx (Suc fuel) t =
     (case task_iteration N L cfg policy mx t of
        (t', True) \<Rightarrow> task_loop N L cfg policy mx fuel t'
      | (t', False) \<Rightarrow> Some t')"

definition task_start :: "sampler_config \<Rightarrow> conversation_item list \<Rightarrow> bool \<Rightarrow> task_state" where
  "task_start cfg xs collect =
     \<lparr>task_request = xs, task_client = cfg, retry_count = 0, doom_retry_count = 0, attempt_no = 0,
      task_events = [], waits = [], completion = [], completion_open = collect\<rparr>"

definition effective_retries :: "ustr option \<Rightarrow> sampler_config \<Rightarrow> sampler_retry_policy \<Rightarrow> nat" where
  "effective_retries env cfg policy =
     resolve_max_retries env (case cfg_max_retries cfg of Some n \<Rightarrow> Some n | None \<Rightarrow> Some (policy_max_retries policy))"

definition run_request_task ::
  "network \<Rightarrow> stream_libs \<Rightarrow> ustr option \<Rightarrow> sampler_config \<Rightarrow> sampler_retry_policy \<Rightarrow> conversation_item list \<Rightarrow> bool \<Rightarrow> nat \<Rightarrow>
   task_state option" where
  "run_request_task N L env cfg policy xs collect fuel =
     (case client_error N cfg of
        Some err \<Rightarrow> Some (fst (finish_failed L err err (task_start cfg xs collect)))
      | None \<Rightarrow> task_loop N L cfg policy (effective_retries env cfg policy) fuel (task_start cfg xs collect))"

end
