(* ===== verification/Sampler_Task_Laws.thy ===== *)
theory Sampler_Task_Laws
  imports Sampler_Task
begin

text \<open>
  Why a request ends: an invariant of the retry loop that ties the counters to the attempts made, and the
  outcomes of attempts and decisions that keep it.
\<close>

section \<open>Images\<close>

lemma strip_item_twice: "snd (strip_item_images (fst (strip_item_images x))) = 0"
  by (cases x) (auto simp: strip_item_images_def is_image_part_def filter_map o_def filter_empty_conv split: content_part.splits)

lemma strip_twice: "snd (strip_request_images (fst (strip_request_images xs))) = 0"
  by (simp add: strip_request_images_def strip_item_twice o_def)

definition has_images :: "task_state \<Rightarrow> bool" where
  "has_images t \<longleftrightarrow> snd (strip_request_images (task_request t)) \<noteq> 0"

lemma strip_task_images_eq:
  "strip_task_images t =
     (t\<lparr>task_request := fst (strip_request_images (task_request t))\<rparr>, snd (strip_request_images (task_request t)))"
  by (simp add: strip_task_images_def case_prod_beta)

section \<open>Attempts\<close>

definition short_wait :: "sampling_error \<Rightarrow> bool" where
  "short_wait e \<longleftrightarrow> (\<forall>s. retry_after e = Some s \<longrightarrow> s \<le> 120)"

text \<open>
  What is asked of the two transforms that are parameters: they report no loop, which only the Responses API
  signals, no hint of more than the 120 seconds at which the client cuts the header, and no retry, which is
  for the loop to announce.
\<close>

definition plain_stream :: "(sampling_event list \<times> sampling_error option) open_result \<Rightarrow> bool" where
  "plain_stream r \<longleftrightarrow> (case r of
       Opened _ (es, captured) \<Rightarrow>
         (\<forall>i. FailedEvent i \<in> set es \<longrightarrow>
            info_kind i \<noteq> KDoomLoopDetected \<and> (\<forall>s. info_retry_after_secs i = Some s \<longrightarrow> s \<le> 120)) \<and>
         (\<forall>e. captured = Some e \<longrightarrow> \<not> is_doom_loop e \<and> short_wait e) \<and> (\<forall>e \<in> set es. \<not> is_retrying e)
     | _ \<Rightarrow> True)"

definition others_plain :: "network \<Rightarrow> bool" where
  "others_plain N \<longleftrightarrow>
     (\<forall>n c xs. plain_stream (conversation_stream N n c xs) \<and> plain_stream (conversation_stream_messages N n c xs))"

text \<open>The transform of the Responses API needs no assumption.\<close>

definition plain_backend :: "network \<Rightarrow> sampler_config \<Rightarrow> bool" where
  "plain_backend N cfg \<longleftrightarrow> api_backend cfg = Responses \<or> others_plain N"

lemma open_error_plain: "open_error r = Some e \<Longrightarrow> \<not> is_doom_loop e \<and> short_wait e"
  by (auto simp: open_error_def is_doom_loop_def short_wait_def retry_after_def extract_retry_after_def
      split: open_result.splits if_splits)

lemma synthesize_hint: "retry_after (synthesize_from_info L i) \<in> {None, info_retry_after_secs i}"
  by (simp add: synthesize_from_info_def retry_after_def serialization_from_rendered_def serialization_message_def
      split: sampling_error_kind.splits option.splits)

lemma judge_completed_failed:
  "judge_completed dc r m = AttemptFailed e \<Longrightarrow> short_wait e \<and> (dc = None \<longrightarrow> \<not> is_doom_loop e)"
  by (auto simp: judge_completed_def Let_def short_wait_def retry_after_def is_doom_loop_def split: if_splits option.splits)

lemma judge_completed_not_init: "judge_completed dc r m \<noteq> InitFailed e"
  by (auto simp: judge_completed_def Let_def split: option.splits)

lemma judge_completed_accepts:
  "judge_completed dc r m = AttemptCompleted r' m' \<Longrightarrow>
   r' = r \<and> (\<forall>p. dc = Some p \<longrightarrow> confident_triggers p (doom_loop_signals r) = []) \<and>
   stop_reason_of r \<noteq> Some StopLength \<and>
   (response_empty_reason r = None \<or> stop_reason_of r = Some StopContentFilter)"
  by (auto simp: judge_completed_def Let_def split: if_splits option.splits)

lemma drive_l2_quiet: "\<forall>e \<in> set (fst (drive_l2 L k c dc es)). \<not> is_terminal e"
  by (induction L k c dc es rule: drive_l2.induct)
    (auto simp: is_terminal_def case_prod_beta Let_def split: sampling_event.splits)

lemma drive_l2_failed:
  assumes "snd (drive_l2 L k c dc es) = AttemptFailed err"
    and "\<And>i. FailedEvent i \<in> set es \<Longrightarrow> \<forall>s. info_retry_after_secs i = Some s \<longrightarrow> s \<le> 120"
    and "\<And>e. c = Some e \<Longrightarrow> short_wait e"
  shows "short_wait err"
  using assms
proof (induction L k c dc es rule: drive_l2.induct)
  case (2 L k c dc e es)
  show ?case
  proof (cases e)
    case (FailedEvent i)
    then have "\<forall>s. info_retry_after_secs i = Some s \<longrightarrow> s \<le> 120" using "2.prems"(2) [of i] by simp
    then have "short_wait (synthesize_from_info (base_libs L) i)"
      using synthesize_hint [of "base_libs L" i] by (auto simp: short_wait_def)
    then show ?thesis using "2.prems" FailedEvent by (auto split: if_splits option.splits)
  next
    case (CompletedEvent r m)
    then show ?thesis using "2.prems"(1) judge_completed_failed by (auto split: if_splits)
  qed (use 2 in \<open>auto simp: case_prod_beta Let_def split: if_splits\<close>)
qed (auto simp: short_wait_def retry_after_def split: if_splits)

lemma drive_l2_no_loop:
  assumes "snd (drive_l2 L k c None es) = AttemptFailed err"
    and "\<And>i. FailedEvent i \<in> set es \<Longrightarrow> info_kind i \<noteq> KDoomLoopDetected"
    and "\<And>e. c = Some e \<Longrightarrow> \<not> is_doom_loop e"
  shows "\<not> is_doom_loop err"
  using assms
proof (induction L k c "None :: doom_loop_policy option" es rule: drive_l2.induct)
  case (2 L k c e es)
  show ?case
  proof (cases e)
    case (FailedEvent i)
    then show ?thesis using "2.prems" by (auto simp: synthesize_doom_iff split: if_splits option.splits)
  next
    case (CompletedEvent r m)
    then show ?thesis using "2.prems"(1) judge_completed_failed by (auto split: if_splits)
  qed (use 2 in \<open>auto simp: case_prod_beta Let_def split: if_splits\<close>)
qed (auto simp: is_doom_loop_def split: if_splits)

lemma drive_l2_not_init: "snd (drive_l2 L k c dc es) \<noteq> InitFailed err"
  by (induction L k c dc es rule: drive_l2.induct)
    (auto simp: case_prod_beta Let_def judge_completed_not_init split: sampling_event.splits)

lemma drive_l2_accepts:
  "snd (drive_l2 L k c dc es) = AttemptCompleted r m \<Longrightarrow>
   (\<forall>p. dc = Some p \<longrightarrow> confident_triggers p (doom_loop_signals r) = []) \<and> stop_reason_of r \<noteq> Some StopLength \<and>
   (response_empty_reason r = None \<or> stop_reason_of r = Some StopContentFilter)"
  by (induction L k c dc es rule: drive_l2.induct)
    (auto simp: case_prod_beta Let_def dest: judge_completed_accepts split: sampling_event.splits if_splits)

lemma stream_responses_events:
  assumes "stream_responses L idle now md doom ins = (es, c)"
  obtains es' pre where "streams L idle now now doom (stream_start_state now) ins es' c" "es = pre @ es'"
    "\<forall>e \<in> set pre. \<not> is_terminal e"
  using assms streams_loop [of L idle now now doom "stream_start_state now" ins] that
    [of "fst (responses_loop L idle now now doom (stream_start_state now) ins)"
       "StreamStarted now # (case md of Some m \<Rightarrow> [ModelMetadata m] | None \<Rightarrow> [])"]
  by (auto simp: stream_responses_def case_prod_beta Let_def is_terminal_def split: option.splits)

lemma drive_l2_forwards: "set (fst (drive_l2 L k c dc es)) \<subseteq> set es"
  by (induction L k c dc es rule: drive_l2.induct) (auto simp: case_prod_beta Let_def split: sampling_event.splits)

lemma drive_l2_no_retrying:
  "drive_l2 L k c dc es = (fs, out) \<Longrightarrow> \<forall>e \<in> set es. \<not> is_retrying e \<Longrightarrow> \<forall>e \<in> set fs. \<not> is_retrying e"
  using drive_l2_forwards [of L k c dc es] by auto

lemma stream_responses_no_retrying:
  assumes "stream_responses L idle now md doom ins = (es, c)"
  shows "\<forall>e \<in> set es. \<not> is_retrying e"
  using assms streams_no_retrying [OF streams_loop [of L idle now now doom "stream_start_state now" ins]]
  by (auto simp: stream_responses_def case_prod_beta Let_def is_retrying_def split: option.splits)

lemma run_one_attempt_no_retrying:
  assumes "plain_backend N client" "run_one_attempt N L n idle client xs dc = (es, out)"
  shows "\<forall>e \<in> set es. \<not> is_retrying e"
proof (cases "api_backend client")
  case Responses
  show ?thesis
  proof (cases "conversation_stream_responses N n client xs")
    case (Opened md ins)
    define doom where "doom = (if dc = None then map_option disarm_abort (map_option new_collector (doom_loop_recovery client))
        else map_option new_collector (doom_loop_recovery client))"
    obtain fs c where fs: "stream_responses L idle (clock N n) md doom ins = (fs, c)" by fastforce
    have "drive_l2 L (cancelled_during N n) c dc fs = (es, out)"
      using assms(2) Responses Opened fs by (simp add: run_one_attempt_def Let_def doom_def split: if_splits)
    then show ?thesis using stream_responses_no_retrying [OF fs] by (rule drive_l2_no_retrying)
  qed (use assms(2) Responses in \<open>auto simp: run_one_attempt_def\<close>)
next
  case ChatCompletions
  have "plain_stream (conversation_stream N n client xs)"
    using assms(1) ChatCompletions by (simp add: plain_backend_def others_plain_def)
  then show ?thesis using assms(2) ChatCompletions
    by (auto simp: run_one_attempt_def plain_stream_def dest: drive_l2_no_retrying split: open_result.splits)
next
  case Messages
  have "plain_stream (conversation_stream_messages N n client xs)"
    using assms(1) Messages by (simp add: plain_backend_def others_plain_def)
  then show ?thesis using assms(2) Messages
    by (auto simp: run_one_attempt_def plain_stream_def dest: drive_l2_no_retrying split: open_result.splits)
qed

lemma attempt_other:
  assumes "plain_stream r" and "\<And>md es c. r = Opened md (es, c) \<Longrightarrow> p = drive_l2 L k c None es"
    and "\<And>e. open_error r = Some e \<Longrightarrow> p = ([], InitFailed e)"
  shows "(\<forall>e \<in> set (fst p). \<not> is_terminal e) \<and>
    (\<forall>err. snd p = AttemptFailed err \<or> snd p = InitFailed err \<longrightarrow> short_wait err \<and> \<not> is_doom_loop err)"
proof (cases "open_error r")
  case None
  then obtain md es c where r: "r = Opened md (es, c)" by (cases r) (auto simp: open_error_def)
  have "short_wait err \<and> \<not> is_doom_loop err" if "snd (drive_l2 L k c None es) = AttemptFailed err" for err
    using assms(1) r drive_l2_failed [OF that] drive_l2_no_loop [OF that] by (auto simp: plain_stream_def)
  then show ?thesis using assms(2) [OF r] drive_l2_quiet drive_l2_not_init by metis
next
  case (Some e)
  then show ?thesis using assms(3) [OF Some] open_error_plain [OF Some] by auto
qed

lemma attempt_responses:
  assumes "stream_responses L idle now md doom ins = (es, c)" "dc = None \<Longrightarrow> unarmed doom"
  shows "snd (drive_l2 L k c dc es) = AttemptFailed err \<Longrightarrow> short_wait err \<and> (dc = None \<longrightarrow> \<not> is_doom_loop err)"
proof -
  obtain es' pre where st: "streams L idle now now doom (stream_start_state now) ins es' c"
    and es: "es = pre @ es'" "\<forall>e \<in> set pre. \<not> is_terminal e" by (rule stream_responses_events [OF assms(1)])
  have pre: "FailedEvent i \<notin> set pre" for i using es(2) by (auto simp: is_terminal_def)
  have hint: "\<forall>s. info_retry_after_secs i = Some s \<longrightarrow> s \<le> 120" if "FailedEvent i \<in> set es" for i
    using streams_no_hint [OF st] that pre es(1) by (auto simp: no_hint_def)
  have cap: "c = Some e \<Longrightarrow> short_wait e" for e using streams_no_hint [OF st] by (simp add: short_wait_def)
  assume f: "snd (drive_l2 L k c dc es) = AttemptFailed err"
  show ?thesis
  proof (intro conjI impI)
    show "short_wait err" by (rule drive_l2_failed [OF f hint cap])
    assume "dc = None"
    moreover have "info_kind i \<noteq> KDoomLoopDetected" if "FailedEvent i \<in> set es" "unarmed doom" for i
      using streams_unarmed [OF st that(2)] that pre es(1) by (auto simp: reports_loop_def)
    ultimately show "\<not> is_doom_loop err"
      using f drive_l2_no_loop [of L k c es err] assms(2) streams_unarmed [OF st] by auto
  qed
qed

lemma run_one_attempt_outcome:
  assumes "plain_backend N client" and run: "run_one_attempt N L n idle client xs dc = (es, out)"
  shows "\<forall>e \<in> set es. \<not> is_terminal e"
    and "out = AttemptFailed err \<or> out = InitFailed err \<Longrightarrow> short_wait err"
    and "out = InitFailed err \<or> out = AttemptFailed err \<and> dc = None \<Longrightarrow> \<not> is_doom_loop err"
proof -
  define other where "other = (\<lambda>r. case r of
      Opened md (es, captured) \<Rightarrow> drive_l2 L (cancelled_during N n) captured None es
    | _ \<Rightarrow> ([], InitFailed (the (open_error r))))"
  have oth: "(\<forall>e \<in> set (fst (other r)). \<not> is_terminal e) \<and>
      (\<forall>err. snd (other r) = AttemptFailed err \<or> snd (other r) = InitFailed err \<longrightarrow> short_wait err \<and> \<not> is_doom_loop err)"
    if "plain_stream r" for r
    using that by (rule attempt_other [of _ _ L "cancelled_during N n"])
      (auto simp: other_def open_error_def split: open_result.splits)
  have resp: "(\<forall>e \<in> set es. \<not> is_terminal e) \<and>
      (\<forall>err. out = AttemptFailed err \<or> out = InitFailed err \<longrightarrow> short_wait err) \<and>
      (\<forall>err. out = InitFailed err \<or> out = AttemptFailed err \<and> dc = None \<longrightarrow> \<not> is_doom_loop err)"
    if "api_backend client = Responses"
  proof (cases "conversation_stream_responses N n client xs")
    case (Opened md ins)
    define doom where "doom = (if dc = None then map_option disarm_abort (map_option new_collector (doom_loop_recovery client))
        else map_option new_collector (doom_loop_recovery client))"
    obtain fs c where fs: "stream_responses L idle (clock N n) md doom ins = (fs, c)" by fastforce
    have dr: "drive_l2 L (cancelled_during N n) c dc fs = (es, out)"
      using run that Opened fs by (simp add: run_one_attempt_def Let_def doom_def split: if_splits)
    have "dc = None \<Longrightarrow> unarmed doom" by (auto simp: doom_def unarmed_def disarm_abort_def split: option.splits)
    then have "out = AttemptFailed err \<Longrightarrow> short_wait err \<and> (dc = None \<longrightarrow> \<not> is_doom_loop err)" for err
      using attempt_responses [OF fs, of dc "cancelled_during N n" err] dr by simp
    moreover have "out \<noteq> InitFailed err" for err using drive_l2_not_init [of L "cancelled_during N n" c dc fs err] dr by simp
    moreover have "\<forall>e \<in> set es. \<not> is_terminal e" using drive_l2_quiet [of L "cancelled_during N n" c dc fs] dr by simp
    ultimately show ?thesis by auto
  qed (use run that open_error_plain [of "conversation_stream_responses N n client xs"] in
      \<open>auto simp: run_one_attempt_def open_error_def\<close>)
  have "run_one_attempt N L n idle client xs dc = other (conversation_stream N n client xs)"
    if "api_backend client = ChatCompletions" using that by (simp add: run_one_attempt_def Let_def other_def)
  moreover have "run_one_attempt N L n idle client xs dc = other (conversation_stream_messages N n client xs)"
    if "api_backend client = Messages" using that by (simp add: run_one_attempt_def Let_def other_def)
  ultimately have all: "(\<forall>e \<in> set es. \<not> is_terminal e) \<and>
      (\<forall>err. out = AttemptFailed err \<or> out = InitFailed err \<longrightarrow> short_wait err) \<and>
      (\<forall>err. out = InitFailed err \<or> out = AttemptFailed err \<and> dc = None \<longrightarrow> \<not> is_doom_loop err)"
    using resp oth run assms(1) unfolding plain_backend_def others_plain_def
    by (cases "api_backend client") (metis api_backend.distinct fst_conv snd_conv)+
  then show "\<forall>e \<in> set es. \<not> is_terminal e"
    and "out = AttemptFailed err \<or> out = InitFailed err \<Longrightarrow> short_wait err"
    and "out = InitFailed err \<or> out = AttemptFailed err \<and> dc = None \<Longrightarrow> \<not> is_doom_loop err" by blast+
qed

section \<open>The contract of a transform\<close>

text \<open>
  What the loop relies on when it drives a transform without a check for loops, and that the transform of the
  Responses API keeps it once its collector is disarmed.
\<close>

locale plain_transform =
  fixes transform :: "'i \<Rightarrow> sampling_event list \<times> sampling_error option"
  assumes plain: "plain_stream (Opened None (transform i))"
begin

lemma plain_attempt:
  assumes "transform i = (es, c)" "drive_l2 L k c None es = (fs, out)"
  shows "(\<forall>e \<in> set fs. \<not> is_terminal e \<and> \<not> is_retrying e) \<and>
    (\<forall>err. out = AttemptFailed err \<longrightarrow> short_wait err \<and> \<not> is_doom_loop err)"
proof -
  have p: "plain_stream (Opened None (es, c))" using plain [of i] assms(1) by simp
  have "\<forall>err. snd (drive_l2 L k c None es) = AttemptFailed err \<longrightarrow> short_wait err \<and> \<not> is_doom_loop err"
    using attempt_other [OF p, of "drive_l2 L k c None es" L k] by (simp add: open_error_def)
  then show ?thesis using drive_l2_quiet [of L k c None es] drive_l2_no_retrying [OF assms(2)] p assms(2)
    by (auto simp: plain_stream_def)
qed

end

interpretation disarmed: plain_transform
  "\<lambda>(L, idle, now, md, doom, ins). stream_responses L idle now md (map_option disarm_abort doom) ins"
proof
  fix i
  show "plain_stream (Opened None ((\<lambda>(L, idle, now, md, doom, ins).
      stream_responses L idle now md (map_option disarm_abort doom) ins) i))"
  proof (cases i)
    case (fields L idle now md doom ins)
    obtain es c where r: "stream_responses L idle now md (map_option disarm_abort doom) ins = (es, c)" by fastforce
    obtain es' pre where st: "streams L idle now now (map_option disarm_abort doom) (stream_start_state now) ins es' c"
      and es: "es = pre @ es'" "\<forall>e \<in> set pre. \<not> is_terminal e" by (rule stream_responses_events [OF r])
    have "unarmed (map_option disarm_abort doom)" by (simp add: unarmed_def disarm_abort_def split: option.splits)
    moreover have "FailedEvent x \<notin> set pre" for x using es(2) by (auto simp: is_terminal_def)
    ultimately show ?thesis
      using streams_unarmed [OF st] streams_no_hint [OF st] stream_responses_no_retrying [OF r] es(1) r fields
      by (auto simp: plain_stream_def reports_loop_def no_hint_def short_wait_def)
  qed
qed

section \<open>Invariant of the loop\<close>

definition retries_announced :: "task_state \<Rightarrow> nat" where
  "retries_announced t = length (filter is_retrying (task_events t))"

text \<open>
  Every attempt so far failed and was counted once, in one of the two counters; a strip of the images, which the
  transport budget does not bound, happens at most once.
\<close>

definition budget_inv :: "sampler_config \<Rightarrow> nat \<Rightarrow> task_state \<Rightarrow> bool" where
  "budget_inv cfg mx t \<longleftrightarrow>
     retry_count t + (if has_images t then 1 else 0) \<le> max 1 mx \<and> doom_retry_count t \<le> doom_budget cfg \<and>
     (\<forall>w \<in> set (waits t). w \<le> 120000) \<and> length (waits t) \<le> retry_count t + doom_retry_count t \<and>
     (task_client t = cfg \<or> task_client t = cfg\<lparr>force_http1 := True\<rparr>)"

definition running_inv :: "bool \<Rightarrow> task_state \<Rightarrow> bool" where
  "running_inv collect t \<longleftrightarrow>
     (\<forall>e \<in> set (task_events t). \<not> is_terminal e) \<and> completion t = [] \<and> completion_open t = collect"

lemmas task_ops = emit_def wait_for_def emit_failed_def emit_retrying_def send_completion_def handle_cancellation_def
  strip_task_images_eq count_retry_def finish_failed_def

lemma u32_inc: "n < u32_max \<Longrightarrow> u32_add n 1 = n + 1"
  by (simp add: u32_add_def u32_max_def)

lemma backoff_le: "retry_backoff_with_jitter h n \<le> 36000"
  using jitter_bounds(2) [of h n] by (simp add: backoff_base_exact split: if_splits)

lemma error_backoff_le: "short_wait e \<Longrightarrow> error_backoff h e n \<le> 120000"
  using backoff_le [of h n] by (auto simp: error_backoff_def short_wait_def split: option.splits)

lemma classify_waits:
  assumes "short_wait err"
  shows "classify_error L h err rc mx thr = Retry b \<Longrightarrow> b \<le> 120000"
    and "classify_error L h err rc mx thr = RetryWithBackoff b r \<Longrightarrow> b \<le> 120000"
    and "classify_error L h err rc mx thr = RetryWithClientRebuild b \<Longrightarrow> b \<le> 120000"
  using error_backoff_le [OF assms]
  by (auto simp: classify_error_def Let_def doom_loop_backoff_def split: if_splits)

lemma has_images_strip:
  "\<not> has_images (t\<lparr>task_request := fst (strip_request_images (task_request t))\<rparr>)"
  by (simp add: has_images_def strip_twice)

text \<open>After a decision to go on the invariant holds with one more retry.\<close>

lemma apply_retry_goes_on:
  assumes dec: "apply_retry_decision N L cfg policy mx h err t = (t', True)"
    and err: "short_wait err" "\<not> is_doom_loop err" and inv: "budget_inv cfg mx t" and mx: "max 1 mx < u32_max"
  shows "budget_inv cfg mx t' \<and> retry_count t' = retry_count t + 1 \<and> doom_retry_count t' = doom_retry_count t \<and>
    attempt_no t' = attempt_no t \<and> retries_announced t' = retries_announced t + 1 \<and>
    (running_inv collect t \<longrightarrow> running_inv collect t')"
proof -
  define thr where "thr = (if rate_limit_retry_threshold policy = 0 then RATE_LIMIT_RETRY_THRESHOLD
      else rate_limit_retry_threshold policy)"
  define d where "d = classify_error (base_libs L) h err (retry_count t) mx thr"
  define t1 where "t1 = (if is_likely_body_rejected err then fst (strip_task_images t) else t)"
  have rc: "u32_add (retry_count t) 1 = retry_count t + 1"
    using inv mx by (intro u32_inc) (auto simp: budget_inv_def split: if_splits)
  have t1: "retry_count t1 = retry_count t" "doom_retry_count t1 = doom_retry_count t" "attempt_no t1 = attempt_no t"
    "task_events t1 = task_events t" "waits t1 = waits t" "completion t1 = completion t"
    "completion_open t1 = completion_open t" "task_client t1 = task_client t" "has_images t1 \<Longrightarrow> has_images t"
    using has_images_strip [of t] by (auto simp: t1_def strip_task_images_eq split: if_splits)
  have unfold: "apply_retry_decision N L cfg policy mx h err t = (case d of
       Retry b \<Rightarrow> (wait_for b (count_retry L mx err t1), True)
     | RetryWithBackoff b _ \<Rightarrow> (wait_for b (count_retry L mx err t1), True)
     | RetryWithImageStrip \<Rightarrow>
         (if snd (strip_task_images t1) = 0 then finish_failed L err (clone_error (base_libs L) err) (fst (strip_task_images t1))
          else (count_retry L mx err (fst (strip_task_images t1)), True))
     | RetryWithClientRebuild b \<Rightarrow>
         (let t' = wait_for b (count_retry L mx err t1)
          in (if client_error N (cfg\<lparr>force_http1 := True\<rparr>) = None then t'\<lparr>task_client := cfg\<lparr>force_http1 := True\<rparr>\<rparr> else t', True))
     | EmitToSession e \<Rightarrow> finish_failed L e e t1
     | Fatal e \<Rightarrow> finish_failed L e e t1)"
    by (simp only: apply_retry_decision_def Let_def d_def thr_def t1_def case_prod_beta)
  consider b where "t' = wait_for b (count_retry L mx err t1) \<or>
        t' = (wait_for b (count_retry L mx err t1))\<lparr>task_client := cfg\<lparr>force_http1 := True\<rparr>\<rparr>"
      "d = Retry b \<or> (\<exists>r. d = RetryWithBackoff b r) \<or> d = RetryWithClientRebuild b"
    | "d = RetryWithImageStrip" "snd (strip_task_images t1) \<noteq> 0" "t' = count_retry L mx err (fst (strip_task_images t1))"
    using dec unfolding unfold by (cases d) (auto simp: finish_failed_def Let_def split: if_splits)
  then show ?thesis
  proof cases
    case 1
    then have "b \<le> 120000" using classify_waits [OF err(1)] d_def by metis
    moreover have "retry_count t + 1 < mx"
      using 1(2) classify_retries [of "base_libs L" h err "retry_count t" mx thr d] rc err(2) by (auto simp: d_def)
    ultimately show ?thesis using 1(1) inv t1 rc
      by (auto simp: budget_inv_def running_inv_def task_ops Let_def retries_announced_def is_retrying_def is_terminal_def
          has_images_def)
  next
    case 2
    then have "has_images t" using t1(9) by (simp add: has_images_def strip_task_images_eq)
    then show ?thesis using 2(3) inv t1 rc has_images_strip [of t1]
      by (auto simp: budget_inv_def running_inv_def task_ops Let_def retries_announced_def is_retrying_def is_terminal_def
          has_images_def)
  qed
qed

lemma apply_retry_ends:
  assumes "apply_retry_decision N L cfg policy mx h err t = (t', False)" "running_inv collect t"
  obtains shown result where
    "task_events t' = task_events t @ [FailedEvent (info_of (base_libs L) shown)]"
    "completion t' = (if collect then [Inl result] else [])"
    "result = clone_error (base_libs L) err" "shown = err \<or> shown = result"
    "\<not> completion_open t'" "retry_count t' = retry_count t" "doom_retry_count t' = doom_retry_count t"
    "attempt_no t' = attempt_no t" "waits t' = waits t"
proof -
  have "(\<exists>shown. task_events t' = task_events t @ [FailedEvent (info_of (base_libs L) shown)] \<and>
       (shown = err \<or> shown = clone_error (base_libs L) err)) \<and>
     completion t' = (if collect then [Inl (clone_error (base_libs L) err)] else []) \<and> \<not> completion_open t' \<and>
     retry_count t' = retry_count t \<and> doom_retry_count t' = doom_retry_count t \<and> attempt_no t' = attempt_no t \<and>
     waits t' = waits t"
    using assms unfolding apply_retry_decision_def Let_def case_prod_beta running_inv_def
    by (auto simp: task_ops dest: classify_ends split: retry_decision.splits if_splits)
  then show thesis using that by blast
qed

section \<open>One iteration\<close>

text \<open>
  How a request ends. A response that is accepted is both event and completion. A failure completes with a copy of its
  error, and the event describes the error or its copy. A cancelled request, and only one that was cancelled, has an API
  failure as event and an authentication error as completion.
\<close>

definition response_accepted :: "sampler_config \<Rightarrow> task_state \<Rightarrow> sampling_event \<Rightarrow> completion_result \<Rightarrow> bool" where
  "response_accepted cfg t e r \<longleftrightarrow>
     (\<exists>resp m. e = CompletedEvent resp m \<and> r = Inr (resp, m) \<and>
        attempts m = attempt_no t \<and> attempt_no t = retry_count t + doom_retry_count t + 1 \<and>
        stop_reason_of resp \<noteq> Some StopLength \<and>
        (response_empty_reason resp = None \<or> stop_reason_of resp = Some StopContentFilter) \<and>
        (\<forall>p. doom_loop_recovery cfg = Some p \<and> api_backend cfg = Responses \<and> doom_retry_count t < doom_max_retries p \<longrightarrow>
           confident_triggers p (doom_loop_signals resp) = []))"

definition failure_reported :: "stream_libs \<Rightarrow> task_state \<Rightarrow> sampling_event \<Rightarrow> completion_result \<Rightarrow> bool" where
  "failure_reported L t e r \<longleftrightarrow>
     (\<exists>err shown. r = Inl (clone_error (base_libs L) err) \<and> e = FailedEvent (info_of (base_libs L) shown) \<and>
        (shown = err \<or> shown = clone_error (base_libs L) err) \<and>
        attempt_no t = retry_count t + doom_retry_count t + 1)"

definition cancellation_reported :: "network \<Rightarrow> sampling_event \<Rightarrow> completion_result \<Rightarrow> bool" where
  "cancellation_reported N e r \<longleftrightarrow>
     (\<exists>n. cancelled_before N n \<or> cancelled_during N n \<noteq> None) \<and>
     e = FailedEvent cancel_info \<and> r = Inl (Auth (u ''request cancelled''))"

definition outcome_reported ::
  "network \<Rightarrow> stream_libs \<Rightarrow> sampler_config \<Rightarrow> task_state \<Rightarrow> sampling_event \<Rightarrow> completion_result \<Rightarrow> bool" where
  "outcome_reported N L cfg t e r \<longleftrightarrow>
     response_accepted cfg t e r \<or> failure_reported L t e r \<or> cancellation_reported N e r"

lemma drive_l2_cancelled: "drive_l2 L k c dc es = (fs, AttemptCancelled) \<Longrightarrow> k \<noteq> None"
  by (induction L k c dc es arbitrary: fs rule: drive_l2.induct)
     (auto simp: judge_completed_def Let_def split: if_splits sampling_event.splits prod.splits option.splits)

lemma run_one_attempt_cancelled:
  "run_one_attempt N L n idle client xs dc = (es, AttemptCancelled) \<Longrightarrow> cancelled_during N n \<noteq> None"
  by (auto simp: run_one_attempt_def Let_def case_prod_beta dest!: drive_l2_cancelled
      split: api_backend.splits open_result.splits if_splits)

definition task_done :: "network \<Rightarrow> stream_libs \<Rightarrow> sampler_config \<Rightarrow> nat \<Rightarrow> bool \<Rightarrow> task_state \<Rightarrow> bool" where
  "task_done N L cfg mx collect t \<longleftrightarrow>
     (\<exists>body e r. task_events t = body @ [e] \<and> is_terminal e \<and> (\<forall>x \<in> set body. \<not> is_terminal x) \<and>
        completion t = (if collect then [r] else []) \<and> outcome_reported N L cfg t e r) \<and>
     retry_count t \<le> max 1 mx \<and> doom_retry_count t \<le> doom_budget cfg \<and>
     attempt_no t \<le> retry_count t + doom_retry_count t + 1 \<and>
     retries_announced t = retry_count t + doom_retry_count t \<and>
     length (waits t) \<le> retry_count t + doom_retry_count t \<and> (\<forall>w \<in> set (waits t). w \<le> 120000)"

definition task_inv :: "sampler_config \<Rightarrow> nat \<Rightarrow> bool \<Rightarrow> task_state \<Rightarrow> bool" where
  "task_inv cfg mx collect t \<longleftrightarrow>
     budget_inv cfg mx t \<and> running_inv collect t \<and> attempt_no t = retry_count t + doom_retry_count t \<and>
     retries_announced t = retry_count t + doom_retry_count t"

lemma drive_l2_accepts_pair:
  "drive_l2 L k c dc es = (fs, AttemptCompleted r m) \<Longrightarrow>
   (\<forall>p. dc = Some p \<longrightarrow> confident_triggers p (doom_loop_signals r) = []) \<and> stop_reason_of r \<noteq> Some StopLength \<and>
   (response_empty_reason r = None \<or> stop_reason_of r = Some StopContentFilter)"
  using drive_l2_accepts [of L k c dc es r m] by simp

lemma run_one_attempt_accepts:
  assumes "run_one_attempt N L n idle client xs dc = (es, AttemptCompleted r m)"
  shows "stop_reason_of r \<noteq> Some StopLength \<and>
    (response_empty_reason r = None \<or> stop_reason_of r = Some StopContentFilter) \<and>
    (\<forall>p. dc = Some p \<and> api_backend client = Responses \<longrightarrow> confident_triggers p (doom_loop_signals r) = [])"
  using assms
  by (auto simp: run_one_attempt_def Let_def case_prod_beta dest!: drive_l2_accepts_pair
      split: api_backend.splits open_result.splits if_splits)

lemma task_inv_emit:
  assumes "task_inv cfg mx collect t" "\<forall>e \<in> set es. \<not> is_terminal e" "\<forall>e \<in> set es. \<not> is_retrying e"
  shows "budget_inv cfg mx ((emit es t)\<lparr>attempt_no := n\<rparr>)" "running_inv collect ((emit es t)\<lparr>attempt_no := n\<rparr>)"
    "retries_announced ((emit es t)\<lparr>attempt_no := n\<rparr>) = retries_announced t"
  using assms
  by (auto simp: task_inv_def budget_inv_def running_inv_def emit_def has_images_def retries_announced_def filter_empty_conv)

lemma task_done_retry:
  assumes "apply_retry_decision N L cfg policy mx h err t = (t', False)" "budget_inv cfg mx t" "running_inv collect t"
    "attempt_no t = retry_count t + doom_retry_count t + 1" "retries_announced t = retry_count t + doom_retry_count t"
  shows "task_done N L cfg mx collect t'"
proof (rule apply_retry_ends [OF assms(1,3)])
  fix shown result
  assume fin: "task_events t' = task_events t @ [FailedEvent (info_of (base_libs L) shown)]"
    "completion t' = (if collect then [Inl result] else [])" "result = clone_error (base_libs L) err"
    "shown = err \<or> shown = result" "retry_count t' = retry_count t" "doom_retry_count t' = doom_retry_count t"
    "attempt_no t' = attempt_no t" "waits t' = waits t"
  have "outcome_reported N L cfg t' (FailedEvent (info_of (base_libs L) shown)) (Inl result)"
    using fin assms(4) unfolding outcome_reported_def failure_reported_def by auto
  moreover have "is_terminal (FailedEvent (info_of (base_libs L) shown))" by (simp add: is_terminal_def)
  moreover have "\<forall>x \<in> set (task_events t). \<not> is_terminal x" using assms(3) by (simp add: running_inv_def)
  ultimately have "\<exists>body e r. task_events t' = body @ [e] \<and> is_terminal e \<and> (\<forall>x \<in> set body. \<not> is_terminal x) \<and>
      completion t' = (if collect then [r] else []) \<and> outcome_reported N L cfg t' e r"
    using fin(1,2) by blast
  then show ?thesis using assms(2,4,5) fin unfolding task_done_def
    by (auto simp: budget_inv_def retries_announced_def is_retrying_def split: if_splits)
qed

lemma task_done_cancel:
  assumes "cancelled_before N n \<or> cancelled_during N n \<noteq> None" and "budget_inv cfg mx t" "running_inv collect t" "attempt_no t \<le> retry_count t + doom_retry_count t + 1"
    "retries_announced t = retry_count t + doom_retry_count t"
  shows "task_done N L cfg mx collect (handle_cancellation t)"
proof -
  have ev: "task_events (handle_cancellation t) = task_events t @ [FailedEvent cancel_info]"
    "completion (handle_cancellation t) = (if collect then [Inl (Auth (u ''request cancelled''))] else [])"
    using assms(3) by (simp_all add: task_ops running_inv_def)
  have "outcome_reported N L cfg (handle_cancellation t) (FailedEvent cancel_info) (Inl (Auth (u ''request cancelled'')))"
    using assms(1) by (auto simp: outcome_reported_def cancellation_reported_def)
  moreover have "is_terminal (FailedEvent cancel_info)" by (simp add: is_terminal_def)
  moreover have "\<forall>x \<in> set (task_events t). \<not> is_terminal x" using assms(3) by (simp add: running_inv_def)
  ultimately have "\<exists>body e r. task_events (handle_cancellation t) = body @ [e] \<and> is_terminal e \<and>
      (\<forall>x \<in> set body. \<not> is_terminal x) \<and> completion (handle_cancellation t) = (if collect then [r] else []) \<and>
      outcome_reported N L cfg (handle_cancellation t) e r"
    using ev by blast
  then show ?thesis using assms unfolding task_done_def
    by (auto simp: budget_inv_def retries_announced_def is_retrying_def task_ops split: if_splits)
qed

lemma task_done_complete:
  assumes "budget_inv cfg mx t" "running_inv collect t" "attempt_no t = retry_count t + doom_retry_count t + 1"
    "retries_announced t = retry_count t + doom_retry_count t" "max 1 mx + doom_budget cfg < u32_max"
    and ok: "stop_reason_of r \<noteq> Some StopLength"
      "response_empty_reason r = None \<or> stop_reason_of r = Some StopContentFilter"
      "\<forall>p. doom_loop_recovery cfg = Some p \<and> api_backend cfg = Responses \<and> doom_retry_count t < doom_max_retries p \<longrightarrow>
         confident_triggers p (doom_loop_signals r) = []"
    and m: "attempts m = u32_add (u32_add (retry_count t) (doom_retry_count t)) 1"
  shows "task_done N L cfg mx collect (send_completion (Inr (r, m)) (emit [CompletedEvent r m] t))"
proof -
  let ?t = "send_completion (Inr (r, m)) (emit [CompletedEvent r m] t)"
  have le: "retry_count t + doom_retry_count t < u32_max"
    using assms(1,5) by (auto simp: budget_inv_def split: if_splits)
  then have "attempts m = attempt_no t" using m assms(3) by (simp add: u32_add_def u32_max_def)
  then have "outcome_reported N L cfg ?t (CompletedEvent r m) (Inr (r, m))"
    using ok assms(3) by (auto simp: outcome_reported_def response_accepted_def task_ops)
  moreover have "task_events ?t = task_events t @ [CompletedEvent r m]" by (simp add: task_ops)
  moreover have "completion ?t = (if collect then [Inr (r, m)] else [])" using assms(2) by (simp add: task_ops running_inv_def)
  moreover have "is_terminal (CompletedEvent r m)" by (simp add: is_terminal_def)
  moreover have "\<forall>x \<in> set (task_events t). \<not> is_terminal x" using assms(2) by (simp add: running_inv_def)
  ultimately have "\<exists>body e r. task_events ?t = body @ [e] \<and> is_terminal e \<and> (\<forall>x \<in> set body. \<not> is_terminal x) \<and>
      completion ?t = (if collect then [r] else []) \<and> outcome_reported N L cfg ?t e r" by blast
  then show ?thesis using assms(1-4) unfolding task_done_def
    by (auto simp: budget_inv_def retries_announced_def is_retrying_def task_ops split: if_splits)
qed

lemma doom_retry_inv:
  assumes "budget_inv cfg mx t" "running_inv collect t" "doom_retry_count t < doom_budget cfg"
    "doom_budget cfg < u32_max" "attempt_no t = retry_count t + doom_retry_count t + 1"
    "retries_announced t = retry_count t + doom_retry_count t"
  shows "task_inv cfg mx collect (wait_for (doom_loop_backoff h)
      (emit_retrying L k b err (t\<lparr>doom_retry_count := u32_add (doom_retry_count t) 1\<rparr>)))"
proof -
  have "u32_add (doom_retry_count t) 1 = doom_retry_count t + 1" using assms(3,4) by (intro u32_inc) simp
  moreover have "doom_loop_backoff h \<le> 120000" by (simp add: doom_loop_backoff_def mod_le_divisor order_trans [of _ 251])
  ultimately show ?thesis using assms
    by (auto simp: task_inv_def budget_inv_def running_inv_def task_ops Let_def has_images_def retries_announced_def
        is_retrying_def is_terminal_def)
qed

lemma retry_inv:
  assumes "apply_retry_decision N L cfg policy mx h err t = (t', b)" "budget_inv cfg mx t" "running_inv collect t"
    "attempt_no t = retry_count t + doom_retry_count t + 1" "retries_announced t = retry_count t + doom_retry_count t"
    "max 1 mx < u32_max" "short_wait err" "\<not> is_doom_loop err"
  shows "if b then task_inv cfg mx collect t' \<and> attempt_no t' = attempt_no t else task_done N L cfg mx collect t'"
proof (cases b)
  case True
  then show ?thesis using apply_retry_goes_on [of N L cfg policy mx h err t t' collect] assms by (simp add: task_inv_def)
next
  case False
  then show ?thesis using task_done_retry [of N L cfg policy mx h err t t' collect] assms by simp
qed

lemma task_iteration_inv:
  assumes others: "plain_backend N cfg" and size: "max 1 mx + doom_budget cfg < u32_max"
    and inv: "task_inv cfg mx collect t0" and it: "task_iteration N L cfg policy mx t0 = (t', b)"
  shows "if b then task_inv cfg mx collect t' \<and> attempt_no t' = attempt_no t0 + 1 else task_done N L cfg mx collect t'"
proof (cases "cancelled_before N (attempt_no t0)")
  case True
  then show ?thesis using it inv task_done_cancel [of N "attempt_no t0" cfg mx t0 collect L]
    by (auto simp: task_iteration_def task_inv_def)
next
  case go: False
  define n h where nh: "n = attempt_no t0" "h = jitter_hash N n"
  define idle where "idle = (case idle_timeout_secs cfg of Some s \<Rightarrow> s | None \<Rightarrow> DEFAULT_IDLE_TIMEOUT_SECS) * 1000"
  define dc where "dc = (if doom_retry_count t0 < doom_budget cfg then doom_loop_recovery cfg else None)"
  obtain es out where run: "run_one_attempt N L n idle (task_client t0) (task_request t0) dc = (es, out)" by fastforce
  define t where "t = (emit es t0)\<lparr>attempt_no := n + 1\<rparr>"
  have backend: "plain_backend N (task_client t0)"
    using others inv by (auto simp: plain_backend_def task_inv_def budget_inv_def)
  note attempt = run_one_attempt_outcome [OF backend run]
  have t: "budget_inv cfg mx t" "running_inv collect t" "retries_announced t = retry_count t + doom_retry_count t"
    "attempt_no t = retry_count t + doom_retry_count t + 1" "attempt_no t = attempt_no t0 + 1"
    "doom_retry_count t = doom_retry_count t0"
    using task_inv_emit [OF inv attempt(1) run_one_attempt_no_retrying [OF backend run], of "n + 1"] inv
    by (simp_all add: t_def nh task_inv_def emit_def)
  have unfold: "(t', b) = (case out of
       AttemptCompleted r m \<Rightarrow>
         (let m' = m\<lparr>attempts := u32_add (u32_add (retry_count t) (doom_retry_count t)) 1\<rparr>
          in (send_completion (Inr (r, m')) (emit [CompletedEvent r m'] t), False))
     | AttemptEmpty c \<Rightarrow> apply_retry_decision N L cfg policy mx h (EmptyResponse c) t
     | AttemptFailed err \<Rightarrow>
         if is_doom_loop err
         then (let k = u32_add (doom_retry_count t) 1
               in (wait_for (doom_loop_backoff h) (emit_retrying L k (doom_budget cfg) err (t\<lparr>doom_retry_count := k\<rparr>)), True))
         else apply_retry_decision N L cfg policy mx h err t
     | AttemptCancelled \<Rightarrow> (handle_cancellation t, False)
     | InitFailed err \<Rightarrow> apply_retry_decision N L cfg policy mx h err t)"
    unfolding it [symmetric] task_iteration_def Let_def nh(1) [symmetric] nh(2) [symmetric] idle_def [symmetric]
      dc_def [symmetric] run prod.case t_def [symmetric]
    using go by (simp only: nh(1) [symmetric] if_False)
  have retry: ?thesis if "apply_retry_decision N L cfg policy mx h err t = (t', b)" "short_wait err" "\<not> is_doom_loop err" for err
    using retry_inv [OF that(1) t(1,2,4,3) add_lessD1 [OF size] that(2,3)] t(5) by simp
  show ?thesis
  proof (cases out)
    case (AttemptCompleted r m)
    have "api_backend (task_client t0) = api_backend cfg" using inv by (auto simp: task_inv_def budget_inv_def)
    then have "\<forall>p. doom_loop_recovery cfg = Some p \<and> api_backend cfg = Responses \<and> doom_retry_count t < doom_max_retries p \<longrightarrow>
         confident_triggers p (doom_loop_signals r) = []"
      using run_one_attempt_accepts [OF run [unfolded AttemptCompleted]] t(6) by (auto simp: dc_def doom_budget_def)
    then show ?thesis using unfold AttemptCompleted run_one_attempt_accepts [OF run [unfolded AttemptCompleted]]
        task_done_complete [OF t(1,2,4,3) size, of r] by (auto simp: Let_def)
  next
    case (AttemptEmpty c)
    then show ?thesis using unfold by (intro retry [of "EmptyResponse c"]) (auto simp: short_wait_def retry_after_def is_doom_loop_def)
  next
    case (AttemptFailed err)
    show ?thesis
    proof (cases "is_doom_loop err")
      case True
      then have "dc \<noteq> None" using attempt(3) [of err] AttemptFailed by auto
      then have "doom_retry_count t < doom_budget cfg" using t(6) by (auto simp: dc_def split: if_splits)
      then show ?thesis using unfold AttemptFailed True doom_retry_inv [OF t(1,2) _ _ t(4,3), of h L] size t(5)
        by (auto simp: Let_def task_ops)
    next
      case False
      then show ?thesis using unfold AttemptFailed attempt(2) [of err] by (intro retry [of err]) auto
    qed
  next
    case AttemptCancelled
    then have "cancelled_during N n \<noteq> None" using run_one_attempt_cancelled run by metis
    then show ?thesis using AttemptCancelled unfold task_done_cancel [of N n, OF _ t(1,2) _ t(3), of L] t(4) by simp
  next
    case (InitFailed err)
    then show ?thesis using unfold attempt(2,3) [of err] by (intro retry [of err]) auto
  qed
qed

lemma task_loop_ends:
  assumes "plain_backend N cfg" "max 1 mx + doom_budget cfg < u32_max" "task_inv cfg mx collect t"
    "max 1 mx + doom_budget cfg < fuel + attempt_no t"
  shows "\<exists>t'. task_loop N L cfg policy mx fuel t = Some t' \<and> task_done N L cfg mx collect t'"
  using assms(3,4)
proof (induction fuel arbitrary: t)
  case 0
  then show ?case by (auto simp: task_inv_def budget_inv_def split: if_splits)
next
  case (Suc fuel)
  obtain t' b where it: "task_iteration N L cfg policy mx t = (t', b)" by fastforce
  show ?case using task_iteration_inv [OF assms(1,2) Suc.prems(1) it] Suc.IH [of t'] Suc.prems(2) it
    by (cases b) auto
qed

end
