(* ===== verification/Sampler_Actor.thy ===== *)
theory Sampler_Actor
  imports Sampler_Task
begin

text \<open>
  The sampler actor (\<^verbatim>\<open>codegen/xai-grok-sampler/src/actor/mod.rs\<close>, \<^verbatim>\<open>actor/state.rs\<close>,
  \<^verbatim>\<open>commands.rs\<close>): the table of requests in flight, the commands, and the clean-up after tasks that ended.

  A cancellation token is a number; \<open>cancelled\<close> lists the tokens that were cancelled. A task that was
  spawned stays in \<open>tasks\<close> until the actor has joined it. What a task does in between is the previous theory.
\<close>

section \<open>State and commands\<close>

record spawned_task =
  spawned_id :: ustr
  spawned_token :: nat
  spawned_request :: "conversation_item list"
  spawned_config :: sampler_config
  spawned_collect :: bool

record actor_state =
  active_requests :: "(ustr \<times> nat) list"
  actor_config :: sampler_config
  actor_policy :: sampler_retry_policy
  tasks :: "spawned_task list"
  cancelled :: "nat list"
  next_token :: nat

definition sampler_start :: "sampler_config \<Rightarrow> sampler_retry_policy \<Rightarrow> actor_state" where
  "sampler_start cfg policy =
     \<lparr>active_requests = [], actor_config = cfg, actor_policy = policy, tasks = [], cancelled = [], next_token = 0\<rparr>"

definition register :: "ustr \<Rightarrow> nat \<Rightarrow> actor_state \<Rightarrow> actor_state \<times> nat option" where
  "register rid token s =
     (s\<lparr>active_requests := filter (\<lambda>p. fst p \<noteq> rid) (active_requests s) @ [(rid, token)]\<rparr>,
      map_of (active_requests s) rid)"

definition remove_request :: "ustr \<Rightarrow> actor_state \<Rightarrow> actor_state" where
  "remove_request rid s = s\<lparr>active_requests := filter (\<lambda>p. fst p \<noteq> rid) (active_requests s)\<rparr>"

definition cancel_token :: "nat \<Rightarrow> actor_state \<Rightarrow> actor_state" where
  "cancel_token token s = s\<lparr>cancelled := token # cancelled s\<rparr>"

definition cancel_request :: "ustr \<Rightarrow> actor_state \<Rightarrow> actor_state \<times> bool" where
  "cancel_request rid s = (case map_of (active_requests s) rid of
       Some token \<Rightarrow> (cancel_token token (remove_request rid s), True)
     | None \<Rightarrow> (s, False))"

datatype sampler_command =
    Submit ustr "conversation_item list" "sampler_config option" bool
  | Cancel ustr
  | UpdateConfig sampler_config
  | IsActive ustr
  | ActiveCount

datatype sampler_reply = NoReply | ActiveReply bool | CountReply nat

definition sampler_handle :: "sampler_command \<Rightarrow> actor_state \<Rightarrow> actor_state \<times> sampler_reply" where
  "sampler_handle cmd s = (case cmd of
       Submit rid xs cfg collect \<Rightarrow>
         let token = next_token s;
             (s1, prev) = register rid token (s\<lparr>next_token := token + 1\<rparr>);
             s2 = (case prev of Some p \<Rightarrow> cancel_token p s1 | None \<Rightarrow> s1);
             effective = (case cfg of Some c \<Rightarrow> c | None \<Rightarrow> actor_config s)
         in (s2\<lparr>tasks := tasks s2 @ [\<lparr>spawned_id = rid, spawned_token = token, spawned_request = xs,
               spawned_config = effective, spawned_collect = collect\<rparr>]\<rparr>, NoReply)
     | Cancel rid \<Rightarrow> (fst (cancel_request rid s), NoReply)
     | UpdateConfig cfg \<Rightarrow> (s\<lparr>actor_config := cfg\<rparr>, NoReply)
     | IsActive rid \<Rightarrow> (s, ActiveReply (map_of (active_requests s) rid \<noteq> None))
     | ActiveCount \<Rightarrow> (s, CountReply (length (active_requests s))))"

section \<open>The run loop\<close>

text \<open>What the loop selects: a task that returned, a task that panicked, or a command.\<close>

datatype actor_event = Joined nat | Panicked nat | Command sampler_command

definition drop_task :: "nat \<Rightarrow> actor_state \<Rightarrow> actor_state" where
  "drop_task i s = s\<lparr>tasks := take i (tasks s) @ drop (Suc i) (tasks s)\<rparr>"

definition sampler_step :: "actor_event \<Rightarrow> actor_state \<Rightarrow> actor_state" where
  "sampler_step ev s = (case ev of
       Joined i \<Rightarrow> if i < length (tasks s) then remove_request (spawned_id (tasks s ! i)) (drop_task i s) else s
     | Panicked i \<Rightarrow> if i < length (tasks s) then drop_task i s else s
     | Command cmd \<Rightarrow> fst (sampler_handle cmd s))"

definition actor_run :: "actor_event list \<Rightarrow> actor_state \<Rightarrow> actor_state" where
  "actor_run evs s = fold sampler_step evs s"

text \<open>When all handles are gone the tokens in the table are cancelled and the tasks shut down.\<close>

definition sampler_shutdown :: "actor_state \<Rightarrow> actor_state" where
  "sampler_shutdown s = s\<lparr>cancelled := map snd (active_requests s) @ cancelled s, active_requests := [], tasks := []\<rparr>"

section \<open>Invariant\<close>

text \<open>
  Runs in which an identifier is not used again while a task with it has not been joined, and in which no task
  panics.
\<close>

definition orderly :: "actor_state \<Rightarrow> actor_event \<Rightarrow> bool" where
  "orderly s ev \<longleftrightarrow> (case ev of
       Command (Submit rid _ _ _) \<Rightarrow> rid \<notin> spawned_id ` set (tasks s)
     | Panicked _ \<Rightarrow> False
     | _ \<Rightarrow> True)"

definition orderly_step :: "actor_state \<Rightarrow> actor_state \<Rightarrow> bool" where
  "orderly_step s t \<longleftrightarrow> (\<exists>ev. orderly s ev \<and> t = sampler_step ev s)"

definition live_tasks :: "actor_state \<Rightarrow> spawned_task list" where
  "live_tasks s = filter (\<lambda>k. spawned_token k \<notin> set (cancelled s)) (tasks s)"

text \<open>The table lists exactly the tasks that were not cancelled, with their tokens.\<close>

definition actor_inv :: "actor_state \<Rightarrow> bool" where
  "actor_inv s \<longleftrightarrow>
     active_requests s = map (\<lambda>k. (spawned_id k, spawned_token k)) (live_tasks s) \<and>
     distinct (map spawned_id (tasks s)) \<and> distinct (map spawned_token (tasks s)) \<and>
     (\<forall>k \<in> set (tasks s). spawned_token k < next_token s) \<and> (\<forall>c \<in> set (cancelled s). c < next_token s)"

lemmas actor_ops = sampler_handle_def register_def remove_request_def cancel_token_def cancel_request_def drop_task_def

lemma map_of_absent: "k \<notin> fst ` set xs \<Longrightarrow> map_of xs k = None"
  by (induction xs) auto

lemma submit_inv:
  assumes "actor_inv s" "rid \<notin> spawned_id ` set (tasks s)"
  shows "actor_inv (fst (sampler_handle (Submit rid xs cfg collect) s))"
proof -
  have none: "map_of (active_requests s) rid = None"
    using assms by (intro map_of_absent) (auto simp: actor_inv_def live_tasks_def)
  have keep: "filter (\<lambda>p. fst p \<noteq> rid) (active_requests s) = active_requests s"
    using assms by (auto simp: actor_inv_def live_tasks_def filter_id_conv)
  have "next_token s \<notin> set (cancelled s)" using assms(1) by (auto simp: actor_inv_def)
  then show ?thesis using assms none keep
    by (auto simp: actor_inv_def actor_ops live_tasks_def Let_def less_Suc_eq)
qed

lemma cancel_inv:
  assumes "actor_inv s"
  shows "actor_inv (fst (sampler_handle (Cancel rid) s))"
proof (cases "map_of (active_requests s) rid")
  case None
  then show ?thesis using assms by (simp add: actor_ops)
next
  case (Some token)
  then obtain k where k: "k \<in> set (tasks s)" "spawned_id k = rid" "spawned_token k = token"
    using assms map_of_SomeD [OF Some] by (auto simp: actor_inv_def live_tasks_def)
  have inj: "inj_on spawned_id (set (tasks s))" "inj_on spawned_token (set (tasks s))"
    using assms by (simp_all add: actor_inv_def distinct_map)
  have same: "spawned_id k' = rid \<longleftrightarrow> spawned_token k' = token" if "k' \<in> set (tasks s)" for k'
    using inj_onD [OF inj(1) _ that k(1)] inj_onD [OF inj(2) _ that k(1)] k(2,3) by auto
  have "filter (\<lambda>p. fst p \<noteq> rid) (active_requests s) =
      map (\<lambda>k. (spawned_id k, spawned_token k))
        (filter (\<lambda>k. spawned_token k \<notin> set (token # cancelled s)) (tasks s))"
    using assms same by (auto simp: actor_inv_def live_tasks_def filter_map o_def intro!: arg_cong [where f = "map _"] filter_cong)
  then show ?thesis using assms Some k by (auto simp: actor_ops actor_inv_def live_tasks_def)
qed

lemma filter_other:
  "\<forall>k \<in> set ks. f k \<noteq> r \<Longrightarrow>
   filter (\<lambda>p. fst p \<noteq> r) (map (\<lambda>k. (f k, g k)) (filter P ks)) = map (\<lambda>k. (f k, g k)) (filter P ks)"
  by (induction ks) auto

lemma join_inv:
  assumes "actor_inv s" "i < length (tasks s)"
  shows "actor_inv (remove_request (spawned_id (tasks s ! i)) (drop_task i s))"
proof -
  let ?a = "take i (tasks s)" and ?k = "tasks s ! i" and ?b = "drop (Suc i) (tasks s)"
  have ts: "tasks s = ?a @ ?k # ?b" using assms(2) by (simp add: id_take_nth_drop)
  have "distinct (map spawned_id (?a @ ?k # ?b))" using assms(1) ts unfolding actor_inv_def by metis
  then have other: "\<forall>k \<in> set ?a \<union> set ?b. spawned_id k \<noteq> spawned_id ?k" by (auto simp: image_iff)
  have "active_requests s = map (\<lambda>k. (spawned_id k, spawned_token k))
      (filter (\<lambda>k. spawned_token k \<notin> set (cancelled s)) (?a @ ?k # ?b))"
    using assms(1) ts unfolding actor_inv_def live_tasks_def by metis
  then have "filter (\<lambda>p. fst p \<noteq> spawned_id ?k) (active_requests s) =
      map (\<lambda>k. (spawned_id k, spawned_token k)) (filter (\<lambda>k. spawned_token k \<notin> set (cancelled s)) (?a @ ?b))"
    using other by (simp add: filter_other)
  moreover have "set ?a \<union> set ?b \<subseteq> set (tasks s)" by (auto dest: in_set_takeD in_set_dropD)
  moreover have "distinct (map spawned_id (?a @ ?b))" "distinct (map spawned_token (?a @ ?b))"
    using assms(1) arg_cong [OF ts, of "map spawned_id"] arg_cong [OF ts, of "map spawned_token"]
    unfolding actor_inv_def by (auto simp: take_map drop_map dest: in_set_takeD)
  ultimately show ?thesis using assms(1) by (auto simp: actor_inv_def actor_ops live_tasks_def)
qed

lemma sampler_step_inv: "orderly_step s t \<Longrightarrow> actor_inv s \<Longrightarrow> actor_inv t"
  unfolding orderly_step_def
proof (elim exE conjE)
  fix ev assume "orderly s ev" "t = sampler_step ev s" "actor_inv s"
  then show "actor_inv t"
    using join_inv submit_inv cancel_inv
    by (auto simp: sampler_step_def orderly_def split: actor_event.splits sampler_command.splits)
      (auto simp: sampler_handle_def actor_inv_def live_tasks_def)
qed

lemma sampler_start_inv: "actor_inv (sampler_start cfg policy)"
  by (simp add: sampler_start_def actor_inv_def live_tasks_def)

interpretation actor_runs: step_invariant "\<lambda>s. \<exists>cfg policy. s = sampler_start cfg policy" orderly_step actor_inv
  by unfold_locales (auto intro: sampler_start_inv sampler_step_inv)

end
