(* ===== verification/Sampler_Properties.thy ===== *)
theory Sampler_Properties
  imports Sampler_Task_Laws Sampler_Actor
begin

text \<open>What the model client guarantees: its streams, its retries, the end of a request, and the table of requests.\<close>

section \<open>A server that keeps refusing\<close>

definition refusal :: "nat \<Rightarrow> ustr option \<Rightarrow> ustr option \<Rightarrow> response_model_metadata option \<Rightarrow> ustr \<Rightarrow> sampling_error" where
  "refusal status ra sr md m =
     (if status = 401 then Auth m else Api status m md (extract_retry_after ra) (extract_should_retry sr))"

definition ordinary_text :: "ustr \<Rightarrow> bool" where
  "ordinary_text m \<longleftrightarrow>
     \<not> str_contains (u ''encrypted_content'') m \<and> \<not> str_contains (u ''Could not process image'') m \<and>
     \<not> message_is_context_length_error m"

definition requests_sent :: "nat \<Rightarrow> nat \<Rightarrow> nat \<Rightarrow> nat" where
  "requests_sent status mx threshold =
     (if status = 429 then max 1 (min mx threshold)
      else if status \<in> {500, 502, 503, 504, 520} then max 1 mx else 1)"

definition wait_before :: "network \<Rightarrow> ustr option \<Rightarrow> nat \<Rightarrow> nat" where
  "wait_before N ra i = (case extract_retry_after ra of
       Some secs \<Rightarrow> secs * 1000
     | None \<Rightarrow> retry_backoff_with_jitter (jitter_hash N i) (i + 1))"

definition near_backoff :: "nat \<Rightarrow> nat \<Rightarrow> bool" where
  "near_backoff i w \<longleftrightarrow>
     (if 60 \<le> i \<and> i \<le> 63 then w = 0
      else let base = min (2000 * 2 ^ i) 30000 in base - base div 5 \<le> w \<and> w \<le> base + base div 5)"

lemma near_backoff_jitter: "near_backoff i (retry_backoff_with_jitter h (Suc i))"
  using jitter_bounds [where n = "Suc i" and h = h] backoff_base_exact [of "Suc i"]
  by (auto simp: near_backoff_def Let_def)

definition after_refusals :: "network \<Rightarrow> ustr option \<Rightarrow> conversation_item list \<Rightarrow> nat \<Rightarrow> task_state \<Rightarrow> bool" where
  "after_refusals N ra xs k t \<longleftrightarrow>
     retry_count t = k \<and> doom_retry_count t = 0 \<and> attempt_no t = k \<and> waits t = map (wait_before N ra) [0..<k] \<and>
     api_backend (task_client t) = Responses \<and> task_request t = xs"

lemma refusal_predicates:
  assumes "ordinary_text m" "extract_should_retry sr \<noteq> Some False"
  shows "\<not> is_doom_loop (refusal s ra sr md m)" "\<not> is_likely_body_rejected (refusal s ra sr md m)"
    "is_auth_error (refusal s ra sr md m) \<longleftrightarrow> s = 401" "\<not> is_encrypted_content_error (refusal s ra sr md m)"
    "is_payload_too_large (refusal s ra sr md m) \<longleftrightarrow> s = 413" "\<not> is_image_processing_error (refusal s ra sr md m)"
    "should_retry_header (refusal s ra sr md m) \<noteq> Some False" "\<not> is_context_length_error (refusal s ra sr md m)"
    "is_rate_limited (refusal s ra sr md m) \<longleftrightarrow> s = 429"
    "is_retryable (refusal s ra sr md m) \<longleftrightarrow> s \<in> {429, 500, 502, 503, 504, 520}"
    "s \<noteq> 401 \<Longrightarrow> retry_after (refusal s ra sr md m) = extract_retry_after ra"
  using assms by (auto simp: refusal_def predicate_defs ordinary_text_def)

lemma refused_decision:
  assumes "ordinary_text m" "extract_should_retry sr \<noteq> Some False" "k < u32_max" "0 < thr"
    and d: "d = classify_error L (jitter_hash N k) (refusal s ra sr md m) k mx thr"
  shows "if k + 1 < requests_sent s mx thr
    then d \<in> {Retry (wait_before N ra k), RetryWithBackoff (wait_before N ra k) True, RetryWithClientRebuild (wait_before N ra k)}
    else d = RetryWithImageStrip \<and> s = 413 \<or> (\<exists>e. d = EmitToSession e \<or> d = Fatal e)"
proof -
  let ?e = "refusal s ra sr md m"
  note pred = refusal_predicates [OF assms(1,2), of s ra md]
  have w: "error_backoff (jitter_hash N k) ?e (k + 1) = wait_before N ra k" if "s \<noteq> 401"
    using pred(11) [OF that] by (simp add: error_backoff_def wait_before_def split: option.split)
  have inc: "u32_add k (Suc 0) = Suc k" using u32_inc [OF assms(3)] by simp
  consider "s = 401" | "s = 413" | "s = 429" | "s \<in> {500, 502, 503, 504, 520}" | "s \<notin> {401, 413, 429, 500, 502, 503, 504, 520}"
    by blast
  then show ?thesis
  proof cases
    case 3
    then show ?thesis unfolding d classify_error_def using pred(1-10) w
      by (auto simp: inc requests_sent_def Let_def less_max_iff_disj)
  next
    case 4
    then have "s \<notin> {401, 413, 429}" by auto
    then show ?thesis unfolding d classify_error_def using 4 pred(1-10) w
      by (auto simp: inc requests_sent_def Let_def less_max_iff_disj)
  next
    case 5
    then show ?thesis unfolding d classify_error_def using pred(1-10) by (simp add: requests_sent_def)
  qed (use pred(1-10) in \<open>simp_all add: d classify_error_def requests_sent_def\<close>)
qed

lemma refused_iteration:
  assumes inv: "after_refusals N ra xs k t" and ref: "\<And>n c ys. conversation_stream_responses N n c ys = Refused s ra sr md m"
    and cancel: "\<And>n. \<not> cancelled_before N n" and msg: "ordinary_text m" "extract_should_retry sr \<noteq> Some False"
    and images: "snd (strip_request_images xs) = 0" and cfg: "api_backend cfg = Responses" and k: "k < u32_max"
    and thr: "thr = (if rate_limit_retry_threshold policy = 0 then RATE_LIMIT_RETRY_THRESHOLD else rate_limit_retry_threshold policy)"
    and it: "task_iteration N L cfg policy mx t = (t', b)"
  shows "b = (k + 1 < requests_sent s mx thr) \<and> (b \<longrightarrow> after_refusals N ra xs (k + 1) t') \<and>
    (\<not> b \<longrightarrow> attempt_no t' = k + 1 \<and> waits t' = map (wait_before N ra) [0..<k])"
proof -
  let ?err = "refusal s ra sr md m"
  define d where "d = classify_error (base_libs L) (jitter_hash N k) ?err k mx thr"
  have "0 < thr" by (simp add: thr RATE_LIMIT_RETRY_THRESHOLD_def)
  note dec = refused_decision [OF msg k this d_def]
  have "run_one_attempt N L n idle (task_client t) ys dc = ([], InitFailed ?err)" for n idle ys dc
    using inv by (simp add: run_one_attempt_def after_refusals_def ref open_error_def refusal_def)
  then have it': "task_iteration N L cfg policy mx t =
      apply_retry_decision N L cfg policy mx (jitter_hash N k) ?err (t\<lparr>attempt_no := k + 1\<rparr>)"
    using inv by (simp add: task_iteration_def cancel Let_def emit_def after_refusals_def)
  have "u32_add k 1 = k + 1" by (rule u32_inc [OF k])
  moreover have "apply_retry_decision N L cfg policy mx (jitter_hash N k) ?err (t\<lparr>attempt_no := k + 1\<rparr>) = (t', b)"
    using it it' by simp
  ultimately show ?thesis using inv dec refusal_predicates(2) [OF msg] images cfg
    unfolding apply_retry_decision_def Let_def case_prod_beta thr [symmetric]
    by (auto simp: after_refusals_def task_ops Let_def d_def [symmetric] split: if_splits)
qed

lemma refused_loop:
  assumes ref: "\<And>n c ys. conversation_stream_responses N n c ys = Refused s ra sr md m"
    and cancel: "\<And>n. \<not> cancelled_before N n" and msg: "ordinary_text m" "extract_should_retry sr \<noteq> Some False"
    and images: "snd (strip_request_images xs) = 0" and cfg: "api_backend cfg = Responses"
    and thr: "thr = (if rate_limit_retry_threshold policy = 0 then RATE_LIMIT_RETRY_THRESHOLD else rate_limit_retry_threshold policy)"
    and size: "requests_sent s mx thr \<le> u32_max"
  shows "after_refusals N ra xs k t \<Longrightarrow> k < requests_sent s mx thr \<Longrightarrow> requests_sent s mx thr \<le> k + fuel \<Longrightarrow>
    \<exists>t'. task_loop N L cfg policy mx fuel t = Some t' \<and> attempt_no t' = requests_sent s mx thr \<and>
      waits t' = map (wait_before N ra) [0..<requests_sent s mx thr - 1]"
proof (induction fuel arbitrary: k t)
  case (Suc fuel)
  obtain t' b where it: "task_iteration N L cfg policy mx t = (t', b)" by fastforce
  have step: "b = (k + 1 < requests_sent s mx thr) \<and> (b \<longrightarrow> after_refusals N ra xs (k + 1) t') \<and>
      (\<not> b \<longrightarrow> attempt_no t' = k + 1 \<and> waits t' = map (wait_before N ra) [0..<k])"
    by (rule refused_iteration [OF Suc.prems(1) ref cancel msg images cfg _ thr it]) (use Suc.prems(2) size in simp)
  show ?case
  proof (cases b)
    case True
    then show ?thesis using Suc.IH [of "k + 1" t'] step Suc.prems(3) it by simp
  next
    case False
    then have "requests_sent s mx thr = k + 1" using step Suc.prems(2) by simp
    then show ?thesis using False step it by simp
  qed
qed simp

section \<open>Properties\<close>


text \<open>
  C39. A server that answers every request with the same status gets a definite number of requests: \<open>mx\<close>, the configured
  number of retries, for 500, 502, 503, 504 and 520; the smaller of \<open>mx\<close> and the rate-limit threshold for 429; never fewer
  than one, and exactly one for every other status. So \<open>mx\<close> is the number of requests and not of retries: with the
  defaults 14 retries are made and not the 15 of the documentation, and after a 429 one and not two. Before the
  (i+2)-nd request the client waits for the time of the retry-after header, which is at most two minutes, or, without it,
  for a time within a fifth of two seconds doubled i times and cut at thirty seconds, except that the waits 61 to 64
  are zero, where the documentation says thirty seconds. This is for the Responses API, a client that can be built, a
  request without images that is not cancelled, an x-should-retry header that is not false, and an error text that
  does not name encrypted content, image processing or the context length.
\<close>

theorem refusals_counted:
  assumes refuse: "\<And>n c ys. conversation_stream_responses N n c ys = Refused s ra sr md m"
    and "\<And>n. \<not> cancelled_before N n" and "client_error N cfg = None" and "api_backend cfg = Responses"
    and "ordinary_text m" and "extract_should_retry sr \<noteq> Some False" and "snd (strip_request_images xs) = 0"
    and mx: "mx = effective_retries env cfg policy"
    and thr: "thr = (if rate_limit_retry_threshold policy = 0 then RATE_LIMIT_RETRY_THRESHOLD else rate_limit_retry_threshold policy)"
    and "requests_sent s mx thr \<le> u32_max" and "requests_sent s mx thr \<le> fuel"
  shows "\<exists>t. run_request_task N L env cfg policy xs collect fuel = Some t \<and> attempt_no t = requests_sent s mx thr \<and>
    length (waits t) = requests_sent s mx thr - 1 \<and>
    (\<forall>i < requests_sent s mx thr - 1. case extract_retry_after ra of
       Some secs \<Rightarrow> waits t ! i = secs * 1000 \<and> secs \<le> 120
     | None \<Rightarrow> near_backoff i (waits t ! i))"
proof -
  have pos: "0 < requests_sent s mx thr" by (simp add: requests_sent_def less_max_iff_disj)
  have "after_refusals N ra xs 0 (task_start cfg xs collect)" using assms(4) by (simp add: after_refusals_def task_start_def)
  from refused_loop [OF refuse assms(2,5-7,4) thr assms(10) this pos, of fuel L] assms(11)
  obtain t where t: "task_loop N L cfg policy mx fuel (task_start cfg xs collect) = Some t"
    "attempt_no t = requests_sent s mx thr" "waits t = map (wait_before N ra) [0..<requests_sent s mx thr - 1]" by auto
  have "secs \<le> 120" if "extract_retry_after ra = Some secs" for secs
    using that by (auto simp: extract_retry_after_def)
  then show ?thesis using t mx assms(3) near_backoff_jitter [where h = "jitter_hash N _"]
    by (auto simp: run_request_task_def wait_before_def split: option.splits)
qed

text \<open>
  C38. A streamed response is reported as one terminal event preceded by the events of its parts. These are, in order
  and without omission or addition, those that \<open>reported\<close> gives for the events received: a token for every non-empty
  delta, numbered from one; for every function call its identifier and name under the next tool number; every
  non-empty piece of arguments under the number of the latest call begun at its output position (pieces at a position
  where no call was begun are left out); and the begin and end of the searches run by the server. The first token
  is announced directly before it and once. A completed response is the last one the server sent, with
  the reasoning received as fallback, and the whole stream was read or the server cut it off; the chunks it counts are
  the text tokens. Without a collector, or with one that is disarmed, no loop is reported.
\<close>

theorem stream_well_formed:
  "\<exists>evs body e. fst (stream_responses L idle now md doom ins) =
       StreamStarted now # (case md of Some x \<Rightarrow> [ModelMetadata x] | None \<Rightarrow> []) @ body @ [e] \<and>
     is_terminal e \<and> (\<forall>x \<in> set body. \<not> is_terminal x) \<and>
     tokens body = numbered 0 (deltas evs) \<and> announced False body \<and>
     unannounced body = reported [] 0 evs \<and>
     (\<exists>rest. wire_events L now doom ins = evs @ rest) \<and>
     (\<forall>r m. e = CompletedEvent r m \<longrightarrow>
        (wire_events L now doom ins = evs \<or> (\<exists>x evs0. evs = evs0 @ [ResponseIncomplete x])) \<and> final_answers evs \<noteq> [] \<and>
        response_items r = inject_streaming_reasoning_fallback (resp_items (last (final_answers evs))) (concat (map thought evs)) \<and>
        message_chunks_emitted r = length (filter (\<lambda>d. fst d = TextChannel) (deltas evs)) \<and> attempts m = 0) \<and>
     (unarmed doom \<longrightarrow> \<not> reports_loop e)"
proof -
  define es where "es = fst (responses_loop L idle now now doom (stream_start_state now) ins)"
  have st: "streams L idle now now doom (stream_start_state now) ins es
      (snd (responses_loop L idle now now doom (stream_start_state now) ins))"
    using streams_loop by (simp add: es_def)
  have "tool_inv (stream_start_state now) []" by (simp add: tool_inv_def stream_start_state_def)
  from streams_shape [OF st this] obtain evs body e where es: "es = body @ [e]"
    and sh: "shape_of (final_event L now) (stream_start_state now) [] (wire_events L now doom ins) evs body e"
    by (auto simp: stream_shape_def)
  have fin: "(wire_events L now doom ins = evs \<or> (\<exists>x evs0. evs = evs0 @ [ResponseIncomplete x])) \<and> final_answers evs \<noteq> [] \<and>
      response_items r = inject_streaming_reasoning_fallback (resp_items (last (final_answers evs))) (concat (map thought evs)) \<and>
      message_chunks_emitted r = length (filter (\<lambda>d. fst d = TextChannel) (deltas evs)) \<and> attempts m = 0"
    if e: "e = CompletedEvent r m" for r m
  proof -
    obtain t d st where f: "e = final_event L now t d st" "follows (stream_start_state now) evs st"
      "wire_events L now doom ins = evs \<or> (\<exists>x evs0. evs = evs0 @ [ResponseIncomplete x])"
      using sh e unfolding shape_of_def by auto
    then show ?thesis using e
      by (auto simp: final_event_def follows_def stream_start_state_def from_timestamps_def Let_def split: option.splits if_splits)
  qed
  have "unarmed doom \<longrightarrow> \<not> reports_loop e" using streams_unarmed [OF st] es by simp
  moreover have "fst (stream_responses L idle now md doom ins) =
       StreamStarted now # (case md of Some x \<Rightarrow> [ModelMetadata x] | None \<Rightarrow> []) @ body @ [e]"
    using es by (simp add: stream_responses_def case_prod_beta Let_def es_def)
  moreover have "tokens body = numbered 0 (deltas evs)" "announced False body"
    "unannounced body = reported [] 0 evs"
    using sh by (simp_all add: shape_of_def stream_start_state_def)
  moreover have "is_terminal e" "\<forall>x \<in> set body. \<not> is_terminal x" "\<exists>rest. wire_events L now doom ins = evs @ rest"
    using sh by (simp_all add: shape_of_def)
  moreover have "\<forall>r m. e = CompletedEvent r m \<longrightarrow>
      (wire_events L now doom ins = evs \<or> (\<exists>x evs0. evs = evs0 @ [ResponseIncomplete x])) \<and> final_answers evs \<noteq> [] \<and>
      response_items r = inject_streaming_reasoning_fallback (resp_items (last (final_answers evs))) (concat (map thought evs)) \<and>
      message_chunks_emitted r = length (filter (\<lambda>d. fst d = TextChannel) (deltas evs)) \<and> attempts m = 0"
    by (intro allI impI) (rule fin)
  ultimately show ?thesis by - (rule exI [of _ evs], rule exI [of _ body], rule exI [of _ e], intro conjI)
qed

text \<open>
  C40. As long as an identifier is not used again before its task was joined and no task panics, the table of requests in
  flight is exact: a request is reported active exactly while it has a task that was not cancelled, the number
  reported is that of these tasks, cancelling a request cancels the token of its task and no other, and
  the end of the actor cancels the token of every task that was left.
\<close>

theorem actor_table_exact:
  assumes "rtranclp orderly_step (sampler_start cfg policy) s"
  shows "snd (sampler_handle (IsActive rid) s) = ActiveReply (\<exists>k \<in> set (live_tasks s). spawned_id k = rid) \<and>
    snd (sampler_handle ActiveCount s) = CountReply (length (live_tasks s)) \<and>
    (\<forall>k \<in> set (tasks s). spawned_token k \<in> set (cancelled (fst (sampler_handle (Cancel rid) s))) \<longleftrightarrow>
       spawned_token k \<in> set (cancelled s) \<or> spawned_id k = rid) \<and>
    (\<forall>k \<in> set (tasks s). spawned_token k \<in> set (cancelled (sampler_shutdown s)))"
proof -
  have inv: "actor_inv s" using actor_runs.reachable_inv [OF _ assms] by blast
  have act: "active_requests s = map (\<lambda>k. (spawned_id k, spawned_token k)) (live_tasks s)"
    using inv by (simp add: actor_inv_def)
  have dom: "map_of (active_requests s) rid \<noteq> None \<longleftrightarrow> (\<exists>k \<in> set (live_tasks s). spawned_id k = rid)"
    by (auto simp: act map_of_eq_None_iff image_image)
  have inj: "inj_on spawned_id (set (tasks s))" "inj_on spawned_token (set (tasks s))"
    using inv by (simp_all add: actor_inv_def distinct_map)
  have cancel: "spawned_token k \<in> set (cancelled (fst (sampler_handle (Cancel rid) s))) \<longleftrightarrow>
      spawned_token k \<in> set (cancelled s) \<or> spawned_id k = rid" if k: "k \<in> set (tasks s)" for k
  proof (cases "map_of (active_requests s) rid")
    case None
    then show ?thesis using dom k by (auto simp: actor_ops live_tasks_def)
  next
    case (Some token)
    then obtain j where "j \<in> set (tasks s)" "spawned_id j = rid" "spawned_token j = token"
      using act map_of_SomeD [OF Some] by (auto simp: live_tasks_def)
    then show ?thesis using Some inj_onD [OF inj(1) _ k, of j] inj_onD [OF inj(2) _ k, of j] by (auto simp: actor_ops)
  qed
  have "spawned_token k \<in> set (cancelled (sampler_shutdown s))" if "k \<in> set (tasks s)" for k
    using that by (auto simp: sampler_shutdown_def act live_tasks_def image_iff)
  then show ?thesis using dom cancel by (auto simp: sampler_handle_def act)
qed

section \<open>Instances\<close>

definition demo_answer :: rs_response where
  "demo_answer = \<lparr>resp_status = StatusCompleted,
     resp_items = [Assistant \<lparr>assistant_content = u ''hi'', tool_calls = [], model_id = None, model_fingerprint = None,
                     item_reasoning_effort = None\<rparr>],
     resp_usage = None, resp_cost_metadata = None\<rparr>"

definition demo_stream_libs :: stream_libs where
  "demo_stream_libs = \<lparr>de_custom = (\<lambda>t. t), status_from_u16 = (\<lambda>c. if 100 \<le> c \<and> c < 1000 then Some c else None),
     status_text = show_nat, parse_json = (\<lambda>_. None), de_error_response = (\<lambda>_. None), de_flat_error = (\<lambda>_. None),
     deserialize_response_event = (\<lambda>d. if d = u ''h'' then Inr (OutputTextDelta (u ''h''))
       else if d = u ''i'' then Inr (OutputTextDelta (u ''i''))
       else if d = u ''z'' then Inr (ResponseCompleted demo_answer) else Inl d)\<rparr>"

definition demo_frames :: "raw_input list" where
  "demo_frames = [Frame 1 [] (u ''h''), Frame 2 [] (u ''i''), Frame 3 [] (u ''z''), Closed 4]"

definition demo_config :: sampler_config where
  "demo_config = \<lparr>cfg_max_retries = None, idle_timeout_secs = None, doom_loop_recovery = Some default_doom_policy,
     force_http1 = False, api_backend = Responses\<rparr>"

definition demo_network :: "(nat \<Rightarrow> raw_input list open_result) \<Rightarrow> network" where
  "demo_network r = \<lparr>client_error = (\<lambda>_. None), conversation_stream = (\<lambda>_ _ _. NotEncoded []),
     conversation_stream_responses = (\<lambda>n _ _. r n), conversation_stream_messages = (\<lambda>_ _ _. NotEncoded []),
     cancelled_before = (\<lambda>_. False), cancelled_during = (\<lambda>_. None), jitter_hash = (\<lambda>_. 0), clock = (\<lambda>n. n)\<rparr>"

definition busy_once :: "nat \<Rightarrow> raw_input list open_result" where
  "busy_once n = (if n = 0 then Refused 503 None None None (u ''busy'') else Opened None demo_frames)"

lemmas demo_defs = demo_answer_def demo_stream_libs_def demo_frames_def demo_config_def demo_network_def busy_once_def

lemma demo_plain: "plain_backend (demo_network r) demo_config"
  by (simp add: plain_backend_def demo_config_def)

lemma demo_retries: "effective_retries None demo_config default_retry_policy = 15" "doom_budget demo_config = 2"
  by (simp_all add: effective_retries_def resolve_max_retries_def demo_config_def default_retry_policy_def
      DEFAULT_MAX_RETRIES_def doom_budget_def default_doom_policy_def DEFAULT_DOOM_RETRIES_def)


lemma busy_ordinary: "ordinary_text (u ''busy'')"
  by (simp add: ordinary_text_def message_is_context_length_error_def to_ascii_lowercase_def u_def starts_with_def Let_def)

theorem refusals_counted_witness:
  "\<exists>t. run_request_task (demo_network (\<lambda>_. Refused 503 None None None (u ''busy''))) demo_stream_libs None demo_config
         default_retry_policy [] True 15 = Some t \<and> attempt_no t = 15 \<and> list_all2 near_backoff [0..<14] (waits t)"
proof -
  let ?N = "demo_network (\<lambda>_. Refused 503 None None None (u ''busy''))"
  have "\<exists>t. run_request_task ?N demo_stream_libs None demo_config default_retry_policy [] True 15 = Some t \<and>
      attempt_no t = requests_sent 503 15 2 \<and> length (waits t) = requests_sent 503 15 2 - 1 \<and>
      (\<forall>i < requests_sent 503 15 2 - 1. case extract_retry_after None of
         Some secs \<Rightarrow> waits t ! i = secs * 1000 \<and> secs \<le> 120 | None \<Rightarrow> near_backoff i (waits t ! i))"
    by (rule refusals_counted [where sr = None and md = None and m = "u ''busy''"])
      (simp_all add: demo_retries busy_ordinary requests_sent_def u32_max_def demo_network_def demo_config_def
        extract_should_retry_def strip_request_images_def default_retry_policy_def RATE_LIMIT_RETRY_THRESHOLD_def
        effective_retries_def resolve_max_retries_def DEFAULT_MAX_RETRIES_def)
  moreover have "requests_sent 503 15 2 = 15" "extract_retry_after None = None"
    by (simp_all add: requests_sent_def extract_retry_after_def)
  ultimately show ?thesis by (simp add: list_all2_conv_all_nth)
qed

text \<open>The two deltas of the example are tokens one and two, and the response completes.\<close>

lemma demo_stream:
  "fst (stream_responses demo_stream_libs 300000 0 None None demo_frames) =
     [StreamStarted 0, FirstToken, ChannelToken TextChannel (u ''h'') 1, ChannelToken TextChannel (u ''i'') 2,
      final_event demo_stream_libs 0 4 None
        \<lparr>chunk_timestamps = [1, 2], final_response = Some demo_answer, chunk_index = 2, message_chunk_count = 2,
         first_token_emitted = True, reasoning_acc = [], last_content_chunk_at = 3, output_to_tool_index = Map.empty,
         next_tool_index = 0\<rparr>]"
  by (simp add: stream_responses_def responses_loop.simps demo_frames_def stream_start_state_def swallow_frame_def
      is_check_event_def DOOM_LOOP_CHECK_EVENT_TYPE_def decode_frame_def try_parse_stream_error_def try_parse_error_def
      demo_stream_libs_def u_simps starts_with_def stream_event_def emit_token_def responses_event_has_meaningful_content_def numeral_2_eq_2)

theorem stream_well_formed_witness:
  "\<exists>evs body e. fst (stream_responses demo_stream_libs 300000 0 None None demo_frames) = StreamStarted 0 # body @ [e] \<and>
     body = [FirstToken, ChannelToken TextChannel (u ''h'') 1, ChannelToken TextChannel (u ''i'') 2] \<and>
     is_terminal e \<and> tokens body = numbered 0 (deltas evs) \<and> tl body = reported [] 0 evs \<and> \<not> reports_loop e"
  using stream_well_formed [of demo_stream_libs 300000 0 None None demo_frames] unfolding demo_stream unarmed_def
  by (auto simp: append_eq_Cons_conv Cons_eq_append_conv)

definition one_request :: actor_state where
  "one_request = sampler_step (Command (Submit (u ''a'') [] None True)) (sampler_start demo_config default_retry_policy)"

theorem actor_table_exact_witness:
  "snd (sampler_handle (IsActive (u ''a'')) one_request) = ActiveReply True \<and>
   length (live_tasks one_request) = 1 \<and>
   spawned_token ` set (tasks one_request) \<subseteq> set (cancelled (fst (sampler_handle (Cancel (u ''a'')) one_request)))"
proof -
  have "orderly_step (sampler_start demo_config default_retry_policy) one_request"
    unfolding orderly_step_def one_request_def
    by (rule exI [of _ "Command (Submit (u ''a'') [] None True)"]) (simp add: orderly_def sampler_start_def)
  then have "rtranclp orderly_step (sampler_start demo_config default_retry_policy) one_request" by blast
  from actor_table_exact [OF this, of "u ''a''"] show ?thesis
    by (auto simp: one_request_def sampler_step_def actor_ops sampler_start_def live_tasks_def)
qed

end
