(* ===== verification/Sampler_Gaps.thy ===== *)
theory Sampler_Gaps
  imports Sampler_Properties
begin

text \<open>Inputs on which the model client departs from its documentation.\<close>

definition odd_error :: reqwest_error where
  "odd_error = \<lparr>http_is_timeout = False, http_is_connect = False, http_is_status = False, http_status = None,
     http_is_request = False, http_is_body = False, http_text = u ''builder error''\<rparr>"

definition with_image :: "conversation_item list" where
  "with_image = [User \<lparr>user_content = [ImagePart (u ''data'')], synthetic_reason = None, prior_turn_interrupt = None,
     item_prompt_index = None\<rparr>]"

definition cut_answer :: rs_response where
  "cut_answer = \<lparr>resp_status = StatusIncomplete,
     resp_items = [Assistant \<lparr>assistant_content = [], tool_calls = [\<lparr>call_id = u ''c'', call_name = u ''run'', call_arguments = u ''{''\<rparr>],
       model_id = None, model_fingerprint = None, item_reasoning_effort = None\<rparr>],
     resp_usage = None, resp_cost_metadata = None\<rparr>"

definition thinking_aloud :: reasoning_item where
  "thinking_aloud = \<lparr>reasoning_id = [], summary_parts = [], reasoning_content = Some [u ''x''], encrypted_content = None\<rparr>"

definition reused_id :: actor_state where
  "reused_id = actor_run
     [Command (Submit (u ''a'') [] None True), Command (Submit (u ''a'') [] None True), Joined 0]
     (sampler_start demo_config default_retry_policy)"

definition after_panic :: actor_state where
  "after_panic = actor_run [Command (Submit (u ''a'') [] None True), Panicked 0] (sampler_start demo_config default_retry_policy)"

lemma slow_down_ordinary: "\<not> message_is_context_length_error (u ''slow down'')"
  by (simp add: message_is_context_length_error_def to_ascii_lowercase_def u_def starts_with_def Let_def)

lemma rate_limit_gives_up:
  "classify_error L h (Api 429 (u ''slow down'') None None None) 1 DEFAULT_MAX_RETRIES RATE_LIMIT_RETRY_THRESHOLD =
     Fatal (Api 429 (u ''slow down'') None None None)"
  by (simp add: classify_error_def predicate_defs slow_down_ordinary clone_error_def u32_add_def DEFAULT_MAX_RETRIES_def
      RATE_LIMIT_RETRY_THRESHOLD_def)

lemma last_retry_missing:
  "classify_error L h (EventStreamError m) 14 DEFAULT_MAX_RETRIES RATE_LIMIT_RETRY_THRESHOLD = Fatal (EventStreamError m)"
  by (simp add: classify_error_def predicate_defs clone_error_def u32_add_def DEFAULT_MAX_RETRIES_def)

lemma strip_counted:
  "retry_count (fst (apply_retry_decision N L demo_config default_retry_policy 15 h (Api 413 m None None None)
     (task_start demo_config with_image True))) = 1"
  by (simp add: apply_retry_decision_def classify_error_def predicate_defs task_ops Let_def task_start_def u32_add_def
      strip_request_images_def strip_item_images_def with_image_def is_image_part_def)

lemma fatal_turned_retryable:
  "\<not> is_retryable (Http odd_error) \<and>
   (\<exists>e. classify_error L h (Http odd_error) rc mx thr = Fatal e \<and> info_is_retryable (info_of L e))"
  by (simp add: classify_error_def predicate_defs clone_error_def odd_error_def is_retryable_reqwest_def info_of_def)

lemma cut_tool_call_accepted:
  "\<exists>r m. final_event L start t doom (s\<lparr>final_response := Some cut_answer, reasoning_acc := []\<rparr>) = CompletedEvent r m \<and>
     judge_completed None r m = AttemptCompleted r m"
  by (simp add: final_event_def Let_def cut_answer_def inject_streaming_reasoning_fallback_def any_tool_calls_def
      judge_completed_def response_empty_reason_def response_assistant_def is_assistant_item_def)

text \<open>
  Ten inputs on which the client departs from what it says of itself. The sixty-first exponential wait is
  zero, for every jitter. The second 429 is fatal although two retries are said to be made, and so is the first
  after another retry. Of the fifteen retries of the default fourteen are made. A retry after images were stripped is
  counted although it is said not to be. A transport error that is not retryable is handed on as one that is. A
  cancelled request completes with an authentication error. A response cut off by the token limit inside
  a tool call is accepted. Reasoning whose text is in its content gets the streamed text a second time. A request
  whose identifier was used before is no longer known once the earlier task has been joined, and
  cancelling it has no effect. A request whose task panicked is active for ever.
\<close>

lemma sampler_gaps:
  "retry_backoff_with_jitter h 61 = 0 \<and>
   classify_error L h (Api 429 (u ''slow down'') None None None) 1 DEFAULT_MAX_RETRIES RATE_LIMIT_RETRY_THRESHOLD =
     Fatal (Api 429 (u ''slow down'') None None None) \<and>
   classify_error L h (EventStreamError m) 14 DEFAULT_MAX_RETRIES RATE_LIMIT_RETRY_THRESHOLD = Fatal (EventStreamError m) \<and>
   retry_count (fst (apply_retry_decision N SL demo_config default_retry_policy 15 h (Api 413 m None None None)
     (task_start demo_config with_image True))) = 1 \<and>
   (\<not> is_retryable (Http odd_error) \<and>
    (\<exists>e. classify_error L h (Http odd_error) rc mx thr = Fatal e \<and> info_is_retryable (info_of L e))) \<and>
   (\<exists>e. completion (handle_cancellation (task_start cfg xs True)) = [Inl e] \<and> is_auth_error e \<and>
      task_events (handle_cancellation (task_start cfg xs True)) = [FailedEvent cancel_info] \<and> info_kind cancel_info = KApi) \<and>
   (\<exists>r ms. final_event SL start t doom (s\<lparr>final_response := Some cut_answer, reasoning_acc := []\<rparr>) = CompletedEvent r ms \<and>
      judge_completed None r ms = AttemptCompleted r ms) \<and>
   inject_streaming_reasoning_fallback [Reasoning thinking_aloud] (u ''x'') =
     [Reasoning (thinking_aloud\<lparr>summary_parts := [u ''x'']\<rparr>)] \<and>
   (snd (sampler_handle (IsActive (u ''a'')) reused_id) = ActiveReply False \<and> length (live_tasks reused_id) = 1 \<and>
    live_tasks (fst (sampler_handle (Cancel (u ''a'')) reused_id)) = live_tasks reused_id) \<and>
   (snd (sampler_handle (IsActive (u ''a'')) after_panic) = ActiveReply True \<and> tasks after_panic = [])"
proof (intro conjI [OF _ conjI [OF _ conjI [OF _ conjI [OF _ conjI [OF _ conjI [OF _ conjI [OF _ conjI [OF _ conjI]]]]]]]])
  show "retry_backoff_with_jitter h 61 = 0" using near_backoff_jitter [of 60 h] by (simp add: near_backoff_def)
qed (rule rate_limit_gives_up last_retry_missing strip_counted fatal_turned_retryable cut_tool_call_accepted |
    simp add: task_ops task_start_def is_auth_error_def cancel_info_def inject_streaming_reasoning_fallback_def thinking_aloud_def
      reused_id_def after_panic_def actor_run_def sampler_step_def actor_ops sampler_start_def live_tasks_def Let_def u_def)+

end
